(* ===== verification/Prelude.thy ===== *)
theory Prelude
  imports Main "HOL-Library.Sublist" "HOL-Library.List_Lexorder" "HOL-Library.Char_ord"
    "HOL-Library.Product_Lexorder"
begin

section \<open>Prelude: strings, results and lists as the Rust code uses them\<close>

text \<open>
  Shared vocabulary of the development. A Rust \<open>String\<close> or \<open>&str\<close> is a HOL \<open>string\<close> (a list
  of characters); the model is exact on ASCII text, where a character is one byte and
  \<open>to_lowercase\<close> maps only A to Z. IAM actions, ARNs, condition keys and job types are ASCII.
  \<open>Result<T, E>\<close> is the sum type \<open>'e + 'a\<close> with \<open>Inl\<close> for \<open>Err\<close>; the \<open>?\<close> operator is \<open>res_bind\<close>.
  The order on strings is the byte-wise lexicographic order of \<open>str::cmp\<close> (from
  \<open>List_Lexorder\<close> and \<open>Char_ord\<close>), tuples are ordered lexicographically (\<open>Product_Lexorder\<close>),
  \<open>sort_by\<close> is the stable \<open>sort_key\<close> and \<open>dedup\<close> is \<open>remdups_adj\<close>.
\<close>

named_theorems str_simps \<open>evaluation of the string operations\<close>
named_theorems res_simps \<open>evaluation of results\<close>

subsection \<open>Results\<close>

type_synonym ('e, 'a) res = "'e + 'a"

definition res_bind :: "'e + 'a \<Rightarrow> ('a \<Rightarrow> 'e + 'b) \<Rightarrow> 'e + 'b" where
  "res_bind m f = (case m of Inl e \<Rightarrow> Inl e | Inr x \<Rightarrow> f x)"

definition map_err :: "('e \<Rightarrow> 'f) \<Rightarrow> 'e + 'a \<Rightarrow> 'f + 'a" where
  "map_err g m = (case m of Inl e \<Rightarrow> Inl (g e) | Inr x \<Rightarrow> Inr x)"

definition ok_or :: "'e \<Rightarrow> 'a option \<Rightarrow> 'e + 'a" where
  "ok_or e m = (case m of None \<Rightarrow> Inl e | Some x \<Rightarrow> Inr x)"

lemma res_bind_simps [simp, res_simps]:
  "res_bind (Inl e) f = Inl e" "res_bind (Inr x) f = f x"
  by (simp_all add: res_bind_def)

lemma map_err_simps [simp, res_simps]:
  "map_err g (Inl e) = Inl (g e)" "map_err g (Inr x) = Inr x"
  by (simp_all add: map_err_def)

lemma ok_or_simps [simp, res_simps]:
  "ok_or e None = Inl e" "ok_or e (Some x) = Inr x"
  by (simp_all add: ok_or_def)

lemma res_bind_Inr_iff: "res_bind m f = Inr y \<longleftrightarrow> (\<exists>x. m = Inr x \<and> f x = Inr y)"
  by (cases m) auto

lemma res_bind_Inl_iff:
  "res_bind m f = Inl e \<longleftrightarrow> m = Inl e \<or> (\<exists>x. m = Inr x \<and> f x = Inl e)"
  by (cases m) auto

lemma map_err_Inr_iff: "map_err g m = Inr y \<longleftrightarrow> m = Inr y"
  by (cases m) auto

lemma ok_or_Inr_iff: "ok_or e m = Inr y \<longleftrightarrow> m = Some y"
  by (cases m) auto

lemmas res_iffs = res_bind_Inr_iff res_bind_Inl_iff map_err_Inr_iff ok_or_Inr_iff

text \<open>A fallible loop over a list that pushes each result and stops at the first error.\<close>

fun traverse :: "('a \<Rightarrow> 'e + 'b) \<Rightarrow> 'a list \<Rightarrow> 'e + 'b list" where
  "traverse f [] = Inr []"
| "traverse f (x # xs) = res_bind (f x) (\<lambda>y. res_bind (traverse f xs) (\<lambda>ys. Inr (y # ys)))"

lemma traverse_Inr_iff:
  "traverse f xs = Inr ys \<longleftrightarrow> list_all2 (\<lambda>x y. f x = Inr y) xs ys"
  by (induction xs arbitrary: ys) (auto simp: res_iffs list_all2_Cons1)

lemma traverse_map_Inr: "(\<And>y. y \<in> set ys \<Longrightarrow> f (g y) = Inr y) \<Longrightarrow> traverse f (map g ys) = Inr ys"
  by (induction ys) auto

lemma traverse_Inl_iff:
  "traverse f xs = Inl e \<longleftrightarrow>
     (\<exists>us x vs. xs = us @ x # vs \<and> (\<forall>u\<in>set us. \<exists>y. f u = Inr y) \<and> f x = Inl e)"
proof (induction xs)
  case Nil
  then show ?case by simp
next
  case (Cons a xs)
  show ?case
  proof (cases "f a")
    case (Inl e')
    then show ?thesis
      by (auto simp: Cons_eq_append_conv intro: exI [of _ "[]"])
  next
    case (Inr b)
    have "traverse f (a # xs) = Inl e \<longleftrightarrow> traverse f xs = Inl e"
      using Inr by (cases "traverse f xs") auto
    then show ?thesis
      unfolding Cons.IH using Inr
      by (auto simp: Cons_eq_append_conv) (metis append_Cons set_ConsD)+
  qed
qed

subsection \<open>Characters and case\<close>

definition lower_char :: "char \<Rightarrow> char" where
  "lower_char c = (if 65 \<le> (of_char c :: nat) \<and> (of_char c :: nat) \<le> 90
     then char_of (of_char c + 32 :: nat) else c)"

definition to_lowercase :: "string \<Rightarrow> string" where
  "to_lowercase s = map lower_char s"

definition eq_ignore_ascii_case :: "string \<Rightarrow> string \<Rightarrow> bool" where
  "eq_ignore_ascii_case a b \<longleftrightarrow> to_lowercase a = to_lowercase b"

definition is_ascii_digit :: "char \<Rightarrow> bool" where
  "is_ascii_digit c \<longleftrightarrow> 48 \<le> (of_char c :: nat) \<and> (of_char c :: nat) \<le> 57"

definition is_ascii_alphabetic :: "char \<Rightarrow> bool" where
  "is_ascii_alphabetic c \<longleftrightarrow> (65 \<le> (of_char c :: nat) \<and> (of_char c :: nat) \<le> 90) \<or>
     (97 \<le> (of_char c :: nat) \<and> (of_char c :: nat) \<le> 122)"

definition is_ascii_alphanumeric :: "char \<Rightarrow> bool" where
  "is_ascii_alphanumeric c \<longleftrightarrow> is_ascii_alphabetic c \<or> is_ascii_digit c"

lemma lower_char_idem [simp]: "lower_char (lower_char c) = lower_char c"
  by (auto simp: lower_char_def)

lemma to_lowercase_idem [simp]: "to_lowercase (to_lowercase s) = to_lowercase s"
  by (simp add: to_lowercase_def)

lemma to_lowercase_simps [simp, str_simps]:
  "to_lowercase [] = []" "to_lowercase (c # s) = lower_char c # to_lowercase s"
  "to_lowercase (s @ t) = to_lowercase s @ to_lowercase t"
  by (simp_all add: to_lowercase_def)

lemma length_to_lowercase [simp]: "length (to_lowercase s) = length s"
  by (simp add: to_lowercase_def)

text \<open>Only a letter is changed, and the image of a letter is a letter: a character that is no
  letter is in the lowered string exactly when it is in the original.\<close>

lemma lower_char_eq_iff:
  "\<not> is_ascii_alphabetic d \<Longrightarrow> lower_char c = d \<longleftrightarrow> c = d"
  by (auto simp: lower_char_def is_ascii_alphabetic_def)

lemma in_to_lowercase_iff:
  "\<not> is_ascii_alphabetic d \<Longrightarrow> d \<in> set (to_lowercase s) \<longleftrightarrow> d \<in> set s"
  unfolding to_lowercase_def set_map image_iff using lower_char_eq_iff [of d] by (metis (full_types))

subsection \<open>Substring tests and splitting\<close>

text \<open>\<open>starts_with\<close>, \<open>ends_with\<close> and \<open>contains\<close> are \<open>prefix\<close>, \<open>suffix\<close> and \<open>sublist\<close>.\<close>

definition starts_with :: "string \<Rightarrow> string \<Rightarrow> bool" where
  "starts_with s p \<longleftrightarrow> take (length p) s = p"

definition ends_with :: "string \<Rightarrow> string \<Rightarrow> bool" where
  "ends_with s p \<longleftrightarrow> length p \<le> length s \<and> drop (length s - length p) s = p"

fun str_contains :: "string \<Rightarrow> string \<Rightarrow> bool" where
  "str_contains [] p \<longleftrightarrow> p = []"
| "str_contains (c # s) p \<longleftrightarrow> starts_with (c # s) p \<or> str_contains s p"

definition strip_prefix :: "string \<Rightarrow> string \<Rightarrow> string option" where
  "strip_prefix s p = (if starts_with s p then Some (drop (length p) s) else None)"

lemma starts_with_iff: "starts_with s p \<longleftrightarrow> prefix p s"
  unfolding starts_with_def by (metis append_eq_conv_conj prefix_def append_take_drop_id)

lemma ends_with_iff: "ends_with s p \<longleftrightarrow> suffix p s"
proof
  assume "ends_with s p"
  then have "s = take (length s - length p) s @ p"
    unfolding ends_with_def by (metis append_take_drop_id)
  then show "suffix p s" by (auto simp: suffix_def)
qed (auto simp: ends_with_def suffix_def)

lemma str_contains_iff: "str_contains s p \<longleftrightarrow> sublist p s"
  by (induction s) (auto simp: starts_with_iff sublist_Cons_right)

lemma strip_prefix_Some_iff: "strip_prefix s p = Some r \<longleftrightarrow> s = p @ r"
  by (auto simp: strip_prefix_def starts_with_def) (metis append_take_drop_id)

text \<open>\<open>split(c)\<close>: always at least one part.\<close>

fun split_on :: "char \<Rightarrow> string \<Rightarrow> string list" where
  "split_on c [] = [[]]"
| "split_on c (x # xs) =
     (if x = c then [] # split_on c xs
      else case split_on c xs of [] \<Rightarrow> [[x]] | y # ys \<Rightarrow> (x # y) # ys)"

text \<open>\<open>split_once(c)\<close>: at the first occurrence.\<close>

fun split_once :: "char \<Rightarrow> string \<Rightarrow> (string \<times> string) option" where
  "split_once c [] = None"
| "split_once c (x # xs) =
     (if x = c then Some ([], xs) else map_option (\<lambda>(a, b). (x # a, b)) (split_once c xs))"

text \<open>\<open>splitn(n, c)\<close>: at most \<open>n\<close> parts, the last one holding the rest.\<close>

fun splitn :: "nat \<Rightarrow> char \<Rightarrow> string \<Rightarrow> string list" where
  "splitn 0 c s = []"
| "splitn (Suc 0) c s = [s]"
| "splitn (Suc (Suc n)) c s =
     (case split_once c s of None \<Rightarrow> [s] | Some (a, b) \<Rightarrow> a # splitn (Suc n) c b)"

fun join :: "string \<Rightarrow> string list \<Rightarrow> string" where
  "join sep [] = []"
| "join sep [s] = s"
| "join sep (s # t # ss) = s @ sep @ join sep (t # ss)"

lemma strip_prefix_None_iff: "strip_prefix s p = None \<longleftrightarrow> (\<forall>r. s \<noteq> p @ r)"
  using strip_prefix_Some_iff [of s p] by (metis not_None_eq option.distinct(1))

lemma split_on_nonempty [simp]: "split_on c s \<noteq> []"
  by (cases s) (auto split: list.splits)

lemma split_on_literal: "c \<notin> set a \<Longrightarrow> split_on c a = [a]"
  by (induction a) auto

lemma split_on_append: "c \<notin> set a \<Longrightarrow> split_on c (a @ c # b) = a # split_on c b"
  by (induction a) auto

lemma split_once_Some_iff:
  "split_once c s = Some (a, b) \<longleftrightarrow> s = a @ c # b \<and> c \<notin> set a"
  by (induction s arbitrary: a b) (auto simp: Cons_eq_append_conv split: if_splits)

lemma split_once_None_iff: "split_once c s = None \<longleftrightarrow> c \<notin> set s"
  by (induction s) auto

lemma split_once_append [simp]: "c \<notin> set a \<Longrightarrow> split_once c (a @ c # b) = Some (a, b)"
  by (simp add: split_once_Some_iff)

lemma splitn_nonempty: "0 < n \<Longrightarrow> splitn n c s \<noteq> []"
  by (cases "(n, c, s)" rule: splitn.cases) (auto split: option.splits)

lemma join_Cons: "ss \<noteq> [] \<Longrightarrow> join sep (s # ss) = s @ sep @ join sep ss"
  by (cases ss) auto

lemma split_on_join:
  "ss \<noteq> [] \<Longrightarrow> \<forall>s\<in>set ss. c \<notin> set s \<Longrightarrow> split_on c (join [c] ss) = ss"
proof (induction ss)
  case (Cons s ss)
  then show ?case
    by (cases "ss = []") (simp_all add: join_Cons split_on_append split_on_literal)
qed simp

lemma split_on_parts: "s \<in> set (split_on c tx) \<Longrightarrow> c \<notin> set s"
  by (induction tx arbitrary: s) (auto split: if_splits list.splits)

lemma join_split_on: "join [c] (split_on c s) = s"
proof (induction s)
  case (Cons x s)
  obtain y ys where ys: "split_on c s = y # ys" by (meson neq_Nil_conv split_on_nonempty)
  then show ?case using Cons by (cases "ys = []") (auto simp: join_Cons)
qed simp

lemma join_splitn: "0 < n \<Longrightarrow> join [c] (splitn n c s) = s"
  by (induction n c s rule: splitn.induct)
     (auto split: option.splits simp: split_once_Some_iff join_Cons splitn_nonempty)

lemma length_splitn_le: "length (splitn n c s) \<le> n"
  by (induction n c s rule: splitn.induct) (auto split: option.splits)

text \<open>A string in single quotes, as the error messages and the queries print it.\<close>

definition quoted :: "string \<Rightarrow> string" where
  "quoted s = CHR 0x27 # s @ [CHR 0x27]"

subsection \<open>Decimal numerals\<close>

fun show_nat :: "nat \<Rightarrow> string" where
  "show_nat n = (if n < 10 then [char_of (48 + n)] else show_nat (n div 10) @ [char_of (48 + n mod 10)])"

declare show_nat.simps [simp del]

definition digit_value :: "char \<Rightarrow> nat" where
  "digit_value c = of_char c - 48"

definition read_nat :: "string \<Rightarrow> nat" where
  "read_nat s = foldl (\<lambda>n c. 10 * n + digit_value c) 0 s"

lemma show_nat_digits: "\<forall>c\<in>set (show_nat n). is_ascii_digit c"
proof (induction n rule: show_nat.induct)
  case (1 n)
  have d: "is_ascii_digit (char_of (48 + m))" if "m < 10" for m :: nat
    using that by (simp add: is_ascii_digit_def)
  show ?case
  proof (cases "n < 10")
    case True
    then show ?thesis using d by (subst show_nat.simps) simp
  next
    case False
    then show ?thesis using d [of "n mod 10"] 1 by (subst show_nat.simps) auto
  qed
qed

lemma read_show_nat: "read_nat (show_nat n) = n"
proof (induction n rule: show_nat.induct)
  case (1 n)
  have d: "digit_value (char_of (48 + m)) = m" if "m < 10" for m :: nat
    using that by (simp add: digit_value_def)
  show ?case
  proof (cases "n < 10")
    case True
    then show ?thesis using d by (subst show_nat.simps) (simp add: read_nat_def)
  next
    case False
    then have "read_nat (show_nat (n div 10)) = n div 10" using 1 by simp
    then show ?thesis
      using False d [of "n mod 10"] by (subst show_nat.simps) (simp add: read_nat_def)
  qed
qed

lemma show_nat_inj: "show_nat m = show_nat n \<longleftrightarrow> m = n"
  by (metis read_show_nat)

subsection \<open>Sorting and removing adjacent duplicates\<close>

lemma distinct_remdups_adj_sorted_key:
  assumes "sorted (map k xs)" and "inj_on k (set xs)"
  shows "distinct (remdups_adj xs)"
  using assms
proof (induction xs rule: remdups_adj.induct)
  case (3 x y xs)
  show ?case
  proof (cases "x = y")
    case True
    with 3 show ?thesis by simp
  next
    case False
    have "x \<notin> set (y # xs)"
    proof
      assume "x \<in> set (y # xs)"
      with "3.prems"(1) have "k x \<le> k y" "k y \<le> k x" by auto
      with "3.prems"(2) False show False by (auto dest: inj_onD)
    qed
    with 3 False show ?thesis by (auto simp: inj_on_def)
  qed
qed auto

lemma sorted_map_remdups_adj: "sorted (map k xs) \<Longrightarrow> sorted (map k (remdups_adj xs))"
  by (induction xs rule: remdups_adj.induct) auto

definition sort_dedup :: "('a \<Rightarrow> 'k::linorder) \<Rightarrow> 'a list \<Rightarrow> 'a list" where
  "sort_dedup k xs = remdups_adj (sort_key k xs)"

lemma set_sort_dedup [simp]: "set (sort_dedup k xs) = set xs"
  by (simp add: sort_dedup_def)

lemma sorted_sort_dedup: "sorted (map k (sort_dedup k xs))"
  by (simp add: sort_dedup_def sorted_map_remdups_adj)

lemma distinct_sort_dedup: "inj_on k (set xs) \<Longrightarrow> distinct (sort_dedup k xs)"
  unfolding sort_dedup_def
  by (rule distinct_remdups_adj_sorted_key [where k = k]) simp_all

text \<open>Grouping a list by a sorted key and joining the groups gives the list back.\<close>

lemma concat_filter_groups:
  "sorted (map f cs) \<Longrightarrow>
     concat (map (\<lambda>k. filter (\<lambda>c. f c = k) cs) (remdups_adj (map f cs))) = cs"
proof (induction cs)
  case (Cons c cs)
  let ?g = "\<lambda>xs k. filter (\<lambda>c. f c = k) xs"
  have IH: "concat (map (?g cs) (remdups_adj (map f cs))) = cs" using Cons by simp
  have other: "k \<noteq> f c \<Longrightarrow> ?g (c # cs) k = ?g cs k" for k by auto
  show ?case
  proof (cases cs)
    case (Cons d ds)
    obtain ks where ks: "remdups_adj (map f cs) = f d # ks"
      using Cons by (simp, metis (no_types) list.exhaust_sel remdups_adj_Nil_iff hd_remdups_adj list.sel(1) list.distinct(1))
    have dist: "distinct (remdups_adj (map f (c # cs)))"
      by (rule distinct_remdups_adj_sorted_key [where k = "\<lambda>x. x"]) (use Cons.prems in simp_all)
    show ?thesis
    proof (cases "f c = f d")
      case True
      then have r: "remdups_adj (map f (c # cs)) = f c # ks" using ks Cons by simp
      then have "f c \<notin> set ks" using dist by simp
      then have m: "map (?g (c # cs)) ks = map (?g cs) ks" by (intro map_cong refl other) auto
      have "concat (map (?g (c # cs)) (f c # ks)) = (c # ?g cs (f c)) @ concat (map (?g cs) ks)"
        using m True by (simp only: list.map concat.simps) simp
      then show ?thesis using IH True by (simp only: r ks) simp
    next
      case False
      then have r: "remdups_adj (map f (c # cs)) = f c # f d # ks" using ks Cons by simp
      then have n: "f c \<notin> set (f d # ks)" using dist by simp
      then have m: "map (?g (c # cs)) (f d # ks) = map (?g cs) (f d # ks)"
        by (intro map_cong refl other) auto
      have "f c \<notin> f ` set cs" using n ks by (metis remdups_adj_set set_map)
      then have one: "?g (c # cs) (f c) = [c]" by (simp add: filter_empty_conv) (metis image_eqI)
      have "concat (map (?g (c # cs)) (f c # f d # ks)) =
          ?g (c # cs) (f c) @ concat (map (?g (c # cs)) (f d # ks))"
        by (simp only: list.map concat.simps)
      also have "\<dots> = c # cs" using IH by (simp only: one m ks) simp
      finally show ?thesis by (simp only: r)
    qed
  qed simp
qed simp

end
