(* ===== verification/Json.thy ===== *)
theory Json
  imports Prelude
begin

section \<open>JSON values\<close>

text \<open>
  The \<open>serde_json::Value\<close> type the Rust code matches on, with the accessors it uses. The crate is
  a dependency: its parser is a parameter (\<open>json_parser\<close>, \<open>Inl\<close> holding the error's text), only the
  value type and its accessors are written out, as documented. \<open>serde_json\<close> is built without
  \<open>preserve_order\<close>, so an object is a \<open>BTreeMap\<close>: iteration is in key order and keys are distinct.
  An object is an association list, and \<open>wf_json\<close> says that it is such a map.
\<close>

datatype json_number = PosInt nat | NegInt int | Float string

datatype json =
    JNull
  | JBool bool
  | JNumber json_number
  | JString string
  | JArray "json list"
  | JObject "(string \<times> json) list"

type_synonym json_parser = "string \<Rightarrow> string + json"

definition as_str :: "json \<Rightarrow> string option" where
  "as_str v = (case v of JString s \<Rightarrow> Some s | _ \<Rightarrow> None)"

definition as_bool :: "json \<Rightarrow> bool option" where
  "as_bool v = (case v of JBool b \<Rightarrow> Some b | _ \<Rightarrow> None)"

definition as_array :: "json \<Rightarrow> json list option" where
  "as_array v = (case v of JArray xs \<Rightarrow> Some xs | _ \<Rightarrow> None)"

definition as_object :: "json \<Rightarrow> (string \<times> json) list option" where
  "as_object v = (case v of JObject kvs \<Rightarrow> Some kvs | _ \<Rightarrow> None)"

definition obj_get :: "(string \<times> json) list \<Rightarrow> string \<Rightarrow> json option" where
  "obj_get kvs k = map_of kvs k"

definition value_get :: "json \<Rightarrow> string \<Rightarrow> json option" where
  "value_get v k = (case v of JObject kvs \<Rightarrow> obj_get kvs k | _ \<Rightarrow> None)"

text \<open>\<open>obj.get(k).and_then(|v| v.as_str())\<close>\<close>

definition get_str :: "(string \<times> json) list \<Rightarrow> string \<Rightarrow> string option" where
  "get_str kvs k = Option.bind (obj_get kvs k) as_str"

fun wf_json :: "json \<Rightarrow> bool" where
  "wf_json (JArray xs) = list_all wf_json xs"
| "wf_json (JObject kvs) =
     (sorted_wrt (<) (map fst kvs) \<and> list_all (\<lambda>kv. wf_json (snd kv)) kvs)"
| "wf_json _ = True"

lemma as_str_simps [simp]:
  "as_str (JString s) = Some s" "as_str JNull = None" "as_str (JBool b) = None"
  "as_str (JNumber n) = None" "as_str (JArray xs) = None" "as_str (JObject kvs) = None"
  by (simp_all add: as_str_def)

lemma as_array_simps [simp]:
  "as_array (JArray xs) = Some xs" "as_array JNull = None" "as_array (JBool b) = None"
  "as_array (JNumber n) = None" "as_array (JString s) = None" "as_array (JObject kvs) = None"
  by (simp_all add: as_array_def)

lemma as_object_simps [simp]:
  "as_object (JObject kvs) = Some kvs" "as_object JNull = None" "as_object (JBool b) = None"
  "as_object (JNumber n) = None" "as_object (JString s) = None" "as_object (JArray xs) = None"
  by (simp_all add: as_object_def)

lemma as_str_Some_iff: "as_str v = Some s \<longleftrightarrow> v = JString s"
  by (cases v) auto

lemma as_array_Some_iff: "as_array v = Some xs \<longleftrightarrow> v = JArray xs"
  by (cases v) auto

lemma as_object_Some_iff: "as_object v = Some kvs \<longleftrightarrow> v = JObject kvs"
  by (cases v) auto

lemmas json_iffs = as_str_Some_iff as_array_Some_iff as_object_Some_iff

lemma obj_get_simps [simp]:
  "obj_get [] k = None"
  "obj_get ((k', v) # kvs) k = (if k = k' then Some v else obj_get kvs k)"
  by (simp_all add: obj_get_def)

lemma get_str_Some_iff: "get_str kvs k = Some s \<longleftrightarrow> obj_get kvs k = Some (JString s)"
  by (auto simp: get_str_def bind_eq_Some_conv json_iffs)

subsection \<open>A string or an array of strings\<close>

text \<open>The shape several AWS policy fields take, and the strings in it.\<close>

fun strings_of :: "json \<Rightarrow> string list option" where
  "strings_of (JString s) = Some [s]"
| "strings_of (JArray xs) = (if list_all (\<lambda>v. as_str v \<noteq> None) xs then Some (map (the \<circ> as_str) xs) else None)"
| "strings_of _ = None"

text \<open>\<open>extract_string_or_array\<close>, which the resource policy parser and the federation analysis both
  define: items that are not strings are skipped.\<close>

definition extract_string_or_array :: "json \<Rightarrow> string list" where
  "extract_string_or_array v =
     (case v of
        JString s \<Rightarrow> [s]
      | JArray arr \<Rightarrow> List.map_filter as_str arr
      | _ \<Rightarrow> [])"

lemma strings_of_extract: "strings_of v = Some ss \<Longrightarrow> extract_string_or_array v = ss"
  by (induction v rule: strings_of.induct)
     (auto simp: extract_string_or_array_def List.map_filter_def list_all_iff split: if_splits
       intro!: arg_cong2 [where f = map])

lemma set_extract_string_or_array:
  "s \<in> set (extract_string_or_array v) \<longleftrightarrow>
     v = JString s \<or> (\<exists>arr. v = JArray arr \<and> JString s \<in> set arr)"
  by (cases v) (auto simp: extract_string_or_array_def List.map_filter_def image_iff json_iffs
        intro: rev_bexI)

text \<open>The strings a JSON value names, as a specification: a string names itself, an array its string
  items, any other value nothing.\<close>

definition json_names :: "json \<Rightarrow> string \<Rightarrow> bool" where
  "json_names v s \<longleftrightarrow> v = JString s \<or> (\<exists>items. v = JArray items \<and> JString s \<in> set items)"

lemma extract_string_or_array_names: "s \<in> set (extract_string_or_array v) \<longleftrightarrow> json_names v s"
  by (simp add: set_extract_string_or_array json_names_def)

lemma extract_string_or_array_eq_Nil: "extract_string_or_array v = [] \<longleftrightarrow> (\<forall>s. \<not> json_names v s)"
  unfolding extract_string_or_array_names [symmetric] by (cases "extract_string_or_array v") auto

lemma json_names_simps [simp]:
  "json_names (JString a) s \<longleftrightarrow> s = a"
  "json_names (JArray xs) s \<longleftrightarrow> JString s \<in> set xs"
  "\<not> json_names (JObject obj) s"
  by (auto simp: json_names_def)

end
