(* ===== verification/Policy_Types.thy ===== *)
theory Policy_Types
  imports Prelude
begin

section \<open>Policies and the evaluation context\<close>

text \<open>
  \<open>activable-iam-engine/src/types.rs\<close> and \<open>eval_context.rs\<close>: the parsed policy, its statements and
  conditions, and the request context conditions are evaluated in, with its builder functions.
\<close>

datatype effect = Allow | Deny

datatype action_pattern = ActionPattern (action_pat: string)

datatype resource_pattern = ResourcePattern (resource_pat: string)

record condition =
  cond_operator :: string
  cond_key :: string
  cond_values :: "string list"

record policy_statement =
  sid :: "string option"
  effect :: effect
  actions :: "action_pattern list"
  not_actions :: "action_pattern list"
  resources :: "resource_pattern list"
  not_resources :: "resource_pattern list"
  conditions :: "condition list"

record parsed_policy =
  version :: string
  statements :: "policy_statement list"

record eval_context =
  region :: string
  source_ip :: string
  source_arn :: string
  mfa_present :: bool
  secure_transport :: bool

definition eval_context_default :: eval_context where
  "eval_context_default =
     \<lparr>region = [], source_ip = [], source_arn = [], mfa_present = False, secure_transport = False\<rparr>"

definition with_region :: "eval_context \<Rightarrow> string \<Rightarrow> eval_context" where
  "with_region ctx r = ctx\<lparr>region := r\<rparr>"

definition with_source_ip :: "eval_context \<Rightarrow> string \<Rightarrow> eval_context" where
  "with_source_ip ctx ip = ctx\<lparr>source_ip := ip\<rparr>"

definition with_source_arn :: "eval_context \<Rightarrow> string \<Rightarrow> eval_context" where
  "with_source_arn ctx a = ctx\<lparr>source_arn := a\<rparr>"

definition with_mfa_present :: "eval_context \<Rightarrow> bool \<Rightarrow> eval_context" where
  "with_mfa_present ctx b = ctx\<lparr>mfa_present := b\<rparr>"

definition with_secure_transport :: "eval_context \<Rightarrow> bool \<Rightarrow> eval_context" where
  "with_secure_transport ctx b = ctx\<lparr>secure_transport := b\<rparr>"

text \<open>
  What the AWS policy grammar and the parser guarantee of a statement: exactly one of Action and
  NotAction, exactly one of Resource and NotResource.
\<close>

definition valid_statement :: "policy_statement \<Rightarrow> bool" where
  "valid_statement st \<longleftrightarrow>
     (actions st = []) \<noteq> (not_actions st = []) \<and> (resources st = []) \<noteq> (not_resources st = [])"

definition valid_policy :: "parsed_policy \<Rightarrow> bool" where
  "valid_policy p \<longleftrightarrow> list_all valid_statement (statements p)"

end
