(* ===== verification/Matchers.thy ===== *)
theory Matchers
  imports Prelude
begin

section \<open>Wildcard matching of actions and resources\<close>

text \<open>
  \<open>activable-iam-engine/src/action_matcher.rs\<close> and \<open>resource_matcher.rs\<close>. Both files hold the
  same index-based recursion \<open>match_recursive\<close>; slice reads that the Rust code would panic on are
  the value \<open>None\<close>. \<open>glob\<close> is the declarative meaning of a pattern (\<open>*\<close> any sequence, \<open>?\<close> one
  character), and the lemmas show that the recursion never panics from a valid position, computes
  \<open>glob\<close>, and that the fast paths of \<open>action_matches\<close> and \<open>resource_matches\<close> agree with it.
  The locale \<open>matcher\<close> states what the policy evaluators rely on.
\<close>

subsection \<open>The recursion of the code\<close>

text \<open>A \<open>for\<close> loop that returns \<open>true\<close> at the first hit; \<open>None\<close> is a panic of the body.\<close>

fun any_opt :: "('a \<Rightarrow> bool option) \<Rightarrow> 'a list \<Rightarrow> bool option" where
  "any_opt f [] = Some False"
| "any_opt f (x # xs) =
     (case f x of None \<Rightarrow> None | Some b \<Rightarrow> if b then Some True else any_opt f xs)"

lemma any_opt_cong [fundef_cong]:
  "xs = ys \<Longrightarrow> (\<And>x. x \<in> set ys \<Longrightarrow> f x = g x) \<Longrightarrow> any_opt f xs = any_opt g ys"
  by (induction xs arbitrary: ys) (auto split: option.splits)

lemma any_opt_Some: "(\<And>x. x \<in> set xs \<Longrightarrow> f x = Some (P x)) \<Longrightarrow> any_opt f xs = Some (\<exists>x\<in>set xs. P x)"
  by (induction xs) auto

function match_recursive :: "string \<Rightarrow> string \<Rightarrow> nat \<Rightarrow> nat \<Rightarrow> bool option" where
  "match_recursive pat tx p_idx t_idx =
     (if p_idx = length pat \<and> t_idx = length tx then Some True
      else if p_idx = length pat then Some False
      else if length pat < p_idx then None
      else if pat ! p_idx = CHR ''*'' then
        (if p_idx = length pat - 1 then Some True
         else any_opt (\<lambda>next_t_idx. match_recursive pat tx (p_idx + 1) next_t_idx)
                [t_idx..<length tx + 1])
      else if t_idx = length tx then Some False
      else if pat ! p_idx = CHR ''?'' then match_recursive pat tx (p_idx + 1) (t_idx + 1)
      else if length tx < t_idx then None
      else if pat ! p_idx = tx ! t_idx then match_recursive pat tx (p_idx + 1) (t_idx + 1)
      else Some False)"
  by pat_completeness auto
termination
  by (relation "measure (\<lambda>(pat, tx, p_idx, t_idx). length pat - p_idx)") auto

declare match_recursive.simps [simp del]

definition wildcard_match :: "string \<Rightarrow> string \<Rightarrow> bool" where
  "wildcard_match pat tx = (match_recursive pat tx 0 0 = Some True)"

definition has_wildcard :: "string \<Rightarrow> bool" where
  "has_wildcard s \<longleftrightarrow> CHR ''*'' \<in> set s \<or> CHR ''?'' \<in> set s"

definition action_matches :: "string \<Rightarrow> string \<Rightarrow> bool" where
  "action_matches pat act =
     (let pattern_lower = to_lowercase pat; action_lower = to_lowercase act in
      if CHR ''*'' \<notin> set pattern_lower \<and> CHR ''?'' \<notin> set pattern_lower
      then pattern_lower = action_lower
      else wildcard_match pattern_lower action_lower)"

definition resource_matches :: "string \<Rightarrow> string \<Rightarrow> bool" where
  "resource_matches pat resource =
     (if pat = ''*'' then True
      else if CHR ''*'' \<notin> set pat \<and> CHR ''?'' \<notin> set pat then pat = resource
      else wildcard_match pat resource)"

subsection \<open>Meaning of a pattern\<close>

inductive glob :: "string \<Rightarrow> string \<Rightarrow> bool" where
  glob_end: "glob [] []"
| glob_star: "glob p t \<Longrightarrow> glob (CHR ''*'' # p) (u @ t)"
| glob_any: "glob p t \<Longrightarrow> glob (CHR ''?'' # p) (c # t)"
| glob_char: "glob p t \<Longrightarrow> c \<noteq> CHR ''*'' \<Longrightarrow> c \<noteq> CHR ''?'' \<Longrightarrow> glob (c # p) (c # t)"

inductive_simps glob_Nil [simp]: "glob [] t"
inductive_simps glob_Cons: "glob (c # p) t"

lemma glob_star_iff: "glob (CHR ''*'' # p) t \<longleftrightarrow> (\<exists>n\<le>length t. glob p (drop n t))"
proof
  assume "glob (CHR ''*'' # p) t"
  then obtain u t' where "t = u @ t'" and "glob p t'" by (auto simp: glob_Cons)
  then show "\<exists>n\<le>length t. glob p (drop n t)" by (intro exI [of _ "length u"]) simp
next
  assume "\<exists>n\<le>length t. glob p (drop n t)"
  then obtain n where "glob p (drop n t)" by blast
  then have "glob (CHR ''*'' # p) (take n t @ drop n t)" by (rule glob_star)
  then show "glob (CHR ''*'' # p) t" by simp
qed

lemma glob_star_from:
  assumes "j \<le> length t"
  shows "glob (CHR ''*'' # p) (drop j t) \<longleftrightarrow> (\<exists>n\<in>set [j..<length t + 1]. glob p (drop n t))"
proof
  assume "glob (CHR ''*'' # p) (drop j t)"
  then obtain n where "n \<le> length t - j" "glob p (drop (n + j) t)" by (auto simp: glob_star_iff)
  with assms show "\<exists>n\<in>set [j..<length t + 1]. glob p (drop n t)"
    by (intro bexI [of _ "n + j"]) auto
next
  assume "\<exists>n\<in>set [j..<length t + 1]. glob p (drop n t)"
  then obtain n where "j \<le> n" "n \<le> length t" "glob p (drop n t)" by auto
  then show "glob (CHR ''*'' # p) (drop j t)"
    unfolding glob_star_iff by (intro exI [of _ "n - j"]) auto
qed

lemma glob_star_only [simp]: "glob ''*'' t"
  by (metis append_Nil2 glob_end glob_star)

lemma glob_any_iff: "glob (CHR ''?'' # p) t \<longleftrightarrow> (\<exists>c t'. t = c # t' \<and> glob p t')"
  by (subst glob_Cons) auto

lemma glob_char_iff:
  "c \<noteq> CHR ''*'' \<Longrightarrow> c \<noteq> CHR ''?'' \<Longrightarrow> glob (c # p) t \<longleftrightarrow> (\<exists>t'. t = c # t' \<and> glob p t')"
  by (subst glob_Cons) auto

lemma glob_Cons_Nil: "c \<noteq> CHR ''*'' \<Longrightarrow> \<not> glob (c # p) []"
  by (subst glob_Cons) auto

lemmas glob_iffs = glob_star_iff glob_any_iff glob_char_iff

lemma has_wildcard_Cons [simp]:
  "has_wildcard (c # p) \<longleftrightarrow> c = CHR ''*'' \<or> c = CHR ''?'' \<or> has_wildcard p"
  by (auto simp: has_wildcard_def)

lemma glob_literal: "\<not> has_wildcard p \<Longrightarrow> glob p t \<longleftrightarrow> t = p"
proof (induction p arbitrary: t)
  case (Cons c p)
  then have "glob (c # p) t \<longleftrightarrow> (\<exists>t'. t = c # t' \<and> glob p t')" by (simp add: glob_char_iff)
  with Cons show ?case by simp
qed simp

lemma glob_refl: "glob p p"
proof (induction p)
  case (Cons c p)
  consider "c = CHR ''*''" | "c = CHR ''?''" | "c \<noteq> CHR ''*''" "c \<noteq> CHR ''?''" by blast
  then show ?case
  proof cases
    case 1
    then show ?thesis using glob_star [OF Cons, of "[c]"] by simp
  qed (use Cons in \<open>auto intro: glob_any glob_char\<close>)
qed simp

text \<open>The recursion, started at any valid pair of positions, decides \<open>glob\<close> on the two rests.\<close>

lemma match_recursive_glob:
  "p_idx \<le> length pat \<Longrightarrow> t_idx \<le> length tx \<Longrightarrow>
     match_recursive pat tx p_idx t_idx = Some (glob (drop p_idx pat) (drop t_idx tx))"
proof (induction pat tx p_idx t_idx rule: match_recursive.induct)
  case (1 pat tx i j)
  show ?case
  proof (cases "i = length pat")
    case True
    then show ?thesis using "1.prems" by (subst match_recursive.simps) auto
  next
    case False
    with "1.prems" have i: "i < length pat" by simp
    then have d: "drop i pat = pat ! i # drop (Suc i) pat" by (simp add: Cons_nth_drop_Suc)
    show ?thesis
    proof (cases "pat ! i = CHR ''*''")
      case star: True
      show ?thesis
      proof (cases "i = length pat - 1")
        case True
        with i have "drop (Suc i) pat = []" by simp
        with d star have "drop i pat = ''*''" by simp
        with star True i show ?thesis by (subst match_recursive.simps) simp
      next
        case inner: False
        have "any_opt (\<lambda>n. match_recursive pat tx (i + 1) n) [j..<length tx + 1]
            = Some (\<exists>n\<in>set [j..<length tx + 1]. glob (drop (i + 1) pat) (drop n tx))"
          using i star inner "1.IH"(1) by (intro any_opt_Some) auto
        also have "\<dots> = Some (glob (drop i pat) (drop j tx))"
          using glob_star_from "1.prems" by (simp add: d star)
        finally show ?thesis using i star inner by (subst match_recursive.simps) simp
      qed
    next
      case nstar: False
      show ?thesis
      proof (cases "j = length tx")
        case True
        with i nstar show ?thesis
          by (subst match_recursive.simps) (auto simp: d glob_Cons_Nil)
      next
        case False
        with "1.prems" have j: "j < length tx" by simp
        then have dt: "drop j tx = tx ! j # drop (Suc j) tx" by (simp add: Cons_nth_drop_Suc)
        show ?thesis
          using i j nstar False "1.IH"(2,3)
          by (subst match_recursive.simps) (auto simp: d dt glob_any_iff glob_char_iff)
      qed
    qed
  qed
qed

lemma glob_prefix: "\<not> has_wildcard p \<Longrightarrow> glob (p @ ''*'') t \<longleftrightarrow> prefix p t"
proof (induction p arbitrary: t)
  case (Cons c p)
  then have "glob ((c # p) @ ''*'') t \<longleftrightarrow> (\<exists>t'. t = c # t' \<and> prefix p t')"
    by (simp add: glob_char_iff)
  then show ?case by (cases t) auto
qed simp

lemma glob_append: "glob p s \<Longrightarrow> glob q t \<Longrightarrow> glob (p @ q) (s @ t)"
  by (induction rule: glob.induct) (auto intro: glob.intros)

lemma glob_append_split:
  "glob (u @ p) t \<Longrightarrow> \<exists>t1 t2. t = t1 @ t2 \<and> glob u t1 \<and> glob p t2"
proof (induction u arbitrary: t)
  case (Cons c u)
  consider (star) s t' where "c = CHR ''*''" "t = s @ t'" "glob (u @ p) t'"
    | (any) d t' where "c = CHR ''?''" "t = [d] @ t'" "glob (u @ p) t'"
    | (char) t' where "c \<noteq> CHR ''*''" "c \<noteq> CHR ''?''" "t = [c] @ t'" "glob (u @ p) t'"
    using Cons.prems unfolding append_Cons glob_Cons by auto
  then have "\<exists>s t'. t = s @ t' \<and> glob (u @ p) t' \<and> (\<forall>t1. glob u t1 \<longrightarrow> glob (c # u) (s @ t1))"
    by cases (metis glob.glob_star, metis glob.glob_any append_Cons append_Nil,
        metis glob.glob_char append_Cons append_Nil)
  then obtain s t' where s: "t = s @ t'" "glob (u @ p) t'" "\<forall>t1. glob u t1 \<longrightarrow> glob (c # u) (s @ t1)"
    by blast
  from Cons.IH [OF s(2)] obtain t1 t2 where "t' = t1 @ t2" "glob u t1" "glob p t2" by blast
  with s show ?case by (intro exI [of _ "s @ t1"] exI [of _ t2]) auto
qed (auto intro: exI [of _ "[]"])

text \<open>A pattern without \<open>?\<close> that matches another pattern as a text matches everything that pattern
  matches. (The pattern \<open>?\<close> matches the text \<open>*\<close>, which matches longer texts.)\<close>

lemma glob_trans: "glob d p \<Longrightarrow> CHR ''?'' \<notin> set d \<Longrightarrow> glob p t \<Longrightarrow> glob d t"
proof (induction arbitrary: t rule: glob.induct)
  case (glob_star d p u)
  then obtain t1 t2 where "t = t1 @ t2" "glob p t2" using glob_append_split by blast
  with glob_star show ?case by (auto intro: glob.glob_star)
next
  case (glob_char d p c)
  then obtain t' where "t = c # t'" "glob p t'" by (auto simp: glob_char_iff)
  with glob_char show ?case by (auto intro: glob.glob_char)
qed auto

subsection \<open>The matchers decide glob\<close>

lemma wildcard_match_glob: "wildcard_match pat tx \<longleftrightarrow> glob pat tx"
  by (simp add: wildcard_match_def match_recursive_glob)

lemma action_matches_glob: "action_matches pat act \<longleftrightarrow> glob (to_lowercase pat) (to_lowercase act)"
  using glob_literal [of "to_lowercase pat" "to_lowercase act"]
  by (auto simp: action_matches_def Let_def wildcard_match_glob has_wildcard_def)

lemma resource_matches_glob: "resource_matches pat r \<longleftrightarrow> glob pat r"
  using glob_literal [of pat r]
  by (auto simp: resource_matches_def wildcard_match_glob has_wildcard_def)

lemma has_wildcard_to_lowercase [simp]: "has_wildcard (to_lowercase s) = has_wildcard s"
  by (simp add: has_wildcard_def in_to_lowercase_iff is_ascii_alphabetic_def)

subsection \<open>What the policy evaluators rely on\<close>

locale matcher =
  fixes matches :: "string \<Rightarrow> string \<Rightarrow> bool"
  assumes matches_star: "matches ''*'' s"
    and matches_refl: "matches s s"
begin

lemma listed_matches: "p \<in> set ps \<Longrightarrow> \<exists>q\<in>set ps. matches q p"
  using matches_refl by blast

lemma star_listed_matches: "''*'' \<in> set ps \<Longrightarrow> \<exists>q\<in>set ps. matches q s"
  using matches_star by blast

end

text \<open>A matcher that is \<open>glob\<close> up to a normalisation of both sides.\<close>

locale glob_matcher =
  fixes matches :: "string \<Rightarrow> string \<Rightarrow> bool" and norm :: "string \<Rightarrow> string"
  assumes matches_glob: "matches p s \<longleftrightarrow> glob (norm p) (norm s)"
    and norm_star: "norm ''*'' = ''*''"
    and norm_append: "norm (a @ b) = norm a @ norm b"
    and norm_wildcard: "has_wildcard (norm p) = has_wildcard p"
    and norm_question: "CHR ''?'' \<in> set (norm p) \<longleftrightarrow> CHR ''?'' \<in> set p"
begin

text \<open>Matching a pattern as a text is sound for the texts that pattern matches.\<close>

lemma matches_trans: "matches d p \<Longrightarrow> CHR ''?'' \<notin> set d \<Longrightarrow> matches p s \<Longrightarrow> matches d s"
  unfolding matches_glob using glob_trans norm_question by blast

lemma matches_literal: "\<not> has_wildcard p \<Longrightarrow> matches p s \<longleftrightarrow> norm s = norm p"
  by (simp add: matches_glob glob_literal norm_wildcard)

lemma matches_prefix: "\<not> has_wildcard p \<Longrightarrow> matches (p @ ''*'') s \<longleftrightarrow> prefix (norm p) (norm s)"
  by (simp add: matches_glob norm_append norm_star glob_prefix norm_wildcard)

lemma matches_append: "matches p s \<Longrightarrow> matches q t \<Longrightarrow> matches (p @ q) (s @ t)"
  by (simp add: matches_glob norm_append glob_append)

lemma matches_norm: "norm a = norm a' \<Longrightarrow> norm b = norm b' \<Longrightarrow> matches a b = matches a' b'"
  by (simp add: matches_glob)

end

sublocale glob_matcher \<subseteq> matcher matches
  by unfold_locales (simp_all add: matches_glob norm_star glob_refl)

interpretation action: glob_matcher action_matches to_lowercase
  by unfold_locales (simp_all add: action_matches_glob lower_char_def in_to_lowercase_iff is_ascii_alphabetic_def)

interpretation resource: glob_matcher resource_matches "\<lambda>s. s"
  by unfold_locales (simp_all add: resource_matches_glob)

subsection \<open>Properties\<close>

text \<open>C1: the index-based recursion, started as \<open>wildcard_match\<close> starts it, never reads past the
  end of a slice, terminates, and answers exactly whether the text is in the language of the pattern,
  where \<open>*\<close> stands for any sequence and \<open>?\<close> for one character; and the fast paths around it are sound:
  \<open>action_matches\<close> is glob matching on the lowered strings and \<open>resource_matches\<close> is glob matching as is,
  also for patterns without a wildcard and for \<open>*\<close>. The comment above \<open>resource_matches\<close> says that
  ARNs are matched segment by segment; they are not: the pattern is matched against the whole text, the
  colon is a character as any other, so a \<open>*\<close> at the end of a pattern accepts every rest, further
  segments included, and a \<open>*\<close> between two parts accepts every text between them.\<close>

theorem matchers_equal_glob:
  "match_recursive pat s 0 0 = Some (glob pat s) \<and>
   action_matches pat s = glob (to_lowercase pat) (to_lowercase s) \<and>
   resource_matches pat s = glob pat s \<and>
   resource_matches (s @ ''*'') (s @ CHR '':'' # segments) \<and>
   resource_matches (s @ ''*'' @ u) (s @ CHR '':'' # segments @ CHR '':'' # u)"
proof -
  have "glob (''*'' @ u) ((CHR '':'' # segments @ '':'') @ u)" by (intro glob_append glob_refl glob_star_only)
  then have "glob (s @ ''*'' @ u) (s @ CHR '':'' # segments @ CHR '':'' # u)"
    by (intro glob_append [OF glob_refl]) simp
  moreover have "glob (s @ ''*'') (s @ CHR '':'' # segments)" by (intro glob_append glob_refl glob_star_only)
  ultimately show ?thesis by (simp add: match_recursive_glob action_matches_glob resource_matches_glob)
qed

end
