(* ===== verification/Policy_Parser.thy ===== *)
theory Policy_Parser
  imports Json Policy_Types
begin

section \<open>The identity policy parser\<close>

text \<open>
  \<open>activable-iam-engine/src/policy_parser.rs\<close> with the errors of \<open>error.rs\<close>. The JSON parser of
  \<open>serde_json\<close> is the parameter \<open>pj\<close>. The model keeps the order in which the code checks the fields,
  so the first error reported is the one the code reports. The lemmas give the exact documents the
  parser accepts and show that it loses nothing of a valid policy.
\<close>

datatype policy_parse_error =
    InvalidJson string
  | MissingField string
  | InvalidEffect string
  | ActionAndNotActionTogether
  | ResourceAndNotResourceTogether
  | InvalidStatement string

definition display_error :: "policy_parse_error \<Rightarrow> string" where
  "display_error e =
     (case e of
        InvalidJson m \<Rightarrow> ''invalid JSON: '' @ m
      | MissingField f \<Rightarrow> ''missing required field: '' @ f
      | InvalidEffect v \<Rightarrow> ''invalid effect value: '' @ v @ ''. Must be '' @ quoted ''Allow'' @ '' or '' @ quoted ''Deny''
      | ActionAndNotActionTogether \<Rightarrow>
          ''mutually exclusive: both Action and NotAction present in same statement''
      | ResourceAndNotResourceTogether \<Rightarrow>
          ''mutually exclusive: both Resource and NotResource present in same statement''
      | InvalidStatement m \<Rightarrow> ''invalid statement: '' @ m)"

subsection \<open>Fields\<close>

definition parse_action_field :: "json option \<Rightarrow> policy_parse_error + action_pattern list" where
  "parse_action_field mv =
     (case mv of
        None \<Rightarrow> Inr []
      | Some v \<Rightarrow>
          (case v of
             JString s \<Rightarrow> Inr [ActionPattern s]
           | JArray arr \<Rightarrow>
               traverse (\<lambda>item. case as_str item of
                   Some s \<Rightarrow> Inr (ActionPattern s)
                 | None \<Rightarrow> Inl (InvalidStatement ''Action array items must be strings'')) arr
           | _ \<Rightarrow> Inl (InvalidStatement ''Action must be a string or array'')))"

definition parse_resource_field :: "json option \<Rightarrow> policy_parse_error + resource_pattern list" where
  "parse_resource_field mv =
     (case mv of
        None \<Rightarrow> Inr []
      | Some v \<Rightarrow>
          (case v of
             JString s \<Rightarrow> Inr [ResourcePattern s]
           | JArray arr \<Rightarrow>
               traverse (\<lambda>item. case as_str item of
                   Some s \<Rightarrow> Inr (ResourcePattern s)
                 | None \<Rightarrow> Inl (InvalidStatement ''Resource array items must be strings'')) arr
           | _ \<Rightarrow> Inl (InvalidStatement ''Resource must be a string or array'')))"

definition parse_condition_values :: "json \<Rightarrow> policy_parse_error + string list" where
  "parse_condition_values vs =
     (case vs of
        JString s \<Rightarrow> Inr [s]
      | JArray arr \<Rightarrow>
          traverse (\<lambda>item. case as_str item of
              Some s \<Rightarrow> Inr s
            | None \<Rightarrow> Inl (InvalidStatement
                ''Condition values must be strings or arrays of strings'')) arr
      | _ \<Rightarrow> Inl (InvalidStatement ''Condition values must be strings or arrays''))"

definition parse_condition_block :: "string \<Rightarrow> json \<Rightarrow> policy_parse_error + condition list" where
  "parse_condition_block oper block =
     (case as_object block of
        None \<Rightarrow> Inl (InvalidStatement ''Condition operator value must be an object'')
      | Some cond_obj \<Rightarrow>
          traverse (\<lambda>(k, vs). res_bind (parse_condition_values vs) (\<lambda>value_list.
              Inr \<lparr>cond_operator = oper, cond_key = k, cond_values = value_list\<rparr>)) cond_obj)"

definition parse_conditions :: "json option \<Rightarrow> policy_parse_error + condition list" where
  "parse_conditions mv =
     (case mv of
        None \<Rightarrow> Inr []
      | Some (JObject operators) \<Rightarrow>
          res_bind (traverse (\<lambda>(oper, block). parse_condition_block oper block) operators)
            (\<lambda>css. Inr (concat css))
      | Some _ \<Rightarrow> Inl (InvalidStatement ''Condition must be an object''))"

subsection \<open>Statements and policies\<close>

definition parse_effect :: "string \<Rightarrow> policy_parse_error + effect" where
  "parse_effect s =
     (if s = ''Allow'' then Inr Allow else if s = ''Deny'' then Inr Deny else Inl (InvalidEffect s))"

definition parse_statement :: "json \<Rightarrow> policy_parse_error + policy_statement" where
  "parse_statement v =
     res_bind (ok_or (InvalidStatement ''statement must be an object'') (as_object v)) (\<lambda>obj.
     res_bind (ok_or (MissingField ''Effect'') (get_str obj ''Effect'')) (\<lambda>effect_str.
     res_bind (parse_effect effect_str) (\<lambda>eff.
     res_bind (parse_action_field (obj_get obj ''Action'')) (\<lambda>acts.
     res_bind (parse_action_field (obj_get obj ''NotAction'')) (\<lambda>nacts.
     if acts \<noteq> [] \<and> nacts \<noteq> [] then Inl ActionAndNotActionTogether
     else if acts = [] \<and> nacts = [] then Inl (InvalidStatement ''must have Action or NotAction'')
     else
     res_bind (parse_resource_field (obj_get obj ''Resource'')) (\<lambda>ress.
     res_bind (parse_resource_field (obj_get obj ''NotResource'')) (\<lambda>nress.
     if ress \<noteq> [] \<and> nress \<noteq> [] then Inl ResourceAndNotResourceTogether
     else if ress = [] \<and> nress = [] then Inl (InvalidStatement ''must have Resource or NotResource'')
     else
     res_bind (parse_conditions (obj_get obj ''Condition'')) (\<lambda>conds.
     Inr \<lparr>sid = get_str obj ''Sid'', effect = eff, actions = acts, not_actions = nacts,
          resources = ress, not_resources = nress, conditions = conds\<rparr>))))))))"

definition parse_indexed_statement :: "nat \<times> json \<Rightarrow> policy_parse_error + policy_statement" where
  "parse_indexed_statement iv =
     map_err (\<lambda>e. InvalidStatement (''Statement['' @ show_nat (fst iv) @ '']: '' @ display_error e))
       (parse_statement (snd iv))"

text \<open>The part of \<open>parse_policy\<close> after \<open>serde_json::from_str\<close>.\<close>

definition parse_policy_value :: "json \<Rightarrow> policy_parse_error + parsed_policy" where
  "parse_policy_value v =
     res_bind (ok_or (MissingField ''root must be an object'') (as_object v)) (\<lambda>obj.
     res_bind (ok_or (MissingField ''Version'') (get_str obj ''Version'')) (\<lambda>ver.
     res_bind (ok_or (MissingField ''Statement'') (obj_get obj ''Statement'')) (\<lambda>statements_value.
     res_bind (ok_or (InvalidStatement ''Statement must be an array'') (as_array statements_value))
       (\<lambda>statements_array.
     res_bind (traverse parse_indexed_statement (enumerate 0 statements_array)) (\<lambda>stmts.
     Inr \<lparr>version = ver, statements = stmts\<rparr>)))))"

definition parse_policy :: "json_parser \<Rightarrow> string \<Rightarrow> policy_parse_error + parsed_policy" where
  "parse_policy pj text = res_bind (map_err InvalidJson (pj text)) parse_policy_value"

subsection \<open>Lemmas on the fields\<close>

text \<open>A field that may be absent, and the strings of a present one.\<close>

definition field_strings :: "json option \<Rightarrow> string list option" where
  "field_strings mv = (case mv of None \<Rightarrow> Some [] | Some v \<Rightarrow> strings_of v)"

lemma traverse_strings:
  assumes "\<And>s. f (JString s) = Inr (g s)" and "\<And>v. as_str v = None \<Longrightarrow> f v = Inl e"
  shows "traverse f arr = Inr ys \<longleftrightarrow> (\<exists>ss. strings_of (JArray arr) = Some ss \<and> ys = map g ss)"
proof -
  have one: "f v = Inr y \<longleftrightarrow> (\<exists>s. v = JString s \<and> y = g s)" for v y
    using assms by (cases "as_str v") (auto simp: as_str_Some_iff)
  have "traverse f arr = Inr ys \<longleftrightarrow> list_all2 (\<lambda>v y. \<exists>s. v = JString s \<and> y = g s) arr ys"
    by (simp add: traverse_Inr_iff one)
  also have "\<dots> \<longleftrightarrow> (\<exists>ss. strings_of (JArray arr) = Some ss \<and> ys = map g ss)"
    by (induction arr arbitrary: ys) (auto simp: list_all2_Cons1 as_str_Some_iff)
  finally show ?thesis .
qed

lemma parse_action_field_iff:
  "parse_action_field mv = Inr ps \<longleftrightarrow>
     (\<exists>ss. field_strings mv = Some ss \<and> ps = map ActionPattern ss)"
proof (cases mv)
  case (Some v)
  then show ?thesis
    by (cases v) (auto simp: parse_action_field_def field_strings_def traverse_strings
        [where g = ActionPattern and e = "InvalidStatement ''Action array items must be strings''"])
qed (auto simp: parse_action_field_def field_strings_def)

lemma parse_resource_field_iff:
  "parse_resource_field mv = Inr ps \<longleftrightarrow>
     (\<exists>ss. field_strings mv = Some ss \<and> ps = map ResourcePattern ss)"
proof (cases mv)
  case (Some v)
  then show ?thesis
    by (cases v) (auto simp: parse_resource_field_def field_strings_def traverse_strings
        [where g = ResourcePattern and e = "InvalidStatement ''Resource array items must be strings''"])
qed (auto simp: parse_resource_field_def field_strings_def)

lemma action_field_strings:
  "field_strings mv = Some ss \<Longrightarrow> parse_action_field mv = Inr (map ActionPattern ss)"
  by (auto simp: parse_action_field_iff)

lemma resource_field_strings:
  "field_strings mv = Some ss \<Longrightarrow> parse_resource_field mv = Inr (map ResourcePattern ss)"
  by (auto simp: parse_resource_field_iff)

lemma parse_condition_values_iff: "parse_condition_values v = Inr ss \<longleftrightarrow> strings_of v = Some ss"
  by (cases v) (auto simp: parse_condition_values_def traverse_strings [where g = "\<lambda>s. s" and
        e = "InvalidStatement ''Condition values must be strings or arrays of strings''"])

subsection \<open>The documents the parser accepts\<close>

definition condition_block_shape :: "json \<Rightarrow> bool" where
  "condition_block_shape block \<longleftrightarrow>
     (\<exists>kvs. block = JObject kvs \<and> (\<forall>kv\<in>set kvs. strings_of (snd kv) \<noteq> None))"

definition condition_shape :: "json option \<Rightarrow> bool" where
  "condition_shape mv \<longleftrightarrow>
     mv = None \<or> (\<exists>ops. mv = Some (JObject ops) \<and> (\<forall>ob\<in>set ops. condition_block_shape (snd ob)))"

text \<open>Two fields of which exactly one holds a non-empty list of strings.\<close>

definition exclusive_fields :: "json option \<Rightarrow> json option \<Rightarrow> bool" where
  "exclusive_fields a b \<longleftrightarrow>
     (\<exists>as bs. field_strings a = Some as \<and> field_strings b = Some bs \<and> (as = []) \<noteq> (bs = []))"

definition statement_shape :: "json \<Rightarrow> bool" where
  "statement_shape v \<longleftrightarrow>
     (\<exists>obj. v = JObject obj \<and>
        (obj_get obj ''Effect'' = Some (JString ''Allow'') \<or>
         obj_get obj ''Effect'' = Some (JString ''Deny'')) \<and>
        exclusive_fields (obj_get obj ''Action'') (obj_get obj ''NotAction'') \<and>
        exclusive_fields (obj_get obj ''Resource'') (obj_get obj ''NotResource'') \<and>
        condition_shape (obj_get obj ''Condition''))"

definition policy_shape :: "json \<Rightarrow> bool" where
  "policy_shape v \<longleftrightarrow>
     (\<exists>obj ver arr. v = JObject obj \<and> obj_get obj ''Version'' = Some (JString ver) \<and>
        obj_get obj ''Statement'' = Some (JArray arr) \<and> (\<forall>st\<in>set arr. statement_shape st))"

lemma traverse_ok_iff: "(\<exists>ys. traverse f xs = Inr ys) \<longleftrightarrow> (\<forall>x\<in>set xs. \<exists>y. f x = Inr y)"
  by (induction xs) (auto simp: res_iffs)

lemma parse_condition_block_ok_iff:
  "(\<exists>cs. parse_condition_block oper block = Inr cs) \<longleftrightarrow> condition_block_shape block"
proof (cases "as_object block")
  case None
  then show ?thesis by (auto simp: parse_condition_block_def condition_block_shape_def)
next
  case (Some kvs)
  then have "block = JObject kvs" by (simp add: json_iffs)
  then show ?thesis
    by (auto simp: parse_condition_block_def condition_block_shape_def traverse_ok_iff
        split_beta res_iffs parse_condition_values_iff)
qed

lemma parse_conditions_ok_iff: "(\<exists>cs. parse_conditions mv = Inr cs) \<longleftrightarrow> condition_shape mv"
proof (cases mv)
  case (Some v)
  then show ?thesis
  proof (cases "as_object v")
    case (Some ops)
    then have v: "v = JObject ops" by (simp add: json_iffs)
    have "(\<exists>cs. parse_conditions mv = Inr cs) \<longleftrightarrow>
        (\<exists>css. traverse (\<lambda>(oper, block). parse_condition_block oper block) ops = Inr css)"
      by (auto simp: parse_conditions_def \<open>mv = Some v\<close> v res_iffs)
    also have "\<dots> \<longleftrightarrow> condition_shape mv"
      by (auto simp: traverse_ok_iff split_beta parse_condition_block_ok_iff condition_shape_def
          \<open>mv = Some v\<close> v)
    finally show ?thesis .
  next
    case None
    then show ?thesis
      using Some by (cases v) (auto simp: parse_conditions_def condition_shape_def)
  qed
qed (simp add: parse_conditions_def condition_shape_def)

lemma parse_effect_iff:
  "parse_effect s = Inr e \<longleftrightarrow> s = ''Allow'' \<and> e = Allow \<or> s = ''Deny'' \<and> e = Deny"
  by (auto simp: parse_effect_def)

text \<open>The result of a successful parse of a statement, field by field.\<close>

lemma parse_statement_iff:
  "parse_statement v = Inr st \<longleftrightarrow>
     (\<exists>obj es as ns rs nrs.
        v = JObject obj \<and> obj_get obj ''Effect'' = Some (JString es) \<and>
        parse_effect es = Inr (effect st) \<and>
        field_strings (obj_get obj ''Action'') = Some as \<and>
        field_strings (obj_get obj ''NotAction'') = Some ns \<and> (as = []) \<noteq> (ns = []) \<and>
        field_strings (obj_get obj ''Resource'') = Some rs \<and>
        field_strings (obj_get obj ''NotResource'') = Some nrs \<and> (rs = []) \<noteq> (nrs = []) \<and>
        parse_conditions (obj_get obj ''Condition'') = Inr (conditions st) \<and>
        sid st = get_str obj ''Sid'' \<and>
        actions st = map ActionPattern as \<and> not_actions st = map ActionPattern ns \<and>
        resources st = map ResourcePattern rs \<and> not_resources st = map ResourcePattern nrs)"
  (is "?l \<longleftrightarrow> ?r")
proof
  assume ?l
  then show ?r
    by (fastforce simp: parse_statement_def res_iffs json_iffs get_str_Some_iff
        parse_action_field_iff parse_resource_field_iff split: if_splits)
next
  assume ?r
  then obtain obj es as ns rs nrs where
    h: "v = JObject obj" "obj_get obj ''Effect'' = Some (JString es)"
    "parse_effect es = Inr (effect st)"
    "parse_conditions (obj_get obj ''Condition'') = Inr (conditions st)"
    and f: "field_strings (obj_get obj ''Action'') = Some as"
    "field_strings (obj_get obj ''NotAction'') = Some ns"
    "field_strings (obj_get obj ''Resource'') = Some rs"
    "field_strings (obj_get obj ''NotResource'') = Some nrs"
    and e: "(as = []) \<noteq> (ns = [])" "(rs = []) \<noteq> (nrs = [])"
    and st: "sid st = get_str obj ''Sid''" "actions st = map ActionPattern as"
      "not_actions st = map ActionPattern ns" "resources st = map ResourcePattern rs"
      "not_resources st = map ResourcePattern nrs"
    by blast
  note g = f(1,2) [THEN action_field_strings] f(3,4) [THEN resource_field_strings]
  have es: "get_str obj ''Effect'' = Some es" using h(2) by (simp add: get_str_Some_iff)
  show ?l using e st by (cases st) (auto simp: parse_statement_def h(1,3,4) es g)
qed

lemma parse_statement_ok_iff: "(\<exists>st. parse_statement v = Inr st) \<longleftrightarrow> statement_shape v"
proof
  assume "\<exists>st. parse_statement v = Inr st"
  then obtain st where "parse_statement v = Inr st" by blast
  then obtain obj es as ns rs nrs where h:
    "v = JObject obj" "obj_get obj ''Effect'' = Some (JString es)"
    "parse_effect es = Inr (effect st)"
    "field_strings (obj_get obj ''Action'') = Some as"
    "field_strings (obj_get obj ''NotAction'') = Some ns" "(as = []) \<noteq> (ns = [])"
    "field_strings (obj_get obj ''Resource'') = Some rs"
    "field_strings (obj_get obj ''NotResource'') = Some nrs" "(rs = []) \<noteq> (nrs = [])"
    "parse_conditions (obj_get obj ''Condition'') = Inr (conditions st)"
    unfolding parse_statement_iff by blast
  then have "condition_shape (obj_get obj ''Condition'')"
    using parse_conditions_ok_iff by blast
  moreover have "es = ''Allow'' \<or> es = ''Deny''" using h(3) parse_effect_iff by blast
  ultimately show "statement_shape v"
    unfolding statement_shape_def exclusive_fields_def using h by blast
next
  assume "statement_shape v"
  then obtain obj where obj: "v = JObject obj"
    and eff: "obj_get obj ''Effect'' = Some (JString ''Allow'') \<or>
      obj_get obj ''Effect'' = Some (JString ''Deny'')"
    and ex: "exclusive_fields (obj_get obj ''Action'') (obj_get obj ''NotAction'')"
      "exclusive_fields (obj_get obj ''Resource'') (obj_get obj ''NotResource'')"
    and "condition_shape (obj_get obj ''Condition'')"
    unfolding statement_shape_def by blast
  then obtain cs where cs: "parse_conditions (obj_get obj ''Condition'') = Inr cs"
    unfolding parse_conditions_ok_iff [symmetric] by blast
  obtain es e where es: "obj_get obj ''Effect'' = Some (JString es)" "parse_effect es = Inr e"
    using eff by (auto simp: parse_effect_def)
  obtain as ns where an: "field_strings (obj_get obj ''Action'') = Some as"
    "field_strings (obj_get obj ''NotAction'') = Some ns" "(as = []) \<noteq> (ns = [])"
    using ex(1) unfolding exclusive_fields_def by blast
  obtain rs nrs where rn: "field_strings (obj_get obj ''Resource'') = Some rs"
    "field_strings (obj_get obj ''NotResource'') = Some nrs" "(rs = []) \<noteq> (nrs = [])"
    using ex(2) unfolding exclusive_fields_def by blast
  have "parse_statement v = Inr \<lparr>sid = get_str obj ''Sid'', effect = e,
      actions = map ActionPattern as, not_actions = map ActionPattern ns,
      resources = map ResourcePattern rs, not_resources = map ResourcePattern nrs,
      conditions = cs\<rparr>"
    unfolding parse_statement_iff using obj es an rn cs
    by (intro exI [of _ obj] exI [of _ es] exI [of _ as] exI [of _ ns] exI [of _ rs] exI [of _ nrs]) simp
  then show "\<exists>st. parse_statement v = Inr st" ..
qed

lemma parse_statement_valid: "parse_statement v = Inr st \<Longrightarrow> valid_statement st"
  by (auto simp: parse_statement_iff valid_statement_def)

subsection \<open>Policies: acceptance, validity, the first error\<close>

lemma display_error_simps [simp]:
  "display_error (InvalidStatement m) = ''invalid statement: '' @ m"
  "display_error (MissingField f) = ''missing required field: '' @ f"
  by (simp_all add: display_error_def)

lemma parse_indexed_statement_Inr_iff:
  "parse_indexed_statement iv = Inr st \<longleftrightarrow> parse_statement (snd iv) = Inr st"
  by (simp add: parse_indexed_statement_def map_err_Inr_iff)

lemma ok_or_cases: "ok_or e m = (case m of None \<Rightarrow> Inl e | Some x \<Rightarrow> Inr x)"
  by (simp add: ok_or_def)

lemma snd_set_enumerate: "snd ` set (enumerate n xs) = set xs"
  by (simp add: set_map [symmetric] del: set_map)

lemma parse_policy_value_iff:
  "parse_policy_value v = Inr p \<longleftrightarrow>
     (\<exists>obj arr. v = JObject obj \<and> obj_get obj ''Version'' = Some (JString (version p)) \<and>
        obj_get obj ''Statement'' = Some (JArray arr) \<and>
        list_all2 (\<lambda>v st. parse_statement v = Inr st) arr (statements p))"
proof -
  have "list_all2 (\<lambda>x y. parse_statement (snd x) = Inr y) (enumerate 0 arr) sts
      = list_all2 (\<lambda>v st. parse_statement v = Inr st) arr sts" for arr sts
    using list_all2_map1 [of "\<lambda>v st. parse_statement v = Inr st" snd "enumerate 0 arr" sts] by simp
  then show ?thesis
    by (cases p) (auto simp: parse_policy_value_def res_iffs json_iffs get_str_Some_iff
        traverse_Inr_iff parse_indexed_statement_Inr_iff)
qed

lemma parse_policy_value_ok_iff: "(\<exists>p. parse_policy_value v = Inr p) \<longleftrightarrow> policy_shape v"
proof -
  have all: "(\<exists>sts. list_all2 (\<lambda>v st. parse_statement v = Inr st) arr sts)
      \<longleftrightarrow> (\<forall>st\<in>set arr. statement_shape st)" for arr
    by (simp add: traverse_Inr_iff [symmetric] traverse_ok_iff parse_statement_ok_iff)
  show ?thesis
  proof
    assume "\<exists>p. parse_policy_value v = Inr p"
    then show "policy_shape v" unfolding parse_policy_value_iff policy_shape_def using all by blast
  next
    assume "policy_shape v"
    then obtain obj ver arr sts where "v = JObject obj" "obj_get obj ''Version'' = Some (JString ver)"
      "obj_get obj ''Statement'' = Some (JArray arr)"
      "list_all2 (\<lambda>v st. parse_statement v = Inr st) arr sts"
      unfolding policy_shape_def using all by metis
    then have "parse_policy_value v = Inr \<lparr>version = ver, statements = sts\<rparr>"
      by (simp add: parse_policy_value_iff)
    then show "\<exists>p. parse_policy_value v = Inr p" ..
  qed
qed

lemma parse_policy_value_valid: "parse_policy_value v = Inr p \<Longrightarrow> valid_policy p"
  unfolding parse_policy_value_iff valid_policy_def list_all_length list_all2_conv_all_nth
  by (metis parse_statement_valid)

lemma parse_policy_iff:
  "parse_policy pj tx = Inr p \<longleftrightarrow> (\<exists>v. pj tx = Inr v \<and> parse_policy_value v = Inr p)"
  by (simp add: parse_policy_def res_iffs)

lemma enumerate_append_nth:
  "enumerate n (us @ v # vs) = enumerate n us @ (n + length us, v) # enumerate (Suc (n + length us)) vs"
  by (simp add: enumerate_append_eq)

lemma parse_policy_value_first_error:
  assumes "v = JObject obj" "obj_get obj ''Version'' = Some (JString ver)"
    "obj_get obj ''Statement'' = Some (JArray (us @ s # vs))"
    "\<forall>u\<in>set us. statement_shape u" "parse_statement s = Inl e"
  shows "parse_policy_value v =
    Inl (InvalidStatement (''Statement['' @ show_nat (length us) @ '']: '' @ display_error e))"
proof -
  have "\<forall>u\<in>set (enumerate 0 us). \<exists>y. parse_indexed_statement u = Inr y"
    using assms(4) snd_set_enumerate [of 0 us]
    unfolding parse_indexed_statement_Inr_iff parse_statement_ok_iff by blast
  moreover have "parse_indexed_statement (length us, s) =
      Inl (InvalidStatement (''Statement['' @ show_nat (length us) @ '']: '' @ display_error e))"
    using assms(5) by (simp add: parse_indexed_statement_def)
  ultimately have "traverse parse_indexed_statement (enumerate 0 (us @ s # vs)) =
      Inl (InvalidStatement (''Statement['' @ show_nat (length us) @ '']: '' @ display_error e))"
    unfolding traverse_Inl_iff
    by (intro exI [of _ "enumerate 0 us"] exI [of _ "(length us, s)"] exI)
       (auto simp: enumerate_append_nth)
  moreover have "get_str obj ''Version'' = Some ver" using assms(2) by (simp add: get_str_Some_iff)
  ultimately show ?thesis using assms(1,3) by (simp add: parse_policy_value_def)
qed

subsection \<open>Writing a policy as JSON\<close>

text \<open>The document with the fields a policy has, keys in order, as the parser's input for the round
  trip. Conditions are grouped by operator, as the AWS grammar requires.\<close>

definition opt_field :: "string \<Rightarrow> string list \<Rightarrow> (string \<times> json) list" where
  "opt_field k ss = (if ss = [] then [] else [(k, JArray (map JString ss))])"

definition encode_conditions :: "condition list \<Rightarrow> (string \<times> json) list" where
  "encode_conditions cs =
     map (\<lambda>oper. (oper, JObject (map (\<lambda>c. (cond_key c, JArray (map JString (cond_values c))))
            (filter (\<lambda>c. cond_operator c = oper) cs))))
       (remdups_adj (map cond_operator cs))"

definition encode_effect :: "effect \<Rightarrow> string" where
  "encode_effect e = (case e of Allow \<Rightarrow> ''Allow'' | Deny \<Rightarrow> ''Deny'')"

definition encode_statement :: "policy_statement \<Rightarrow> json" where
  "encode_statement st = JObject
     (opt_field ''Action'' (map action_pat (actions st)) @
      (if conditions st = [] then [] else [(''Condition'', JObject (encode_conditions (conditions st)))]) @
      [(''Effect'', JString (encode_effect (effect st)))] @
      opt_field ''NotAction'' (map action_pat (not_actions st)) @
      opt_field ''NotResource'' (map resource_pat (not_resources st)) @
      opt_field ''Resource'' (map resource_pat (resources st)) @
      (case sid st of None \<Rightarrow> [] | Some s \<Rightarrow> [(''Sid'', JString s)]))"

definition encode_policy :: "parsed_policy \<Rightarrow> json" where
  "encode_policy p = JObject
     [(''Statement'', JArray (map encode_statement (statements p))), (''Version'', JString (version p))]"

text \<open>Conditions in the order the \<open>BTreeMap\<close>s of the document give them.\<close>

definition ordered_conditions :: "condition list \<Rightarrow> bool" where
  "ordered_conditions cs \<longleftrightarrow> sorted_wrt (<) (map (\<lambda>c. (cond_operator c, cond_key c)) cs)"

lemma obj_get_append [simp]:
  "obj_get (xs @ ys) k = (case obj_get xs k of None \<Rightarrow> obj_get ys k | Some v \<Rightarrow> Some v)"
  by (induction xs) auto

lemma obj_get_opt_field [simp]:
  "obj_get (opt_field k ss) k' = (if k = k' \<and> ss \<noteq> [] then Some (JArray (map JString ss)) else None)"
  by (simp add: opt_field_def)

lemma strings_of_map_JString [simp]: "strings_of (JArray (map JString ss)) = Some ss"
  by (simp add: list_all_iff comp_def)

lemma field_strings_opt_field [simp]:
  "field_strings (obj_get (opt_field k ss) k) = Some ss"
  by (simp add: field_strings_def del: strings_of.simps)

lemma parse_encode_conditions:
  assumes "ordered_conditions cs"
  shows "parse_conditions (Some (JObject (encode_conditions cs))) = Inr cs"
proof -
  have block: "parse_condition_block oper (JObject (map (\<lambda>c. (cond_key c, JArray (map JString (cond_values c)))) ds))
      = Inr ds" if "\<forall>c\<in>set ds. cond_operator c = oper" for oper ds
    using that unfolding parse_condition_block_def
    using parse_condition_values_iff [THEN iffD2, OF strings_of_map_JString]
    by (simp, intro traverse_map_Inr) simp
  have "traverse (\<lambda>(oper, block). parse_condition_block oper block) (encode_conditions cs) =
      Inr (map (\<lambda>oper. filter (\<lambda>c. cond_operator c = oper) cs) (remdups_adj (map cond_operator cs)))"
    by (simp add: encode_conditions_def traverse_Inr_iff list_all2_conv_all_nth block)
  moreover have "sorted (map cond_operator cs)"
    using assms unfolding ordered_conditions_def sorted_map
    by (simp add: sorted_wrt_map) (erule sorted_wrt_mono_rel [rotated], auto)
  ultimately show ?thesis by (simp add: parse_conditions_def concat_filter_groups)
qed

lemma parse_encode_statement:
  assumes "valid_statement st" and "ordered_conditions (conditions st)"
  shows "parse_statement (encode_statement st) = Inr st"
proof -
  let ?f = "\<lambda>ss. if ss = [] then None else Some (JArray (map JString ss))"
  obtain obj where obj: "encode_statement st = JObject obj"
    by (simp add: encode_statement_def)
  have get:
    "obj_get obj ''Effect'' = Some (JString (encode_effect (effect st)))"
    "obj_get obj ''Action'' = ?f (map action_pat (actions st))"
    "obj_get obj ''NotAction'' = ?f (map action_pat (not_actions st))"
    "obj_get obj ''Resource'' = ?f (map resource_pat (resources st))"
    "obj_get obj ''NotResource'' = ?f (map resource_pat (not_resources st))"
    "obj_get obj ''Condition'' = (if conditions st = [] then None
      else Some (JObject (encode_conditions (conditions st))))"
    "obj_get obj ''Sid'' = map_option JString (sid st)"
    using obj [unfolded encode_statement_def json.inject, symmetric]
    by (simp_all split: option.split)
  have f: "field_strings (?f ss) = Some ss" for ss
    by (simp add: field_strings_def del: strings_of.simps)
  have eff: "parse_effect (encode_effect (effect st)) = Inr (effect st)"
    by (cases "effect st") (simp_all add: parse_effect_def encode_effect_def)
  have conds: "parse_conditions (obj_get obj ''Condition'') = Inr (conditions st)"
    using parse_encode_conditions [OF assms(2)] by (simp add: get parse_conditions_def)
  have sid: "sid st = get_str obj ''Sid''"
    by (cases "sid st") (simp_all add: get_str_def get)
  have pats: "map ActionPattern (map action_pat as) = as" "map ResourcePattern (map resource_pat rs) = rs"
    for as rs by (simp_all add: comp_def)
  show ?thesis
    unfolding parse_statement_iff obj
    using assms(1) eff conds sid
    by (intro exI [of _ obj] exI [of _ "encode_effect (effect st)"] exI [of _ "map action_pat (actions st)"]
        exI [of _ "map action_pat (not_actions st)"] exI [of _ "map resource_pat (resources st)"]
        exI [of _ "map resource_pat (not_resources st)"])
      (simp only: get f pats, simp add: valid_statement_def)
qed

lemma parse_encode_policy:
  assumes "valid_policy p" and "list_all (\<lambda>st. ordered_conditions (conditions st)) (statements p)"
  shows "parse_policy_value (encode_policy p) = Inr p"
  using assms by (auto simp: parse_policy_value_iff encode_policy_def valid_policy_def list_all_iff
      list_all2_conv_all_nth intro: parse_encode_statement)

subsection \<open>Properties\<close>

text \<open>A policy with one statement of each kind, used to instantiate the properties.\<close>

definition sample_policy :: parsed_policy where
  "sample_policy = \<lparr>version = ''2012-10-17'', statements =
     [\<lparr>sid = Some ''AllowRead'', effect = Allow, actions = [ActionPattern ''s3:Get*''],
        not_actions = [], resources = [ResourcePattern ''*''], not_resources = [],
        conditions = [\<lparr>cond_operator = ''IpAddress'', cond_key = ''aws:SourceIp'',
                         cond_values = [''10.0.0.0/8'', ''192.168.0.0/16'']\<rparr>,
                      \<lparr>cond_operator = ''StringEquals'', cond_key = ''aws:RequestedRegion'',
                         cond_values = [''us-east-1'']\<rparr>,
                      \<lparr>cond_operator = ''StringEquals'', cond_key = ''aws:SourceArn'',
                         cond_values = []\<rparr>]\<rparr>,
      \<lparr>sid = None, effect = Deny, actions = [], not_actions = [ActionPattern ''iam:*''],
        resources = [], not_resources = [ResourcePattern ''arn:aws:s3:::logs''], conditions = []\<rparr>]\<rparr>"

text \<open>\<open>parse_policy\<close> accepts a text exactly when it is JSON of the shape of an identity policy:
  an object with a string \<open>Version\<close> and a \<open>Statement\<close> array whose items each have an Effect of Allow
  or Deny, exactly one non-empty field of Action and NotAction, exactly one of Resource and
  NotResource (each a string or an array of strings), and conditions, if any, nested as operator,
  key, values.\<close>

theorem parse_policy_accepts_iff:
  "(\<exists>p. parse_policy pj tx = Inr p) \<longleftrightarrow> (\<exists>v. pj tx = Inr v \<and> policy_shape v)"
  unfolding parse_policy_iff parse_policy_value_ok_iff [symmetric] by blast

text \<open>Every statement of a policy the parser returns has exactly one of Action and NotAction and
  exactly one of Resource and NotResource, non-empty. The evaluators rely on it.\<close>

theorem parse_policy_yields_valid:
  assumes "parse_policy pj tx = Inr p"
  shows "valid_policy p"
  using assms unfolding parse_policy_iff by (auto intro: parse_policy_value_valid)

theorem parse_policy_yields_valid_witness: "valid_policy sample_policy"
  by (rule parse_policy_yields_valid [where pj = "\<lambda>_. Inr (encode_policy sample_policy)" and tx = "[]"])
     code_simp

text \<open>C12: writing a valid policy as a JSON document and parsing it gives the policy back: no
  statement, pattern, condition, Sid or order is lost, whatever the JSON parser does with the text
  as long as it returns that document. Conditions must be in the key order a JSON object has.\<close>

theorem parse_policy_roundtrip:
  assumes "pj tx = Inr (encode_policy p)" and "valid_policy p"
    and "list_all (\<lambda>st. ordered_conditions (conditions st)) (statements p)"
  shows "parse_policy pj tx = Inr p"
  using assms by (simp add: parse_policy_iff parse_encode_policy)

theorem parse_policy_roundtrip_witness:
  "parse_policy (\<lambda>_. Inr (encode_policy sample_policy)) ''x'' = Inr sample_policy"
  by (rule parse_policy_roundtrip) (rule refl, code_simp, code_simp)

text \<open>C13: the error of a policy with a bad statement names the first bad statement by its index and
  carries that statement's own error; the statements after it do not matter.\<close>

theorem parse_policy_reports_first_bad_statement:
  assumes "pj tx = Inr (JObject obj)" and "obj_get obj ''Version'' = Some (JString ver)"
    and "obj_get obj ''Statement'' = Some (JArray (good @ bad # rest))"
    and "\<forall>st\<in>set good. statement_shape st" and "parse_statement bad = Inl e"
  shows "parse_policy pj tx =
    Inl (InvalidStatement (''Statement['' @ show_nat (length good) @ '']: '' @ display_error e))"
  using assms by (simp add: parse_policy_def parse_policy_value_first_error)

theorem parse_policy_reports_first_bad_statement_witness:
  "let good = encode_statement (hd (statements sample_policy));
       bad = JObject [(''Effect'', JString ''Permit'')];
       doc = JObject [(''Statement'', JArray [good, bad, JNull]), (''Version'', JString ''1'')]
   in parse_policy (\<lambda>_. Inr doc) [] = Inl (InvalidStatement (''Statement['' @ show_nat 1 @ '']: '' @
        display_error (InvalidEffect ''Permit'')))"
proof -
  have "statement_shape (encode_statement (hd (statements sample_policy)))"
    unfolding parse_statement_ok_iff [symmetric]
    by (intro exI [of _ "hd (statements sample_policy)"]) code_simp
  moreover have "parse_statement (JObject [(''Effect'', JString ''Permit'')]) =
      Inl (InvalidEffect ''Permit'')" by code_simp
  ultimately show ?thesis
    using parse_policy_reports_first_bad_statement [where
        good = "[encode_statement (hd (statements sample_policy))]" and rest = "[JNull]" and tx = "[]"]
    by (simp add: Let_def)
qed

end
