(* ===== verification/Rust_Net.thy ===== *)
theory Rust_Net
  imports Prelude
begin

section \<open>The standard library's IP address parser\<close>

text \<open>
  \<open>str::parse::<IpAddr>()\<close> of Rust's standard library, which the condition evaluator calls: the
  state is the text still to read, a reader returns the value and the rest or \<open>None\<close>, and a failed
  reader leaves the state as it was (\<open>read_atomically\<close>). An IPv4 address is four decimal octets
  of at most three digits without leading zeros, an IPv6 address eight hexadecimal groups of at most
  four digits with at most one \<open>::\<close> and possibly an IPv4 address as the last two groups.
\<close>

datatype ip_addr = IpV4 "int list" | IpV6 "int list"

type_synonym 'a reader = "string \<Rightarrow> ('a \<times> string) option"

definition to_digit :: "int \<Rightarrow> char \<Rightarrow> int option" where
  "to_digit radix c =
     (let n = (of_char c :: int);
          d = (if is_ascii_digit c then Some (n - 48)
               else if 65 \<le> n \<and> n \<le> 90 then Some (n - 55)
               else if 97 \<le> n \<and> n \<le> 122 then Some (n - 87) else None)
      in case d of None \<Rightarrow> None | Some v \<Rightarrow> if v < radix then Some v else None)"

definition read_given_char :: "char \<Rightarrow> unit reader" where
  "read_given_char c s = (case s of [] \<Rightarrow> None | x # xs \<Rightarrow> if x = c then Some ((), xs) else None)"

text \<open>\<open>read_number\<close>: \<open>bound\<close> is one more than the largest value of the integer type, and the
  checked arithmetic fails above it.\<close>

fun read_digits :: "int \<Rightarrow> nat \<Rightarrow> int \<Rightarrow> nat \<Rightarrow> int \<Rightarrow> string \<Rightarrow> (int \<times> nat \<times> string) option" where
  "read_digits radix max_digits bound count result [] = Some (result, count, [])"
| "read_digits radix max_digits bound count result (c # s) =
     (case to_digit radix c of
        None \<Rightarrow> Some (result, count, c # s)
      | Some d \<Rightarrow>
          if bound \<le> result * radix + d then None
          else if max_digits < count + 1 then None
          else read_digits radix max_digits bound (count + 1) (result * radix + d) s)"

definition read_number :: "int \<Rightarrow> nat \<Rightarrow> int \<Rightarrow> bool \<Rightarrow> int reader" where
  "read_number radix max_digits bound allow_zero_prefix s =
     (case read_digits radix max_digits bound 0 0 s of
        None \<Rightarrow> None
      | Some (result, count, rest) \<Rightarrow>
          if count = 0 then None
          else if \<not> allow_zero_prefix \<and> s \<noteq> [] \<and> hd s = CHR ''0'' \<and> 1 < count then None
          else Some (result, rest))"

definition read_separator :: "char \<Rightarrow> nat \<Rightarrow> 'a reader \<Rightarrow> 'a reader" where
  "read_separator sep index inner s =
     (if 0 < index then case read_given_char sep s of None \<Rightarrow> None | Some (_, s') \<Rightarrow> inner s'
      else inner s)"

definition read_octet :: "nat \<Rightarrow> int reader" where
  "read_octet index = read_separator CHR ''.'' index (read_number 10 3 256 False)"

definition read_ipv4_octets :: "int list reader" where
  "read_ipv4_octets s =
     (case read_octet 0 s of None \<Rightarrow> None | Some (a, s) \<Rightarrow>
     (case read_octet 1 s of None \<Rightarrow> None | Some (b, s) \<Rightarrow>
     (case read_octet 2 s of None \<Rightarrow> None | Some (c, s) \<Rightarrow>
     (case read_octet 3 s of None \<Rightarrow> None | Some (d, s) \<Rightarrow> Some ([a, b, c, d], s)))))"

text \<open>\<open>read_groups\<close>: reads from group \<open>i\<close> on, of at most \<open>limit\<close>; the result holds the groups read
  and whether the last two were an embedded IPv4 address. \<open>left\<close> is \<open>limit - i\<close>.\<close>

fun read_groups :: "nat \<Rightarrow> nat \<Rightarrow> int list \<Rightarrow> string \<Rightarrow> int list \<times> bool \<times> string" where
  "read_groups 0 i gs s = (gs, False, s)"
| "read_groups (Suc left) i gs s =
     (case (if 0 < left then read_separator CHR '':'' i read_ipv4_octets s else None) of
        Some (os, s') \<Rightarrow>
          (gs @ [256 * (os ! 0) + os ! 1, 256 * (os ! 2) + os ! 3], True, s')
      | None \<Rightarrow>
          (case read_separator CHR '':'' i (read_number 16 4 65536 True) s of
             Some (g, s') \<Rightarrow> read_groups left (i + 1) (gs @ [g]) s'
           | None \<Rightarrow> (gs, False, s)))"

definition read_ipv6_groups :: "int list reader" where
  "read_ipv6_groups s =
     (case read_groups 8 0 [] s of (head, head_ipv4, s1) \<Rightarrow>
        if length head = 8 then Some (head, s1)
        else if head_ipv4 then None
        else case read_given_char CHR '':'' s1 of None \<Rightarrow> None | Some (_, s2) \<Rightarrow>
        (case read_given_char CHR '':'' s2 of None \<Rightarrow> None | Some (_, s3) \<Rightarrow>
        (case read_groups (7 - length head) 0 [] s3 of (tail, _, s4) \<Rightarrow>
           Some (head @ replicate (8 - length head - length tail) 0 @ tail, s4))))"

definition parse_ip_addr :: "string \<Rightarrow> ip_addr option" where
  "parse_ip_addr s =
     (case (case read_ipv4_octets s of
              Some (os, rest) \<Rightarrow> Some (IpV4 os, rest)
            | None \<Rightarrow> map_option (\<lambda>(gs, rest). (IpV6 gs, rest)) (read_ipv6_groups s)) of
        None \<Rightarrow> None
      | Some (ip, rest) \<Rightarrow> if rest = [] then Some ip else None)"

text \<open>The values are in range: what the array types of the Rust code guarantee.\<close>

lemma read_digits_less:
  "read_digits radix m bound n v s = Some (r, k, rest) \<Longrightarrow> v < bound \<Longrightarrow> r < bound"
  by (induction radix m bound n v s rule: read_digits.induct) (auto split: option.splits if_splits)

lemma read_number_less: "read_number radix m bound z s = Some (r, rest) \<Longrightarrow> 0 < bound \<Longrightarrow> r < bound"
  by (auto simp: read_number_def split: option.splits if_splits dest: read_digits_less)

lemma read_separator_result:
  "read_separator sep i inner s = Some (r, rest) \<Longrightarrow> \<exists>s'. inner s' = Some (r, rest)"
  by (auto simp: read_separator_def split: if_splits option.splits)

lemma read_octet_less: "read_octet i s = Some (r, rest) \<Longrightarrow> r < 256"
  unfolding read_octet_def by (drule read_separator_result) (erule exE, erule read_number_less, simp)

definition ip_wf :: "ip_addr \<Rightarrow> bool" where
  "ip_wf ip = (case ip of
     IpV4 os \<Rightarrow> length os = 4 \<and> (\<forall>x\<in>set os. x < 256)
   | IpV6 gs \<Rightarrow> length gs = 8 \<and> (\<forall>x\<in>set gs. x < 65536))"

lemma read_ipv4_octets_wf:
  "read_ipv4_octets s = Some (os, rest) \<Longrightarrow> length os = 4 \<and> (\<forall>x\<in>set os. x < 256)"
  by (auto simp: read_ipv4_octets_def dest: read_octet_less split: option.splits prod.splits)

lemma read_groups_wf:
  "read_groups left i gs s = (hs, b, rest) \<Longrightarrow> \<forall>x\<in>set gs. x < 65536 \<Longrightarrow>
     length hs \<le> length gs + left \<and> (\<forall>x\<in>set hs. x < 65536)"
proof (induction left i gs s rule: read_groups.induct)
  case (2 left i gs s)
  let ?e = "if 0 < left then read_separator CHR '':'' i read_ipv4_octets s else None"
  show ?case
  proof (cases ?e)
    case None
    show ?thesis
    proof (cases "read_separator CHR '':'' i (read_number 16 4 65536 True) s")
      case None
      then have "read_groups (Suc left) i gs s = (gs, False, s)"
        using \<open>?e = None\<close> by (simp only: read_groups.simps option.case)
      with "2.prems" show ?thesis by simp
    next
      case (Some gr)
      obtain g s' where gr: "gr = (g, s')" by (cases gr)
      obtain s'' where "read_number 16 4 65536 True s'' = Some (g, s')"
        using read_separator_result [OF Some [unfolded gr]] ..
      then have "g < 65536" by (rule read_number_less) simp
      moreover have step: "read_groups (Suc left) i gs s = read_groups left (i + 1) (gs @ [g]) s'"
        using \<open>?e = None\<close> Some gr by (simp only: read_groups.simps option.case prod.case)
      ultimately have "length hs \<le> length (gs @ [g]) + left \<and> (\<forall>x\<in>set hs. x < 65536)"
        using "2.IH" [OF \<open>?e = None\<close> Some gr [symmetric]] "2.prems" by simp
      then show ?thesis by simp
    qed
  next
    case (Some r)
    obtain os s' where r: "r = (os, s')" by (cases r)
    have "read_separator CHR '':'' i read_ipv4_octets s = Some (os, s')"
      using Some by (simp add: r split: if_splits)
    then obtain s'' where "read_ipv4_octets s'' = Some (os, s')"
      by (rule read_separator_result [THEN exE])
    then have os: "length os = 4" "\<forall>x\<in>set os. x < 256" using read_ipv4_octets_wf by blast+
    then have "\<forall>k<4. os ! k < 256" by auto
    then have lt: "os ! 0 < 256" "os ! 1 < 256" "os ! 2 < 256" "os ! 3 < 256" by simp_all
    have "read_groups (Suc left) i gs s =
        (gs @ [256 * (os ! 0) + os ! 1, 256 * (os ! 2) + os ! 3], True, s')"
      using Some r by (simp only: read_groups.simps option.case prod.case)
    moreover have "0 < left" using Some by (simp split: if_splits)
    ultimately show ?thesis using "2.prems" lt by auto
  qed
qed simp

lemma parse_ip_addr_wf: "parse_ip_addr s = Some ip \<Longrightarrow> ip_wf ip"
proof -
  have groups: "ip_wf (IpV6 gs)" if "read_ipv6_groups s = Some (gs, rest)" for gs rest
    using that
    by (auto simp: read_ipv6_groups_def ip_wf_def split: prod.splits if_splits option.splits
        dest!: read_groups_wf)
  show "parse_ip_addr s = Some ip \<Longrightarrow> ip_wf ip"
    by (auto simp: parse_ip_addr_def ip_wf_def split: option.splits if_splits
        dest!: read_ipv4_octets_wf groups)
qed

end
