(* ===== verification/Conditions.thy ===== *)
theory Conditions
  imports Matchers Rust_Net Policy_Types
begin

section \<open>The condition evaluator\<close>

text \<open>
  \<open>activable-iam-engine/src/condition_evaluator.rs\<close>. The CIDR type is the \<open>ipnet\<close> crate's: its
  parser and \<open>contains\<close> test are the parameter \<open>pc\<close>, which maps the text of a block to the set of
  addresses it contains, or to \<open>None\<close> when it does not parse. The address itself is parsed by the
  standard library (\<open>Rust_Net\<close>). An unknown operator holds.
\<close>

type_synonym cidr_parser = "string \<Rightarrow> (ip_addr \<Rightarrow> bool) option"

definition evaluate_condition :: "cidr_parser \<Rightarrow> string \<Rightarrow> string list \<Rightarrow> string \<Rightarrow> bool" where
  "evaluate_condition pc oper values actual_value =
     (if oper = ''StringEquals'' then list_ex (\<lambda>v. eq_ignore_ascii_case actual_value v) values
      else if oper = ''StringNotEquals'' then list_all (\<lambda>v. \<not> eq_ignore_ascii_case actual_value v) values
      else if oper = ''StringLike'' then list_ex (\<lambda>p. action_matches p actual_value) values
      else if oper = ''StringNotLike'' then list_all (\<lambda>p. \<not> action_matches p actual_value) values
      else if oper = ''ArnLike'' then list_ex (\<lambda>p. resource_matches p actual_value) values
      else if oper = ''ArnNotLike'' then list_all (\<lambda>p. \<not> resource_matches p actual_value) values
      else if oper = ''IpAddress'' then
        (case parse_ip_addr actual_value of
           Some ip \<Rightarrow> list_ex (\<lambda>c. case pc c of Some contains \<Rightarrow> contains ip | None \<Rightarrow> False) values
         | None \<Rightarrow> False)
      else if oper = ''NotIpAddress'' then
        (case parse_ip_addr actual_value of
           Some ip \<Rightarrow> list_all (\<lambda>c. case pc c of Some contains \<Rightarrow> \<not> contains ip | None \<Rightarrow> True) values
         | None \<Rightarrow> True)
      else if oper = ''Null'' then
        (let target = (case values of [] \<Rightarrow> ''false'' | v # _ \<Rightarrow> v);
             is_absent = (actual_value = [])
         in if target = ''true'' then is_absent else \<not> is_absent)
      else if oper = ''Bool'' then list_ex (\<lambda>v. eq_ignore_ascii_case actual_value v) values
      else True)"

text \<open>The operators and their negations.\<close>

definition positive_operators :: "string list" where
  "positive_operators = [''StringEquals'', ''StringLike'', ''ArnLike'', ''IpAddress'']"

definition negated_operator :: "string \<Rightarrow> string" where
  "negated_operator oper =
     (if oper = ''StringEquals'' then ''StringNotEquals''
      else if oper = ''StringLike'' then ''StringNotLike''
      else if oper = ''ArnLike'' then ''ArnNotLike'' else ''NotIpAddress'')"

lemma negated_operator_complement:
  "oper \<in> set positive_operators \<Longrightarrow>
     evaluate_condition pc (negated_operator oper) vs x = (\<not> evaluate_condition pc oper vs x)"
proof -
  assume o: "oper \<in> set positive_operators"
  have n: "list_all (\<lambda>v. \<not> P v) vs = (\<not> list_ex P vs)" for P :: "string \<Rightarrow> bool"
    by (simp add: list_all_iff list_ex_iff)
  have ip: "(case pc c of None \<Rightarrow> True | Some contains \<Rightarrow> \<not> contains ip) =
      (\<not> (case pc c of None \<Rightarrow> False | Some contains \<Rightarrow> contains ip))" for c ip
    by (simp split: option.split)
  consider "oper = ''StringEquals''" | "oper = ''StringLike''" | "oper = ''ArnLike''"
    | "oper = ''IpAddress''" using o by (auto simp: positive_operators_def)
  then show ?thesis
    by cases (simp_all add: evaluate_condition_def negated_operator_def n ip split: option.split)
qed

text \<open>The positive operators hold of a list when they hold of one of its values: \<open>condition_hit\<close> is
  the test on one value.\<close>

definition condition_hit :: "cidr_parser \<Rightarrow> string \<Rightarrow> string \<Rightarrow> string \<Rightarrow> bool" where
  "condition_hit pc oper x v =
     (if oper = ''StringEquals'' then to_lowercase x = to_lowercase v
      else if oper = ''StringLike'' then glob (to_lowercase v) (to_lowercase x)
      else if oper = ''ArnLike'' then glob v x
      else (\<exists>ip contains. parse_ip_addr x = Some ip \<and> pc v = Some contains \<and> contains ip))"

lemma contains_iff:
  "(case m of None \<Rightarrow> False | Some contains \<Rightarrow> contains ip) = (\<exists>contains. m = Some contains \<and> contains ip)"
  by (cases m) auto

lemma positive_operator_iff:
  assumes "oper \<in> set positive_operators"
  shows "evaluate_condition pc oper vs x \<longleftrightarrow> (\<exists>v\<in>set vs. condition_hit pc oper x v)"
proof -
  consider "oper = ''StringEquals''" | "oper = ''StringLike''" | "oper = ''ArnLike''"
    | "oper = ''IpAddress''" using assms by (auto simp: positive_operators_def)
  then show ?thesis
    by cases (simp_all add: evaluate_condition_def condition_hit_def list_ex_iff
        eq_ignore_ascii_case_def action_matches_glob resource_matches_glob contains_iff split: option.split)
qed

subsection \<open>Properties\<close>

text \<open>Each positive operator holds exactly when one of the listed values matches the request's
  value in the operator's sense (case-folded equality, case-folded glob, glob, or containment in a
  parsed CIDR block), and its negated operator is the exact complement of it, also for an empty list
  of values and for addresses and blocks that do not parse.\<close>

theorem condition_operators_complement:
  assumes "oper \<in> set positive_operators"
  shows "evaluate_condition pc oper vs x = (\<exists>v\<in>set vs. condition_hit pc oper x v) \<and>
    evaluate_condition pc (negated_operator oper) vs x = (\<forall>v\<in>set vs. \<not> condition_hit pc oper x v)"
  using assms by (simp add: negated_operator_complement positive_operator_iff)

theorem condition_operators_complement_witness:
  "evaluate_condition (\<lambda>s. if s = ''10.0.0.0/8'' then Some (\<lambda>ip. case ip of IpV4 os \<Rightarrow> hd os = 10 | IpV6 _ \<Rightarrow> False)
     else None) ''NotIpAddress'' [''10.0.0.0/8'', ''bogus''] ''10.1.2.3'' = False"
proof -
  let ?pc = "\<lambda>s. if s = ''10.0.0.0/8'' then Some (\<lambda>ip. case ip of IpV4 os \<Rightarrow> hd os = 10 | IpV6 _ \<Rightarrow> False) else None"
  have "parse_ip_addr ''10.1.2.3'' = Some (IpV4 [10, 1, 2, 3])" by code_simp
  then have "condition_hit ?pc ''IpAddress'' ''10.1.2.3'' ''10.0.0.0/8''"
    by (simp add: condition_hit_def)
  then show ?thesis
    using condition_operators_complement [of "''IpAddress''" ?pc "[''10.0.0.0/8'', ''bogus'']" "''10.1.2.3''"]
    by (simp add: positive_operators_def negated_operator_def)
qed

end
