(* ===== verification/Policy_Evaluators.thy ===== *)
theory Policy_Evaluators
  imports Conditions
begin

section \<open>Explicit deny, SCP chains, permission boundaries and session policies\<close>

text \<open>
  \<open>activable-iam-engine/src/deny_engine.rs\<close>, \<open>scp_evaluator.rs\<close>, \<open>boundary_evaluator.rs\<close> and
  \<open>session_policy.rs\<close>. Each is a scan of the statements of a policy with the same tests of the
  action and the resource, written out in each file; the tests are \<open>stmt_action_match\<close> and
  \<open>stmt_resource_match\<close>. The locale \<open>statement_scan\<close> is what the four scans share: a scan finds a
  statement that hits. The lemmas say which requests each evaluator denies or allows.
\<close>

subsection \<open>The tests on one statement\<close>

definition stmt_action_match :: "policy_statement \<Rightarrow> string \<Rightarrow> bool" where
  "stmt_action_match st act =
     (if not_actions st \<noteq> [] then \<not> list_ex (\<lambda>p. action_matches (action_pat p) act) (not_actions st)
      else if actions st \<noteq> [] then list_ex (\<lambda>p. action_matches (action_pat p) act) (actions st)
      else True)"

definition stmt_resource_match :: "policy_statement \<Rightarrow> string \<Rightarrow> bool" where
  "stmt_resource_match st res =
     (if not_resources st \<noteq> [] then \<not> list_ex (\<lambda>p. resource_matches (resource_pat p) res) (not_resources st)
      else if resources st \<noteq> [] then list_ex (\<lambda>p. resource_matches (resource_pat p) res) (resources st)
      else True)"

subsection \<open>The deny engine\<close>

datatype eval_result = ExplicitDeny | NoExplicitDeny

definition condition_actual_value :: "eval_context \<Rightarrow> string \<Rightarrow> string" where
  "condition_actual_value ctx key =
     (if key = ''aws:RequestedRegion'' then region ctx
      else if key = ''aws:SourceIp'' then source_ip ctx
      else if key = ''aws:SourceArn'' then source_arn ctx
      else if key = ''aws:SecureTransport'' then (if secure_transport ctx then ''true'' else ''false'')
      else [])"

definition stmt_conditions_match :: "cidr_parser \<Rightarrow> eval_context \<Rightarrow> policy_statement \<Rightarrow> bool" where
  "stmt_conditions_match pc ctx st =
     (if conditions st = [] then True
      else list_all (\<lambda>c. evaluate_condition pc (cond_operator c) (cond_values c)
                          (condition_actual_value ctx (cond_key c))) (conditions st))"

fun evaluate_deny_with_context ::
  "cidr_parser \<Rightarrow> policy_statement list \<Rightarrow> string \<Rightarrow> string \<Rightarrow> eval_context \<Rightarrow> eval_result" where
  "evaluate_deny_with_context pc [] act res ctx = NoExplicitDeny"
| "evaluate_deny_with_context pc (st # sts) act res ctx =
     (if effect st \<noteq> Deny then evaluate_deny_with_context pc sts act res ctx
      else if \<not> stmt_action_match st act then evaluate_deny_with_context pc sts act res ctx
      else if \<not> stmt_resource_match st res then evaluate_deny_with_context pc sts act res ctx
      else if stmt_conditions_match pc ctx st then ExplicitDeny
      else evaluate_deny_with_context pc sts act res ctx)"

definition evaluate_deny :: "cidr_parser \<Rightarrow> policy_statement list \<Rightarrow> string \<Rightarrow> string \<Rightarrow> eval_result" where
  "evaluate_deny pc sts act res = evaluate_deny_with_context pc sts act res eval_context_default"

subsection \<open>Service control policies\<close>

fun statement_slice_allows :: "policy_statement list \<Rightarrow> string \<Rightarrow> string \<Rightarrow> bool" where
  "statement_slice_allows [] act res = False"
| "statement_slice_allows (st # sts) act res =
     (if effect st \<noteq> Allow then statement_slice_allows sts act res
      else if \<not> stmt_action_match st act then statement_slice_allows sts act res
      else if stmt_resource_match st res then True
      else statement_slice_allows sts act res)"

fun scp_levels_allow :: "policy_statement list list \<Rightarrow> string \<Rightarrow> string \<Rightarrow> bool" where
  "scp_levels_allow [] act res = True"
| "scp_levels_allow (level # chain) act res =
     (if \<not> statement_slice_allows level act res then False else scp_levels_allow chain act res)"

definition scp_allows :: "policy_statement list list \<Rightarrow> string \<Rightarrow> string \<Rightarrow> bool" where
  "scp_allows chain act res = (if chain = [] then True else scp_levels_allow chain act res)"

subsection \<open>Permission boundaries\<close>

datatype boundary_result = NoBoundary | BoundaryAllowed | NotInBoundary

fun boundary_scan :: "policy_statement list \<Rightarrow> string \<Rightarrow> string \<Rightarrow> bool" where
  "boundary_scan [] act res = False"
| "boundary_scan (st # sts) act res =
     (if effect st \<noteq> Allow then boundary_scan sts act res
      else if \<not> stmt_action_match st act then boundary_scan sts act res
      else if stmt_resource_match st res then True
      else boundary_scan sts act res)"

definition boundary_allows :: "policy_statement list \<Rightarrow> string \<Rightarrow> string \<Rightarrow> bool" where
  "boundary_allows sts act res = (if sts = [] then True else boundary_scan sts act res)"

definition evaluate_with_boundary :: "policy_statement list \<Rightarrow> string \<Rightarrow> string \<Rightarrow> boundary_result" where
  "evaluate_with_boundary sts act res =
     (if sts = [] then NoBoundary
      else if boundary_allows sts act res then BoundaryAllowed else NotInBoundary)"

subsection \<open>Session policies\<close>

datatype session_constraint_result = SessionAllowed | Constrained | Unconstrained

fun session_scan :: "policy_statement list \<Rightarrow> string \<Rightarrow> string \<Rightarrow> session_constraint_result" where
  "session_scan [] act res = Constrained"
| "session_scan (st # sts) act res =
     (if effect st \<noteq> Allow then session_scan sts act res
      else if \<not> stmt_action_match st act then session_scan sts act res
      else if stmt_resource_match st res then SessionAllowed
      else session_scan sts act res)"

definition session_allows :: "parsed_policy option \<Rightarrow> string \<Rightarrow> string \<Rightarrow> session_constraint_result" where
  "session_allows session_policy act res =
     (case session_policy of
        None \<Rightarrow> Unconstrained
      | Some p \<Rightarrow> session_scan (statements p) act res)"

record effective_permission =
  perm_action :: string
  perm_resource :: string

definition effective_permissions_with_session ::
  "effective_permission list \<Rightarrow> parsed_policy option \<Rightarrow> effective_permission list" where
  "effective_permissions_with_session base session_policy =
     (case session_policy of
        None \<Rightarrow> base
      | Some p \<Rightarrow> filter (\<lambda>perm. session_allows (Some p) (perm_action perm) (perm_resource perm)
                                   = SessionAllowed) base)"

subsection \<open>What a scan is\<close>

locale statement_scan =
  fixes scan :: "'s list \<Rightarrow> 'q \<Rightarrow> bool" and hit :: "'s \<Rightarrow> 'q \<Rightarrow> bool"
  assumes scan_Nil: "\<not> scan [] q"
    and scan_Cons: "scan (st # sts) q \<longleftrightarrow> hit st q \<or> scan sts q"
begin

lemma scan_iff: "scan sts q \<longleftrightarrow> (\<exists>st\<in>set sts. hit st q)"
  by (induction sts) (simp_all add: scan_Nil scan_Cons)

lemma scan_append: "scan (as @ bs) q \<longleftrightarrow> scan as q \<or> scan bs q"
  by (auto simp: scan_iff)

lemma scan_mono: "set as \<subseteq> set bs \<Longrightarrow> scan as q \<Longrightarrow> scan bs q"
  by (auto simp: scan_iff)

lemma scan_set_cong: "set as = set bs \<Longrightarrow> scan as q = scan bs q"
  by (simp add: scan_iff)

lemma scan_filter: "(\<And>st. hit st q \<Longrightarrow> P st) \<Longrightarrow> scan (filter P sts) q = scan sts q"
  by (auto simp: scan_iff)

end

text \<open>A statement covers a request: the tests of the action and of the resource.\<close>

definition covers :: "policy_statement \<Rightarrow> string \<times> string \<Rightarrow> bool" where
  "covers st q \<longleftrightarrow> stmt_action_match st (fst q) \<and> stmt_resource_match st (snd q)"

definition allows_request :: "policy_statement \<Rightarrow> string \<times> string \<Rightarrow> bool" where
  "allows_request st q \<longleftrightarrow> effect st = Allow \<and> covers st q"

definition denies_request :: "cidr_parser \<Rightarrow> eval_context \<Rightarrow> policy_statement \<Rightarrow> string \<times> string \<Rightarrow> bool" where
  "denies_request pc ctx st q \<longleftrightarrow> effect st = Deny \<and> covers st q \<and> stmt_conditions_match pc ctx st"

interpretation deny: statement_scan
  "\<lambda>sts q. evaluate_deny_with_context pc sts (fst q) (snd q) ctx = ExplicitDeny"
  "denies_request pc ctx" for pc ctx
  by unfold_locales (auto simp: denies_request_def covers_def)

interpretation scp_level: statement_scan
  "\<lambda>sts q. statement_slice_allows sts (fst q) (snd q)" allows_request
  by unfold_locales (auto simp: allows_request_def covers_def)

interpretation boundary: statement_scan
  "\<lambda>sts q. boundary_scan sts (fst q) (snd q)" allows_request
  by unfold_locales (auto simp: allows_request_def covers_def)

interpretation session: statement_scan
  "\<lambda>sts q. session_scan sts (fst q) (snd q) = SessionAllowed" allows_request
  by unfold_locales (auto simp: allows_request_def covers_def)

lemma deny_iff:
  "evaluate_deny_with_context pc sts act res ctx = ExplicitDeny \<longleftrightarrow>
     (\<exists>st\<in>set sts. denies_request pc ctx st (act, res))"
  using deny.scan_iff [of pc sts "(act, res)" ctx] by simp

lemma statement_slice_allows_iff:
  "statement_slice_allows sts act res \<longleftrightarrow> (\<exists>st\<in>set sts. allows_request st (act, res))"
  using scp_level.scan_iff [of sts "(act, res)"] by simp

lemma boundary_scan_iff:
  "boundary_scan sts act res \<longleftrightarrow> (\<exists>st\<in>set sts. allows_request st (act, res))"
  using boundary.scan_iff [of sts "(act, res)"] by simp

lemma session_scan_iff:
  "session_scan sts act res = SessionAllowed \<longleftrightarrow> (\<exists>st\<in>set sts. allows_request st (act, res))"
  using session.scan_iff [of sts "(act, res)"] by simp

lemma scp_levels_allow_iff:
  "scp_levels_allow chain act res \<longleftrightarrow> (\<forall>level\<in>set chain. statement_slice_allows level act res)"
  by (induction chain) auto

lemma scp_allows_iff:
  "scp_allows chain act res \<longleftrightarrow>
     (\<forall>level\<in>set chain. \<exists>st\<in>set level. allows_request st (act, res))"
  by (simp add: scp_allows_def scp_levels_allow_iff statement_slice_allows_iff)

lemma boundary_allows_iff:
  "boundary_allows sts act res \<longleftrightarrow> sts = [] \<or> (\<exists>st\<in>set sts. allows_request st (act, res))"
  by (simp add: boundary_allows_def boundary_scan_iff)

lemma evaluate_deny_iff:
  "evaluate_deny pc sts act res = ExplicitDeny \<longleftrightarrow>
     (\<exists>st\<in>set sts. denies_request pc eval_context_default st (act, res))"
  by (simp add: evaluate_deny_def deny_iff)

lemma not_explicit_deny [simp]: "(r \<noteq> ExplicitDeny) = (r = NoExplicitDeny)"
  by (cases r) auto

lemma mfa_irrelevant: "denies_request pc (ctx\<lparr>mfa_present := b\<rparr>) st q = denies_request pc ctx st q"
  by (simp add: denies_request_def stmt_conditions_match_def condition_actual_value_def)

text \<open>The covered requests of a valid statement, in terms of \<open>glob\<close>.\<close>

lemma covers_valid:
  assumes "valid_statement st"
  shows "covers st (act, res) \<longleftrightarrow>
    ((\<exists>p\<in>set (actions st). glob (to_lowercase (action_pat p)) (to_lowercase act)) \<or>
     not_actions st \<noteq> [] \<and>
       (\<forall>p\<in>set (not_actions st). \<not> glob (to_lowercase (action_pat p)) (to_lowercase act))) \<and>
    ((\<exists>p\<in>set (resources st). glob (resource_pat p) res) \<or>
     not_resources st \<noteq> [] \<and> (\<forall>p\<in>set (not_resources st). \<not> glob (resource_pat p) res))"
  using assms by (auto simp: valid_statement_def covers_def stmt_action_match_def
      stmt_resource_match_def list_ex_iff action_matches_glob resource_matches_glob)

subsection \<open>Properties\<close>

definition sample_deny :: policy_statement where
  "sample_deny = \<lparr>sid = None, effect = Deny, actions = [ActionPattern ''s3:Delete*''], not_actions = [],
     resources = [], not_resources = [ResourcePattern ''arn:aws:s3:::tmp/*''],
     conditions = [\<lparr>cond_operator = ''StringNotEquals'', cond_key = ''aws:RequestedRegion'',
       cond_values = [''us-east-1'']\<rparr>]\<rparr>"

definition sample_allow :: policy_statement where
  "sample_allow = \<lparr>sid = None, effect = Allow, actions = [ActionPattern ''s3:*''], not_actions = [],
     resources = [ResourcePattern ''*''], not_resources = [], conditions = []\<rparr>"

text \<open>C4: the deny engine answers \<open>ExplicitDeny\<close> exactly when some Deny statement covers the request
  (its Action patterns match, or none of its NotAction patterns does; the same for resources) and all
  its conditions hold of the context; the other statements and their order do not matter.\<close>

theorem explicit_deny_decision:
  assumes "\<forall>st\<in>set sts. valid_statement st"
  shows "evaluate_deny_with_context pc sts act res ctx = ExplicitDeny \<longleftrightarrow>
    (\<exists>st\<in>set sts. effect st = Deny \<and>
      ((\<exists>p\<in>set (actions st). glob (to_lowercase (action_pat p)) (to_lowercase act)) \<or>
       not_actions st \<noteq> [] \<and>
         (\<forall>p\<in>set (not_actions st). \<not> glob (to_lowercase (action_pat p)) (to_lowercase act))) \<and>
      ((\<exists>p\<in>set (resources st). glob (resource_pat p) res) \<or>
       not_resources st \<noteq> [] \<and> (\<forall>p\<in>set (not_resources st). \<not> glob (resource_pat p) res)) \<and>
      (\<forall>c\<in>set (conditions st). evaluate_condition pc (cond_operator c) (cond_values c)
         (condition_actual_value ctx (cond_key c))))"
proof -
  have "denies_request pc ctx st (act, res) \<longleftrightarrow> effect st = Deny \<and> covers st (act, res) \<and>
      (\<forall>c\<in>set (conditions st). evaluate_condition pc (cond_operator c) (cond_values c)
         (condition_actual_value ctx (cond_key c)))" for st
    by (auto simp: denies_request_def stmt_conditions_match_def list_all_iff)
  then show ?thesis using assms by (simp add: deny_iff covers_valid)
qed

theorem explicit_deny_decision_witness:
  "evaluate_deny_with_context (\<lambda>_. None) [sample_allow, sample_deny] ''S3:DeleteObject''
     ''arn:aws:s3:::data/x'' (with_region eval_context_default ''eu-west-1'') = ExplicitDeny"
proof (subst explicit_deny_decision)
  show "\<forall>st\<in>set [sample_allow, sample_deny]. valid_statement st"
    by (simp add: sample_allow_def sample_deny_def valid_statement_def)
  have a: "glob (to_lowercase ''s3:Delete*'') (to_lowercase ''S3:DeleteObject'')"
    unfolding action_matches_glob [symmetric] by code_simp
  have r: "\<not> glob ''arn:aws:s3:::tmp/*'' ''arn:aws:s3:::data/x''"
    unfolding resource_matches_glob [symmetric] by code_simp
  have c: "evaluate_condition (\<lambda>_. None) ''StringNotEquals'' [''us-east-1'']
      (condition_actual_value (with_region eval_context_default ''eu-west-1'') ''aws:RequestedRegion'')"
    by code_simp
  show "\<exists>st\<in>set [sample_allow, sample_deny]. effect st = Deny \<and>
      ((\<exists>p\<in>set (actions st). glob (to_lowercase (action_pat p)) (to_lowercase ''S3:DeleteObject'')) \<or>
       not_actions st \<noteq> [] \<and> (\<forall>p\<in>set (not_actions st).
         \<not> glob (to_lowercase (action_pat p)) (to_lowercase ''S3:DeleteObject''))) \<and>
      ((\<exists>p\<in>set (resources st). glob (resource_pat p) ''arn:aws:s3:::data/x'') \<or>
       not_resources st \<noteq> [] \<and> (\<forall>p\<in>set (not_resources st). \<not> glob (resource_pat p) ''arn:aws:s3:::data/x'')) \<and>
      (\<forall>c\<in>set (conditions st). evaluate_condition (\<lambda>_. None) (cond_operator c) (cond_values c)
         (condition_actual_value (with_region eval_context_default ''eu-west-1'') (cond_key c)))"
    using a r c by (intro bexI [of _ sample_deny]) (simp_all add: sample_deny_def del: to_lowercase_simps)
qed

text \<open>Explicit deny is monotone: a request denied by some statements stays denied by every larger
  set of statements, in any order, whatever Allow statements are among them.\<close>

theorem explicit_deny_monotone:
  assumes "evaluate_deny_with_context pc as act res ctx = ExplicitDeny" and "set as \<subseteq> set bs"
  shows "evaluate_deny_with_context pc bs act res ctx = ExplicitDeny"
  using deny.scan_mono [of as bs pc "(act, res)" ctx] assms by simp

theorem explicit_deny_monotone_witness:
  "evaluate_deny_with_context (\<lambda>_. None) [sample_allow, sample_deny, sample_allow] ''s3:DeleteObject''
     ''arn:aws:s3:::data/x'' eval_context_default = ExplicitDeny"
  by (rule explicit_deny_monotone [of _ "[sample_deny]"]) (code_simp, simp)

text \<open>MFA is not part of any decision: the deny engine gives the same answer whatever
  \<open>mfa_present\<close> is, and a Deny statement that requires MFA with a \<open>Bool\<close> condition on
  \<open>aws:MultiFactorAuthPresent\<close> with values true and false never denies anything.\<close>

theorem deny_ignores_mfa:
  "evaluate_deny_with_context pc sts act res (with_mfa_present ctx b) =
     evaluate_deny_with_context pc sts act res ctx \<and>
   evaluate_deny_with_context pc
     (map (\<lambda>st. st\<lparr>conditions := \<lparr>cond_operator = ''Bool'', cond_key = ''aws:MultiFactorAuthPresent'',
        cond_values = [''true'', ''false'']\<rparr> # conditions st\<rparr>) sts) act res ctx = NoExplicitDeny"
proof
  show "evaluate_deny_with_context pc sts act res (with_mfa_present ctx b) =
     evaluate_deny_with_context pc sts act res ctx"
    by (rule eval_result.exhaust [of "evaluate_deny_with_context pc sts act res ctx"];
        rule eval_result.exhaust [of "evaluate_deny_with_context pc sts act res (with_mfa_present ctx b)"])
       (insert deny_iff [of pc sts act res ctx] deny_iff [of pc sts act res "with_mfa_present ctx b"],
        auto simp: with_mfa_present_def mfa_irrelevant)
  show "evaluate_deny_with_context pc
     (map (\<lambda>st. st\<lparr>conditions := \<lparr>cond_operator = ''Bool'', cond_key = ''aws:MultiFactorAuthPresent'',
        cond_values = [''true'', ''false'']\<rparr> # conditions st\<rparr>) sts) act res ctx = NoExplicitDeny"
    unfolding not_explicit_deny [symmetric] deny_iff
    by (auto simp: denies_request_def stmt_conditions_match_def condition_actual_value_def
        evaluate_condition_def eq_ignore_ascii_case_def)
qed

text \<open>The three guardrails are intersections of Allow sets. A chain of SCPs allows a request
  exactly when every level has an Allow statement covering it, a boundary when it is empty or has one,
  a session policy constrains exactly the requests none of its Allow statements covers. Adding a level
  to the chain never allows more.\<close>

theorem guardrails_are_intersections:
  "scp_allows chain act res =
     (\<forall>level\<in>set chain. \<exists>st\<in>set level. effect st = Allow \<and> covers st (act, res)) \<and>
   scp_allows (chain @ chain') act res = (scp_allows chain act res \<and> scp_allows chain' act res) \<and>
   (evaluate_with_boundary sts act res = NotInBoundary) =
     (sts \<noteq> [] \<and> (\<forall>st\<in>set sts. effect st = Allow \<longrightarrow> \<not> covers st (act, res))) \<and>
   (session_allows (Some p) act res = Constrained) =
     (\<forall>st\<in>set (statements p). effect st = Allow \<longrightarrow> \<not> covers st (act, res)) \<and>
   session_allows None act res = Unconstrained"
proof -
  have s: "(session_scan sts act res = Constrained) = (session_scan sts act res \<noteq> SessionAllowed)" for sts
    by (induction sts) auto
  show ?thesis
    by (auto simp: scp_allows_iff allows_request_def evaluate_with_boundary_def boundary_allows_iff
        session_allows_def s session_scan_iff)
qed

theorem guardrails_are_intersections_witness:
  "scp_allows [[sample_deny, sample_allow], [sample_deny]] ''s3:GetObject'' ''arn:aws:s3:::b/k'' = False \<and>
   evaluate_with_boundary [sample_deny] ''s3:GetObject'' ''arn:aws:s3:::b/k'' = NotInBoundary"
proof -
  have d: "effect sample_deny = Deny" by (simp add: sample_deny_def)
  show ?thesis
    using guardrails_are_intersections [of "[[sample_deny, sample_allow], [sample_deny]]" "''s3:GetObject''"
        "''arn:aws:s3:::b/k''" "[]" "[sample_deny]" "\<lparr>version = [], statements = []\<rparr>"]
    by (simp only: list.set set_simps ball_simps bex_simps) (simp add: d)
qed

text \<open>Deny statements inside a guardrail policy have no effect: removing them from an SCP level, a
  session policy, or a boundary that has another statement changes no answer.\<close>

theorem guardrail_denies_are_ignored:
  "scp_allows (map (filter (\<lambda>st. effect st \<noteq> Deny)) chain) act res = scp_allows chain act res \<and>
   session_allows (Some (p\<lparr>statements := filter (\<lambda>st. effect st \<noteq> Deny) (statements p)\<rparr>)) act res =
     session_allows (Some p) act res \<and>
   boundary_allows (st # filter (\<lambda>st. effect st \<noteq> Deny) sts) act res =
     boundary_allows (st # sts) act res"
proof -
  let ?f = "filter (\<lambda>st. effect st \<noteq> Deny)"
  have session: "session_scan (?f sts) act res = session_scan sts act res" for sts
    by (induction sts) auto
  have level: "statement_slice_allows (?f sts) act res = statement_slice_allows sts act res" for sts
    by (induction sts) auto
  have boundary: "boundary_scan (?f sts) act res = boundary_scan sts act res" for sts
    by (induction sts) auto
  show ?thesis
    by (simp add: session level boundary scp_allows_def scp_levels_allow_iff boundary_allows_def
        session_allows_def)
qed

end
