(* ===== verification/Effective_Permissions.thy ===== *)
theory Effective_Permissions
  imports Policy_Evaluators
begin

section \<open>Effective permissions\<close>

text \<open>
  \<open>activable-iam-engine/src/effective_permissions.rs\<close>: the candidate pairs of the Allow statements,
  filtered by explicit deny, the SCP chain and the boundary, sorted and without duplicates; and the
  session filter of \<open>session_policy.rs\<close> on top. Patterns are kept as patterns, so a candidate such as
  \<open>s3:*\<close> is tested as if it were an action name; the lemmas say what that means for the concrete
  requests a pattern covers.
\<close>

definition allow_statements :: "parsed_policy list \<Rightarrow> policy_statement list" where
  "allow_statements ps = concat (map (\<lambda>p. filter (\<lambda>st. effect st = Allow) (statements p)) ps)"

definition all_statements :: "parsed_policy list \<Rightarrow> policy_statement list" where
  "all_statements ps = concat (map statements ps)"

definition actions_to_check :: "policy_statement \<Rightarrow> string list" where
  "actions_to_check st =
     (if actions st \<noteq> [] then map action_pat (actions st)
      else if not_actions st \<noteq> [] then [''*''] else [])"

definition resources_to_check :: "policy_statement \<Rightarrow> string list" where
  "resources_to_check st =
     (if resources st \<noteq> [] then map resource_pat (resources st)
      else if not_resources st \<noteq> [] then [''*''] else [])"

definition permission_passes ::
  "cidr_parser \<Rightarrow> parsed_policy list \<Rightarrow> parsed_policy option \<Rightarrow> policy_statement list list
     \<Rightarrow> string \<Rightarrow> string \<Rightarrow> bool" where
  "permission_passes pc ps boundary chain act res =
     (if evaluate_deny pc (all_statements ps) act res = ExplicitDeny then False
      else if \<not> scp_allows chain act res then False
      else case boundary of
          Some b \<Rightarrow> if \<not> boundary_allows (statements b) act res then False else True
        | None \<Rightarrow> True)"

definition candidate_permissions ::
  "cidr_parser \<Rightarrow> parsed_policy list \<Rightarrow> parsed_policy option \<Rightarrow> policy_statement list list
     \<Rightarrow> policy_statement \<Rightarrow> effective_permission list" where
  "candidate_permissions pc ps boundary chain st =
     concat (map (\<lambda>act. concat (map (\<lambda>res.
        if permission_passes pc ps boundary chain act res
        then [\<lparr>perm_action = act, perm_resource = res\<rparr>] else []) (resources_to_check st)))
       (actions_to_check st))"

definition permission_key :: "effective_permission \<Rightarrow> string \<times> string" where
  "permission_key p = (perm_action p, perm_resource p)"

definition effective_permissions ::
  "cidr_parser \<Rightarrow> parsed_policy list \<Rightarrow> parsed_policy option \<Rightarrow> policy_statement list list
     \<Rightarrow> eval_context \<Rightarrow> effective_permission list" where
  "effective_permissions pc ps boundary chain context_unused =
     sort_dedup permission_key
       (concat (map (candidate_permissions pc ps boundary chain) (allow_statements ps)))"

subsection \<open>Lemmas\<close>

lemma permission_key_inj: "inj_on permission_key A"
  by (rule inj_onI) (simp add: permission_key_def)

lemma permission_passes_iff:
  "permission_passes pc ps boundary chain act res \<longleftrightarrow>
     evaluate_deny pc (all_statements ps) act res = NoExplicitDeny \<and> scp_allows chain act res \<and>
     (\<forall>b. boundary = Some b \<longrightarrow> boundary_allows (statements b) act res)"
  using not_explicit_deny by (auto simp: permission_passes_def split: option.split)

lemma set_candidate_permissions:
  "perm \<in> set (candidate_permissions pc ps boundary chain st) \<longleftrightarrow>
     perm_action perm \<in> set (actions_to_check st) \<and> perm_resource perm \<in> set (resources_to_check st) \<and>
     permission_passes pc ps boundary chain (perm_action perm) (perm_resource perm)"
  by (cases perm) (auto simp: candidate_permissions_def)

lemma set_effective_permissions:
  "perm \<in> set (effective_permissions pc ps boundary chain ctx) \<longleftrightarrow>
     (\<exists>p\<in>set ps. \<exists>st\<in>set (statements p). effect st = Allow \<and>
        perm_action perm \<in> set (actions_to_check st) \<and> perm_resource perm \<in> set (resources_to_check st)) \<and>
     permission_passes pc ps boundary chain (perm_action perm) (perm_resource perm)"
  by (auto simp: effective_permissions_def allow_statements_def set_candidate_permissions)

lemma evaluate_deny_mono:
  "evaluate_deny pc as act res = ExplicitDeny \<Longrightarrow> set as \<subseteq> set bs \<Longrightarrow>
     evaluate_deny pc bs act res = ExplicitDeny"
  by (auto simp: evaluate_deny_iff)

text \<open>A statement whose patterns have no \<open>?\<close> and that uses neither NotAction nor NotResource.\<close>

definition plain_statement :: "policy_statement \<Rightarrow> bool" where
  "plain_statement st \<longleftrightarrow> not_actions st = [] \<and> not_resources st = [] \<and>
     list_all (\<lambda>p. CHR ''?'' \<notin> set (action_pat p)) (actions st) \<and>
     list_all (\<lambda>p. CHR ''?'' \<notin> set (resource_pat p)) (resources st)"

lemma plain_covers:
  assumes "plain_statement st" and "covers st (ap, rp)"
    and "action_matches ap act" and "resource_matches rp res"
  shows "covers st (act, res)"
proof -
  have a: "list_ex (\<lambda>p. action_matches (action_pat p) ap) as \<Longrightarrow>
      list_all (\<lambda>p. CHR ''?'' \<notin> set (action_pat p)) as \<Longrightarrow>
      list_ex (\<lambda>p. action_matches (action_pat p) act) as" for as
    using action.matches_trans assms(3) unfolding list_ex_iff list_all_iff by blast
  have r: "list_ex (\<lambda>p. resource_matches (resource_pat p) rp) rs \<Longrightarrow>
      list_all (\<lambda>p. CHR ''?'' \<notin> set (resource_pat p)) rs \<Longrightarrow>
      list_ex (\<lambda>p. resource_matches (resource_pat p) res) rs" for rs
    using resource.matches_trans assms(4) unfolding list_ex_iff list_all_iff by blast
  show ?thesis
    using assms(1,2) a [of "actions st"] r [of "resources st"]
    by (auto simp: plain_statement_def covers_def stmt_action_match_def stmt_resource_match_def)
qed

lemma scp_allows_mono: "scp_allows chain' act res \<Longrightarrow> set chain \<subseteq> set chain' \<Longrightarrow> scp_allows chain act res"
  by (auto simp: scp_allows_iff)

lemma scp_allows_covered:
  assumes "scp_allows chain ap rp" and "\<forall>level\<in>set chain. list_all plain_statement level"
    and "action_matches ap act" and "resource_matches rp res"
  shows "scp_allows chain act res"
  unfolding scp_allows_iff
proof
  fix level assume l: "level \<in> set chain"
  then obtain st where "st \<in> set level" "allows_request st (ap, rp)"
    using assms(1) unfolding scp_allows_iff by blast
  moreover have "plain_statement st" using assms(2) l \<open>st \<in> set level\<close> by (auto simp: list_all_iff)
  ultimately show "\<exists>st\<in>set level. allows_request st (act, res)"
    using plain_covers [OF _ _ assms(3,4)] unfolding allows_request_def by blast
qed

lemma boundary_allows_covered:
  assumes "boundary_allows sts ap rp" and "list_all plain_statement sts"
    and "action_matches ap act" and "resource_matches rp res"
  shows "boundary_allows sts act res"
  using scp_allows_covered [of "[sts]" ap rp act res] assms
  by (auto simp: scp_allows_iff boundary_allows_iff)

lemma literal_pattern_misses_wildcard:
  "\<not> has_wildcard d \<Longrightarrow> has_wildcard p \<Longrightarrow> \<not> action_matches d p"
  using action.matches_literal [of d p] has_wildcard_to_lowercase by metis

subsection \<open>Properties\<close>


text \<open>Every restriction restricts. Attaching a boundary, adding levels to the SCP chain and adding
  policies made of Deny statements never adds an effective permission.\<close>

theorem effective_permissions_shrink:
  assumes "boundary = None \<or> boundary = boundary'" and "set chain \<subseteq> set chain'"
    and "\<forall>q\<in>set qs. \<forall>st\<in>set (statements q). effect st = Deny"
  shows "set (effective_permissions pc (ps @ qs) boundary' chain' ctx)
    \<subseteq> set (effective_permissions pc ps boundary chain ctx)"
proof
  fix perm assume p: "perm \<in> set (effective_permissions pc (ps @ qs) boundary' chain' ctx)"
  have none: "evaluate_deny pc (all_statements ps) a r = NoExplicitDeny"
    if "evaluate_deny pc (all_statements (ps @ qs)) a r = NoExplicitDeny" for a r
    using that evaluate_deny_mono [of pc "all_statements ps" a r "all_statements (ps @ qs)"]
    by (cases "evaluate_deny pc (all_statements ps) a r") (auto simp: all_statements_def)
  have "\<exists>p\<in>set ps. \<exists>st\<in>set (statements p). effect st = Allow \<and>
     perm_action perm \<in> set (actions_to_check st) \<and> perm_resource perm \<in> set (resources_to_check st)"
    using p assms(3) unfolding set_effective_permissions by (metis UnE effect.distinct(1) set_append)
  moreover have "permission_passes pc ps boundary chain (perm_action perm) (perm_resource perm)"
    using p assms(1) none scp_allows_mono [OF _ assms(2)]
    unfolding set_effective_permissions permission_passes_iff by auto
  ultimately show "perm \<in> set (effective_permissions pc ps boundary chain ctx)"
    unfolding set_effective_permissions by blast
qed

definition sample_identity :: parsed_policy where
  "sample_identity = \<lparr>version = ''2012-10-17'', statements = [sample_allow]\<rparr>"

theorem effective_permissions_shrink_witness:
  "set (effective_permissions (\<lambda>_. None) ([sample_identity] @ [\<lparr>version = ''1'', statements = [sample_deny]\<rparr>])
      (Some sample_identity) [[sample_allow]] eval_context_default)
    \<subseteq> set (effective_permissions (\<lambda>_. None) [sample_identity] None [] eval_context_default)"
  by (rule effective_permissions_shrink) (simp_all add: sample_deny_def)

text \<open>C14: the guardrails hold for every concrete request a permission stands for. When the statements
  of the SCP chain and of the boundary use Action and Resource and no \<open>?\<close>, each concrete action and
  resource matched by the patterns of an effective permission is allowed by the whole chain and by the
  boundary.\<close>

theorem effective_permissions_respect_guardrails:
  assumes "perm \<in> set (effective_permissions pc ps (Some b) chain ctx)"
    and "\<forall>level\<in>set chain. list_all plain_statement level" and "list_all plain_statement (statements b)"
    and "action_matches (perm_action perm) act" and "resource_matches (perm_resource perm) res"
  shows "scp_allows chain act res \<and> boundary_allows (statements b) act res"
  using assms unfolding set_effective_permissions permission_passes_iff
  by (blast intro: scp_allows_covered boundary_allows_covered)

theorem effective_permissions_respect_guardrails_witness:
  "scp_allows [[sample_allow]] ''s3:GetObject'' ''arn:aws:s3:::b/k'' \<and>
   boundary_allows (statements sample_identity) ''s3:GetObject'' ''arn:aws:s3:::b/k''"
proof (rule effective_permissions_respect_guardrails)
  show "\<lparr>perm_action = ''s3:*'', perm_resource = ''*''\<rparr> \<in> set (effective_permissions (\<lambda>_. None)
      [sample_identity] (Some sample_identity) [[sample_allow]] eval_context_default)"
    by code_simp
qed (code_simp+)

text \<open>Explicit denies are tested against patterns, not subtracted from them. When every Deny
  statement of the identity policies names its actions literally, a permission whose action pattern has
  a wildcard is never removed by a deny, although the statements deny concrete requests it covers.\<close>

theorem literal_denies_keep_wildcards:
  assumes "p \<in> set ps" and "st \<in> set (statements p)" and "effect st = Allow"
    and "ActionPattern ap \<in> set (actions st)" and "ResourcePattern rp \<in> set (resources st)"
    and "has_wildcard ap"
    and "\<forall>d\<in>set (all_statements ps). effect d = Deny \<longrightarrow>
      actions d \<noteq> [] \<and> not_actions d = [] \<and> (\<forall>x\<in>set (actions d). \<not> has_wildcard (action_pat x))"
  shows "\<lparr>perm_action = ap, perm_resource = rp\<rparr> \<in> set (effective_permissions pc ps None [] ctx)"
proof -
  have "\<not> denies_request pc eval_context_default d (ap, rp)" if "d \<in> set (all_statements ps)" for d
    using assms(6,7) that literal_pattern_misses_wildcard
    by (auto simp: denies_request_def covers_def stmt_action_match_def list_ex_iff)
  then have "evaluate_deny pc (all_statements ps) ap rp = NoExplicitDeny"
    unfolding not_explicit_deny [symmetric] evaluate_deny_iff by blast
  moreover have "ap \<in> set (actions_to_check st)" "rp \<in> set (resources_to_check st)"
    using assms(4,5) by (force simp: actions_to_check_def resources_to_check_def)+
  ultimately show ?thesis
    using assms(1-3) unfolding set_effective_permissions permission_passes_iff
    by (auto simp: scp_allows_def)
qed

theorem literal_denies_keep_wildcards_witness:
  "let deny_delete = sample_deny\<lparr>actions := [ActionPattern ''s3:DeleteObject''], conditions := []\<rparr>;
       ps = [\<lparr>version = ''1'', statements = [sample_allow, deny_delete]\<rparr>]
   in \<lparr>perm_action = ''s3:*'', perm_resource = ''*''\<rparr>
        \<in> set (effective_permissions (\<lambda>_. None) ps None [] eval_context_default) \<and>
      evaluate_deny (\<lambda>_. None) (all_statements ps) ''s3:DeleteObject'' ''arn:aws:s3:::b/k'' = ExplicitDeny"
  unfolding Let_def
proof (rule conjI)
  let ?d = "sample_deny\<lparr>actions := [ActionPattern ''s3:DeleteObject''], conditions := []\<rparr>"
  show "\<lparr>perm_action = ''s3:*'', perm_resource = ''*''\<rparr> \<in> set (effective_permissions (\<lambda>_. None)
      [\<lparr>version = ''1'', statements = [sample_allow, ?d]\<rparr>] None [] eval_context_default)"
    by (rule literal_denies_keep_wildcards [of "\<lparr>version = ''1'', statements = [sample_allow, ?d]\<rparr>" _ sample_allow])
       (simp_all add: sample_allow_def sample_deny_def all_statements_def has_wildcard_def)
  show "evaluate_deny (\<lambda>_. None) (all_statements [\<lparr>version = ''1'', statements = [sample_allow, ?d]\<rparr>])
      ''s3:DeleteObject'' ''arn:aws:s3:::b/k'' = ExplicitDeny"
    by code_simp
qed

text \<open>A session policy only ever filters: the result is the sublist, in order, of the base
  permissions that an Allow statement of the session policy covers, and applying it twice is applying it
  once.\<close>

theorem session_policy_filters:
  "effective_permissions_with_session base (Some p) =
     filter (\<lambda>perm. \<exists>st\<in>set (statements p). allows_request st (perm_action perm, perm_resource perm)) base \<and>
   effective_permissions_with_session (effective_permissions_with_session base s) s =
     effective_permissions_with_session base s \<and>
   effective_permissions_with_session base None = base"
  by (simp add: effective_permissions_with_session_def session_allows_def session_scan_iff split: option.split)

end
