(* ===== verification/Dangerous_Actions.thy ===== *)
theory Dangerous_Actions
  imports Effective_Permissions "HOL-Library.Word"
begin

section \<open>Dangerous actions\<close>

text \<open>
  \<open>activable-iam-engine/src/dangerous_actions.rs\<close> with the registry of
  \<open>config/dangerous-actions.yaml\<close>, and \<open>escalation_derivation.rs\<close>. The effective permission type the
  Rust file declares has the fields of the one of \<open>effective_permissions.rs\<close>; the model uses one record
  for both. Strings are UTF-8 bytes where a message holds a dash.
\<close>

datatype severity = Critical | High | Medium | Low

definition display_severity :: "severity \<Rightarrow> string" where
  "display_severity s =
     (case s of Critical \<Rightarrow> ''critical'' | High \<Rightarrow> ''high'' | Medium \<Rightarrow> ''medium'' | Low \<Rightarrow> ''low'')"

record dangerous_action =
  danger_id :: string
  danger_tier :: "8 word"
  danger_severity :: severity
  danger_actions :: "string list"
  danger_combo :: bool
  danger_description :: string

record dangerous_action_match =
  match_id :: string
  match_tier :: "8 word"
  match_severity :: severity
  match_reason :: string

definition em_dash :: string where
  "em_dash = [CHR 0xE2, CHR 0x80, CHR 0x94]"

definition dangerous_actions_registry :: "dangerous_action list" where
  "dangerous_actions_registry =
    [
     \<lparr>danger_id = ''policy-rewrite'', danger_tier = 1, danger_severity = Critical,
        danger_actions = [''iam:CreatePolicyVersion''], danger_combo = False,
        danger_description = ''Create new inline policy version '' @ em_dash @ '' grants arbitrary permissions''\<rparr>,
     \<lparr>danger_id = ''attach-user-policy'', danger_tier = 1, danger_severity = Critical,
        danger_actions = [''iam:AttachUserPolicy''], danger_combo = False,
        danger_description = ''Attach managed policy to user '' @ em_dash @ '' grants arbitrary permissions''\<rparr>,
     \<lparr>danger_id = ''attach-role-policy'', danger_tier = 1, danger_severity = Critical,
        danger_actions = [''iam:AttachRolePolicy''], danger_combo = False,
        danger_description = ''Attach managed policy to role '' @ em_dash @ '' grants arbitrary permissions''\<rparr>,
     \<lparr>danger_id = ''put-user-policy'', danger_tier = 1, danger_severity = Critical,
        danger_actions = [''iam:PutUserPolicy''], danger_combo = False,
        danger_description = ''Create inline user policy '' @ em_dash @ '' grants arbitrary permissions''\<rparr>,
     \<lparr>danger_id = ''put-role-policy'', danger_tier = 1, danger_severity = Critical,
        danger_actions = [''iam:PutRolePolicy''], danger_combo = False,
        danger_description = ''Create inline role policy '' @ em_dash @ '' grants arbitrary permissions''\<rparr>,
     \<lparr>danger_id = ''update-assume-role-policy'', danger_tier = 1, danger_severity = Critical,
        danger_actions = [''iam:UpdateAssumeRolePolicy''], danger_combo = False,
        danger_description = ''Modify role trust policy '' @ em_dash @ '' add malicious principal to assume role''\<rparr>,
     \<lparr>danger_id = ''create-access-key'', danger_tier = 1, danger_severity = Critical,
        danger_actions = [''iam:CreateAccessKey''], danger_combo = False,
        danger_description = ''Create long-term credentials for user '' @ em_dash @ '' persistent backdoor''\<rparr>,
     \<lparr>danger_id = ''pass-role'', danger_tier = 2, danger_severity = High,
        danger_actions = [''iam:PassRole''], danger_combo = False,
        danger_description = ''Pass a role to compute service '' @ em_dash @ '' enables privilege escalation via compute''\<rparr>,
     \<lparr>danger_id = ''assume-role'', danger_tier = 2, danger_severity = High,
        danger_actions = [''sts:AssumeRole''], danger_combo = False,
        danger_description = ''Assume a role directly '' @ em_dash @ '' grants role permissions if trust policy allows''\<rparr>,
     \<lparr>danger_id = ''pass-role-ec2'', danger_tier = 2, danger_severity = High,
        danger_actions = [''iam:PassRole'', ''ec2:RunInstances''], danger_combo = True,
        danger_description = ''Pass role to EC2 '' @ em_dash @ '' can launch instance with escalated role''\<rparr>,
     \<lparr>danger_id = ''pass-role-lambda'', danger_tier = 2, danger_severity = High,
        danger_actions = [''iam:PassRole'', ''lambda:CreateFunction''], danger_combo = True,
        danger_description = ''Pass role to Lambda '' @ em_dash @ '' can create function with escalated role''\<rparr>,
     \<lparr>danger_id = ''pass-role-ecs'', danger_tier = 2, danger_severity = High,
        danger_actions = [''iam:PassRole'', ''ecs:RegisterTaskDefinition''], danger_combo = True,
        danger_description = ''Pass role to ECS '' @ em_dash @ '' can register task with escalated role''\<rparr>,
     \<lparr>danger_id = ''create-user'', danger_tier = 2, danger_severity = High,
        danger_actions = [''iam:CreateUser''], danger_combo = False,
        danger_description = ''Create new IAM user '' @ em_dash @ '' create peer with attacker-controlled permissions''\<rparr>,
     \<lparr>danger_id = ''create-role'', danger_tier = 2, danger_severity = High,
        danger_actions = [''iam:CreateRole''], danger_combo = False,
        danger_description = ''Create new IAM role '' @ em_dash @ '' create peer with attacker-controlled trust policy''\<rparr>,
     \<lparr>danger_id = ''create-login-profile'', danger_tier = 2, danger_severity = High,
        danger_actions = [''iam:CreateLoginProfile''], danger_combo = False,
        danger_description = ''Create console password '' @ em_dash @ '' grant console access to user''\<rparr>,
     \<lparr>danger_id = ''add-user-to-group'', danger_tier = 2, danger_severity = High,
        danger_actions = [''iam:AddUserToGroup''], danger_combo = False,
        danger_description = ''Add user to group '' @ em_dash @ '' grant group'' @ [CHR 0x27] @ ''s permissions to user''\<rparr>,
     \<lparr>danger_id = ''create-instance-profile'', danger_tier = 3, danger_severity = High,
        danger_actions = [''iam:CreateInstanceProfile''], danger_combo = False,
        danger_description = ''Create EC2 instance profile '' @ em_dash @ '' enable role-to-compute binding''\<rparr>,
     \<lparr>danger_id = ''add-role-to-instance-profile'', danger_tier = 3, danger_severity = High,
        danger_actions = [''iam:AddRoleToInstanceProfile''], danger_combo = False,
        danger_description = ''Add role to instance profile '' @ em_dash @ '' enable role-to-compute binding''\<rparr>,
     \<lparr>danger_id = ''update-trust-policy-with-principal'', danger_tier = 3, danger_severity = High,
        danger_actions = [''iam:UpdateAssumeRolePolicyDocument''], danger_combo = False,
        danger_description = ''Update trust policy '' @ em_dash @ '' add attacker principal''\<rparr>,
     \<lparr>danger_id = ''modify-policy-permissions'', danger_tier = 3, danger_severity = High,
        danger_actions = [''iam:CreatePolicy''], danger_combo = False,
        danger_description = ''Create custom managed policy '' @ em_dash @ '' define arbitrary permissions''\<rparr>,
     \<lparr>danger_id = ''attach-policy-to-group'', danger_tier = 3, danger_severity = High,
        danger_actions = [''iam:AttachGroupPolicy''], danger_combo = False,
        danger_description = ''Attach policy to group '' @ em_dash @ '' escalate all group members''\<rparr>,
     \<lparr>danger_id = ''tag-user'', danger_tier = 2, danger_severity = High,
        danger_actions = [''iam:TagUser''], danger_combo = False,
        danger_description = ''Tag IAM user '' @ em_dash @ '' can self-tag to bypass ABAC conditions''\<rparr>,
     \<lparr>danger_id = ''tag-role'', danger_tier = 2, danger_severity = High,
        danger_actions = [''iam:TagRole''], danger_combo = False,
        danger_description = ''Tag IAM role '' @ em_dash @ '' can self-tag to bypass ABAC conditions''\<rparr>,
     \<lparr>danger_id = ''tag-resource'', danger_tier = 2, danger_severity = High,
        danger_actions = [''iam:TagResource''], danger_combo = False,
        danger_description = ''Tag any IAM resource '' @ em_dash @ '' can tag to bypass ABAC conditions''\<rparr>,
     \<lparr>danger_id = ''tag-policy'', danger_tier = 3, danger_severity = High,
        danger_actions = [''iam:TagPolicy''], danger_combo = False,
        danger_description = ''Tag IAM policy '' @ em_dash @ '' can tag to modify policy access controls''\<rparr>,
     \<lparr>danger_id = ''tag-instance-profile'', danger_tier = 3, danger_severity = High,
        danger_actions = [''iam:TagInstanceProfile''], danger_combo = False,
        danger_description = ''Tag instance profile '' @ em_dash @ '' can tag to modify instance access''\<rparr>,
     \<lparr>danger_id = ''ec2-create-tags'', danger_tier = 3, danger_severity = Medium,
        danger_actions = [''ec2:CreateTags''], danger_combo = False,
        danger_description = ''Create EC2 tags '' @ em_dash @ '' can tag instances/resources to bypass ABAC''\<rparr>,
     \<lparr>danger_id = ''ec2-delete-tags'', danger_tier = 3, danger_severity = Medium,
        danger_actions = [''ec2:DeleteTags''], danger_combo = False,
        danger_description = ''Delete EC2 tags '' @ em_dash @ '' can remove access-control tags''\<rparr>,
     \<lparr>danger_id = ''s3-put-object-tagging'', danger_tier = 3, danger_severity = Medium,
        danger_actions = [''s3:PutObjectTagging''], danger_combo = False,
        danger_description = ''Tag S3 objects '' @ em_dash @ '' can tag to bypass resource-based ABAC''\<rparr>,
     \<lparr>danger_id = ''s3-put-bucket-tagging'', danger_tier = 3, danger_severity = Medium,
        danger_actions = [''s3:PutBucketTagging''], danger_combo = False,
        danger_description = ''Tag S3 buckets '' @ em_dash @ '' can tag to bypass bucket-level ABAC''\<rparr>,
     \<lparr>danger_id = ''lambda-tag-resource'', danger_tier = 3, danger_severity = Medium,
        danger_actions = [''lambda:TagResource''], danger_combo = False,
        danger_description = ''Tag Lambda functions '' @ em_dash @ '' can tag to modify function access''\<rparr>,
     \<lparr>danger_id = ''rds-add-tags'', danger_tier = 3, danger_severity = Medium,
        danger_actions = [''rds:AddTagsToResource''], danger_combo = False,
        danger_description = ''Tag RDS resources '' @ em_dash @ '' can tag to bypass RDS ABAC conditions''\<rparr>,
     \<lparr>danger_id = ''kms-tag-resource'', danger_tier = 3, danger_severity = Medium,
        danger_actions = [''kms:TagResource''], danger_combo = False,
        danger_description = ''Tag KMS keys '' @ em_dash @ '' can tag to modify key access policies''\<rparr>]"

subsection \<open>Detection\<close>

definition action_matches_pattern :: "string \<Rightarrow> string \<Rightarrow> bool" where
  "action_matches_pattern pat act =
     (if pat = ''*'' \<or> pat = act then True
      else case split_once CHR ''*'' pat of
          Some (pre, rest) \<Rightarrow> starts_with act pre
        | None \<Rightarrow> pat = act)"

definition some_permission_matches :: "effective_permission list \<Rightarrow> string \<Rightarrow> bool" where
  "some_permission_matches perms act = list_ex (\<lambda>p. action_matches_pattern (perm_action p) act) perms"

definition detect_one :: "effective_permission list \<Rightarrow> dangerous_action \<Rightarrow> dangerous_action_match list" where
  "detect_one perms danger =
     (if danger_combo danger then
        if list_all (some_permission_matches perms) (danger_actions danger)
        then [\<lparr>match_id = danger_id danger, match_tier = danger_tier danger,
               match_severity = danger_severity danger,
               match_reason = join '' + '' (danger_actions danger) @ '' (combo)''\<rparr>]
        else []
      else
        if list_ex (some_permission_matches perms) (danger_actions danger)
        then [\<lparr>match_id = danger_id danger, match_tier = danger_tier danger,
               match_severity = danger_severity danger,
               match_reason = (case find (some_permission_matches perms) (danger_actions danger) of
                   Some a \<Rightarrow> a | None \<Rightarrow> []) @ '' (single-action)''\<rparr>]
        else [])"

definition detect_dangerous_actions ::
  "effective_permission list \<Rightarrow> dangerous_action list \<Rightarrow> dangerous_action_match list" where
  "detect_dangerous_actions perms registry =
     (if list_ex (\<lambda>p. perm_action p = ''*'') perms
      then map (\<lambda>danger. \<lparr>match_id = danger_id danger, match_tier = danger_tier danger,
             match_severity = danger_severity danger,
             match_reason = ''* (wildcard '' @ em_dash @ '' all actions allowed)''\<rparr>) registry
      else concat (map (detect_one perms) registry))"

subsection \<open>Escalation edges\<close>

record escalation_edge =
  edge_from :: string
  edge_to :: string
  edge_type :: string
  edge_reason :: string
  edge_tier :: "8 word"
  edge_severity :: severity

definition passrole_resources :: "effective_permission list \<Rightarrow> string list" where
  "passrole_resources perms =
     map perm_resource (filter (\<lambda>p. perm_action p = ''iam:PassRole'') perms)"

definition passrole_edges ::
  "string \<Rightarrow> effective_permission list \<Rightarrow> dangerous_action \<Rightarrow> string \<Rightarrow> escalation_edge list" where
  "passrole_edges principal_arn perms danger reason =
     map (\<lambda>res. \<lparr>edge_from = principal_arn, edge_to = (if res = ''*'' then ''*'' else res),
            edge_type = ''CanEscalateTo'', edge_reason = reason,
            edge_tier = danger_tier danger, edge_severity = danger_severity danger\<rparr>)
       (passrole_resources perms)"

definition danger_edges ::
  "string \<Rightarrow> effective_permission list \<Rightarrow> dangerous_action \<Rightarrow> escalation_edge list" where
  "danger_edges principal_arn perms danger =
     (if danger_tier danger = 1 \<and> \<not> danger_combo danger
      then [\<lparr>edge_from = principal_arn, edge_to = principal_arn, edge_type = ''CanEscalateTo'',
             edge_reason = danger_id danger @ '' (self-escalation, tier 1)'',
             edge_tier = danger_tier danger, edge_severity = danger_severity danger\<rparr>] else []) @
     (if starts_with (danger_id danger) ''pass-role'' \<and> danger_combo danger
      then passrole_edges principal_arn perms danger (danger_id danger @ '' (via PassRole + compute)'')
      else []) @
     (if danger_id danger = ''pass-role'' \<and> \<not> danger_combo danger
      then passrole_edges principal_arn perms danger ''iam:PassRole (lateral movement)''
      else [])"

definition escalation_edge_key :: "escalation_edge \<Rightarrow> string \<times> string \<times> string" where
  "escalation_edge_key e = (edge_from e, edge_to e, edge_reason e)"

definition derive_escalation_edges ::
  "string \<Rightarrow> effective_permission list \<Rightarrow> dangerous_action list \<Rightarrow> escalation_edge list" where
  "derive_escalation_edges principal_arn perms registry =
     sort_dedup escalation_edge_key
       (concat (map (\<lambda>m. case find (\<lambda>d. danger_id d = match_id m) registry of
            None \<Rightarrow> []
          | Some danger \<Rightarrow> danger_edges principal_arn perms danger)
        (detect_dangerous_actions perms registry)))"

subsection \<open>Lemmas on detection\<close>

text \<open>When a definition of the registry is reported.\<close>

definition danger_present :: "effective_permission list \<Rightarrow> dangerous_action \<Rightarrow> bool" where
  "danger_present perms d \<longleftrightarrow>
     (\<exists>p\<in>set perms. perm_action p = ''*'') \<or>
     (if danger_combo d
      then \<forall>a\<in>set (danger_actions d). \<exists>p\<in>set perms. action_matches_pattern (perm_action p) a
      else \<exists>a\<in>set (danger_actions d). \<exists>p\<in>set perms. action_matches_pattern (perm_action p) a)"

lemma match_keys_eq:
  "map (\<lambda>m. (match_id m, match_tier m)) (detect_dangerous_actions perms registry) =
     map (\<lambda>d. (danger_id d, danger_tier d)) (filter (danger_present perms) registry)"
proof (cases "\<exists>p\<in>set perms. perm_action p = ''*''")
  case True
  then have "filter (danger_present perms) registry = registry"
    by (simp add: filter_id_conv danger_present_def)
  moreover have "list_ex (\<lambda>p. perm_action p = ''*'') perms" using True by (simp add: list_ex_iff)
  ultimately show ?thesis by (simp add: detect_dangerous_actions_def comp_def)
next
  case False
  then have w: "\<not> list_ex (\<lambda>p. perm_action p = ''*'') perms" by (simp add: list_ex_iff)
  have "map (\<lambda>m. (match_id m, match_tier m)) (detect_one perms d) =
      (if danger_present perms d then [(danger_id d, danger_tier d)] else [])" for d
    using False by (simp add: detect_one_def danger_present_def some_permission_matches_def
        list_ex_iff list_all_iff)
  then have "map (\<lambda>m. (match_id m, match_tier m)) (concat (map (detect_one perms) registry)) =
      map (\<lambda>d. (danger_id d, danger_tier d)) (filter (danger_present perms) registry)"
    by (induction registry) simp_all
  then show ?thesis using w by (simp add: detect_dangerous_actions_def)
qed

lemma match_ids_eq:
  "map match_id (detect_dangerous_actions perms registry) =
     map danger_id (filter (danger_present perms) registry)"
  using arg_cong [OF match_keys_eq, of "map fst" perms registry] by (simp add: comp_def)

lemma match_tiers_eq:
  "map match_tier (detect_dangerous_actions perms registry) =
     map danger_tier (filter (danger_present perms) registry)"
  using arg_cong [OF match_keys_eq, of "map snd" perms registry] by (simp add: comp_def)

lemma danger_present_mono:
  assumes "danger_present perms d" and "set perms \<subseteq> set perms'"
  shows "danger_present perms' d"
  using assms unfolding danger_present_def by (cases "danger_combo d") (simp; blast)+

lemma action_matches_pattern_iff:
  "action_matches_pattern pat act \<longleftrightarrow>
     pat = act \<or> (\<exists>pre rest. pat = pre @ CHR ''*'' # rest \<and> CHR ''*'' \<notin> set pre \<and> prefix pre act)"
proof (cases "split_once CHR ''*'' pat")
  case None
  then have "CHR ''*'' \<notin> set pat" by (simp add: split_once_None_iff)
  then show ?thesis using None by (auto simp: action_matches_pattern_def)
next
  case (Some pr)
  then obtain pre rest where pr: "split_once CHR ''*'' pat = Some (pre, rest)" by (cases pr) auto
  then have p: "pat = pre @ CHR ''*'' # rest" "CHR ''*'' \<notin> set pre" by (simp_all add: split_once_Some_iff)
  have "action_matches_pattern pat act \<longleftrightarrow> pat = ''*'' \<or> pat = act \<or> prefix pre act"
    using pr by (simp add: action_matches_pattern_def starts_with_iff)
  moreover have "pat = ''*'' \<Longrightarrow> pre = []" using p by (cases pre) auto
  moreover have "(\<exists>pre' rest. (pat = pre' @ CHR ''*'' # rest \<and> CHR ''*'' \<notin> set pre') \<and> prefix pre' act)
      \<longleftrightarrow> prefix pre act"
    unfolding split_once_Some_iff [symmetric] using pr by auto
  ultimately show ?thesis unfolding conj_assoc by auto
qed

lemma glob_prefix_of_star:
  "glob (pre @ CHR ''*'' # rest) t \<Longrightarrow> \<not> has_wildcard pre \<Longrightarrow> prefix pre t"
  by (drule glob_append_split) (auto simp: glob_literal)

lemma glob_imp_action_matches_pattern:
  assumes "glob pat act" and "CHR ''?'' \<notin> set pat"
  shows "action_matches_pattern pat act"
proof (cases "split_once CHR ''*'' pat")
  case None
  then have "\<not> has_wildcard pat" using assms(2) by (simp add: split_once_None_iff has_wildcard_def)
  then show ?thesis using assms(1) by (simp add: glob_literal action_matches_pattern_iff)
next
  case (Some pr)
  then obtain pre rest where "pat = pre @ CHR ''*'' # rest" "CHR ''*'' \<notin> set pre"
    by (cases pr) (auto simp: split_once_Some_iff)
  moreover from this have "prefix pre act"
    using assms by (intro glob_prefix_of_star [of _ rest]) (auto simp: has_wildcard_def)
  ultimately show ?thesis unfolding action_matches_pattern_iff by blast
qed

lemma action_matches_pattern_trailing_star:
  "\<not> has_wildcard q \<Longrightarrow> action_matches_pattern (q @ ''*'') act \<longleftrightarrow> glob (q @ ''*'') act"
proof -
  assume q: "\<not> has_wildcard q"
  then have s: "split_once CHR ''*'' (q @ ''*'') = Some (q, [])" by (simp add: has_wildcard_def)
  have "q @ ''*'' = act \<Longrightarrow> prefix q act" by auto
  then show ?thesis using q s
    by (auto simp: action_matches_pattern_def glob_prefix starts_with_iff)
qed

subsection \<open>Lemmas on the edges\<close>

lemma reason_suffixes:
  "a @ '' (self-escalation, tier 1)'' \<noteq> b @ '' (via PassRole + compute)''"
  "a @ '' (self-escalation, tier 1)'' \<noteq> ''iam:PassRole (lateral movement)''"
  "a @ '' (via PassRole + compute)'' \<noteq> ''iam:PassRole (lateral movement)''"
  by (rule notI, drule arg_cong [where f = rev], simp)+

lemma set_danger_edges:
  "e \<in> set (danger_edges prin perms d) \<longleftrightarrow>
     edge_from e = prin \<and> edge_type e = ''CanEscalateTo'' \<and> edge_tier e = danger_tier d \<and>
     edge_severity e = danger_severity d \<and>
     (danger_tier d = 1 \<and> \<not> danger_combo d \<and> edge_to e = prin \<and>
        edge_reason e = danger_id d @ '' (self-escalation, tier 1)'' \<or>
      edge_to e \<in> set (passrole_resources perms) \<and>
        (prefix ''pass-role'' (danger_id d) \<and> danger_combo d \<and>
           edge_reason e = danger_id d @ '' (via PassRole + compute)'' \<or>
         danger_id d = ''pass-role'' \<and> \<not> danger_combo d \<and>
           edge_reason e = ''iam:PassRole (lateral movement)''))"
  by (cases e) (auto simp: danger_edges_def passrole_edges_def starts_with_iff image_iff)

lemma edge_reason_forms:
  assumes "e \<in> set (danger_edges prin perms d)"
  shows "edge_reason e = danger_id d @ '' (self-escalation, tier 1)'' \<or>
    edge_reason e = danger_id d @ '' (via PassRole + compute)'' \<or>
    edge_reason e = ''iam:PassRole (lateral movement)'' \<and> danger_id d = ''pass-role''"
  using assms unfolding set_danger_edges by blast

lemma edge_reason_determines_id:
  assumes "e \<in> set (danger_edges prin perms d)" and "f \<in> set (danger_edges prin perms g)"
    and "edge_reason e = edge_reason f"
  shows "danger_id d = danger_id g"
  using edge_reason_forms [OF assms(1)] edge_reason_forms [OF assms(2)] assms(3)
    reason_suffixes reason_suffixes [symmetric] by (metis append_same_eq)

lemma set_case_option: "e \<in> set (case m of None \<Rightarrow> [] | Some d \<Rightarrow> f d) \<longleftrightarrow> (\<exists>d. m = Some d \<and> e \<in> set (f d))"
  by (cases m) auto

lemma bex_key:
  "(\<And>k d. P k d \<Longrightarrow> f d = k) \<Longrightarrow>
     (\<exists>k\<in>K. \<exists>d. P k d \<and> Q d) \<longleftrightarrow> (\<exists>d. P (f d) d \<and> f d \<in> K \<and> Q d)"
  by blast

lemma set_derive_escalation_edges:
  "e \<in> set (derive_escalation_edges prin perms registry) \<longleftrightarrow>
     (\<exists>d. find (\<lambda>x. danger_id x = danger_id d) registry = Some d \<and>
        danger_id d \<in> danger_id ` {x \<in> set registry. danger_present perms x} \<and>
        e \<in> set (danger_edges prin perms d))"
proof -
  have ids: "match_id ` set (detect_dangerous_actions perms registry) =
      danger_id ` {x \<in> set registry. danger_present perms x}"
    using arg_cong [OF match_ids_eq, of set perms registry] by (simp add: set_filter)
  have "e \<in> set (derive_escalation_edges prin perms registry) \<longleftrightarrow>
      (\<exists>k\<in>match_id ` set (detect_dangerous_actions perms registry). \<exists>d.
        find (\<lambda>x. danger_id x = k) registry = Some d \<and> e \<in> set (danger_edges prin perms d))"
    by (simp add: derive_escalation_edges_def set_case_option eq_commute [of "Some _"])
  also have "\<dots> \<longleftrightarrow> (\<exists>d. find (\<lambda>x. danger_id x = danger_id d) registry = Some d \<and>
      danger_id d \<in> match_id ` set (detect_dangerous_actions perms registry) \<and>
      e \<in> set (danger_edges prin perms d))"
    by (rule bex_key) (auto simp: find_Some_iff)
  finally show ?thesis by (simp only: ids)
qed

lemma edge_key_inj:
  "inj_on escalation_edge_key (set (derive_escalation_edges prin perms registry))"
proof (rule inj_onI)
  fix e f assume e: "e \<in> set (derive_escalation_edges prin perms registry)"
    and f: "f \<in> set (derive_escalation_edges prin perms registry)"
    and k: "escalation_edge_key e = escalation_edge_key f"
  obtain d where d: "find (\<lambda>x. danger_id x = danger_id d) registry = Some d" "e \<in> set (danger_edges prin perms d)"
    using e unfolding set_derive_escalation_edges by blast
  obtain g where g: "find (\<lambda>x. danger_id x = danger_id g) registry = Some g" "f \<in> set (danger_edges prin perms g)"
    using f unfolding set_derive_escalation_edges by blast
  have "danger_id d = danger_id g"
    using k by (intro edge_reason_determines_id [OF d(2) g(2)]) (simp add: escalation_edge_key_def)
  then have "d = g" using trans [OF d(1) [symmetric], of "Some g"] g(1) by (simp only: option.inject)
  then have "edge_type e = edge_type f" "edge_tier e = edge_tier f" "edge_severity e = edge_severity f"
    using d(2) g(2) unfolding set_danger_edges by (elim conjE; simp)+
  moreover have "edge_from e = edge_from f" "edge_to e = edge_to f" "edge_reason e = edge_reason f"
    using k by (simp_all add: escalation_edge_key_def)
  ultimately show "e = f" by simp
qed

lemma find_distinct_id:
  "distinct (map danger_id registry) \<Longrightarrow>
     find (\<lambda>x. danger_id x = danger_id d) registry = Some d \<longleftrightarrow> d \<in> set registry"
  by (induction registry) (auto simp: image_iff)

lemma lateral_needs_passrole:
  assumes "e \<in> set (derive_escalation_edges prin perms registry)"
    and "\<forall>p\<in>set perms. perm_action p \<noteq> ''iam:PassRole''"
  shows "edge_to e = prin \<and> edge_tier e = 1"
proof -
  have "passrole_resources perms = []" using assms(2) by (simp add: passrole_resources_def filter_empty_conv)
  then show ?thesis using assms(1) unfolding set_derive_escalation_edges set_danger_edges by auto
qed

subsection \<open>Properties\<close>

text \<open>Detection reports, in registry order and once per definition, exactly the definitions that are
  present: all of them when some permission is \<open>*\<close>, otherwise a combo when every one of its actions is
  matched by some permission and a single definition when at least one is.\<close>

theorem detection_exact:
  "map match_id (detect_dangerous_actions perms registry) =
     map danger_id (filter (danger_present perms) registry)"
  by (rule match_ids_eq)

text \<open>The prefix matcher of the detection misses nothing that IAM matching with the same case would
  find, as long as the pattern has no \<open>?\<close>, and is exact for literals and patterns whose only wildcard is
  a final \<open>*\<close>. (It is case-sensitive: the witness shows a pattern of another case that it misses.)\<close>

theorem prefix_matcher_covers_glob:
  assumes "CHR ''?'' \<notin> set pat" and "glob pat act" and "\<not> has_wildcard q"
  shows "action_matches_pattern pat act \<and>
    action_matches_pattern q x = (x = q) \<and> action_matches_pattern (q @ ''*'') x = glob (q @ ''*'') x"
proof -
  have "action_matches_pattern q x = (x = q)"
    using assms(3) by (auto simp: action_matches_pattern_iff has_wildcard_def)
  then show ?thesis
    using assms glob_imp_action_matches_pattern action_matches_pattern_trailing_star by blast
qed

theorem prefix_matcher_covers_glob_witness:
  "action_matches_pattern ''iam:*Role'' ''iam:PassRole'' \<and>
   action_matches ''IAM:*'' ''iam:PassRole'' \<and> \<not> action_matches_pattern ''IAM:*'' ''iam:PassRole''"
proof (intro conjI)
  have "glob ''iam:*Role'' ''iam:PassRole''" unfolding resource_matches_glob [symmetric] by code_simp
  then show "action_matches_pattern ''iam:*Role'' ''iam:PassRole''"
    using prefix_matcher_covers_glob [of "''iam:*Role''" "''iam:PassRole''" "[]"]
    by (simp add: has_wildcard_def)
qed (code_simp+)

text \<open>C15: with distinct ids in the registry, the derived edges are exactly: for each present tier 1
  single definition the self edge of the principal, and for each present \<open>pass-role\<close> combo (or the single
  \<open>pass-role\<close>) one edge to every resource of a permission whose action is \<open>iam:PassRole\<close>. Every edge
  starts at the principal, and the result has no duplicates.\<close>

theorem escalation_edges_exact:
  assumes "distinct (map danger_id registry)"
  shows "set (derive_escalation_edges prin perms registry) =
    {e. \<exists>d\<in>set registry. danger_present perms d \<and> edge_from e = prin \<and>
        edge_type e = ''CanEscalateTo'' \<and> edge_tier e = danger_tier d \<and> edge_severity e = danger_severity d \<and>
        (danger_tier d = 1 \<and> \<not> danger_combo d \<and> edge_to e = prin \<and>
           edge_reason e = danger_id d @ '' (self-escalation, tier 1)'' \<or>
         (\<exists>p\<in>set perms. perm_action p = ''iam:PassRole'' \<and> perm_resource p = edge_to e) \<and>
           (prefix ''pass-role'' (danger_id d) \<and> danger_combo d \<and>
              edge_reason e = danger_id d @ '' (via PassRole + compute)'' \<or>
            danger_id d = ''pass-role'' \<and> \<not> danger_combo d \<and>
              edge_reason e = ''iam:PassRole (lateral movement)''))} \<and>
    distinct (derive_escalation_edges prin perms registry)"
proof
  have ids: "danger_id d \<in> danger_id ` {x \<in> set registry. danger_present perms x} \<longleftrightarrow> danger_present perms d"
    if "d \<in> set registry" for d
    using that assms by (auto simp: distinct_map dest: inj_onD)
  have r: "x \<in> set (passrole_resources perms) \<longleftrightarrow>
      (\<exists>p\<in>set perms. perm_action p = ''iam:PassRole'' \<and> perm_resource p = x)" for x
    by (auto simp: passrole_resources_def)
  have "e \<in> set (derive_escalation_edges prin perms registry) \<longleftrightarrow>
      (\<exists>d\<in>set registry. danger_present perms d \<and> e \<in> set (danger_edges prin perms d))" for e
    unfolding set_derive_escalation_edges find_distinct_id [OF assms] using ids by blast
  then show "set (derive_escalation_edges prin perms registry) =
    {e. \<exists>d\<in>set registry. danger_present perms d \<and> edge_from e = prin \<and>
        edge_type e = ''CanEscalateTo'' \<and> edge_tier e = danger_tier d \<and> edge_severity e = danger_severity d \<and>
        (danger_tier d = 1 \<and> \<not> danger_combo d \<and> edge_to e = prin \<and>
           edge_reason e = danger_id d @ '' (self-escalation, tier 1)'' \<or>
         (\<exists>p\<in>set perms. perm_action p = ''iam:PassRole'' \<and> perm_resource p = edge_to e) \<and>
           (prefix ''pass-role'' (danger_id d) \<and> danger_combo d \<and>
              edge_reason e = danger_id d @ '' (via PassRole + compute)'' \<or>
            danger_id d = ''pass-role'' \<and> \<not> danger_combo d \<and>
              edge_reason e = ''iam:PassRole (lateral movement)''))}"
    unfolding set_eq_iff mem_Collect_eq set_danger_edges r by simp
  show "distinct (derive_escalation_edges prin perms registry)"
    using edge_key_inj [of prin perms registry] unfolding derive_escalation_edges_def
    by (intro distinct_sort_dedup) simp
qed

theorem escalation_edges_exact_witness:
  "\<lparr>edge_from = ''alice'', edge_to = ''arn:aws:iam::1:role/admin'', edge_type = ''CanEscalateTo'',
     edge_reason = ''pass-role-ec2 (via PassRole + compute)'', edge_tier = 2, edge_severity = High\<rparr>
     \<in> set (derive_escalation_edges ''alice''
         [\<lparr>perm_action = ''iam:PassRole'', perm_resource = ''arn:aws:iam::1:role/admin''\<rparr>,
          \<lparr>perm_action = ''ec2:*'', perm_resource = ''*''\<rparr>] dangerous_actions_registry)"
proof -
  let ?perms = "[\<lparr>perm_action = ''iam:PassRole'', perm_resource = ''arn:aws:iam::1:role/admin''\<rparr>,
          \<lparr>perm_action = ''ec2:*'', perm_resource = ''*''\<rparr>]"
  let ?d = "dangerous_actions_registry ! 9"
  have d: "?d \<in> set dangerous_actions_registry" by (rule nth_mem) (simp add: dangerous_actions_registry_def)
  have f: "danger_id ?d = ''pass-role-ec2''" "danger_combo ?d" "danger_tier ?d = 2"
    "danger_severity ?d = High" "danger_actions ?d = [''iam:PassRole'', ''ec2:RunInstances'']"
    by (simp_all add: dangerous_actions_registry_def)
  have m: "action_matches_pattern ''iam:PassRole'' ''iam:PassRole''"
    "action_matches_pattern ''ec2:*'' ''ec2:RunInstances''" by code_simp+
  have p: "danger_present ?perms ?d" using m by (simp add: danger_present_def f)
  have dist: "distinct (map danger_id dangerous_actions_registry)"
    by (simp add: dangerous_actions_registry_def)
  show ?thesis
    unfolding escalation_edges_exact [OF dist, THEN conjunct1] mem_Collect_eq
    by (rule bexI [OF _ d]) (use p f in simp)
qed

text \<open>Lateral edges need a permission whose action is literally \<open>iam:PassRole\<close>. A principal without
  one has only tier 1 self edges, also when \<open>*\<close> or \<open>iam:*\<close> makes detection report the \<open>pass-role\<close>
  definitions.\<close>

theorem wildcard_principal_has_no_lateral_edges:
  assumes "\<forall>p\<in>set perms. perm_action p \<noteq> ''iam:PassRole''"
    and "e \<in> set (derive_escalation_edges prin perms registry)"
  shows "edge_to e = prin \<and> edge_tier e = 1"
  using lateral_needs_passrole assms by blast

end
