(* ===== verification/Resource_Policy.thy ===== *)
theory Resource_Policy
  imports Policy_Parser Policy_Evaluators Dangerous_Actions
begin

section \<open>Resource-based policies\<close>

text \<open>
  \<open>activable-iam-engine/src/resource_policy_parser.rs\<close> and \<open>resource_policy_evaluator.rs\<close>: the
  principals of a resource policy, and the decision for a principal with identity policies on a
  resource with a resource policy. The parser sorts principals by their \<open>Debug\<close> text, which
  \<open>debug_principal\<close> writes out for ASCII strings.
\<close>

subsection \<open>Principals\<close>

datatype policy_principal =
    PrincipalArn string
  | AccountRoot string
  | ServicePrincipal string
  | WildcardPrincipal
  | FederatedPrincipal string

record resource_policy =
  rp_resource_arn :: string
  rp_service_type :: string
  rp_policy :: parsed_policy
  rp_principals :: "policy_principal list"

definition extract_account_from_arn :: "string \<Rightarrow> string option" where
  "extract_account_from_arn arn =
     (let parts = split_on CHR '':'' arn in
      if 5 \<le> length parts then
        let account = parts ! 4 in if account \<noteq> [] then Some account else None
      else None)"

definition account_id :: "policy_principal \<Rightarrow> string option" where
  "account_id p =
     (case p of
        PrincipalArn arn \<Rightarrow> extract_account_from_arn arn
      | AccountRoot arn \<Rightarrow> extract_account_from_arn arn
      | _ \<Rightarrow> None)"

definition is_wildcard :: "policy_principal \<Rightarrow> bool" where
  "is_wildcard p = (case p of WildcardPrincipal \<Rightarrow> True | _ \<Rightarrow> False)"

definition is_account_scoped :: "policy_principal \<Rightarrow> bool" where
  "is_account_scoped p = (case p of AccountRoot _ \<Rightarrow> True | _ \<Rightarrow> False)"

definition parse_principal_string :: "string \<Rightarrow> policy_principal" where
  "parse_principal_string s =
     (if s = ''*'' then WildcardPrincipal
      else if ends_with s '':root'' \<and> starts_with s ''arn:'' then AccountRoot s
      else if starts_with s ''arn:'' then PrincipalArn s
      else if str_contains s ''.amazonaws.com'' then ServicePrincipal s
      else FederatedPrincipal s)"

definition strings_at :: "(string \<times> json) list \<Rightarrow> string \<Rightarrow> string list" where
  "strings_at obj k = (case obj_get obj k of Some v \<Rightarrow> extract_string_or_array v | None \<Rightarrow> [])"

definition extract_principal_value :: "json \<Rightarrow> policy_parse_error + policy_principal list" where
  "extract_principal_value v =
     (case v of
        JString s \<Rightarrow> Inr [parse_principal_string s]
      | JObject obj \<Rightarrow> Inr
          (map parse_principal_string (strings_at obj ''AWS'') @
           map ServicePrincipal (strings_at obj ''Service'') @
           map FederatedPrincipal (strings_at obj ''Federated''))
      | JArray arr \<Rightarrow> Inr (map parse_principal_string (List.map_filter as_str arr))
      | _ \<Rightarrow> Inl (InvalidStatement ''Principal must be a string or object''))"

text \<open>\<open>format!("{:?}", p)\<close>.\<close>

definition hex_digit :: "nat \<Rightarrow> char" where
  "hex_digit n = (if n < 10 then char_of (48 + n) else char_of (87 + n))"

definition escape_debug_char :: "char \<Rightarrow> string" where
  "escape_debug_char c =
     (let n = (of_char c :: nat) in
      if c = CHR 0x22 \<or> c = CHR 0x5C then [CHR 0x5C, c]
      else if n = 0 then [CHR 0x5C, CHR ''0'']
      else if n = 9 then [CHR 0x5C, CHR ''t'']
      else if n = 10 then [CHR 0x5C, CHR ''n'']
      else if n = 13 then [CHR 0x5C, CHR ''r'']
      else if n < 16 then [CHR 0x5C, CHR ''u'', CHR 0x7B, hex_digit n, CHR 0x7D]
      else if n < 32 \<or> n = 127 then
        [CHR 0x5C, CHR ''u'', CHR 0x7B, hex_digit (n div 16), hex_digit (n mod 16), CHR 0x7D]
      else [c])"

definition debug_str :: "string \<Rightarrow> string" where
  "debug_str s = CHR 0x22 # concat (map escape_debug_char s) @ [CHR 0x22]"

definition debug_principal :: "policy_principal \<Rightarrow> string" where
  "debug_principal p =
     (case p of
        PrincipalArn s \<Rightarrow> ''Arn('' @ debug_str s @ '')''
      | AccountRoot s \<Rightarrow> ''AccountRoot('' @ debug_str s @ '')''
      | ServicePrincipal s \<Rightarrow> ''Service('' @ debug_str s @ '')''
      | WildcardPrincipal \<Rightarrow> ''Wildcard''
      | FederatedPrincipal s \<Rightarrow> ''Federated('' @ debug_str s @ '')'')"

definition statement_principals :: "json \<Rightarrow> policy_parse_error + policy_principal list" where
  "statement_principals st =
     res_bind (ok_or (InvalidStatement ''statement must be an object'') (as_object st)) (\<lambda>stmt_obj.
       case obj_get stmt_obj ''Principal'' of
         Some principal_value \<Rightarrow> extract_principal_value principal_value
       | None \<Rightarrow> Inr [])"

definition extract_principals_from_value :: "json \<Rightarrow> policy_parse_error + policy_principal list" where
  "extract_principals_from_value v =
     res_bind (ok_or (MissingField ''root must be an object'') (as_object v)) (\<lambda>obj.
     res_bind (ok_or (MissingField ''Statement'') (Option.bind (obj_get obj ''Statement'') as_array)) (\<lambda>arr.
     res_bind (traverse statement_principals arr) (\<lambda>pss.
     Inr (sort_dedup debug_principal (concat pss)))))"

definition extract_principals_from_json :: "json_parser \<Rightarrow> string \<Rightarrow> policy_parse_error + policy_principal list" where
  "extract_principals_from_json pj tx = res_bind (map_err InvalidJson (pj tx)) extract_principals_from_value"

definition parse_resource_policy ::
  "json_parser \<Rightarrow> string \<Rightarrow> string \<Rightarrow> string \<Rightarrow> policy_parse_error + resource_policy" where
  "parse_resource_policy pj policy_json resource_arn service_type =
     res_bind (parse_policy pj policy_json) (\<lambda>p.
     res_bind (extract_principals_from_json pj policy_json) (\<lambda>principals.
     Inr \<lparr>rp_resource_arn = resource_arn, rp_service_type = service_type, rp_policy = p,
          rp_principals = principals\<rparr>))"

subsection \<open>The evaluator\<close>

datatype resource_policy_decision = DecisionAllow | DecisionDeny | ImplicitDeny

definition principal_matches :: "string \<Rightarrow> string \<Rightarrow> bool" where
  "principal_matches policy_principal principal_arn =
     (if policy_principal = ''*'' then True
      else if ends_with policy_principal '':root'' then
        (case (extract_account_from_arn policy_principal, extract_account_from_arn principal_arn) of
           (Some policy_account, Some principal_account) \<Rightarrow> policy_account = principal_account
         | _ \<Rightarrow> False)
      else policy_principal = principal_arn \<or>
        (str_contains policy_principal ''.amazonaws.com'' \<and> str_contains principal_arn policy_principal))"

definition prefix_wildcard_match :: "string \<Rightarrow> string \<Rightarrow> bool" where
  "prefix_wildcard_match pat v =
     (case split_once CHR ''*'' pat of Some (pre, _) \<Rightarrow> starts_with v pre | None \<Rightarrow> pat = v)"

definition matches_pattern :: "string \<Rightarrow> string \<Rightarrow> bool" where
  "matches_pattern pat v =
     (if pat = ''*'' then True
      else if CHR ''*'' \<notin> set pat then pat = v
      else prefix_wildcard_match pat v)"

definition resource_lists_match :: "resource_pattern list \<Rightarrow> resource_pattern list \<Rightarrow> string \<Rightarrow> bool" where
  "resource_lists_match ress not_ress target =
     (if ress \<noteq> [] then list_ex (\<lambda>r. matches_pattern (resource_pat r) target) ress
      else if not_ress \<noteq> [] then \<not> list_ex (\<lambda>r. matches_pattern (resource_pat r) target) not_ress
      else True)"

definition stmt_matches_action_and_resource :: "policy_statement \<Rightarrow> string \<Rightarrow> string \<Rightarrow> bool" where
  "stmt_matches_action_and_resource st act res =
     (let action_matches_stmt =
        (if actions st \<noteq> [] then list_ex (\<lambda>a. action_matches (action_pat a) act) (actions st)
         else if not_actions st \<noteq> [] then \<not> list_ex (\<lambda>a. action_matches (action_pat a) act) (not_actions st)
         else False)
      in action_matches_stmt \<and> resource_lists_match (resources st) (not_resources st) res)"

fun any_statement_matches :: "effect \<Rightarrow> policy_statement list \<Rightarrow> string \<Rightarrow> string \<Rightarrow> bool" where
  "any_statement_matches eff [] act res = False"
| "any_statement_matches eff (st # sts) act res =
     (if effect st = eff \<and> stmt_matches_action_and_resource st act res then True
      else any_statement_matches eff sts act res)"

fun has_deny_statement :: "parsed_policy list \<Rightarrow> string \<Rightarrow> string \<Rightarrow> bool" where
  "has_deny_statement [] act res = False"
| "has_deny_statement (p # ps) act res =
     (if any_statement_matches Deny (statements p) act res then True else has_deny_statement ps act res)"

fun has_allow_statement :: "parsed_policy list \<Rightarrow> string \<Rightarrow> string \<Rightarrow> bool" where
  "has_allow_statement [] act res = False"
| "has_allow_statement (p # ps) act res =
     (if any_statement_matches Allow (statements p) act res then True else has_allow_statement ps act res)"

definition has_deny_statement_for_principal :: "parsed_policy \<Rightarrow> string \<Rightarrow> string \<Rightarrow> string \<Rightarrow> bool" where
  "has_deny_statement_for_principal p act res principal_arn = any_statement_matches Deny (statements p) act res"

definition has_allow_statement_for_principal :: "parsed_policy \<Rightarrow> string \<Rightarrow> string \<Rightarrow> string \<Rightarrow> bool" where
  "has_allow_statement_for_principal p act res principal_arn = any_statement_matches Allow (statements p) act res"

definition evaluate_resource_policy_pair ::
  "string \<Rightarrow> string \<Rightarrow> string \<Rightarrow> parsed_policy list \<Rightarrow> parsed_policy option \<Rightarrow> string \<Rightarrow> string
     \<Rightarrow> resource_policy_decision" where
  "evaluate_resource_policy_pair act resource_arn principal_arn identity_policies resource_policy
       principal_account resource_account =
     (if has_deny_statement identity_policies act resource_arn then DecisionDeny
      else if (case resource_policy of
          Some p \<Rightarrow> has_deny_statement_for_principal p act resource_arn principal_arn
        | None \<Rightarrow> False) then DecisionDeny
      else
        let same_account = (principal_account = resource_account);
            identity_allows = has_allow_statement identity_policies act resource_arn;
            resource_allows = (case resource_policy of
                Some p \<Rightarrow> has_allow_statement_for_principal p act resource_arn principal_arn
              | None \<Rightarrow> False);
            access_allowed = (if same_account then identity_allows \<or> resource_allows
                              else identity_allows \<and> resource_allows)
        in if access_allowed then DecisionAllow else ImplicitDeny)"

subsection \<open>The debug text determines the principal\<close>

lemma hex_digit_inj: "a < 16 \<Longrightarrow> b < 16 \<Longrightarrow> hex_digit a = hex_digit b \<Longrightarrow> a = b"
  unfolding hex_digit_def
  by (auto split: if_splits dest!: arg_cong [where f = "of_char :: char \<Rightarrow> nat"])

lemma hex_digit_not_brace: "a < 16 \<Longrightarrow> hex_digit a \<noteq> CHR 0x7D"
  unfolding hex_digit_def
  by (auto split: if_splits dest!: arg_cong [where f = "of_char :: char \<Rightarrow> nat"])

lemma hex_pair_inj:
  assumes "(m :: nat) < 256" "n < 256" "hex_digit (m div 16) = hex_digit (n div 16)"
    "hex_digit (m mod 16) = hex_digit (n mod 16)"
  shows "m = n"
proof -
  have "m div 16 = n div 16" using assms by (intro hex_digit_inj) auto
  moreover have "m mod 16 = n mod 16" using assms by (intro hex_digit_inj) auto
  ultimately show ?thesis by (metis div_mult_mod_eq)
qed

lemma escape_cancel:
  assumes "escape_debug_char c @ s = escape_debug_char d @ t"
  shows "c = d \<and> s = t"
proof -
  define m n where "m = (of_char c :: nat)" and "n = (of_char d :: nat)"
  have lt: "m < 256" "n < 256" by (simp_all add: m_def n_def)
  have eq: "m = n \<longleftrightarrow> c = d" by (simp add: m_def n_def)
  have b: "hex_digit (k mod 16) \<noteq> CHR 0x7D" "hex_digit 15 \<noteq> CHR 0x7D" for k
    by (simp_all add: hex_digit_not_brace)
  have "m = n \<and> s = t"
    using assms lt unfolding escape_debug_char_def Let_def m_def [symmetric] n_def [symmetric]
    by (auto split: if_splits simp: eq [symmetric] b b [symmetric] dest: hex_digit_inj hex_pair_inj)
  then show ?thesis by (simp add: eq)
qed

lemma escape_head: "escape_debug_char c @ s \<noteq> CHR 0x22 # t"
  by (auto simp: escape_debug_char_def Let_def)

lemma escape_str_inj:
  "concat (map escape_debug_char xs) @ CHR 0x22 # s = concat (map escape_debug_char ys) @ CHR 0x22 # t
     \<Longrightarrow> xs = ys"
proof (induction xs arbitrary: ys)
  case Nil
  then show ?case using escape_head by (cases ys) (simp_all, metis)
next
  case (Cons x xs)
  show ?case
  proof (cases ys)
    case Nil
    then show ?thesis using Cons.prems escape_head [of x] by simp
  next
    case (Cons y ys')
    with Cons.prems have "escape_debug_char x @ (concat (map escape_debug_char xs) @ CHR 0x22 # s) =
        escape_debug_char y @ (concat (map escape_debug_char ys') @ CHR 0x22 # t)" by simp
    from escape_cancel [OF this] Cons.IH Cons show ?thesis by simp
  qed
qed

lemma debug_str_inj: "debug_str a = debug_str b \<Longrightarrow> a = b"
  using escape_str_inj [of a "[]" b "[]"] by (simp add: debug_str_def)

lemma debug_principal_inj: "inj debug_principal"
proof (rule injI)
  fix p q assume "debug_principal p = debug_principal q"
  then show "p = q"
    by (cases p; cases q) (auto simp: debug_principal_def dest: debug_str_inj)
qed

lemma set_principals:
  assumes "extract_principals_from_value v = Inr ps"
  shows "\<exists>obj arr pss. v = JObject obj \<and> obj_get obj ''Statement'' = Some (JArray arr) \<and>
    traverse statement_principals arr = Inr pss \<and> set ps = set (concat pss) \<and> distinct ps"
proof -
  have "distinct (sort_dedup debug_principal xs)" for xs
    by (rule distinct_sort_dedup) (rule inj_on_subset [OF debug_principal_inj subset_UNIV])
  then show ?thesis using assms
    by (auto simp: extract_principals_from_value_def res_iffs json_iffs bind_eq_Some_conv)
qed

subsection \<open>Lemmas on the evaluator\<close>

lemma any_statement_matches_iff:
  "any_statement_matches eff sts act res \<longleftrightarrow>
     (\<exists>st\<in>set sts. effect st = eff \<and> stmt_matches_action_and_resource st act res)"
  by (induction sts) auto

lemma has_statement_iffs:
  "has_deny_statement ps act res \<longleftrightarrow> (\<exists>p\<in>set ps. any_statement_matches Deny (statements p) act res)"
  "has_allow_statement ps act res \<longleftrightarrow> (\<exists>p\<in>set ps. any_statement_matches Allow (statements p) act res)"
  by (induction ps) auto

lemmas evaluator_defs = has_statement_iffs has_deny_statement_for_principal_def
  has_allow_statement_for_principal_def any_statement_matches_iff

lemma matches_pattern_eq: "matches_pattern pat v = action_matches_pattern pat v"
proof (cases "CHR ''*'' \<in> set pat")
  case True
  then obtain pre rest where "split_once CHR ''*'' pat = Some (pre, rest)"
    using split_once_None_iff [of "CHR ''*''" pat] by (cases "split_once CHR ''*'' pat") auto
  then show ?thesis using True
    by (auto simp: matches_pattern_def prefix_wildcard_match_def action_matches_pattern_def starts_with_iff
        split_once_Some_iff)
next
  case False
  then have "split_once CHR ''*'' pat = None" by (simp add: split_once_None_iff)
  then show ?thesis using False by (auto simp: matches_pattern_def action_matches_pattern_def)
qed

interpretation arn_prefix: matcher matches_pattern
  by unfold_locales (simp_all add: matches_pattern_eq action_matches_pattern_def)

lemma account_of_root:
  assumes "CHR '':'' \<notin> set acct" and "acct \<noteq> []"
  shows "extract_account_from_arn (''arn:aws:iam::'' @ acct @ '':root'') = Some acct"
proof -
  have "split_on CHR '':'' (acct @ '':root'') = [acct, ''root'']"
    using split_on_append [OF assms(1), of "''root''"] by simp
  then have "split_on CHR '':'' (''arn:aws:iam::'' @ acct @ '':root'') =
      [''arn'', ''aws'', ''iam'', [], acct, ''root'']" by simp
  then show ?thesis using assms(2) by (simp add: extract_account_from_arn_def Let_def)
qed

subsection \<open>Properties\<close>

text \<open>What a principal string means, and what the Principal field of a statement names.\<close>

inductive classifies_as :: "string \<Rightarrow> policy_principal \<Rightarrow> bool" where
  text_any: "classifies_as ''*'' WildcardPrincipal"
| text_root: "prefix ''arn:'' s \<Longrightarrow> suffix '':root'' s \<Longrightarrow> classifies_as s (AccountRoot s)"
| text_arn: "prefix ''arn:'' s \<Longrightarrow> \<not> suffix '':root'' s \<Longrightarrow> classifies_as s (PrincipalArn s)"
| text_service: "\<not> prefix ''arn:'' s \<Longrightarrow> sublist ''.amazonaws.com'' s \<Longrightarrow> classifies_as s (ServicePrincipal s)"
| text_other: "s \<noteq> ''*'' \<Longrightarrow> \<not> prefix ''arn:'' s \<Longrightarrow> \<not> sublist ''.amazonaws.com'' s \<Longrightarrow>
     classifies_as s (FederatedPrincipal s)"

inductive names_principal :: "json \<Rightarrow> policy_principal \<Rightarrow> bool" where
  names_text: "json_names v s \<Longrightarrow> classifies_as s p \<Longrightarrow> names_principal v p"
| names_aws: "obj_get obj ''AWS'' = Some v \<Longrightarrow> json_names v s \<Longrightarrow> classifies_as s p \<Longrightarrow>
     names_principal (JObject obj) p"
| names_service: "obj_get obj ''Service'' = Some v \<Longrightarrow> json_names v s \<Longrightarrow>
     names_principal (JObject obj) (ServicePrincipal s)"
| names_federated: "obj_get obj ''Federated'' = Some v \<Longrightarrow> json_names v s \<Longrightarrow>
     names_principal (JObject obj) (FederatedPrincipal s)"

inductive_simps names_principal_simps:
  "names_principal (JString s) p"
  "names_principal (JArray xs) p"
  "names_principal (JObject obj) p"

lemma parse_principal_string_classifies: "parse_principal_string s = p \<longleftrightarrow> classifies_as s p"
proof -
  have "\<not> sublist ''.amazonaws.com'' ''*''" "\<not> prefix ''arn:'' ''*''" by (simp_all add: sublist_code)
  then show ?thesis
    by (auto simp: parse_principal_string_def classifies_as.simps ends_with_iff starts_with_iff str_contains_iff)
qed

lemma strings_at_names: "s \<in> set (strings_at obj k) \<longleftrightarrow> (\<exists>v. obj_get obj k = Some v \<and> json_names v s)"
  by (cases "obj_get obj k") (simp_all add: strings_at_def extract_string_or_array_names)

lemma extract_principal_value_names:
  assumes "extract_principal_value v = Inr ps"
  shows "p \<in> set ps \<longleftrightarrow> names_principal v p"
proof (cases v)
  case (JObject obj)
  then have "ps = map parse_principal_string (strings_at obj ''AWS'') @
      map ServicePrincipal (strings_at obj ''Service'') @ map FederatedPrincipal (strings_at obj ''Federated'')"
    using assms by (simp add: extract_principal_value_def)
  then have "p \<in> set ps \<longleftrightarrow> (\<exists>s\<in>set (strings_at obj ''AWS''). classifies_as s p) \<or>
      p \<in> ServicePrincipal ` set (strings_at obj ''Service'') \<or>
      p \<in> FederatedPrincipal ` set (strings_at obj ''Federated'')"
    by (auto simp: parse_principal_string_classifies [symmetric])
  then show ?thesis unfolding JObject names_principal_simps image_iff Bex_def strings_at_names by auto
next
  case (JArray xs)
  have "extract_string_or_array v = List.map_filter as_str xs" by (simp add: JArray extract_string_or_array_def)
  then have "p \<in> set ps \<longleftrightarrow> (\<exists>s\<in>set (extract_string_or_array v). classifies_as s p)"
    using assms by (auto simp: JArray extract_principal_value_def parse_principal_string_classifies [symmetric])
  then show ?thesis by (auto simp: JArray names_principal_simps extract_string_or_array_names Bex_def)
qed (use assms in \<open>auto simp: extract_principal_value_def names_principal_simps
       parse_principal_string_classifies [symmetric]\<close>)

lemma statement_principals_names:
  assumes "statement_principals st = Inr ps"
  shows "p \<in> set ps \<longleftrightarrow>
    (\<exists>obj v. st = JObject obj \<and> obj_get obj ''Principal'' = Some v \<and> names_principal v p)"
  using assms extract_principal_value_names
  by (auto simp: statement_principals_def res_iffs json_iffs split: option.splits)

text \<open>C16: a parsed resource policy holds the policy the identity parser returns for the same text, and
  its principals are exactly those that the Principal fields of its statements name, each once: every
  string of a Principal that is a string or an array, and every string under AWS, Service and Federated of
  one that is an object. A string is the wildcard, an account root (an ARN that ends in \<open>:root\<close>), another
  ARN, a service (it holds \<open>.amazonaws.com\<close>) or, by default, a federated provider; under Service and
  Federated it is taken as it stands. Sorting by the
  debug text and removing neighbours removes every duplicate, because the text determines the
  principal.\<close>

theorem resource_policy_principals_exact:
  assumes "parse_resource_policy pj tx arn service = Inr rp"
  shows "parse_policy pj tx = Inr (rp_policy rp) \<and> distinct (rp_principals rp) \<and>
    (\<exists>doc sts. pj tx = Inr (JObject doc) \<and> obj_get doc ''Statement'' = Some (JArray sts) \<and>
       set (rp_principals rp) = {p. \<exists>st v. JObject st \<in> set sts \<and> obj_get st ''Principal'' = Some v \<and>
         names_principal v p})"
proof -
  from assms obtain v where p: "parse_policy pj tx = Inr (rp_policy rp)" "pj tx = Inr v"
    "extract_principals_from_value v = Inr (rp_principals rp)"
    by (auto simp: parse_resource_policy_def extract_principals_from_json_def res_iffs)
  obtain doc sts pss where o: "v = JObject doc" "obj_get doc ''Statement'' = Some (JArray sts)"
    "traverse statement_principals sts = Inr pss" "set (rp_principals rp) = set (concat pss)"
    "distinct (rp_principals rp)"
    using set_principals [OF p(3)] by blast
  have "set (concat pss) = {p. \<exists>st v. JObject st \<in> set sts \<and> obj_get st ''Principal'' = Some v \<and>
      names_principal v p}"
    using o(3) unfolding traverse_Inr_iff
  proof (induction rule: list_all2_induct)
    case (Cons st sts ps pss)
    have "set ps = {p. \<exists>obj v. st = JObject obj \<and> obj_get obj ''Principal'' = Some v \<and> names_principal v p}"
      using statement_principals_names [OF Cons.hyps(1)] by blast
    then show ?case using Cons.IH by fastforce
  qed simp
  then show ?thesis using p o by blast
qed

definition sample_bucket_policy :: json where
  "sample_bucket_policy = JObject
     [(''Statement'', JArray [JObject
         [(''Action'', JString ''s3:GetObject''), (''Effect'', JString ''Allow''),
          (''Principal'', JObject [(''AWS'', JArray [JString ''arn:aws:iam::111122223333:root'', JString ''*'',
             JString ''arn:aws:iam::111122223333:root'']),
             (''Federated'', JString ''arn:aws:iam::111122223333:saml-provider/sso''),
             (''Service'', JString ''s3.amazonaws.com'')]),
          (''Resource'', JString ''*'')]]),
      (''Version'', JString ''2012-10-17'')]"

theorem resource_policy_principals_exact_witness:
  "\<exists>rp. parse_resource_policy (\<lambda>_. Inr sample_bucket_policy) ''t'' ''arn:aws:s3:::b'' ''s3'' = Inr rp \<and>
     rp_principals rp = [AccountRoot ''arn:aws:iam::111122223333:root'',
       FederatedPrincipal ''arn:aws:iam::111122223333:saml-provider/sso'', ServicePrincipal ''s3.amazonaws.com'',
       WildcardPrincipal] \<and> distinct (rp_principals rp)"
proof -
  let ?r = "parse_resource_policy (\<lambda>_. Inr sample_bucket_policy) ''t'' ''arn:aws:s3:::b'' ''s3''"
  have "map_option rp_principals (case ?r of Inr rp \<Rightarrow> Some rp | Inl _ \<Rightarrow> None) =
      Some [AccountRoot ''arn:aws:iam::111122223333:root'',
       FederatedPrincipal ''arn:aws:iam::111122223333:saml-provider/sso'', ServicePrincipal ''s3.amazonaws.com'',
        WildcardPrincipal]" by code_simp
  then obtain rp where rp: "?r = Inr rp" "rp_principals rp =
      [AccountRoot ''arn:aws:iam::111122223333:root'',
       FederatedPrincipal ''arn:aws:iam::111122223333:saml-provider/sso'', ServicePrincipal ''s3.amazonaws.com'', WildcardPrincipal]"
    by (cases ?r) auto
  then show ?thesis using resource_policy_principals_exact [OF rp(1)] by blast
qed

text \<open>An account root in a policy stands for exactly the principals whose ARN carries that account,
  and \<open>*\<close> for all.\<close>

theorem account_root_matches_account:
  assumes "CHR '':'' \<notin> set acct" and "acct \<noteq> []"
  shows "principal_matches (''arn:aws:iam::'' @ acct @ '':root'') principal_arn =
      (extract_account_from_arn principal_arn = Some acct) \<and>
    account_id (parse_principal_string (''arn:aws:iam::'' @ acct @ '':root'')) = Some acct \<and>
    principal_matches ''*'' principal_arn"
proof -
  have "suffix '':root'' (''arn:aws:iam::'' @ acct @ '':root'')" by (simp add: suffix_def)
  moreover have "prefix ''arn:'' (''arn:aws:iam::'' @ acct @ '':root'')" by simp
  ultimately show ?thesis
    using account_of_root [OF assms]
    by (auto simp: principal_matches_def parse_principal_string_def account_id_def ends_with_iff starts_with_iff
        split: option.split)
qed

theorem account_root_matches_account_witness:
  "principal_matches ''arn:aws:iam::111122223333:root'' ''arn:aws:sts::111122223333:assumed-role/x/y'' \<and>
   \<not> principal_matches ''arn:aws:iam::111122223333:root'' ''arn:aws:iam::999922223333:role/x''"
proof -
  have "extract_account_from_arn ''arn:aws:sts::111122223333:assumed-role/x/y'' = Some ''111122223333''"
    "extract_account_from_arn ''arn:aws:iam::999922223333:role/x'' = Some ''999922223333''" by code_simp+
  then show ?thesis using account_root_matches_account [of "''111122223333''"] by simp
qed

definition policy_statements :: "parsed_policy option \<Rightarrow> policy_statement list" where
  "policy_statements p = (case p of None \<Rightarrow> [] | Some q \<Rightarrow> statements q)"

text \<open>The decision for a request. It is Deny exactly when some Deny statement of either side matches
  it; without one, it is Allow exactly when both sides allow it, or one of them does and the accounts are
  the same; an explicit deny always wins.\<close>

theorem resource_decision_table:
  "let decision = evaluate_resource_policy_pair act res prin ids rp principal_account resource_account;
       hit = (\<lambda>eff sts. \<exists>st\<in>set sts. effect st = eff \<and> stmt_matches_action_and_resource st act res);
       denied = hit Deny (all_statements ids) \<or> hit Deny (policy_statements rp);
       by_identity = hit Allow (all_statements ids);
       by_resource = hit Allow (policy_statements rp)
   in (decision = DecisionDeny) = denied \<and>
      (decision = DecisionAllow) = (\<not> denied \<and>
         (if principal_account = resource_account then by_identity \<or> by_resource
          else by_identity \<and> by_resource))"
  unfolding Let_def
  by (cases rp) (simp_all add: evaluate_resource_policy_pair_def evaluator_defs all_statements_def
      policy_statements_def Let_def)

text \<open>The decision does not depend on who the principal is, nor on the conditions of any statement:
  changing the principal's ARN and erasing all conditions of both policies gives the same decision.\<close>

theorem resource_decision_ignores_principal_and_conditions:
  "let strip = (\<lambda>p. p\<lparr>statements := map (\<lambda>st. st\<lparr>conditions := []\<rparr>) (statements p)\<rparr>) in
   evaluate_resource_policy_pair act res prin (map strip ids) (map_option strip rp) pa ra =
     evaluate_resource_policy_pair act res prin' ids rp pa ra"
proof -
  have m: "any_statement_matches eff (map (\<lambda>st. st\<lparr>conditions := []\<rparr>) sts) act res =
      any_statement_matches eff sts act res" for eff sts
    by (simp add: any_statement_matches_iff stmt_matches_action_and_resource_def)
  show ?thesis
    unfolding Let_def
    by (cases rp) (simp_all add: evaluate_resource_policy_pair_def has_statement_iffs
        has_deny_statement_for_principal_def has_allow_statement_for_principal_def m Let_def)
qed

end
