(* ===== verification/Federation.thy ===== *)
theory Federation
  imports Json
begin

section \<open>Federation trusts\<close>

text \<open>
  \<open>activable-iam-engine/src/federation.rs\<close>: the SAML and OIDC providers a role's trust policy trusts,
  the conditions on them and the weakness classification. Errors are strings, as in the code. The
  principals of one statement are collected SAML first, then OIDC.
\<close>

datatype federation_provider_type = Saml | Oidc

definition provider_type_str :: "federation_provider_type \<Rightarrow> string" where
  "provider_type_str t = (case t of Saml \<Rightarrow> ''SAML'' | Oidc \<Rightarrow> ''OIDC'')"

record federation_condition =
  fc_condition_key :: string
  fc_operator :: string
  fc_values :: "string list"

datatype federation_weakness =
    MissingAudience | MissingSubject | MissingAudienceAndSubject | WeakWildcardPrincipal | NoConditions

record federation_trust =
  ft_provider_arn :: string
  ft_provider_type :: federation_provider_type
  ft_role_arn :: string
  ft_conditions :: "federation_condition list"
  ft_weakness :: "federation_weakness option"

definition is_federation_principal :: "string \<Rightarrow> bool" where
  "is_federation_principal s \<longleftrightarrow> str_contains s ''saml-provider'' \<or> str_contains s ''oidc-provider''"

definition categorize_federation_principal ::
  "string \<Rightarrow> string list \<times> string list \<Rightarrow> string list \<times> string list" where
  "categorize_federation_principal p acc =
     (case acc of (saml, oidc) \<Rightarrow>
        if str_contains p ''saml-provider'' then (saml @ [p], oidc)
        else if str_contains p ''oidc-provider'' then (saml, oidc @ [p])
        else (saml, oidc))"

definition extract_federation_principals :: "json \<Rightarrow> string list \<times> string list" where
  "extract_federation_principals v =
     (case v of
        JString s \<Rightarrow>
          if is_federation_principal s then categorize_federation_principal s ([], []) else ([], [])
      | JObject obj \<Rightarrow>
          (case obj_get obj ''Federated'' of
             Some fed \<Rightarrow> fold categorize_federation_principal (extract_string_or_array fed) ([], [])
           | None \<Rightarrow> ([], []))
      | JArray arr \<Rightarrow>
          fold (\<lambda>item acc. case item of
              JString s \<Rightarrow> if is_federation_principal s then categorize_federation_principal s acc else acc
            | _ \<Rightarrow> acc) arr ([], [])
      | _ \<Rightarrow> ([], []))"

definition is_federation_condition_key :: "string \<Rightarrow> bool" where
  "is_federation_condition_key key \<longleftrightarrow>
     (if str_contains key ''SAML:'' then True
      else if str_contains key '':aud'' \<or> str_contains key '':sub'' \<or> str_contains key '':oid'' then True
      else False)"

definition operator_conditions :: "string \<times> json \<Rightarrow> federation_condition list" where
  "operator_conditions ob =
     (case as_object (snd ob) of
        Some operator_obj \<Rightarrow>
          concat (map (\<lambda>(key, values_value).
            if is_federation_condition_key key then
              let vs = extract_string_or_array values_value in
              if vs \<noteq> [] then [\<lparr>fc_condition_key = key, fc_operator = fst ob, fc_values = vs\<rparr>] else []
            else []) operator_obj)
      | None \<Rightarrow> [])"

definition extract_federation_conditions :: "(string \<times> json) list \<Rightarrow> federation_condition list" where
  "extract_federation_conditions condition_obj = concat (map operator_conditions condition_obj)"

definition detect_weakness ::
  "federation_condition list \<Rightarrow> federation_provider_type \<Rightarrow> federation_weakness option" where
  "detect_weakness conds provider_type =
     (if conds = [] then Some NoConditions
      else
        let has_audience = list_ex (\<lambda>c. str_contains (to_lowercase (fc_condition_key c)) '':aud'' \<or>
              str_contains (to_lowercase (fc_condition_key c)) '':audience'') conds;
            has_subject = list_ex (\<lambda>c. str_contains (to_lowercase (fc_condition_key c)) '':sub'' \<or>
              str_contains (to_lowercase (fc_condition_key c)) '':namequalifier'') conds
        in case (has_audience, has_subject) of
             (False, False) \<Rightarrow> Some MissingAudienceAndSubject
           | (False, True) \<Rightarrow> Some MissingAudience
           | (True, False) \<Rightarrow> Some MissingSubject
           | (True, True) \<Rightarrow> None)"

definition federation_statement :: "string \<Rightarrow> json \<Rightarrow> string + federation_trust list" where
  "federation_statement role_arn stmt =
     res_bind (ok_or ''Statement must be an object'' (as_object stmt)) (\<lambda>stmt_obj.
       let eff = (case get_str stmt_obj ''Effect'' of Some e \<Rightarrow> e | None \<Rightarrow> ''Allow'') in
       if eff \<noteq> ''Allow'' then Inr []
       else case obj_get stmt_obj ''Principal'' of
           None \<Rightarrow> Inr []
         | Some principal_value \<Rightarrow>
             (case extract_federation_principals principal_value of (saml, oidc) \<Rightarrow>
                let conds = (case Option.bind (obj_get stmt_obj ''Condition'') as_object of
                      Some o' \<Rightarrow> extract_federation_conditions o' | None \<Rightarrow> []);
                    trust = (\<lambda>ty arn. \<lparr>ft_provider_arn = arn, ft_provider_type = ty, ft_role_arn = role_arn,
                      ft_conditions = conds, ft_weakness = detect_weakness conds ty\<rparr>)
                in Inr (map (trust Saml) saml @ map (trust Oidc) oidc)))"

definition extract_federation_trusts ::
  "json_parser \<Rightarrow> string \<Rightarrow> string \<Rightarrow> string + federation_trust list" where
  "extract_federation_trusts pj trust_policy_json role_arn =
     res_bind (map_err (\<lambda>e. ''JSON parse error: '' @ e) (pj trust_policy_json)) (\<lambda>policy_value.
     res_bind (ok_or ''Trust policy must be a JSON object'' (as_object policy_value)) (\<lambda>policy_obj.
     res_bind (ok_or ''Statement array not found in trust policy''
         (Option.bind (obj_get policy_obj ''Statement'') as_array)) (\<lambda>sts.
     res_bind (traverse (federation_statement role_arn) sts) (\<lambda>tss.
     Inr (concat tss)))))"

definition find_weak_federation_trusts ::
  "json_parser \<Rightarrow> (string \<times> string) list \<Rightarrow> string + federation_trust list" where
  "find_weak_federation_trusts pj role_trust_policies =
     res_bind (traverse (\<lambda>(role_arn, policy_json). extract_federation_trusts pj policy_json role_arn)
         role_trust_policies) (\<lambda>tss.
     Inr (filter (\<lambda>t. ft_weakness t \<noteq> None) (concat tss)))"

subsection \<open>Lemmas\<close>

lemma fold_categorize:
  "fold categorize_federation_principal ss (saml, oidc) =
     (saml @ filter (\<lambda>s. str_contains s ''saml-provider'') ss,
      oidc @ filter (\<lambda>s. \<not> str_contains s ''saml-provider'' \<and> str_contains s ''oidc-provider'') ss)"
  by (induction ss arbitrary: saml oidc) (simp_all add: categorize_federation_principal_def)

text \<open>The strings of a Principal value that may name a provider.\<close>

definition provider_strings :: "json \<Rightarrow> string list" where
  "provider_strings v =
     (case v of
        JString s \<Rightarrow> [s]
      | JObject obj \<Rightarrow> (case obj_get obj ''Federated'' of Some fed \<Rightarrow> extract_string_or_array fed | None \<Rightarrow> [])
      | JArray arr \<Rightarrow> List.map_filter as_str arr
      | _ \<Rightarrow> [])"

lemma fold_array_principals:
  "fold (\<lambda>item acc. case item of
       JString s \<Rightarrow> if is_federation_principal s then categorize_federation_principal s acc else acc
     | _ \<Rightarrow> acc) arr acc = fold categorize_federation_principal (List.map_filter as_str arr) acc"
proof (induction arr arbitrary: acc)
  case (Cons v arr)
  have "(if is_federation_principal s then categorize_federation_principal s acc else acc)
      = categorize_federation_principal s acc" for s
    by (cases acc) (auto simp: is_federation_principal_def categorize_federation_principal_def)
  then show ?case using Cons by (cases v) (simp_all add: map_filter_simps)
qed (simp add: map_filter_simps)

lemma extract_federation_principals_eq:
  "extract_federation_principals v =
     (filter (\<lambda>s. str_contains s ''saml-provider'') (provider_strings v),
      filter (\<lambda>s. \<not> str_contains s ''saml-provider'' \<and> str_contains s ''oidc-provider'') (provider_strings v))"
  by (cases v) (auto simp: extract_federation_principals_def provider_strings_def fold_categorize
      fold_array_principals categorize_federation_principal_def is_federation_principal_def
      split: option.split)

text \<open>Which provider an ARN names, and which providers a statement trusts: it is not written as anything
  but Allow, and its Principal (a string or an array), or the Federated entry of it, names the ARN.\<close>

definition provider_of :: "string \<Rightarrow> federation_provider_type option" where
  "provider_of s =
     (if sublist ''saml-provider'' s then Some Saml
      else if sublist ''oidc-provider'' s then Some Oidc else None)"

definition trusts_provider :: "json \<Rightarrow> string \<Rightarrow> bool" where
  "trusts_provider st arn \<longleftrightarrow>
     (\<exists>members principal. st = JObject members \<and>
        \<not> (\<exists>e. obj_get members ''Effect'' = Some (JString e) \<and> e \<noteq> ''Allow'') \<and>
        obj_get members ''Principal'' = Some principal \<and>
        (json_names principal arn \<or>
         (\<exists>p fed. principal = JObject p \<and> obj_get p ''Federated'' = Some fed \<and> json_names fed arn)))"

text \<open>The strings of a condition value, in order, and the conditions of a statement that bear on
  federation: the keys under an operator of its Condition that name SAML, an audience, a subject or an
  object id and have at least one string.\<close>

definition lists_strings :: "json \<Rightarrow> string list \<Rightarrow> bool" where
  "lists_strings v ss \<longleftrightarrow>
     (\<exists>s. v = JString s \<and> ss = [s]) \<or>
     (\<exists>items. v = JArray items \<and> map JString ss = filter (\<lambda>i. \<exists>s. i = JString s) items)"

definition trust_conditions :: "json \<Rightarrow> federation_condition set" where
  "trust_conditions st =
     {c. \<exists>members operators keys v. st = JObject members \<and> obj_get members ''Condition'' = Some (JObject operators) \<and>
        (fc_operator c, JObject keys) \<in> set operators \<and> (fc_condition_key c, v) \<in> set keys \<and>
        (\<exists>mark\<in>{''SAML:'', '':aud'', '':sub'', '':oid''}. sublist mark (fc_condition_key c)) \<and>
        lists_strings v (fc_values c) \<and> fc_values c \<noteq> []}"

definition names_audience :: "federation_condition \<Rightarrow> bool" where
  "names_audience c \<longleftrightarrow> sublist '':aud'' (to_lowercase (fc_condition_key c))"

definition names_subject :: "federation_condition \<Rightarrow> bool" where
  "names_subject c \<longleftrightarrow> sublist '':sub'' (to_lowercase (fc_condition_key c)) \<or>
     sublist '':namequalifier'' (to_lowercase (fc_condition_key c))"

definition trust_weakness :: "federation_condition set \<Rightarrow> federation_weakness option" where
  "trust_weakness C =
     (if C = {} then Some NoConditions
      else if (\<forall>c\<in>C. \<not> names_audience c \<and> \<not> names_subject c) then Some MissingAudienceAndSubject
      else if (\<forall>c\<in>C. \<not> names_audience c) then Some MissingAudience
      else if (\<forall>c\<in>C. \<not> names_subject c) then Some MissingSubject
      else None)"

lemma detect_weakness_eq: "detect_weakness conds ty = trust_weakness (set conds)"
proof -
  have "sublist '':audience'' s \<Longrightarrow> sublist '':aud'' s" for s
    using sublist_order.order_trans [of "'':aud''" "'':audience''" s] by (simp add: sublist_code)
  then have "list_ex (\<lambda>c. str_contains (to_lowercase (fc_condition_key c)) '':aud'' \<or>
      str_contains (to_lowercase (fc_condition_key c)) '':audience'') conds \<longleftrightarrow> (\<exists>c\<in>set conds. names_audience c)"
    by (auto simp: names_audience_def list_ex_iff str_contains_iff)
  moreover have "list_ex (\<lambda>c. str_contains (to_lowercase (fc_condition_key c)) '':sub'' \<or>
      str_contains (to_lowercase (fc_condition_key c)) '':namequalifier'') conds \<longleftrightarrow> (\<exists>c\<in>set conds. names_subject c)"
    by (auto simp: names_subject_def list_ex_iff str_contains_iff)
  ultimately show ?thesis
    unfolding detect_weakness_def trust_weakness_def Let_def by (auto split: bool.split)
qed

lemma lists_strings_iff: "ss \<noteq> [] \<Longrightarrow> lists_strings v ss \<longleftrightarrow> extract_string_or_array v = ss"
proof -
  have "map JString (List.map_filter as_str items) = filter (\<lambda>i. \<exists>s. i = JString s) items" for items
  proof (induction items)
    case (Cons i items)
    then show ?case by (cases i) (simp_all add: map_filter_simps)
  qed (simp add: map_filter_simps)
  moreover have "map JString ss = map JString ss' \<longleftrightarrow> ss = ss'" for ss ss'
    by (auto intro: injI dest!: map_injective)
  ultimately show "ss \<noteq> [] \<Longrightarrow> lists_strings v ss \<longleftrightarrow> extract_string_or_array v = ss"
    by (cases v) (auto simp: lists_strings_def extract_string_or_array_def, metis+)
qed

lemma is_federation_condition_key_iff:
  "is_federation_condition_key k \<longleftrightarrow> (\<exists>mark\<in>{''SAML:'', '':aud'', '':sub'', '':oid''}. sublist mark k)"
  by (simp add: is_federation_condition_key_def str_contains_iff)

lemma operator_conditions_mem:
  "c \<in> set (operator_conditions (oper, v)) \<longleftrightarrow>
     (\<exists>keys w. v = JObject keys \<and> fc_operator c = oper \<and> (fc_condition_key c, w) \<in> set keys \<and>
        is_federation_condition_key (fc_condition_key c) \<and> lists_strings w (fc_values c) \<and> fc_values c \<noteq> [])"
proof (cases v)
  case (JObject keys)
  have "c \<in> set (operator_conditions (oper, v)) \<longleftrightarrow>
      (\<exists>(k, w)\<in>set keys. is_federation_condition_key k \<and> extract_string_or_array w \<noteq> [] \<and>
         c = \<lparr>fc_condition_key = k, fc_operator = oper, fc_values = extract_string_or_array w\<rparr>)"
    unfolding operator_conditions_def JObject by (auto simp: Let_def split: if_splits)
  also have "\<dots> \<longleftrightarrow> (\<exists>w. fc_operator c = oper \<and> (fc_condition_key c, w) \<in> set keys \<and>
      is_federation_condition_key (fc_condition_key c) \<and> extract_string_or_array w = fc_values c \<and> fc_values c \<noteq> [])"
    by (cases c) auto
  finally show ?thesis using lists_strings_iff by (auto simp: JObject)
qed (simp_all add: operator_conditions_def)

lemma statement_conditions:
  "set (case Option.bind (obj_get members ''Condition'') as_object of
      Some o' \<Rightarrow> extract_federation_conditions o' | None \<Rightarrow> []) = trust_conditions (JObject members)"
proof (cases "Option.bind (obj_get members ''Condition'') as_object")
  case None
  then show ?thesis by (auto simp: trust_conditions_def)
next
  case (Some ops)
  then have ops: "obj_get members ''Condition'' = Some (JObject ops)" by (auto simp: bind_eq_Some_conv json_iffs)
  have one_point: "(\<exists>oper v. (oper, v) \<in> set ops \<and> (\<exists>keys w. v = JObject keys \<and> name = oper \<and> Q keys w)) \<longleftrightarrow>
      (\<exists>keys w. (name, JObject keys) \<in> set ops \<and> Q keys w)" for name and Q :: "(string \<times> json) list \<Rightarrow> json \<Rightarrow> bool"
    by blast
  have "c \<in> set (extract_federation_conditions ops) \<longleftrightarrow> c \<in> trust_conditions (JObject members)" for c
  proof -
    have "c \<in> set (extract_federation_conditions ops) \<longleftrightarrow>
        (\<exists>oper v. (oper, v) \<in> set ops \<and> c \<in> set (operator_conditions (oper, v)))"
      by (auto simp: extract_federation_conditions_def)
    also have "\<dots> \<longleftrightarrow> (\<exists>keys w. (fc_operator c, JObject keys) \<in> set ops \<and> (fc_condition_key c, w) \<in> set keys \<and>
        is_federation_condition_key (fc_condition_key c) \<and> lists_strings w (fc_values c) \<and> fc_values c \<noteq> [])"
      unfolding operator_conditions_mem by (rule one_point)
    also have "\<dots> \<longleftrightarrow> c \<in> trust_conditions (JObject members)"
      by (simp only: trust_conditions_def mem_Collect_eq is_federation_condition_key_iff json.inject ops option.inject
          ex_simps simp_thms)
    finally show ?thesis .
  qed
  then show ?thesis using Some by auto
qed

lemma provider_strings_names:
  "s \<in> set (provider_strings v) \<longleftrightarrow> json_names v s \<or>
     (\<exists>p fed. v = JObject p \<and> obj_get p ''Federated'' = Some fed \<and> json_names fed s)"
proof (cases v)
  case (JObject p)
  then show ?thesis
    by (cases "obj_get p ''Federated''") (simp_all add: provider_strings_def extract_string_or_array_names)
qed (auto simp: provider_strings_def List.map_filter_def json_names_def json_iffs image_iff)

text \<open>What one statement contributes.\<close>

lemma federation_statement_image:
  assumes "federation_statement role st = Inr ts"
  shows "(\<lambda>t. (ft_provider_arn t, ft_provider_type t, ft_role_arn t, set (ft_conditions t), ft_weakness t)) ` set ts =
    {(arn, ty, role, trust_conditions st, trust_weakness (trust_conditions st)) | arn ty.
       trusts_provider st arn \<and> provider_of arn = Some ty}"
proof -
  obtain members where st: "st = JObject members"
    using assms by (auto simp: federation_statement_def res_iffs json_iffs)
  define conds where "conds = (case Option.bind (obj_get members ''Condition'') as_object of
      Some o' \<Rightarrow> extract_federation_conditions o' | None \<Rightarrow> [])"
  have C: "set conds = trust_conditions st" unfolding conds_def st by (rule statement_conditions)
  let ?trust = "\<lambda>ty arn. \<lparr>ft_provider_arn = arn, ft_provider_type = ty, ft_role_arn = role,
      ft_conditions = conds, ft_weakness = detect_weakness conds ty\<rparr>"
  have ts: "set ts = {?trust ty arn | ty arn. trusts_provider st arn \<and> provider_of arn = Some ty}"
  proof (cases "get_str members ''Effect'' \<in> {None, Some ''Allow''}")
    case False
    then have "ts = []" using assms by (auto simp: federation_statement_def st Let_def split: option.splits)
    moreover have "\<not> trusts_provider st arn" for arn
      using False by (auto simp: trusts_provider_def st get_str_Some_iff)
    ultimately show ?thesis by simp
  next
    case eff: True
    have allow: "\<not> (\<exists>e. obj_get members ''Effect'' = Some (JString e) \<and> e \<noteq> ''Allow'')"
      using eff by (auto simp: get_str_Some_iff [symmetric])
    show ?thesis
    proof (cases "obj_get members ''Principal''")
      case None
      then show ?thesis using assms eff
        by (auto simp: federation_statement_def st Let_def trusts_provider_def)
    next
      case (Some pv)
      have "ts = map (?trust Saml) (filter (\<lambda>s. str_contains s ''saml-provider'') (provider_strings pv)) @
          map (?trust Oidc) (filter (\<lambda>s. \<not> str_contains s ''saml-provider'' \<and> str_contains s ''oidc-provider'')
            (provider_strings pv))"
        using assms eff Some by (auto simp: federation_statement_def st Let_def extract_federation_principals_eq conds_def)
      moreover have "trusts_provider st arn \<longleftrightarrow> arn \<in> set (provider_strings pv)" for arn
        using allow Some by (simp add: trusts_provider_def st provider_strings_names)
      ultimately show ?thesis by (auto simp: provider_of_def str_contains_iff split: if_splits)
    qed
  qed
  show ?thesis unfolding ts C [symmetric] detect_weakness_eq by force
qed

lemma extract_federation_trusts_iff:
  "extract_federation_trusts pj tx role = Inr ts \<longleftrightarrow>
     (\<exists>obj arr tss. pj tx = Inr (JObject obj) \<and> obj_get obj ''Statement'' = Some (JArray arr) \<and>
        list_all2 (\<lambda>st ts. federation_statement role st = Inr ts) arr tss \<and> ts = concat tss)"
  by (auto simp: extract_federation_trusts_def res_iffs json_iffs bind_eq_Some_conv traverse_Inr_iff)

lemma list_all2_concat_image:
  assumes "list_all2 R xs yss" and "\<And>x ys. R x ys \<Longrightarrow> f ` set ys = F x"
  shows "f ` set (concat yss) = (\<Union>x\<in>set xs. F x)"
  using assms by (induction rule: list_all2_induct) (simp_all add: image_Un)

subsection \<open>Properties\<close>

text \<open>C17: the trusts of a role are exactly the SAML and OIDC providers that an Allow statement trusts
  (a missing Effect counts as Allow), each with the role's ARN, the conditions of that statement that bear
  on federation, and the weakness of those: no conditions at all, neither the audience nor the subject
  constrained, one of them not constrained, or none when some condition names the audience and some the
  subject.\<close>

theorem federation_trusts_exact:
  assumes "extract_federation_trusts pj tx role = Inr ts"
  shows "\<exists>doc sts. pj tx = Inr (JObject doc) \<and> obj_get doc ''Statement'' = Some (JArray sts) \<and>
    (\<lambda>t. (ft_provider_arn t, ft_provider_type t, ft_role_arn t, set (ft_conditions t), ft_weakness t)) ` set ts =
      {(arn, ty, role, trust_conditions st, trust_weakness (trust_conditions st)) | st arn ty.
         st \<in> set sts \<and> trusts_provider st arn \<and> provider_of arn = Some ty}"
proof -
  obtain doc sts tss where o: "pj tx = Inr (JObject doc)" "obj_get doc ''Statement'' = Some (JArray sts)"
    and l: "list_all2 (\<lambda>st ts. federation_statement role st = Inr ts) sts tss" and ts: "ts = concat tss"
    using assms unfolding extract_federation_trusts_iff by blast
  have "(\<lambda>t. (ft_provider_arn t, ft_provider_type t, ft_role_arn t, set (ft_conditions t), ft_weakness t)) ` set ts =
      (\<Union>st\<in>set sts. {(arn, ty, role, trust_conditions st, trust_weakness (trust_conditions st)) | arn ty.
         trusts_provider st arn \<and> provider_of arn = Some ty})"
    unfolding ts by (rule list_all2_concat_image [OF l]) (rule federation_statement_image)
  then show ?thesis by (intro exI [of _ doc] exI [of _ sts] conjI o) (simp only:, blast)
qed

definition sample_trust_policy :: json where
  "sample_trust_policy = JObject [(''Statement'', JArray [JObject
     [(''Condition'', JObject [(''StringEquals'',
         JObject [(''token.actions.githubusercontent.com:aud'', JString ''sts.amazonaws.com'')])]),
      (''Effect'', JString ''Allow''),
      (''Principal'', JObject [(''Federated'',
         JString ''arn:aws:iam::1:oidc-provider/token.actions.githubusercontent.com'')])]])]"

theorem federation_trusts_exact_witness:
  "\<exists>ts. extract_federation_trusts (\<lambda>_. Inr sample_trust_policy) [] ''role'' = Inr ts \<and>
     map ft_weakness ts = [Some MissingSubject] \<and> map (length \<circ> ft_conditions) ts = [1] \<and>
     (\<forall>t\<in>set ts. ft_role_arn t = ''role'')"
proof -
  let ?r = "extract_federation_trusts (\<lambda>_. Inr sample_trust_policy) [] ''role''"
  have "map_option (\<lambda>ts. (map ft_weakness ts, map (length \<circ> ft_conditions) ts))
      (case ?r of Inr ts \<Rightarrow> Some ts | Inl _ \<Rightarrow> None) = Some ([Some MissingSubject], [1])"
    by code_simp
  then obtain ts where ts: "?r = Inr ts" "map ft_weakness ts = [Some MissingSubject]"
    "map (length \<circ> ft_conditions) ts = [1]" by (cases ?r) auto
  have "\<forall>t\<in>set ts. ft_role_arn t = ''role''" using federation_trusts_exact [OF ts(1)] by blast
  with ts show ?thesis by (intro exI [of _ ts] conjI)
qed

text \<open>The classification looks at condition keys only. The operator and the values of the conditions
  and the provider type do not matter, so a negated operator such as \<open>StringNotEquals\<close> on the audience
  counts as an audience constraint; the weakness for wildcard principals is never reported, and a
  statement whose Principal is \<open>*\<close> yields no trust at all.\<close>

theorem weakness_ignores_operators_and_wildcards:
  "detect_weakness (map (\<lambda>c. c\<lparr>fc_operator := f c, fc_values := g c\<rparr>) conds) ty' = detect_weakness conds ty \<and>
   detect_weakness conds ty \<noteq> Some WeakWildcardPrincipal \<and>
   federation_statement role (JObject ((''Principal'', JString ''*'') # obj)) = Inr []"
proof (intro conjI)
  show "detect_weakness (map (\<lambda>c. c\<lparr>fc_operator := f c, fc_values := g c\<rparr>) conds) ty' = detect_weakness conds ty"
    by (simp add: detect_weakness_def list_ex_iff Let_def)
  show "detect_weakness conds ty \<noteq> Some WeakWildcardPrincipal"
    by (auto simp: detect_weakness_def Let_def split: bool.splits)
  have "\<not> is_federation_principal ''*''" by code_simp
  then show "federation_statement role (JObject ((''Principal'', JString ''*'') # obj)) = Inr []"
    by (simp add: federation_statement_def Let_def extract_federation_principals_def)
qed

end
