(* ===== verification/Abac.thy ===== *)
theory Abac
  imports Policy_Evaluators
begin

section \<open>Tag manipulation\<close>

text \<open>
  \<open>activable-iam-engine/src/abac.rs\<close>: the tags that policy conditions depend on, the tag actions a
  principal may use without a guard, and the risk level. The hash set of seen keys is a list.
\<close>

datatype tag_condition_type = PrincipalTag | ResourceTag | RequestTag

record tag_dependency =
  tag_key :: string
  condition_type :: tag_condition_type
  required_values :: "string list"

datatype tag_risk_level = RiskCritical | RiskHigh | RiskMedium | RiskNone

record tag_manipulation_risk =
  principal_can_self_tag :: bool
  tag_dependent_policies :: "string list"
  exploitable_tags :: "string list"
  risk_level :: tag_risk_level

definition TAG_MANIPULATION_ACTIONS :: "string list" where
  "TAG_MANIPULATION_ACTIONS =
     [''iam:TagUser'', ''iam:TagRole'', ''iam:TagPolicy'', ''iam:TagInstanceProfile'',
      ''iam:TagOpenIDConnectProvider'', ''iam:TagSAMLProvider'', ''iam:TagServerCertificate'',
      ''ec2:CreateTags'', ''ec2:DeleteTags'', ''s3:PutObjectTagging'', ''s3:PutBucketTagging'',
      ''lambda:TagResource'', ''rds:AddTagsToResource'', ''kms:TagResource'']"

definition extract_single_tag_dependency :: "string \<Rightarrow> string list \<Rightarrow> tag_dependency option" where
  "extract_single_tag_dependency key vals =
     (let lower_key = to_lowercase key in
      case strip_prefix lower_key ''aws:principaltag/'' of
        Some k \<Rightarrow> Some \<lparr>tag_key = k, condition_type = PrincipalTag, required_values = vals\<rparr>
      | None \<Rightarrow>
      (case strip_prefix lower_key ''aws:resourcetag/'' of
        Some k \<Rightarrow> Some \<lparr>tag_key = k, condition_type = ResourceTag, required_values = vals\<rparr>
      | None \<Rightarrow>
      (case strip_prefix lower_key ''aws:requesttag/'' of
        Some k \<Rightarrow> Some \<lparr>tag_key = k, condition_type = RequestTag, required_values = vals\<rparr>
      | None \<Rightarrow> None)))"

definition condition_type_str :: "tag_condition_type \<Rightarrow> string" where
  "condition_type_str t =
     (case t of PrincipalTag \<Rightarrow> ''PrincipalTag'' | ResourceTag \<Rightarrow> ''ResourceTag'' | RequestTag \<Rightarrow> ''RequestTag'')"

definition dependency_key :: "tag_dependency \<Rightarrow> string" where
  "dependency_key d = tag_key d @ '':'' @ condition_type_str (condition_type d)"

definition policy_conditions :: "parsed_policy list \<Rightarrow> condition list" where
  "policy_conditions ps = concat (map (\<lambda>p. concat (map conditions (statements p))) ps)"

fun collect_dependencies :: "condition list \<Rightarrow> string list \<Rightarrow> tag_dependency list" where
  "collect_dependencies [] seen = []"
| "collect_dependencies (c # cs) seen =
     (case extract_single_tag_dependency (cond_key c) (cond_values c) of
        None \<Rightarrow> collect_dependencies cs seen
      | Some d \<Rightarrow>
          if dependency_key d \<in> set seen then collect_dependencies cs seen
          else d # collect_dependencies cs (dependency_key d # seen))"

definition extract_tag_dependencies :: "parsed_policy list \<Rightarrow> tag_dependency list" where
  "extract_tag_dependencies ps = collect_dependencies (policy_conditions ps) []"

definition has_requesttag_guard :: "parsed_policy list \<Rightarrow> string \<Rightarrow> bool" where
  "has_requesttag_guard ps tag_action =
     list_ex (\<lambda>p. list_ex (\<lambda>st.
         let grants_action = list_ex (\<lambda>ap. action_matches (action_pat ap) tag_action) (actions st) in
         if \<not> grants_action then False
         else list_ex (\<lambda>c. str_contains (to_lowercase (cond_key c)) ''aws:requesttag'') (conditions st))
       (statements p)) ps"

fun unguarded_actions :: "string list \<Rightarrow> string list \<Rightarrow> parsed_policy list \<Rightarrow> string list" where
  "unguarded_actions [] effective_actions ps = []"
| "unguarded_actions (tag_action # rest) effective_actions ps =
     (let has_action = list_ex (\<lambda>ea. action_matches ea tag_action) effective_actions in
      if \<not> has_action then unguarded_actions rest effective_actions ps
      else if \<not> has_requesttag_guard ps tag_action
      then tag_action # unguarded_actions rest effective_actions ps
      else unguarded_actions rest effective_actions ps)"

definition detect_unguarded_tag_manipulation :: "string list \<Rightarrow> parsed_policy list \<Rightarrow> string list" where
  "detect_unguarded_tag_manipulation effective_actions ps =
     unguarded_actions TAG_MANIPULATION_ACTIONS effective_actions ps"

definition analyze_tag_manipulation_risk :: "string list \<Rightarrow> parsed_policy list \<Rightarrow> tag_manipulation_risk" where
  "analyze_tag_manipulation_risk effective_actions ps =
     (let tag_deps = extract_tag_dependencies ps;
          unguarded = detect_unguarded_tag_manipulation effective_actions ps;
          can_self_tag = (unguarded \<noteq> []);
          exploitable = (if can_self_tag
            then map tag_key (filter (\<lambda>d. condition_type d = PrincipalTag \<or> condition_type d = ResourceTag) tag_deps)
            else []);
          dependent = map tag_key tag_deps;
          level = (case (can_self_tag, tag_deps = [], dependent = []) of
              (False, _, _) \<Rightarrow> RiskNone
            | (True, a, b) \<Rightarrow> if a \<or> b then RiskMedium else RiskHigh)
      in \<lparr>principal_can_self_tag = can_self_tag, tag_dependent_policies = dependent,
          exploitable_tags = exploitable, risk_level = level\<rparr>)"

subsection \<open>Lemmas\<close>

lemma dependency_key_inj:
  "dependency_key d = dependency_key e \<longleftrightarrow> tag_key d = tag_key e \<and> condition_type d = condition_type e"
proof
  assume "dependency_key d = dependency_key e"
  then have "rev (dependency_key d) = rev (dependency_key e)" by simp
  then show "tag_key d = tag_key e \<and> condition_type d = condition_type e"
    by (cases "condition_type d"; cases "condition_type e")
       (simp_all add: dependency_key_def condition_type_str_def)
qed (simp add: dependency_key_def)

lemma collect_dependencies_keys:
  "set (map dependency_key (collect_dependencies cs seen)) =
     {dependency_key d | d. \<exists>c\<in>set cs. extract_single_tag_dependency (cond_key c) (cond_values c) = Some d}
       - set seen \<and>
   distinct (map dependency_key (collect_dependencies cs seen))"
proof (induction cs arbitrary: seen)
  case (Cons c cs)
  show ?case
  proof (cases "extract_single_tag_dependency (cond_key c) (cond_values c)")
    case None
    then show ?thesis using Cons.IH [of seen] by simp
  next
    case (Some d)
    then show ?thesis
      using Cons.IH [of seen] Cons.IH [of "dependency_key d # seen"] by (cases "dependency_key d \<in> set seen") auto
  qed
qed simp

lemma unguarded_actions_eq:
  "unguarded_actions ts eas ps =
     filter (\<lambda>t. (\<exists>ea\<in>set eas. action_matches ea t) \<and> \<not> has_requesttag_guard ps t) ts"
  by (induction ts) (simp_all add: list_ex_iff)

definition condition_prefix :: "tag_condition_type \<Rightarrow> string" where
  "condition_prefix t =
     (case t of PrincipalTag \<Rightarrow> ''aws:principaltag/'' | ResourceTag \<Rightarrow> ''aws:resourcetag/''
      | RequestTag \<Rightarrow> ''aws:requesttag/'')"

lemma single_dependency_iff:
  "extract_single_tag_dependency key vals = Some d \<longleftrightarrow>
     required_values d = vals \<and> to_lowercase key = condition_prefix (condition_type d) @ tag_key d"
proof -
  have ne: "strip_prefix (''aws:principaltag/'' @ k) ''aws:resourcetag/'' = None"
    "strip_prefix (''aws:requesttag/'' @ k) ''aws:resourcetag/'' = None"
    "strip_prefix (''aws:resourcetag/'' @ k) ''aws:principaltag/'' = None"
    "strip_prefix (''aws:requesttag/'' @ k) ''aws:principaltag/'' = None" for k
    by (simp_all add: strip_prefix_None_iff)
  have eq: "strip_prefix (p @ k) p = Some k" for p k by (simp add: strip_prefix_Some_iff)
  show ?thesis
  proof
    assume "extract_single_tag_dependency key vals = Some d"
    then show "required_values d = vals \<and> to_lowercase key = condition_prefix (condition_type d) @ tag_key d"
      by (auto simp: extract_single_tag_dependency_def Let_def strip_prefix_Some_iff condition_prefix_def
          split: option.splits)
  next
    assume "required_values d = vals \<and> to_lowercase key = condition_prefix (condition_type d) @ tag_key d"
    then show "extract_single_tag_dependency key vals = Some d"
      by (cases "condition_type d"; cases d)
         (simp_all only: extract_single_tag_dependency_def Let_def condition_prefix_def
           tag_condition_type.case tag_dependency.simps ne eq option.case)
  qed
qed

subsection \<open>Properties\<close>

text \<open>Every tag that a condition of some policy depends on is reported, for each of the three kinds
  of tag condition and up to case, and each pair of a tag and a kind is reported once.\<close>

theorem tag_dependencies_exact:
  "set (map (\<lambda>d. (condition_type d, tag_key d)) (extract_tag_dependencies ps)) =
     {(t, k). \<exists>p\<in>set ps. \<exists>st\<in>set (statements p). \<exists>c\<in>set (conditions st).
        to_lowercase (cond_key c) = condition_prefix t @ k} \<and>
   distinct (map (\<lambda>d. (condition_type d, tag_key d)) (extract_tag_dependencies ps))"
proof
  let ?f = "\<lambda>d. (condition_type d, tag_key d)" and ?ds = "extract_tag_dependencies ps"
  have keys: "dependency_key ` set ?ds = {dependency_key d | d.
      \<exists>c\<in>set (policy_conditions ps). extract_single_tag_dependency (cond_key c) (cond_values c) = Some d}"
    and dist: "distinct (map dependency_key ?ds)"
    using collect_dependencies_keys [of "policy_conditions ps" "[]"] by (simp_all add: extract_tag_dependencies_def)
  have mem: "(t, k) \<in> ?f ` set ?ds \<longleftrightarrow>
      (\<exists>c\<in>set (policy_conditions ps). to_lowercase (cond_key c) = condition_prefix t @ k)" for t k
  proof -
    let ?d = "\<lambda>vs. \<lparr>tag_key = k, condition_type = t, required_values = vs\<rparr>"
    have "(t, k) \<in> ?f ` set ?ds \<longleftrightarrow> dependency_key (?d []) \<in> dependency_key ` set ?ds"
      unfolding image_iff dependency_key_inj by auto
    also have "\<dots> \<longleftrightarrow> (\<exists>c\<in>set (policy_conditions ps).
        extract_single_tag_dependency (cond_key c) (cond_values c) = Some (?d (cond_values c)))"
      (is "_ \<longleftrightarrow> ?r")
    proof
      assume "dependency_key (?d []) \<in> dependency_key ` set ?ds"
      then show ?r unfolding keys mem_Collect_eq dependency_key_inj single_dependency_iff by auto
    next
      assume ?r
      then obtain c where "c \<in> set (policy_conditions ps)"
        "extract_single_tag_dependency (cond_key c) (cond_values c) = Some (?d (cond_values c))" by blast
      moreover have "dependency_key (?d []) = dependency_key (?d (cond_values c))"
        by (simp add: dependency_key_inj)
      ultimately show "dependency_key (?d []) \<in> dependency_key ` set ?ds" unfolding keys by blast
    qed
    also have "\<dots> \<longleftrightarrow> (\<exists>c\<in>set (policy_conditions ps). to_lowercase (cond_key c) = condition_prefix t @ k)"
      by (simp add: single_dependency_iff)
    finally show ?thesis .
  qed
  have "(\<exists>c\<in>set (policy_conditions ps). P c) \<longleftrightarrow>
      (\<exists>p\<in>set ps. \<exists>st\<in>set (statements p). \<exists>c\<in>set (conditions st). P c)" for P
    by (auto simp: policy_conditions_def)
  then show "set (map ?f ?ds) =
     {(t, k). \<exists>p\<in>set ps. \<exists>st\<in>set (statements p). \<exists>c\<in>set (conditions st).
        to_lowercase (cond_key c) = condition_prefix t @ k}"
    unfolding set_map set_eq_iff split_paired_All mem mem_Collect_eq prod.case by blast
  show "distinct (map ?f ?ds)"
    using dist unfolding distinct_map by (auto simp: inj_on_def dependency_key_inj)
qed

text \<open>The risk level is None when no tag action is held unguarded, Medium when one is but no policy
  depends on a tag, High otherwise, and never Critical; a tag action is unguarded when it is held and no
  statement listing it has a RequestTag condition. Statement effects play no part: turning every
  statement into an Allow or a Deny leaves the analysis as it is, so a Deny counts as a guarded grant.\<close>

theorem tag_risk_levels:
  "let unguarded = detect_unguarded_tag_manipulation eas ps;
       r = analyze_tag_manipulation_risk eas ps;
       g = (\<lambda>p. p\<lparr>statements := map (\<lambda>st. st\<lparr>effect := e\<rparr>) (statements p)\<rparr>)
   in unguarded = filter (\<lambda>t. (\<exists>ea\<in>set eas. action_matches ea t) \<and> \<not> has_requesttag_guard ps t)
        TAG_MANIPULATION_ACTIONS \<and>
      risk_level r = (if unguarded = [] then RiskNone
        else if extract_tag_dependencies ps = [] then RiskMedium else RiskHigh) \<and>
      principal_can_self_tag r = (unguarded \<noteq> []) \<and>
      set (exploitable_tags r) \<subseteq> set (tag_dependent_policies r) \<and>
      analyze_tag_manipulation_risk eas (map g ps) = r"
proof -
  let ?g = "\<lambda>p. p\<lparr>statements := map (\<lambda>st. st\<lparr>effect := e\<rparr>) (statements p)\<rparr>"
  have "policy_conditions (map ?g ps) = policy_conditions ps"
    by (induction ps) (simp_all add: policy_conditions_def comp_def)
  then have deps: "extract_tag_dependencies (map ?g ps) = extract_tag_dependencies ps"
    by (simp add: extract_tag_dependencies_def)
  have guard: "has_requesttag_guard (map ?g ps) t = has_requesttag_guard ps t" for t
    by (simp add: has_requesttag_guard_def list_ex_iff Let_def)
  then have "analyze_tag_manipulation_risk eas (map ?g ps) = analyze_tag_manipulation_risk eas ps"
    by (simp add: analyze_tag_manipulation_risk_def deps detect_unguarded_tag_manipulation_def
        unguarded_actions_eq)
  then show ?thesis
    by (auto simp: Let_def detect_unguarded_tag_manipulation_def unguarded_actions_eq
        analyze_tag_manipulation_risk_def)
qed

end
