(* ===== verification/Job_Store.thy ===== *)
theory Job_Store
  imports Json Complex_Main
begin

section \<open>The job store\<close>

text \<open>
  \<open>activable-scheduler/src/model.rs\<close>, \<open>schema.rs\<close> and \<open>store.rs\<close>. The \<open>jobs\<close> table is a list of rows
  (its physical order, which only decides ties of the claim query), each SQL statement one atomic
  operation on it, as PostgreSQL runs it under READ COMMITTED with the row locks the statement takes:
  \<open>now\<close> is the statement's time in microseconds, \<open>locked\<close> the rows other transactions hold locked
  (skipped by SKIP LOCKED), \<open>new_id\<close> the value of \<open>gen_random_uuid()\<close> and \<open>r\<close> that of \<open>random()\<close>.
  Connection errors are not modelled. The double precision backoff is computed in rationals.
\<close>

subsection \<open>Model types\<close>

datatype job_status = Pending | Running | Completed | Failed

definition job_status_as_str :: "job_status \<Rightarrow> string" where
  "job_status_as_str s =
     (case s of Pending \<Rightarrow> ''pending'' | Running \<Rightarrow> ''running'' | Completed \<Rightarrow> ''completed''
      | Failed \<Rightarrow> ''failed'')"

definition job_status_from_sql_str :: "string \<Rightarrow> job_status option" where
  "job_status_from_sql_str s =
     (if s = ''pending'' then Some Pending
      else if s = ''running'' then Some Running
      else if s = ''completed'' then Some Completed
      else if s = ''failed'' then Some Failed
      else None)"

type_synonym uuid = nat
type_synonym time = int

text \<open>A row has its status as text, a parsed job as a \<open>job_status\<close>.\<close>

record 'st job =
  job_id :: uuid
  job_type :: string
  payload :: json
  dedup_key :: "string option"
  status :: 'st
  attempts :: int
  max_attempts :: int
  priority :: int
  created_at :: time
  claimed_by :: "string option"
  claimed_at :: "time option"
  started_at :: "time option"
  finished_at :: "time option"
  heartbeat_at :: "time option"
  next_attempt_at :: "time option"
  last_error :: "string option"
  job_result :: "json option"
  run_at :: "time option"

type_synonym job_row = "string job"
type_synonym job_table = "job_row list"

datatype scheduler_error =
    PoolError string | DatabaseError string | RowParseError string | NotFound uuid | SchemaInitError string

definition parse_job_row :: "job_row \<Rightarrow> scheduler_error + job_status job" where
  "parse_job_row row =
     (case job_status_from_sql_str (status row) of
        None \<Rightarrow> Inl (RowParseError (''invalid status: '' @ status row))
      | Some st \<Rightarrow> Inr
          \<lparr>job_id = job_id row, job_type = job_type row, payload = payload row,
           dedup_key = dedup_key row, status = st, attempts = attempts row,
           max_attempts = max_attempts row, priority = priority row, created_at = created_at row,
           claimed_by = claimed_by row, claimed_at = claimed_at row, started_at = started_at row,
           finished_at = finished_at row, heartbeat_at = heartbeat_at row,
           next_attempt_at = next_attempt_at row, last_error = last_error row,
           job_result = job_result row, run_at = run_at row\<rparr>)"

subsection \<open>Backoff\<close>

text \<open>\<open>exponential_backoff_seconds\<close> in \<open>i32\<close>: \<open>None\<close> is an arithmetic overflow, which panics in a
  checked build. \<open>jitter\<close> is the value of \<open>gen_range(0..base)\<close>, called only when \<open>base\<close> is positive.\<close>

definition i32_max :: int where "i32_max = 2147483647"

definition exponential_backoff_seconds :: "int \<Rightarrow> int \<Rightarrow> (int \<Rightarrow> int) \<Rightarrow> int option" where
  "exponential_backoff_seconds attempts_in cap_seconds gen_range =
     (let a = min attempts_in 30;
          e = (if 0 \<le> a then a else a + 4294967296);
          p = (if e < 31 then Some ((2::int) ^ nat e) else None)
      in case p of None \<Rightarrow> None
         | Some pw \<Rightarrow>
             let base = min pw cap_seconds;
                 jitter = (if 0 < base then gen_range base else 0)
             in if base + jitter \<le> i32_max then Some (min (base + jitter) cap_seconds) else None)"

text \<open>The interval the \<open>fail\<close> statement adds, in microseconds.\<close>

definition backoff_us :: "rat \<Rightarrow> rat \<Rightarrow> int \<Rightarrow> int" where
  "backoff_us base r att = round (min (base * 2 ^ nat att + r * base) 3600 * 1000000)"

subsection \<open>Statements\<close>

definition active_row :: "job_row \<Rightarrow> bool" where
  "active_row row \<longleftrightarrow> status row = ''pending'' \<or> status row = ''running''"

definition dedup_conflict :: "job_table \<Rightarrow> string \<Rightarrow> string option \<Rightarrow> bool" where
  "dedup_conflict tbl jt dk \<longleftrightarrow>
     (case dk of
        None \<Rightarrow> False
      | Some k \<Rightarrow> list_ex (\<lambda>row. job_type row = jt \<and> dedup_key row = Some k \<and> active_row row) tbl)"

definition enqueue ::
  "job_table \<Rightarrow> time \<Rightarrow> uuid \<Rightarrow> string \<Rightarrow> json \<Rightarrow> string option \<Rightarrow> int \<Rightarrow> int
     \<Rightarrow> scheduler_error + (uuid option \<times> job_table)" where
  "enqueue tbl now new_id jt pl dk prio max_att =
     (if dedup_conflict tbl jt dk then Inr (None, tbl)
      else if list_ex (\<lambda>row. job_id row = new_id) tbl
      then Inl (DatabaseError ''duplicate key value violates unique constraint'')
      else Inr (Some new_id, tbl @
        [\<lparr>job_id = new_id, job_type = jt, payload = pl, dedup_key = dk, status = ''pending'',
          attempts = 0, max_attempts = max_att, priority = prio, created_at = now,
          claimed_by = None, claimed_at = None, started_at = None, finished_at = None,
          heartbeat_at = None, next_attempt_at = None, last_error = None, job_result = None,
          run_at = None\<rparr>]))"

definition claimable :: "time \<Rightarrow> uuid list \<Rightarrow> string list \<Rightarrow> job_row \<Rightarrow> bool" where
  "claimable now locked job_types row \<longleftrightarrow>
     status row = ''pending'' \<and> job_type row \<in> set job_types \<and>
     (case next_attempt_at row of None \<Rightarrow> True | Some t \<Rightarrow> t \<le> now) \<and>
     job_id row \<notin> set locked"

definition claim_key :: "job_row \<Rightarrow> int \<times> time" where
  "claim_key row = (priority row, created_at row)"

fun first_by :: "('a \<Rightarrow> 'k::linorder) \<Rightarrow> 'a list \<Rightarrow> 'a option" where
  "first_by f [] = None"
| "first_by f (x # xs) =
     (case first_by f xs of None \<Rightarrow> Some x | Some y \<Rightarrow> if f x \<le> f y then Some x else Some y)"

definition claim_update :: "time \<Rightarrow> string \<Rightarrow> job_row \<Rightarrow> job_row" where
  "claim_update now worker row = row\<lparr>status := ''running'', claimed_by := Some worker,
     claimed_at := Some now, started_at := Some now, attempts := attempts row + 1,
     heartbeat_at := Some now\<rparr>"

definition update_where :: "(job_row \<Rightarrow> bool) \<Rightarrow> (job_row \<Rightarrow> job_row) \<Rightarrow> job_table \<Rightarrow> job_table" where
  "update_where p f tbl = map (\<lambda>row. if p row then f row else row) tbl"

definition claim ::
  "job_table \<Rightarrow> time \<Rightarrow> uuid list \<Rightarrow> string list \<Rightarrow> string
     \<Rightarrow> scheduler_error + (job_status job option \<times> job_table)" where
  "claim tbl now locked job_types worker =
     (case first_by claim_key (filter (claimable now locked job_types) tbl) of
        None \<Rightarrow> Inr (None, tbl)
      | Some row \<Rightarrow>
          if i32_max < attempts row + 1 then Inl (DatabaseError ''integer out of range'')
          else res_bind (parse_job_row (claim_update now worker row)) (\<lambda>j.
            Inr (Some j, update_where (\<lambda>x. job_id x = job_id row) (claim_update now worker) tbl)))"

definition complete_update :: "time \<Rightarrow> json \<Rightarrow> job_row \<Rightarrow> job_row" where
  "complete_update now res row =
     row\<lparr>status := ''completed'', job_result := Some res, finished_at := Some now\<rparr>"

definition complete ::
  "job_table \<Rightarrow> time \<Rightarrow> uuid \<Rightarrow> json \<Rightarrow> scheduler_error + (job_status job \<times> job_table)" where
  "complete tbl now jid res =
     (case find (\<lambda>row. job_id row = jid) tbl of
        None \<Rightarrow> Inl (NotFound jid)
      | Some row \<Rightarrow> res_bind (parse_job_row (complete_update now res row)) (\<lambda>j.
          Inr (j, update_where (\<lambda>x. job_id x = jid) (complete_update now res) tbl)))"

definition fail_update :: "time \<Rightarrow> int \<Rightarrow> string \<Rightarrow> bool \<Rightarrow> job_row \<Rightarrow> job_row" where
  "fail_update now delay err retryable row =
     row\<lparr>status := (if status row = ''running'' \<and> retryable \<and> attempts row < max_attempts row then ''pending''
                   else if status row = ''running'' then ''failed'' else status row),
         next_attempt_at := (if status row = ''running'' \<and> retryable \<and> attempts row < max_attempts row
                   then Some (now + delay) else next_attempt_at row),
         last_error := Some err,
         finished_at := (if status row = ''running'' \<and> (\<not> retryable \<or> max_attempts row \<le> attempts row)
                   then Some now else finished_at row)\<rparr>"

definition fail ::
  "job_table \<Rightarrow> time \<Rightarrow> rat \<Rightarrow> rat \<Rightarrow> uuid \<Rightarrow> string \<Rightarrow> bool
     \<Rightarrow> scheduler_error + (job_status job \<times> job_table)" where
  "fail tbl now base r jid err retryable =
     (let upd = (\<lambda>row. fail_update now (backoff_us base r (attempts row)) err retryable row) in
      case find (\<lambda>row. job_id row = jid \<and> status row = ''running'') tbl of
        None \<Rightarrow> Inl (NotFound jid)
      | Some row \<Rightarrow> res_bind (parse_job_row (upd row)) (\<lambda>j.
          Inr (j, update_where (\<lambda>x. job_id x = jid \<and> status x = ''running'') upd tbl)))"

definition heartbeat_update :: "time \<Rightarrow> job_row \<Rightarrow> job_row" where
  "heartbeat_update now row = row\<lparr>heartbeat_at := Some now\<rparr>"

definition update_heartbeat :: "job_table \<Rightarrow> time \<Rightarrow> uuid \<Rightarrow> job_table" where
  "update_heartbeat tbl now jid =
     update_where (\<lambda>row. job_id row = jid \<and> status row = ''running'') (heartbeat_update now) tbl"

definition find_stale_running :: "job_table \<Rightarrow> time \<Rightarrow> string list \<Rightarrow> int \<Rightarrow> uuid list" where
  "find_stale_running tbl now job_types threshold_seconds =
     map job_id (filter (\<lambda>row. status row = ''running'' \<and> job_type row \<in> set job_types \<and>
       (case heartbeat_at row of None \<Rightarrow> False | Some t \<Rightarrow> t < now - threshold_seconds * 1000000)) tbl)"

subsection \<open>Configuration\<close>

record job_store_config =
  cfg_host :: string
  cfg_port :: nat
  cfg_user :: string
  cfg_password :: string
  cfg_dbname :: string
  cfg_pool_size :: nat
  cfg_backoff_base_seconds :: rat

text \<open>\<open>str::parse::<u16>()\<close>: an optional plus sign, then decimal digits, at most 65535.\<close>

definition parse_u16 :: "string \<Rightarrow> nat option" where
  "parse_u16 s =
     (let digits = (case s of c # rest \<Rightarrow> if c = CHR ''+'' then rest else s | [] \<Rightarrow> s) in
      if digits \<noteq> [] \<and> list_all is_ascii_digit digits \<and> read_nat digits \<le> 65535
      then Some (read_nat digits) else None)"

definition strip_scheme :: "string \<Rightarrow> string option" where
  "strip_scheme url =
     (case strip_prefix url ''postgres://'' of
        Some s \<Rightarrow> Some s
      | None \<Rightarrow> strip_prefix url ''postgresql://'')"

definition from_url :: "string \<Rightarrow> scheduler_error + job_store_config" where
  "from_url url =
     res_bind (ok_or (DatabaseError ''URL must start with postgres:// or postgresql://'') (strip_scheme url))
       (\<lambda>url_str.
     res_bind (ok_or (DatabaseError ''URL must contain @'') (split_once CHR ''@'' url_str)) (\<lambda>(auth, rest).
     res_bind (ok_or (DatabaseError ''auth section must contain :'') (split_once CHR '':'' auth))
       (\<lambda>(user, password).
     res_bind (ok_or (DatabaseError ''URL must contain /'') (split_once CHR ''/'' rest)) (\<lambda>(host_port, dbname).
     case (case split_once CHR '':'' host_port of Some hp \<Rightarrow> hp | None \<Rightarrow> (host_port, ''5432'')) of
       (host, port_str) \<Rightarrow>
     res_bind (ok_or (DatabaseError (''invalid port: '' @ port_str)) (parse_u16 port_str)) (\<lambda>port.
     Inr \<lparr>cfg_host = host, cfg_port = port, cfg_user = user, cfg_password = password, cfg_dbname = dbname,
          cfg_pool_size = 16, cfg_backoff_base_seconds = 2\<rparr>)))))"

subsection \<open>The table invariant\<close>

definition valid_row :: "job_row \<Rightarrow> bool" where
  "valid_row row \<longleftrightarrow>
     job_status_from_sql_str (status row) \<noteq> None \<and>
     0 \<le> attempts row \<and> attempts row \<le> max 1 (max_attempts row) \<and> max_attempts row \<le> i32_max \<and>
     (status row = ''pending'' \<longrightarrow> attempts row = 0 \<or> attempts row < max_attempts row) \<and>
     (status row = ''running'' \<longrightarrow> 0 < attempts row \<and> claimed_by row \<noteq> None \<and>
        started_at row \<noteq> None \<and> heartbeat_at row \<noteq> None) \<and>
     (status row = ''completed'' \<longrightarrow> job_result row \<noteq> None \<and> finished_at row \<noteq> None) \<and>
     (status row = ''failed'' \<longrightarrow> 0 < attempts row \<and> last_error row \<noteq> None \<and> finished_at row \<noteq> None)"

definition active_keys :: "job_table \<Rightarrow> (string \<times> string) list" where
  "active_keys tbl =
     map (\<lambda>row. (job_type row, the (dedup_key row)))
       (filter (\<lambda>row. active_row row \<and> dedup_key row \<noteq> None) tbl)"

text \<open>Ids are unique (the primary key), rows are consistent, and no two active rows share a job type and
  a deduplication key (the partial unique index).\<close>

definition table_ok :: "job_table \<Rightarrow> bool" where
  "table_ok tbl \<longleftrightarrow>
     distinct (map job_id tbl) \<and> list_all valid_row tbl \<and> distinct (active_keys tbl)"

lemma active_keys_simps [simp]:
  "active_keys [] = []"
  "active_keys (row # tbl) = (if active_row row \<and> dedup_key row \<noteq> None
     then (job_type row, the (dedup_key row)) # active_keys tbl else active_keys tbl)"
  "active_keys (t1 @ t2) = active_keys t1 @ active_keys t2"
  by (simp_all add: active_keys_def)

lemma table_ok_Nil [simp]: "table_ok []"
  by (simp add: table_ok_def)

lemma from_sql_str_cases:
  "job_status_from_sql_str s \<noteq> None \<longleftrightarrow> s = ''pending'' \<or> s = ''running'' \<or> s = ''completed'' \<or> s = ''failed''"
  by (simp add: job_status_from_sql_str_def)

text \<open>An UPDATE that changes the rows of a guard: it keeps ids and deduplication keys, activates no
  inactive row and keeps rows valid.\<close>

locale row_update =
  fixes guard :: "job_row \<Rightarrow> bool" and upd :: "job_row \<Rightarrow> job_row"
  assumes upd_id: "job_id (upd row) = job_id row"
    and upd_type: "job_type (upd row) = job_type row"
    and upd_key: "dedup_key (upd row) = dedup_key row"
    and upd_active: "guard row \<Longrightarrow> active_row (upd row) \<Longrightarrow> active_row row"
    and upd_valid: "guard row \<Longrightarrow> valid_row row \<Longrightarrow> valid_row (upd row)"
begin

lemma update_ids: "map job_id (update_where p upd tbl) = map job_id tbl"
  by (simp add: update_where_def upd_id)

lemma find_update:
  "find (\<lambda>x. job_id x = jid) (update_where p upd tbl) =
     map_option (\<lambda>x. if p x then upd x else x) (find (\<lambda>x. job_id x = jid) tbl)"
  by (induction tbl) (simp_all add: update_where_def upd_id)

lemma update_mem:
  "row \<in> set tbl \<Longrightarrow> (if p row then upd row else row) \<in> set (update_where p upd tbl)"
  by (auto simp: update_where_def)

lemma update_absent: "\<forall>row\<in>set tbl. \<not> p row \<Longrightarrow> update_where p upd tbl = tbl"
  by (simp add: update_where_def map_idI)

lemma update_active_keys:
  assumes "\<And>row. row \<in> set tbl \<Longrightarrow> p row \<Longrightarrow> guard row"
  shows "set (active_keys (update_where p upd tbl)) \<subseteq> set (active_keys tbl) \<and>
    (distinct (active_keys tbl) \<longrightarrow> distinct (active_keys (update_where p upd tbl)))"
  using assms
proof (induction tbl)
  case (Cons row tbl)
  let ?row = "if p row then upd row else row"
  have same: "job_type ?row = job_type row" "dedup_key ?row = dedup_key row"
    by (simp_all add: upd_type upd_key)
  have act: "active_row ?row \<Longrightarrow> active_row row" using Cons.prems upd_active by (simp split: if_splits)
  have "update_where p upd (row # tbl) = ?row # update_where p upd tbl" by (simp add: update_where_def)
  then have "active_keys (update_where p upd (row # tbl)) = (if active_row ?row \<and> dedup_key row \<noteq> None
      then (job_type row, the (dedup_key row)) # active_keys (update_where p upd tbl)
      else active_keys (update_where p upd tbl))"
    by (simp only: active_keys_simps same)
  then show ?case using Cons act by auto
qed (simp add: update_where_def)

lemma update_table_ok:
  assumes "table_ok tbl" and "\<And>row. row \<in> set tbl \<Longrightarrow> p row \<Longrightarrow> guard row"
  shows "table_ok (update_where p upd tbl)"
proof -
  have "list_all valid_row (update_where p upd tbl)"
    using assms upd_valid by (auto simp: table_ok_def update_where_def list_all_iff)
  then show ?thesis
    using assms(1) update_active_keys [of tbl p] assms(2) by (simp add: table_ok_def update_ids)
qed

end

interpretation claim_row: row_update
  "\<lambda>row. status row = ''pending''" "claim_update now worker" for now worker
  by unfold_locales
     (auto simp: claim_update_def active_row_def valid_row_def job_status_from_sql_str_def)

interpretation complete_row: row_update "\<lambda>row. True" "complete_update now res" for now res
  by unfold_locales
     (auto simp: complete_update_def active_row_def valid_row_def job_status_from_sql_str_def)

interpretation fail_row: row_update
  "\<lambda>row. status row = ''running''" "\<lambda>row. fail_update now (delay row) err retryable row"
  for now delay err retryable
  by unfold_locales
     (auto simp: fail_update_def active_row_def valid_row_def job_status_from_sql_str_def)

interpretation heartbeat_row: row_update "\<lambda>row. status row = ''running''" "heartbeat_update now" for now
  by unfold_locales (auto simp: heartbeat_update_def active_row_def valid_row_def)

subsection \<open>Lemmas on the statements\<close>

lemma dedup_conflict_iff:
  "dedup_conflict tbl jt dk \<longleftrightarrow> (\<exists>k. dk = Some k \<and> (jt, k) \<in> set (active_keys tbl))"
proof (cases dk)
  case (Some k)
  have "(jt, k) \<in> set (active_keys tbl) \<longleftrightarrow>
      (\<exists>row\<in>set tbl. job_type row = jt \<and> dedup_key row = Some k \<and> active_row row)"
    by (force simp: active_keys_def)
  then show ?thesis by (simp add: dedup_conflict_def Some list_ex_iff)
qed (simp add: dedup_conflict_def)

lemma enqueue_table_ok:
  assumes "table_ok tbl" and "max_att \<le> i32_max"
    and "enqueue tbl now new_id jt pl dk prio max_att = Inr (r, tbl')"
  shows "table_ok tbl'"
proof (cases "dedup_conflict tbl jt dk")
  case False
  then have no: "\<forall>k. dk = Some k \<longrightarrow> (jt, k) \<notin> set (active_keys tbl)" by (simp add: dedup_conflict_iff)
  from False assms(3) have id: "new_id \<notin> job_id ` set tbl"
    by (auto simp: enqueue_def list_ex_iff split: if_splits)
  show ?thesis
    using assms no id False
    by (auto simp: enqueue_def table_ok_def valid_row_def job_status_from_sql_str_def active_row_def
        list_ex_iff split: if_splits)
qed (use assms in \<open>auto simp: enqueue_def\<close>)

lemma first_by_None [simp]: "first_by f xs = None \<longleftrightarrow> xs = []"
  by (cases xs) (auto split: option.splits)

lemma first_by_Some: "first_by f xs = Some x \<Longrightarrow> x \<in> set xs \<and> (\<forall>y\<in>set xs. f x \<le> f y)"
proof (induction xs arbitrary: x)
  case (Cons a xs)
  show ?case
  proof (cases "first_by f xs")
    case None
    then show ?thesis using Cons.prems by simp
  next
    case (Some y)
    then show ?thesis using Cons by (auto split: if_splits intro: order_trans)
  qed
qed simp

lemma find_id:
  "table_ok tbl \<Longrightarrow> row \<in> set tbl \<Longrightarrow> find (\<lambda>x. job_id x = job_id row) tbl = Some row"
  by (induction tbl) (auto simp: table_ok_def rev_image_eqI split: if_splits)

lemma show_nat_nonempty [simp]: "show_nat n \<noteq> []"
  by (subst show_nat.simps) simp

lemma parse_u16_show: "n \<le> 65535 \<Longrightarrow> parse_u16 (show_nat n) = Some n"
proof -
  assume n: "n \<le> 65535"
  have "\<not> is_ascii_digit CHR ''+''" by code_simp
  then have "(case show_nat n of c # rest \<Rightarrow> if c = CHR ''+'' then rest else show_nat n | [] \<Rightarrow> show_nat n) = show_nat n"
    using show_nat_digits [of n] by (auto split: list.split)
  then show ?thesis
    using n show_nat_digits [of n] by (simp add: parse_u16_def Let_def read_show_nat list_all_iff)
qed

lemma from_url_roundtrip_aux:
  assumes "CHR '':'' \<notin> set user" "CHR ''@'' \<notin> set user" "CHR ''@'' \<notin> set pw"
    and "CHR '':'' \<notin> set host" "CHR ''/'' \<notin> set host" and "port \<le> 65535"
    and "scheme = ''postgres://'' \<or> scheme = ''postgresql://''"
  shows "from_url (scheme @ user @ '':'' @ pw @ ''@'' @ host @ '':'' @ show_nat port @ ''/'' @ db) =
    Inr \<lparr>cfg_host = host, cfg_port = port, cfg_user = user, cfg_password = pw, cfg_dbname = db,
         cfg_pool_size = 16, cfg_backoff_base_seconds = 2\<rparr>"
proof -
  let ?rest = "host @ '':'' @ show_nat port @ ''/'' @ db"
  have d: "CHR ''/'' \<notin> set (show_nat port)"
    using show_nat_digits [of port] by (auto simp: is_ascii_digit_def)
  have "strip_scheme (scheme @ user @ '':'' @ pw @ ''@'' @ ?rest) = Some (user @ '':'' @ pw @ ''@'' @ ?rest)"
    using assms(7) by (auto simp: strip_scheme_def strip_prefix_def starts_with_def)
  moreover have "split_once CHR ''@'' (user @ '':'' @ pw @ ''@'' @ ?rest) = Some (user @ '':'' @ pw, ?rest)"
    using assms(2,3) by (simp add: split_once_Some_iff)
  moreover have "split_once CHR '':'' (user @ '':'' @ pw) = Some (user, pw)"
    using assms(1) by (simp add: split_once_Some_iff)
  moreover have "split_once CHR ''/'' ?rest = Some (host @ '':'' @ show_nat port, db)"
    using assms(5) d by (simp add: split_once_Some_iff)
  moreover have "split_once CHR '':'' (host @ '':'' @ show_nat port) = Some (host, show_nat port)"
    using assms(4) by (simp add: split_once_Some_iff)
  ultimately show ?thesis
    by (simp only: from_url_def ok_or_simps res_bind_simps prod.case option.case parse_u16_show [OF assms(6)])
qed

lemma parse_job_row_iff:
  "parse_job_row row = Inr j \<longleftrightarrow>
     job_status_from_sql_str (status row) = Some (status j) \<and>
     j = \<lparr>job_id = job_id row, job_type = job_type row, payload = payload row, dedup_key = dedup_key row,
        status = status j, attempts = attempts row, max_attempts = max_attempts row,
        priority = priority row, created_at = created_at row, claimed_by = claimed_by row,
        claimed_at = claimed_at row, started_at = started_at row, finished_at = finished_at row,
        heartbeat_at = heartbeat_at row, next_attempt_at = next_attempt_at row,
        last_error = last_error row, job_result = job_result row, run_at = run_at row\<rparr>"
  by (cases j) (auto simp: parse_job_row_def split: option.splits)

lemma parse_valid: "valid_row row \<Longrightarrow> \<exists>j. parse_job_row row = Inr j"
  by (auto simp: parse_job_row_def valid_row_def)

lemma claim_cases:
  assumes "table_ok tbl"
  shows "(claim tbl now locked jts w = Inr (None, tbl) \<and> (\<forall>row\<in>set tbl. \<not> claimable now locked jts row)) \<or>
    (\<exists>row\<in>set tbl. \<exists>j. claimable now locked jts row \<and>
       (\<forall>other\<in>set tbl. claimable now locked jts other \<longrightarrow> claim_key row \<le> claim_key other) \<and>
       parse_job_row (claim_update now w row) = Inr j \<and>
       claim tbl now locked jts w =
         Inr (Some j, update_where (\<lambda>x. job_id x = job_id row) (claim_update now w) tbl))"
proof (cases "first_by claim_key (filter (claimable now locked jts) tbl)")
  case None
  then show ?thesis by (simp add: claim_def filter_empty_conv)
next
  case (Some row)
  from first_by_Some [OF Some] have row: "row \<in> set tbl" "claimable now locked jts row"
    and best: "\<forall>other\<in>set tbl. claimable now locked jts other \<longrightarrow> claim_key row \<le> claim_key other"
    by auto
  have v: "valid_row row" "status row = ''pending''"
    using row assms by (auto simp: table_ok_def list_all_iff claimable_def)
  then have "\<not> i32_max < attempts row + 1"
    by (auto simp: valid_row_def i32_max_def)
  moreover obtain j where "parse_job_row (claim_update now w row) = Inr j"
    using parse_valid claim_row.upd_valid [OF v(2,1)] by blast
  ultimately show ?thesis using row best Some by (auto simp: claim_def)
qed

lemma unique_row:
  "table_ok tbl \<Longrightarrow> a \<in> set tbl \<Longrightarrow> b \<in> set tbl \<Longrightarrow> job_id a = job_id b \<Longrightarrow> a = b"
  by (auto simp: table_ok_def distinct_map inj_on_def)

lemma claim_table_ok:
  assumes "table_ok tbl" and "claim tbl now locked jts w = Inr (r, tbl')"
  shows "table_ok tbl'"
  using claim_cases [OF assms(1), of now locked jts w]
proof (elim disjE bexE exE conjE)
  fix row j assume "row \<in> set tbl" "claimable now locked jts row"
    "claim tbl now locked jts w = Inr (Some j, update_where (\<lambda>x. job_id x = job_id row) (claim_update now w) tbl)"
  moreover from this have "status row = ''pending''" by (simp add: claimable_def)
  ultimately show ?thesis
    using assms claim_row.update_table_ok [OF assms(1), of "\<lambda>x. job_id x = job_id row"] unique_row [OF assms(1)]
    by force
qed (use assms in simp)

lemma complete_table_ok:
  assumes "table_ok tbl" and "complete tbl now jid res = Inr (j, tbl')"
  shows "table_ok tbl'"
  using assms(2) complete_row.update_table_ok [OF assms(1)]
  by (auto simp: complete_def res_iffs split: option.splits)

lemma fail_table_ok:
  assumes "table_ok tbl" and "fail tbl now base r jid err retryable = Inr (j, tbl')"
  shows "table_ok tbl'"
  using assms(2) fail_row.update_table_ok [OF assms(1), of "\<lambda>x. job_id x = jid \<and> status x = ''running''" now
      "\<lambda>row. backoff_us base r (attempts row)"]
  by (auto simp: fail_def Let_def res_iffs split: option.splits)

lemma heartbeat_table_ok: "table_ok tbl \<Longrightarrow> table_ok (update_heartbeat tbl now jid)"
  unfolding update_heartbeat_def by (rule heartbeat_row.update_table_ok) simp_all

lemmas store_table_ok = enqueue_table_ok claim_table_ok complete_table_ok fail_table_ok heartbeat_table_ok

lemma backoff_bounds:
  assumes "0 \<le> base" and "0 \<le> r"
  shows "0 \<le> backoff_us base r att \<and> backoff_us base r att \<le> 3600000000"
proof -
  let ?d = "min (base * 2 ^ nat att + r * base) 3600"
  have "0 \<le> ?d * 1000000" using assms by simp
  then have "0 \<le> backoff_us base r att" unfolding backoff_us_def by (metis round_0 round_mono)
  moreover have "?d * 1000000 \<le> of_int 3600000000" by simp
  then have "backoff_us base r att \<le> 3600000000" unfolding backoff_us_def by (metis round_mono round_of_int)
  ultimately show ?thesis by simp
qed

lemma backoff_mono: "0 \<le> base \<Longrightarrow> a \<le> b \<Longrightarrow> backoff_us base r a \<le> backoff_us base r b"
  unfolding backoff_us_def
  by (intro round_mono mult_right_mono min.mono add_right_mono mult_left_mono power_increasing) auto

lemma fail_running:
  assumes "table_ok tbl" and "row \<in> set tbl" and "status row = ''running''"
  shows "\<exists>j. fail tbl now base r (job_id row) err retryable =
      Inr (j, update_where (\<lambda>x. job_id x = job_id row \<and> status x = ''running'')
        (\<lambda>x. fail_update now (backoff_us base r (attempts x)) err retryable x) tbl) \<and>
    parse_job_row (fail_update now (backoff_us base r (attempts row)) err retryable row) = Inr j"
proof -
  have "find (\<lambda>x. job_id x = job_id row \<and> status x = ''running'') tbl = Some row"
  proof (cases "find (\<lambda>x. job_id x = job_id row \<and> status x = ''running'') tbl")
    case None
    then show ?thesis using assms by (auto simp: find_None_iff)
  next
    case (Some x)
    then have "x \<in> set tbl" "job_id x = job_id row" by (auto simp: find_Some_iff)
    then show ?thesis using unique_row [OF assms(1) _ assms(2)] Some by simp
  qed
  moreover have "valid_row row" using assms by (simp add: table_ok_def list_all_iff)
  ultimately show ?thesis
    using parse_valid [OF fail_row.upd_valid [OF assms(3)], of now "\<lambda>x. backoff_us base r (attempts x)" err retryable]
    by (auto simp: fail_def Let_def)
qed

lemma fail_not_running:
  "\<forall>row\<in>set tbl. job_id row = jid \<longrightarrow> status row \<noteq> ''running'' \<Longrightarrow>
     fail tbl now base r jid err retryable = Inl (NotFound jid)"
proof -
  assume "\<forall>row\<in>set tbl. job_id row = jid \<longrightarrow> status row \<noteq> ''running''"
  then have "find (\<lambda>x. job_id x = jid \<and> status x = ''running'') tbl = None" by (auto simp: find_None_iff)
  then show ?thesis by (simp add: fail_def)
qed

subsection \<open>Properties\<close>

lemma claim_key_le:
  "claim_key a \<le> claim_key b \<longleftrightarrow>
     priority a < priority b \<or> priority a = priority b \<and> created_at a \<le> created_at b"
  by (auto simp: claim_key_def less_eq_prod_def)

text \<open>What it means for a row to be due, as the scheduler promises it: pending, of a requested type, its
  retry time (if a failure set one) not in the future, and not held by a concurrent claim.\<close>

definition due_job :: "time \<Rightarrow> uuid list \<Rightarrow> string list \<Rightarrow> job_row \<Rightarrow> bool" where
  "due_job now locked types row \<longleftrightarrow>
     (\<exists>ty\<in>set types. job_type row = ty) \<and> status row = ''pending'' \<and>
     \<not> (\<exists>retry_at. next_attempt_at row = Some retry_at \<and> now < retry_at) \<and>
     \<not> (\<exists>held\<in>set locked. job_id row = held)"

lemma claimable_iff: "claimable now locked types row \<longleftrightarrow> due_job now locked types row"
  by (auto simp: claimable_def due_job_def not_less split: option.splits)

text \<open>C8: a claim never fails on a consistent table, in particular \<open>attempts + 1\<close> never overflows. It
  returns a job exactly when some row is due (\<open>due_job\<close>: pending, of a requested type, its retry time not
  in the future, not locked by another claim), and then one with the
  least priority and creation time among them; that row alone becomes running, owned by the worker,
  with its attempts increased by one.\<close>

theorem claim_takes_first_due_job:
  assumes "table_ok tbl"
  shows "(claim tbl now locked jts w = Inr (None, tbl) \<and> (\<forall>row\<in>set tbl. \<not> due_job now locked jts row)) \<or>
    (\<exists>row\<in>set tbl. \<exists>j. due_job now locked jts row \<and>
       (\<forall>other\<in>set tbl. due_job now locked jts other \<longrightarrow>
          priority row < priority other \<or> priority row = priority other \<and> created_at row \<le> created_at other) \<and>
       claim tbl now locked jts w =
         Inr (Some j, map (\<lambda>x. if x = row
           then x\<lparr>status := ''running'', claimed_by := Some w, claimed_at := Some now, started_at := Some now,
                  attempts := attempts x + 1, heartbeat_at := Some now\<rparr>
           else x) tbl) \<and>
       job_id j = job_id row \<and> status j = Running \<and> claimed_by j = Some w \<and>
       attempts j = attempts row + 1)"
proof (rule disjE [OF claim_cases [OF assms, of now locked jts w, unfolded claimable_iff]])
  assume "\<exists>row\<in>set tbl. \<exists>j. due_job now locked jts row \<and>
       (\<forall>other\<in>set tbl. due_job now locked jts other \<longrightarrow> claim_key row \<le> claim_key other) \<and>
       parse_job_row (claim_update now w row) = Inr j \<and>
       claim tbl now locked jts w =
         Inr (Some j, update_where (\<lambda>x. job_id x = job_id row) (claim_update now w) tbl)"
  then obtain row j where row: "row \<in> set tbl" "due_job now locked jts row"
    "\<forall>other\<in>set tbl. due_job now locked jts other \<longrightarrow> claim_key row \<le> claim_key other"
    and j: "parse_job_row (claim_update now w row) = Inr j"
    and c: "claim tbl now locked jts w =
         Inr (Some j, update_where (\<lambda>x. job_id x = job_id row) (claim_update now w) tbl)" by blast
  have "update_where (\<lambda>x. job_id x = job_id row) (claim_update now w) tbl =
      map (\<lambda>x. if x = row then claim_update now w x else x) tbl"
    unfolding update_where_def using unique_row [OF assms _ row(1)] by (intro map_cong) auto
  moreover have "job_id j = job_id row \<and> status j = Running \<and> claimed_by j = Some w \<and> attempts j = attempts row + 1"
    using j by (auto simp: parse_job_row_def claim_update_def job_status_from_sql_str_def)
  ultimately have c': "claim tbl now locked jts w =
         Inr (Some j, map (\<lambda>x. if x = row then claim_update now w x else x) tbl)"
      "job_id j = job_id row \<and> status j = Running \<and> claimed_by j = Some w \<and> attempts j = attempts row + 1"
    using c by simp_all
  show ?thesis
    using row(1,2) row(3) [unfolded claim_key_le] c' [unfolded claim_update_def]
    by (intro disjI2 bexI [of _ row] exI [of _ j] conjI) simp_all
qed simp

definition sample_table :: job_table where
  "sample_table =
     (case enqueue [] 5 1 ''ingest'' JNull (Some ''acct-1'') 10 3 of
        Inr (_, t) \<Rightarrow> (case enqueue t 7 2 ''ingest'' JNull None 0 2 of Inr (_, t') \<Rightarrow> t' | Inl _ \<Rightarrow> [])
      | Inl _ \<Rightarrow> [])"

lemma sample_table_ok: "table_ok sample_table"
proof -
  obtain t r where t: "enqueue [] 5 1 ''ingest'' JNull (Some ''acct-1'') 10 3 = Inr (r, t)"
    by (simp add: enqueue_def dedup_conflict_def)
  have "table_ok t" by (rule enqueue_table_ok [OF _ _ t]) (simp_all add: i32_max_def)
  obtain t' r' where t': "enqueue t 7 2 ''ingest'' JNull None 0 2 = Inr (r', t')"
    using t by (auto simp: enqueue_def dedup_conflict_def)
  have "table_ok t'" by (rule enqueue_table_ok [OF \<open>table_ok t\<close> _ t']) (simp add: i32_max_def)
  then show ?thesis by (simp only: sample_table_def t t' sum.case prod.case)
qed

theorem claim_takes_first_due_job_witness:
  "\<exists>row\<in>set sample_table. \<exists>j tbl'. claim sample_table 9 [] [''ingest''] ''w'' = Inr (Some j, tbl') \<and>
     job_id j = job_id row \<and> job_id j = 2 \<and> attempts j = attempts row + 1"
proof -
  have due: "(\<exists>row\<in>set sample_table. due_job 9 [] [''ingest''] row)"
    unfolding claimable_iff [symmetric] list_ex_iff [symmetric] by code_simp
  have two: "(case claim sample_table 9 [] [''ingest''] ''w'' of Inr (Some j, _) \<Rightarrow> job_id j = 2 | _ \<Rightarrow> False)"
    by code_simp
  from claim_takes_first_due_job [OF sample_table_ok, of 9 "[]" "[''ingest'']" "''w''"] show ?thesis
  proof (elim disjE bexE exE conjE)
    assume "\<forall>row\<in>set sample_table. \<not> due_job 9 [] [''ingest''] row"
    then show ?thesis using due by blast
  next
    fix row j f
    assume "row \<in> set sample_table" "job_id j = job_id row" "attempts j = attempts row + 1"
      "claim sample_table 9 [] [''ingest''] ''w'' = Inr (Some j, f)"
    with two show ?thesis by auto
  qed
qed

text \<open>Deduplication. With a fresh id, enqueueing is silently dropped exactly when a pending or running
  job of the same type has the same key, and otherwise appends one pending job with zero attempts and
  leaves every other job as it was; a job without a key is never dropped.\<close>

theorem enqueue_deduplicates:
  assumes "table_ok tbl" and "new_id \<notin> job_id ` set tbl" and "max_att \<le> i32_max"
  shows "\<exists>r tbl'. enqueue tbl now new_id jt pl dk prio max_att = Inr (r, tbl') \<and> table_ok tbl' \<and>
    (r = None) = (\<exists>row\<in>set tbl. job_type row = jt \<and> dk \<noteq> None \<and> dedup_key row = dk \<and>
       (status row = ''pending'' \<or> status row = ''running'')) \<and>
    (if r = None then tbl' = tbl
     else r = Some new_id \<and> (\<exists>row. tbl' = tbl @ [row] \<and> job_id row = new_id \<and> job_type row = jt \<and>
       payload row = pl \<and> dedup_key row = dk \<and> status row = ''pending'' \<and> attempts row = 0 \<and>
       max_attempts row = max_att \<and> priority row = prio))"
proof -
  let ?e = "enqueue tbl now new_id jt pl dk prio max_att"
  have nd: "\<not> list_ex (\<lambda>row. job_id row = new_id) tbl" using assms(2) by (auto simp: list_ex_iff)
  then obtain r tbl' where e: "?e = Inr (r, tbl')"
    by (cases "dedup_conflict tbl jt dk") (simp_all add: enqueue_def)
  have "dedup_conflict tbl jt dk = (\<exists>row\<in>set tbl. job_type row = jt \<and> dk \<noteq> None \<and> dedup_key row = dk \<and>
       (status row = ''pending'' \<or> status row = ''running''))"
    by (cases dk) (simp_all add: dedup_conflict_def list_ex_iff active_row_def)
  moreover have "(r = None) = dedup_conflict tbl jt dk" using e nd by (auto simp: enqueue_def split: if_splits)
  moreover have "if r = None then tbl' = tbl
     else r = Some new_id \<and> (\<exists>row. tbl' = tbl @ [row] \<and> job_id row = new_id \<and> job_type row = jt \<and>
       payload row = pl \<and> dedup_key row = dk \<and> status row = ''pending'' \<and> attempts row = 0 \<and>
       max_attempts row = max_att \<and> priority row = prio)"
    using e nd by (auto simp: enqueue_def split: if_splits)
  ultimately show ?thesis using e enqueue_table_ok [OF assms(1,3) e] by blast
qed

theorem enqueue_deduplicates_witness:
  "\<exists>tbl'. enqueue sample_table 11 3 ''ingest'' JNull (Some ''acct-1'') 0 5 = Inr (None, tbl') \<and> table_ok tbl'"
proof -
  have n: "\<not> list_ex (\<lambda>row. job_id row = 3) sample_table" by code_simp
  then have "(3::uuid) \<notin> job_id ` set sample_table" by (auto simp: list_ex_iff)
  then obtain r tbl' where e: "enqueue sample_table 11 3 ''ingest'' JNull (Some ''acct-1'') 0 5 = Inr (r, tbl')" "table_ok tbl'"
    using enqueue_deduplicates [OF sample_table_ok, of 3 5 11 "''ingest''" JNull "Some ''acct-1''" 0]
    by (auto simp: i32_max_def)
  have "(case enqueue sample_table 11 3 ''ingest'' JNull (Some ''acct-1'') 0 5 of Inr (None, _) \<Rightarrow> True | _ \<Rightarrow> False)"
    by code_simp
  with e show ?thesis by (cases r) auto
qed

text \<open>Failing a running job requeues it exactly when the error is retryable and attempts remain, due
  after the backoff, which lies between zero and one hour and never decreases with the attempts; otherwise
  the job becomes failed and finished. A job that is not running is not touched: the answer is NotFound.\<close>

theorem fail_requeues_or_finishes:
  assumes "table_ok tbl" and "row \<in> set tbl" and "0 \<le> base" and "0 \<le> r"
  shows "(if status row = ''running'' then
      \<exists>j tbl'. fail tbl now base r (job_id row) err retryable = Inr (j, tbl') \<and> table_ok tbl' \<and>
        job_id j = job_id row \<and> last_error j = Some err \<and> attempts j = attempts row \<and>
        (if retryable \<and> attempts row < max_attempts row
         then status j = Pending \<and> next_attempt_at j = Some (now + backoff_us base r (attempts row)) \<and>
           finished_at j = finished_at row
         else status j = Job_Store.Failed \<and> finished_at j = Some now)
    else fail tbl now base r (job_id row) err retryable = Inl (NotFound (job_id row))) \<and>
    0 \<le> backoff_us base r (attempts row) \<and> backoff_us base r (attempts row) \<le> 3600000000 \<and>
    backoff_us base r (attempts row) \<le> backoff_us base r (attempts row + 1)"
proof -
  have b: "0 \<le> backoff_us base r (attempts row) \<and> backoff_us base r (attempts row) \<le> 3600000000 \<and>
      backoff_us base r (attempts row) \<le> backoff_us base r (attempts row + 1)"
    using backoff_bounds [OF assms(3,4)] backoff_mono [OF assms(3), of "attempts row" "attempts row + 1"] by simp
  show ?thesis
  proof (cases "status row = ''running''")
    case True
    obtain j where f: "fail tbl now base r (job_id row) err retryable =
      Inr (j, update_where (\<lambda>x. job_id x = job_id row \<and> status x = ''running'')
        (\<lambda>x. fail_update now (backoff_us base r (attempts x)) err retryable x) tbl)"
      and p: "parse_job_row (fail_update now (backoff_us base r (attempts row)) err retryable row) = Inr j"
      using fail_running [OF assms(1,2) True] by blast
    have "job_id j = job_id row \<and> last_error j = Some err \<and> attempts j = attempts row \<and>
        (if retryable \<and> attempts row < max_attempts row
         then status j = Pending \<and> next_attempt_at j = Some (now + backoff_us base r (attempts row)) \<and>
           finished_at j = finished_at row
         else status j = Job_Store.Failed \<and> finished_at j = Some now)"
      using p True by (auto simp: parse_job_row_def fail_update_def job_status_from_sql_str_def)
    with True f fail_table_ok [OF assms(1) f] b show ?thesis by simp
  next
    case False
    have "fail tbl now base r (job_id row) err retryable = Inl (NotFound (job_id row))"
      using False unique_row [OF assms(1) _ assms(2)] by (intro fail_not_running) auto
    with False b show ?thesis by simp
  qed
qed

theorem fail_requeues_or_finishes_witness:
  "\<exists>tbl row j tbl'. row \<in> set tbl \<and> status row = ''running'' \<and>
     fail tbl 100 2 (1/2) (job_id row) ''boom'' True = Inr (j, tbl') \<and> status j = Pending"
proof -
  obtain j tbl where c: "claim sample_table 9 [] [''ingest''] ''w'' = Inr (Some j, tbl)"
    and run: "list_ex (\<lambda>row. status row = ''running'' \<and> attempts row < max_attempts row) tbl"
  proof -
    have "(case claim sample_table 9 [] [''ingest''] ''w'' of Inr (Some j, tbl) \<Rightarrow>
        list_ex (\<lambda>row. status row = ''running'' \<and> attempts row < max_attempts row) tbl | _ \<Rightarrow> False)" by code_simp
    then show ?thesis by (auto intro: that split: sum.splits prod.splits option.splits)
  qed
  have ok: "table_ok tbl" by (rule claim_table_ok [OF sample_table_ok c])
  obtain row where "row \<in> set tbl" "status row = ''running''" "attempts row < max_attempts row"
    using run by (auto simp: list_ex_iff)
  with fail_requeues_or_finishes [OF ok, of row 2 "1/2" 100 "''boom''" True] show ?thesis by auto
qed

text \<open>Completing a job checks neither its status nor its owner. Any job of the table, pending, failed
  or running for another worker, becomes completed with the caller's result, and stays recorded with the
  error and the owner it had; the answer is NotFound only for an id that is not in the table.\<close>

theorem complete_ignores_status_and_owner:
  assumes "table_ok tbl" and "row \<in> set tbl"
  shows "\<exists>j. complete tbl now (job_id row) res =
      Inr (j, map (\<lambda>x. if x = row then complete_update now res x else x) tbl) \<and>
    status j = Completed \<and> job_result j = Some res \<and> finished_at j = Some now \<and>
    claimed_by j = claimed_by row \<and> last_error j = last_error row \<and> attempts j = attempts row"
proof -
  have f: "find (\<lambda>x. job_id x = job_id row) tbl = Some row" by (rule find_id [OF assms])
  have "update_where (\<lambda>x. job_id x = job_id row) (complete_update now res) tbl =
      map (\<lambda>x. if x = row then complete_update now res x else x) tbl"
    unfolding update_where_def using unique_row [OF assms(1) _ assms(2)] by (intro map_cong) auto
  then show ?thesis
    using f by (simp add: complete_def parse_job_row_def complete_update_def job_status_from_sql_str_def)
qed

theorem complete_ignores_status_and_owner_witness:
  "\<exists>row j tbl'. row \<in> set sample_table \<and> status row = ''pending'' \<and> attempts row = 0 \<and>
     complete sample_table 9 (job_id row) JNull = Inr (j, tbl') \<and> status j = Completed"
proof -
  have "list_ex (\<lambda>row. status row = ''pending'' \<and> attempts row = 0) sample_table" by code_simp
  then obtain row where r: "row \<in> set sample_table" "status row = ''pending''" "attempts row = 0"
    by (auto simp: list_ex_iff)
  with complete_ignores_status_and_owner [OF sample_table_ok r(1), of 9 JNull] show ?thesis by blast
qed

text \<open>Connection URLs. Writing a configuration as a URL, with either scheme, and parsing it gives the
  same configuration, as long as the user has neither colon nor at sign, the password no at sign, and the
  host neither colon nor slash; the port is kept for the whole 16 bit range.\<close>

theorem from_url_roundtrip:
  assumes "CHR '':'' \<notin> set user" and "CHR ''@'' \<notin> set user" and "CHR ''@'' \<notin> set pw"
    and "CHR '':'' \<notin> set host" and "CHR ''/'' \<notin> set host" and "port \<le> 65535"
    and "scheme = ''postgres://'' \<or> scheme = ''postgresql://''"
  shows "from_url (scheme @ user @ '':'' @ pw @ ''@'' @ host @ '':'' @ show_nat port @ ''/'' @ db) =
    Inr \<lparr>cfg_host = host, cfg_port = port, cfg_user = user, cfg_password = pw, cfg_dbname = db,
         cfg_pool_size = 16, cfg_backoff_base_seconds = 2\<rparr>"
  by (rule from_url_roundtrip_aux [OF assms])

theorem from_url_roundtrip_witness:
  "\<exists>c. from_url (''postgresql://'' @ ''app'' @ '':'' @ ''p:w'' @ ''@'' @ ''db'' @ '':'' @ show_nat 5433 @ ''/'' @ ''jobs'') = Inr c
     \<and> cfg_password c = ''p:w'' \<and> cfg_port c = 5433"
  using from_url_roundtrip [of "''app''" "''p:w''" "''db''" 5433 "''postgresql://''" "''jobs''"] by simp

text \<open>The backoff helper does not overflow for any attempt count from zero up, although it adds a
  jitter as large as the base, and its result lies between the capped power of two and the cap.\<close>

theorem exponential_backoff_in_range:
  assumes "0 \<le> att" and "0 < cap" and "cap \<le> i32_max"
    and "\<forall>b>0. 0 \<le> gen b \<and> gen b < b"
  shows "\<exists>d. exponential_backoff_seconds att cap gen = Some d \<and>
    min (2 ^ nat (min att 30)) cap \<le> d \<and> d \<le> cap"
proof -
  define a where "a = min att 30"
  define base where "base = min ((2::int) ^ nat a) cap"
  have a: "0 \<le> a" "a \<le> 30" using assms(1) by (simp_all add: a_def)
  have "(2::int) ^ nat a \<le> 2 ^ 30" using a by (intro power_increasing) auto
  then have b: "0 < base" "base \<le> 1073741824" using assms(2) by (simp_all add: base_def)
  then have g: "0 \<le> gen base" "gen base < base" using assms(4) by auto
  then have "base + gen base \<le> i32_max" using b by (simp add: i32_max_def)
  then have "exponential_backoff_seconds att cap gen = Some (min (base + gen base) cap)"
    using a b by (simp add: exponential_backoff_seconds_def Let_def base_def a_def [symmetric])
  then show ?thesis using g by (auto simp: base_def a_def)
qed

theorem exponential_backoff_in_range_witness:
  "\<exists>d. exponential_backoff_seconds 3 600 (\<lambda>b. b - 1) = Some d \<and> 8 \<le> d \<and> d \<le> 600"
  using exponential_backoff_in_range [of 3 600 "\<lambda>b. b - 1"] by (simp add: i32_max_def)

end
