(* ===== verification/Scheduler.thy ===== *)
theory Scheduler
  imports Job_Store
begin

section \<open>Workers, reaper and the scheduler facade\<close>

text \<open>
  \<open>activable-scheduler/src/handler.rs\<close>, \<open>registry.rs\<close>, \<open>worker.rs\<close>, \<open>reaper.rs\<close> and \<open>scheduler.rs\<close>.
  Handlers are arguments: what a handler did with a job is a \<open>handler_outcome\<close>. The concurrent system is
  the sequence of atomic store operations its tasks run: an \<open>event\<close> is one of them, \<open>exec_event\<close> its
  effect on the table, on the jobs the workers hold and on the ids a reaper has read but not yet
  failed, and \<open>reachable\<close> closes over all interleavings.
\<close>

subsection \<open>Handlers and their registry\<close>

record job_error =
  retryable :: bool
  err_message :: string

datatype handler_outcome = HandlerOk json | HandlerErr job_error | Panicked | Cancelled

type_synonym handlers = "(string \<times> (json \<Rightarrow> handler_outcome)) list"

text \<open>The hash map from job types to handlers, as an association list with one entry per type.\<close>

definition register :: "handlers \<Rightarrow> string \<Rightarrow> (json \<Rightarrow> handler_outcome) \<Rightarrow> handlers" where
  "register hs jt h = filter (\<lambda>kh. fst kh \<noteq> jt) hs @ [(jt, h)]"

definition registered_types :: "handlers \<Rightarrow> string list" where
  "registered_types hs = map fst hs"

definition get_handler :: "handlers \<Rightarrow> string \<Rightarrow> (json \<Rightarrow> handler_outcome) option" where
  "get_handler hs jt = map_of hs jt"

subsection \<open>What a worker does with a claimed job\<close>

text \<open>The store operation after the handler has run (\<open>None\<close>: no handler for the type); a store error is
  logged and leaves the table as it is.\<close>

definition finish_job ::
  "job_table \<Rightarrow> time \<Rightarrow> rat \<Rightarrow> rat \<Rightarrow> uuid \<Rightarrow> handler_outcome option \<Rightarrow> job_table" where
  "finish_job tbl now base r jid outcome =
     (let after = (\<lambda>m. case m of Inr (j, tbl') \<Rightarrow> tbl' | Inl e \<Rightarrow> tbl) in
      case outcome of
        None \<Rightarrow> after (fail tbl now base r jid ''no handler found for job type'' False)
      | Some (HandlerOk out) \<Rightarrow> after (complete tbl now jid out)
      | Some (HandlerErr e) \<Rightarrow> after (fail tbl now base r jid (err_message e) (retryable e))
      | Some Panicked \<Rightarrow> after (fail tbl now base r jid ''handler panicked'' False)
      | Some Cancelled \<Rightarrow> tbl)"

text \<open>One pass of the worker's loop when nothing else runs: shutdown test, claim, dispatch, record.\<close>

definition worker_iteration ::
  "handlers \<Rightarrow> rat \<Rightarrow> bool \<Rightarrow> string \<Rightarrow> time \<Rightarrow> time \<Rightarrow> rat \<Rightarrow> job_table \<Rightarrow> bool \<times> job_table" where
  "worker_iteration hs base shutdown w now later r tbl =
     (if shutdown then (False, tbl)
      else case claim tbl now [] (registered_types hs) w of
          Inl e \<Rightarrow> (True, tbl)
        | Inr (None, tbl') \<Rightarrow> (True, tbl')
        | Inr (Some j, tbl') \<Rightarrow>
            (True, finish_job tbl' later base r (job_id j)
               (map_option (\<lambda>h. h (payload j)) (get_handler hs (job_type j)))))"

subsection \<open>The reaper\<close>

definition reap_one :: "time \<Rightarrow> rat \<Rightarrow> rat \<Rightarrow> uuid \<Rightarrow> nat \<times> job_table \<Rightarrow> nat \<times> job_table" where
  "reap_one now base r jid st =
     (case st of (reaped_count, tbl) \<Rightarrow>
        case fail tbl now base r jid ''stale heartbeat'' True of
          Inr (j, tbl') \<Rightarrow> (reaped_count + 1, tbl')
        | Inl e \<Rightarrow> (reaped_count, tbl))"

definition reaper_tick ::
  "string list \<Rightarrow> int \<Rightarrow> rat \<Rightarrow> (uuid \<Rightarrow> rat) \<Rightarrow> time \<Rightarrow> job_table \<Rightarrow> nat \<times> job_table" where
  "reaper_tick job_types threshold base rnd now tbl =
     fold (\<lambda>jid. reap_one now base (rnd jid) jid) (find_stale_running tbl now job_types threshold) (0, tbl)"

subsection \<open>The facade\<close>

record scheduler =
  sch_handlers :: handlers
  sch_concurrency :: nat
  sch_reap_threshold :: int
  sch_reaper_running :: bool
  sch_pool_shutdown :: bool
  sch_reaper_shutdown :: bool
  sch_workers :: nat

definition build :: "handlers \<Rightarrow> nat \<Rightarrow> int \<Rightarrow> scheduler_error + scheduler" where
  "build hs n threshold =
     (if hs = [] then Inl (DatabaseError ''no handlers registered with scheduler'')
      else Inr \<lparr>sch_handlers = hs, sch_concurrency = n, sch_reap_threshold = threshold,
        sch_reaper_running = False, sch_pool_shutdown = False, sch_reaper_shutdown = False,
        sch_workers = 0\<rparr>)"

definition start :: "scheduler \<Rightarrow> scheduler_error + scheduler" where
  "start sch =
     (if sch_reaper_running sch then Inl (DatabaseError ''scheduler already started'')
      else Inr (sch\<lparr>sch_workers := sch_workers sch + sch_concurrency sch, sch_reaper_running := True\<rparr>))"

definition shutdown :: "scheduler \<Rightarrow> scheduler" where
  "shutdown sch = sch\<lparr>sch_pool_shutdown := True, sch_workers := 0, sch_reaper_shutdown := True,
     sch_reaper_running := False\<rparr>"

subsection \<open>The concurrent system\<close>

record config =
  cfg_types :: "string list"
  cfg_threshold :: int
  cfg_base :: rat

record system =
  table :: job_table
  clock :: time
  working :: "string \<Rightarrow> uuid option"
  stale_ids :: "uuid list"

datatype event =
    Tick int
  | Enqueue uuid string json "string option" int int
  | Claim string "uuid list"
  | Heartbeat string
  | Finish string rat "handler_outcome option"
  | FindStale
  | Reap rat

definition init_system :: "time \<Rightarrow> system" where
  "init_system t = \<lparr>table = [], clock = t, working = (\<lambda>_. None), stale_ids = []\<rparr>"

fun exec_event :: "config \<Rightarrow> event \<Rightarrow> system \<Rightarrow> system option" where
  "exec_event cfg (Tick d) s = (if 0 \<le> d then Some (s\<lparr>clock := clock s + d\<rparr>) else None)"
| "exec_event cfg (Enqueue new_id jt pl dk prio max_att) s =
     (if i32_max < max_att then None
      else case enqueue (table s) (clock s) new_id jt pl dk prio max_att of
          Inr (r, tbl) \<Rightarrow> Some (s\<lparr>table := tbl\<rparr>)
        | Inl e \<Rightarrow> Some s)"
| "exec_event cfg (Claim w locked) s =
     (if working s w \<noteq> None then None
      else case claim (table s) (clock s) locked (cfg_types cfg) w of
          Inr (Some j, tbl) \<Rightarrow> Some (s\<lparr>table := tbl, working := (working s)(w := Some (job_id j))\<rparr>)
        | Inr (None, tbl) \<Rightarrow> Some (s\<lparr>table := tbl\<rparr>)
        | Inl e \<Rightarrow> Some s)"
| "exec_event cfg (Heartbeat w) s =
     (case working s w of
        None \<Rightarrow> None
      | Some jid \<Rightarrow> Some (s\<lparr>table := update_heartbeat (table s) (clock s) jid\<rparr>))"
| "exec_event cfg (Finish w r outcome) s =
     (case working s w of
        None \<Rightarrow> None
      | Some jid \<Rightarrow> Some (s\<lparr>table := finish_job (table s) (clock s) (cfg_base cfg) r jid outcome,
          working := (working s)(w := None)\<rparr>))"
| "exec_event cfg FindStale s =
     Some (s\<lparr>stale_ids := stale_ids s @
       find_stale_running (table s) (clock s) (cfg_types cfg) (cfg_threshold cfg)\<rparr>)"
| "exec_event cfg (Reap r) s =
     (case stale_ids s of
        [] \<Rightarrow> None
      | jid # rest \<Rightarrow> Some (s\<lparr>table := snd (reap_one (clock s) (cfg_base cfg) r jid (0, table s)),
          stale_ids := rest\<rparr>))"

fun run :: "config \<Rightarrow> event list \<Rightarrow> system \<Rightarrow> system option" where
  "run cfg [] s = Some s"
| "run cfg (e # es) s = Option.bind (exec_event cfg e s) (run cfg es)"

inductive reachable :: "config \<Rightarrow> (event \<Rightarrow> bool) \<Rightarrow> system \<Rightarrow> bool" for cfg allowed where
  reachable_init: "reachable cfg allowed (init_system t)"
| reachable_step: "reachable cfg allowed s \<Longrightarrow> allowed e \<Longrightarrow> exec_event cfg e s = Some s' \<Longrightarrow>
     reachable cfg allowed s'"

inductive_cases reachable_cases: "reachable cfg allowed s"

lemma run_reachable:
  "run cfg es s = Some s' \<Longrightarrow> list_all allowed es \<Longrightarrow> reachable cfg allowed s \<Longrightarrow> reachable cfg allowed s'"
  by (induction es arbitrary: s) (auto simp: bind_eq_Some_conv intro: reachable_step)

lemma reachable_any: "reachable cfg allowed s \<Longrightarrow> reachable cfg (\<lambda>_. True) s"
  by (induction rule: reachable.induct) (auto intro: reachable.intros)

subsection \<open>The table invariant of the system\<close>

lemma finish_job_table_ok: "table_ok tbl \<Longrightarrow> table_ok (finish_job tbl now base r jid outcome)"
  by (auto simp: finish_job_def Let_def split: option.split handler_outcome.split sum.split
      intro: complete_table_ok fail_table_ok)

lemma reap_one_table_ok: "table_ok tbl \<Longrightarrow> table_ok (snd (reap_one now base r jid (n, tbl)))"
  by (auto simp: reap_one_def split: sum.split intro: fail_table_ok)

lemma exec_event_table_ok:
  assumes "exec_event cfg e s = Some s'" and "table_ok (table s)"
  shows "table_ok (table s')"
proof (cases e)
  case (Enqueue new_id jt pl dk prio max_att)
  then show ?thesis using assms
    by (auto simp: not_less split: if_splits sum.splits intro: enqueue_table_ok [OF assms(2)])
next
  case (Claim w locked)
  show ?thesis
  proof (cases "claim (table s) (clock s) locked (cfg_types cfg) w")
    case (Inl err)
    then show ?thesis using assms Claim by (auto split: if_splits)
  next
    case (Inr mt)
    obtain m tbl where mt: "mt = (m, tbl)" by (cases mt)
    have "table_ok tbl" by (rule claim_table_ok [OF assms(2) Inr [unfolded mt]])
    then show ?thesis using assms(1) Claim Inr mt by (auto split: if_splits option.splits)
  qed
qed (use assms in \<open>auto split: if_splits option.splits list.splits
       intro: heartbeat_table_ok finish_job_table_ok reap_one_table_ok\<close>)

lemma reachable_table_ok: "reachable cfg allowed s \<Longrightarrow> table_ok (table s)"
  by (induction rule: reachable.induct) (auto simp: init_system_def intro: exec_event_table_ok)

subsection \<open>How often a job is claimed\<close>

definition row_attempts :: "job_table \<Rightarrow> uuid \<Rightarrow> int" where
  "row_attempts tbl jid = (case find (\<lambda>x. job_id x = jid) tbl of None \<Rightarrow> 0 | Some row \<Rightarrow> attempts row)"

definition claimed_job :: "config \<Rightarrow> system \<Rightarrow> event \<Rightarrow> uuid option" where
  "claimed_job cfg s e =
     (case e of
        Claim w locked \<Rightarrow>
          if working s w \<noteq> None then None
          else (case claim (table s) (clock s) locked (cfg_types cfg) w of
              Inr (Some j, tbl) \<Rightarrow> Some (job_id j) | _ \<Rightarrow> None)
      | _ \<Rightarrow> None)"

fun count_claims :: "config \<Rightarrow> uuid \<Rightarrow> event list \<Rightarrow> system \<Rightarrow> nat" where
  "count_claims cfg jid [] s = 0"
| "count_claims cfg jid (e # es) s =
     (case exec_event cfg e s of
        None \<Rightarrow> 0
      | Some s' \<Rightarrow> (if claimed_job cfg s e = Some jid then 1 else 0) + count_claims cfg jid es s')"

lemma find_append: "find P (xs @ ys) = (case find P xs of None \<Rightarrow> find P ys | Some x \<Rightarrow> Some x)"
  by (induction xs) auto

lemma row_attempts_complete:
  "complete tbl now k res = Inr (j, tbl') \<Longrightarrow> row_attempts tbl' jid = row_attempts tbl jid"
  by (auto simp: complete_def res_iffs row_attempts_def complete_row.find_update split: option.splits)
     (auto simp: complete_update_def)

lemma row_attempts_fail:
  "fail tbl now base r k err re = Inr (j, tbl') \<Longrightarrow> row_attempts tbl' jid = row_attempts tbl jid"
  using fail_row.find_update [where delay = "\<lambda>row. backoff_us base r (attempts row)" and now = now and err = err
      and retryable = re]
  by (auto simp: fail_def Let_def res_iffs row_attempts_def split: option.splits)
     (auto simp: fail_update_def)

lemma row_attempts_finish: "row_attempts (finish_job tbl now base r k outcome) jid = row_attempts tbl jid"
  by (auto simp: finish_job_def Let_def split: option.split handler_outcome.split sum.split
      intro: row_attempts_complete row_attempts_fail)

lemma row_attempts_reap: "row_attempts (snd (reap_one now base r k (n, tbl))) jid = row_attempts tbl jid"
  by (auto simp: reap_one_def split: sum.split intro: row_attempts_fail)

lemma row_attempts_heartbeat: "row_attempts (update_heartbeat tbl now k) jid = row_attempts tbl jid"
  by (auto simp: update_heartbeat_def row_attempts_def heartbeat_row.find_update heartbeat_update_def
      split: option.splits)

lemma row_attempts_enqueue:
  "enqueue tbl now new_id jt pl dk prio m = Inr (r, tbl') \<Longrightarrow> row_attempts tbl' jid = row_attempts tbl jid"
  by (auto simp: enqueue_def row_attempts_def find_append split: if_splits option.splits)

lemma row_attempts_claim:
  assumes "table_ok tbl" and "claim tbl now locked jts w = Inr (m, tbl')"
  shows "row_attempts tbl' jid = row_attempts tbl jid +
    (case m of Some j \<Rightarrow> if job_id j = jid then 1 else 0 | None \<Rightarrow> 0)"
  using claim_cases [OF assms(1), of now locked jts w]
proof (elim disjE bexE exE conjE)
  fix row j assume row: "row \<in> set tbl" and p: "parse_job_row (claim_update now w row) = Inr j"
    and c: "claim tbl now locked jts w =
      Inr (Some j, update_where (\<lambda>x. job_id x = job_id row) (claim_update now w) tbl)"
  have id: "job_id j = job_id row" using p by (auto simp: parse_job_row_def claim_update_def split: option.splits)
  have m: "m = Some j" "tbl' = update_where (\<lambda>x. job_id x = job_id row) (claim_update now w) tbl"
    using c assms(2) by simp_all
  show ?thesis
  proof (cases "jid = job_id row")
    case True
    then show ?thesis using find_id [OF assms(1) row] id
      by (simp add: m row_attempts_def claim_row.find_update claim_update_def)
  next
    case False
    then have "find (\<lambda>x. job_id x = jid) tbl = Some x \<Longrightarrow> job_id x \<noteq> job_id row" for x
      by (auto simp: find_Some_iff)
    then show ?thesis using False id
      by (auto simp: m row_attempts_def claim_row.find_update split: option.splits)
  qed
qed (use assms in simp)

lemma row_attempts_step:
  assumes "exec_event cfg e s = Some s'" and "table_ok (table s)"
  shows "row_attempts (table s') jid = row_attempts (table s) jid + (if claimed_job cfg s e = Some jid then 1 else 0)"
proof (cases e)
  case (Claim w locked)
  show ?thesis
  proof (cases "claim (table s) (clock s) locked (cfg_types cfg) w")
    case (Inl err)
    then show ?thesis using assms Claim by (auto simp: claimed_job_def split: if_splits)
  next
    case (Inr mt)
    obtain m tbl where mt: "mt = (m, tbl)" by (cases mt)
    with row_attempts_claim [OF assms(2) Inr [unfolded mt], of jid] assms(1) Claim Inr show ?thesis
      by (auto simp: claimed_job_def split: if_splits option.splits)
  qed
qed (use assms in \<open>auto simp: claimed_job_def row_attempts_finish row_attempts_reap row_attempts_heartbeat
      split: if_splits option.splits list.splits sum.splits dest: row_attempts_enqueue\<close>)

lemma count_claims_attempts:
  "run cfg es s = Some s' \<Longrightarrow> table_ok (table s) \<Longrightarrow>
     row_attempts (table s') jid = row_attempts (table s) jid + int (count_claims cfg jid es s)"
proof (induction es arbitrary: s)
  case (Cons e es)
  then obtain s1 where s1: "exec_event cfg e s = Some s1" "run cfg es s1 = Some s'"
    by (auto simp: bind_eq_Some_conv)
  show ?case
    using Cons.IH [OF s1(2) exec_event_table_ok [OF s1(1) Cons.prems(2)]] row_attempts_step [OF s1(1) Cons.prems(2)] s1
    by simp
qed simp

subsection \<open>Ownership while no reaper runs\<close>

definition no_reaping :: "event \<Rightarrow> bool" where
  "no_reaping e = (case e of FindStale \<Rightarrow> False | Reap r \<Rightarrow> False | _ \<Rightarrow> True)"

definition owned_row :: "job_row \<Rightarrow> uuid \<Rightarrow> string \<Rightarrow> bool" where
  "owned_row row jid w \<longleftrightarrow> job_id row = jid \<and> status row = ''running'' \<and> claimed_by row = Some w"

definition holds_owned :: "system \<Rightarrow> bool" where
  "holds_owned s \<longleftrightarrow> (\<forall>w jid. working s w = Some jid \<longrightarrow> (\<exists>row\<in>set (table s). owned_row row jid w))"

lemma holds_ownedD:
  "holds_owned s \<Longrightarrow> working s w = Some jid \<Longrightarrow> \<exists>row\<in>set (table s). owned_row row jid w"
  by (simp add: holds_owned_def)

lemma keeps_untouched: "row \<in> set tbl \<Longrightarrow> \<not> p row \<Longrightarrow> row \<in> set (update_where p f tbl)"
  by (auto simp: update_where_def)

lemma finish_job_other:
  assumes "row \<in> set tbl" and "job_id row \<noteq> jid"
  shows "row \<in> set (finish_job tbl now base r jid outcome)"
proof -
  have c: "complete tbl now jid res = Inr (j, tbl') \<Longrightarrow> row \<in> set tbl'" for res j tbl'
    using assms by (auto simp: complete_def res_iffs split: option.splits intro!: keeps_untouched)
  have f: "fail tbl now base r jid err re = Inr (j, tbl') \<Longrightarrow> row \<in> set tbl'" for err re j tbl'
    using assms by (auto simp: fail_def Let_def res_iffs split: option.splits intro!: keeps_untouched)
  show ?thesis
    using assms by (auto simp: finish_job_def Let_def split: option.split handler_outcome.split sum.split
        intro: c f)
qed

lemma heartbeat_keeps_owned:
  "\<exists>row\<in>set tbl. owned_row row jid w \<Longrightarrow> \<exists>row\<in>set (update_heartbeat tbl now k). owned_row row jid w"
proof -
  assume "\<exists>row\<in>set tbl. owned_row row jid w"
  then obtain row where row: "row \<in> set tbl" "owned_row row jid w" by blast
  let ?p = "\<lambda>row. job_id row = k \<and> status row = ''running''"
  let ?row = "if ?p row then heartbeat_update now row else row"
  have "?row \<in> set (update_heartbeat tbl now k)"
    unfolding update_heartbeat_def by (rule heartbeat_row.update_mem [OF row(1)])
  moreover have "owned_row ?row jid w" using row(2) by (simp add: owned_row_def heartbeat_update_def)
  ultimately show "\<exists>row\<in>set (update_heartbeat tbl now k). owned_row row jid w" by blast
qed

lemma enqueue_keeps: "enqueue tbl now k jt pl dk prio m = Inr (r, tbl') \<Longrightarrow> row \<in> set tbl \<Longrightarrow> row \<in> set tbl'"
  by (auto simp: enqueue_def split: if_splits)

lemma owned_claim:
  assumes "table_ok tbl" and "claim tbl now locked jts w = Inr (m, tbl')"
  shows "(\<forall>row\<in>set tbl. owned_row row jid w' \<longrightarrow> row \<in> set tbl') \<and>
    (\<forall>j. m = Some j \<longrightarrow> (\<exists>row\<in>set tbl'. owned_row row (job_id j) w))"
  using claim_cases [OF assms(1), of now locked jts w]
proof (elim disjE bexE exE conjE)
  fix row j assume row: "row \<in> set tbl" "claimable now locked jts row"
    and p: "parse_job_row (claim_update now w row) = Inr j"
    and c: "claim tbl now locked jts w =
      Inr (Some j, update_where (\<lambda>x. job_id x = job_id row) (claim_update now w) tbl)"
  have m: "m = Some j" "tbl' = update_where (\<lambda>x. job_id x = job_id row) (claim_update now w) tbl"
    using c assms(2) by simp_all
  have "x \<in> set tbl'" if x: "x \<in> set tbl" "owned_row x jid w'" for x
  proof -
    have "job_id x \<noteq> job_id row"
      using unique_row [OF assms(1) x(1) row(1)] x(2) row(2) by (auto simp: owned_row_def claimable_def)
    with x(1) show ?thesis by (simp add: m keeps_untouched)
  qed
  moreover have "claim_update now w row \<in> set tbl'"
    using claim_row.update_mem [of row tbl "\<lambda>x. job_id x = job_id row" now w] row(1) by (simp add: m)
  moreover have "owned_row (claim_update now w row) (job_id j) w"
    using p by (auto simp: parse_job_row_def owned_row_def claim_update_def split: option.splits)
  ultimately show ?thesis using m(1) by auto
qed (use assms in simp)

lemma holds_owned_step:
  assumes "exec_event cfg e s = Some s'" and "no_reaping e" and "table_ok (table s)" and h: "holds_owned s"
  shows "holds_owned s'"
proof (cases e)
  case (Claim w locked)
  show ?thesis
  proof (cases "claim (table s) (clock s) locked (cfg_types cfg) w")
    case (Inl err)
    then show ?thesis using assms Claim by (auto split: if_splits)
  next
    case (Inr mt)
    obtain m tbl where mt: "mt = (m, tbl)" by (cases mt)
    note o = owned_claim [OF assms(3) Inr [unfolded mt]]
    show ?thesis
    proof (cases m)
      case None
      then have "s' = s\<lparr>table := tbl\<rparr>" using assms(1) Claim Inr mt by (auto split: if_splits)
      then show ?thesis using h o unfolding holds_owned_def by (simp, blast)
    next
      case (Some j)
      then have "s' = s\<lparr>table := tbl, working := (working s)(w := Some (job_id j))\<rparr>"
        using assms(1) Claim Inr mt by (auto split: if_splits)
      then show ?thesis using h o Some unfolding holds_owned_def by (simp, blast)
    qed
  qed
next
  case (Finish w r outcome)
  then obtain jid where jid: "working s w = Some jid"
    and s': "s' = s\<lparr>table := finish_job (table s) (clock s) (cfg_base cfg) r jid outcome,
      working := (working s)(w := None)\<rparr>"
    using assms(1) by (auto split: option.splits)
  have "\<exists>row\<in>set (table s'). owned_row row k w'" if k: "w' \<noteq> w" "working s w' = Some k" for w' k
  proof -
    obtain a where a: "a \<in> set (table s)" "owned_row a jid w"
      using holds_ownedD [OF h jid] by blast
    obtain b where b: "b \<in> set (table s)" "owned_row b k w'"
      using holds_ownedD [OF h k(2)] by blast
    have "job_id b \<noteq> jid"
    proof
      assume "job_id b = jid"
      then have "job_id a = job_id b" using a(2) by (simp add: owned_row_def)
      then have "a = b" by (rule unique_row [OF assms(3) a(1) b(1)])
      then show False using a(2) b(2) k(1) by (simp add: owned_row_def)
    qed
    from finish_job_other [OF b(1) this] have "b \<in> set (table s')" by (simp add: s')
    then show ?thesis using b(2) by blast
  qed
  then show ?thesis unfolding holds_owned_def by (simp add: s')
next
  case (Heartbeat w)
  then obtain k where "s' = s\<lparr>table := update_heartbeat (table s) (clock s) k\<rparr>"
    using assms(1) by (auto split: option.splits)
  then show ?thesis using h heartbeat_keeps_owned unfolding holds_owned_def by simp
next
  case (Enqueue k jt pl dk prio m)
  then have "s' = s \<or> (\<exists>r tbl. enqueue (table s) (clock s) k jt pl dk prio m = Inr (r, tbl) \<and> s' = s\<lparr>table := tbl\<rparr>)"
    using assms(1) by (auto split: if_splits sum.splits)
  then show ?thesis using h enqueue_keeps unfolding holds_owned_def by (elim disjE exE conjE; simp) blast
qed (use assms in \<open>auto simp: no_reaping_def holds_owned_def split: if_splits\<close>)

lemma reachable_holds_owned: "reachable cfg no_reaping s \<Longrightarrow> holds_owned s"
  by (induction rule: reachable.induct)
     (auto simp: init_system_def holds_owned_def [of "init_system t" for t] intro: holds_owned_step reachable_table_ok,
      simp add: holds_owned_def)

subsection \<open>A reaper tick that nothing interrupts\<close>

definition reap_row :: "time \<Rightarrow> rat \<Rightarrow> (uuid \<Rightarrow> rat) \<Rightarrow> uuid set \<Rightarrow> job_row \<Rightarrow> job_row" where
  "reap_row now base rnd ids row =
     (if job_id row \<in> ids
      then fail_update now (backoff_us base (rnd (job_id row)) (attempts row)) ''stale heartbeat'' True row
      else row)"

lemma reap_fold:
  assumes "table_ok tbl" and "distinct ids"
    and "\<forall>k\<in>set ids. \<exists>row\<in>set tbl. job_id row = k \<and> status row = ''running''"
  shows "fold (\<lambda>jid. reap_one now base (rnd jid) jid) ids (n, tbl) =
    (n + length ids, map (reap_row now base rnd (set ids)) tbl)"
  using assms
proof (induction ids arbitrary: n tbl)
  case Nil
  then show ?case by (simp add: reap_row_def)
next
  case (Cons k ids)
  obtain row where row: "row \<in> set tbl" "job_id row = k" "status row = ''running''" using Cons.prems(3) by auto
  let ?upd = "\<lambda>x. fail_update now (backoff_us base (rnd k) (attempts x)) ''stale heartbeat'' True x"
  let ?tbl = "update_where (\<lambda>x. job_id x = k \<and> status x = ''running'') ?upd tbl"
  obtain j where f: "fail tbl now base (rnd k) k ''stale heartbeat'' True = Inr (j, ?tbl)"
    using fail_running [OF Cons.prems(1) row(1,3)] row(2) by blast
  have same: "?tbl = map (reap_row now base rnd {k}) tbl"
    unfolding update_where_def
  proof (rule map_cong [OF refl])
    fix x assume x: "x \<in> set tbl"
    have "job_id x = k \<Longrightarrow> status x = ''running''"
      using unique_row [OF Cons.prems(1) x row(1)] row by simp
    then show "(if job_id x = k \<and> status x = ''running'' then ?upd x else x) = reap_row now base rnd {k} x"
      by (auto simp: reap_row_def)
  qed
  have "\<forall>k'\<in>set ids. \<exists>row\<in>set ?tbl. job_id row = k' \<and> status row = ''running''"
  proof
    fix k' assume k': "k' \<in> set ids"
    then obtain x where x: "x \<in> set tbl" "job_id x = k'" "status x = ''running''"
      using Cons.prems(3) by auto
    have "k' \<noteq> k" using k' Cons.prems(2) by auto
    with x have "x \<in> set ?tbl" by (intro keeps_untouched) auto
    with x show "\<exists>row\<in>set ?tbl. job_id row = k' \<and> status row = ''running''" by blast
  qed
  moreover have "distinct ids" using Cons.prems(2) by simp
  ultimately have IH: "fold (\<lambda>jid. reap_one now base (rnd jid) jid) ids (n + 1, ?tbl) =
      (n + 1 + length ids, map (reap_row now base rnd (set ids)) ?tbl)"
    using Cons.IH [OF fail_table_ok [OF Cons.prems(1) f]] by blast
  have "map (reap_row now base rnd (set ids)) ?tbl = map (reap_row now base rnd (set (k # ids))) tbl"
    unfolding same map_map using Cons.prems(2)
    by (intro map_cong) (auto simp: reap_row_def fail_update_def)
  moreover have "reap_one now base (rnd k) k (n, tbl) = (n + 1, ?tbl)" by (simp add: reap_one_def f)
  ultimately show ?case using IH by (simp only: fold_simps list.size) simp
qed

lemma stale_ids_running:
  "table_ok tbl \<Longrightarrow> distinct (find_stale_running tbl now jts th) \<and>
     (\<forall>k\<in>set (find_stale_running tbl now jts th). \<exists>row\<in>set tbl. job_id row = k \<and> status row = ''running'')"
  by (auto simp: find_stale_running_def table_ok_def intro: distinct_map_filter)

lemma find_stale_running_empty:
  assumes "\<And>x. x \<in> set tbl \<Longrightarrow> \<not> (status x = ''running'' \<and> job_type x \<in> set jts \<and>
     (case heartbeat_at x of None \<Rightarrow> False | Some t \<Rightarrow> t < now - th * 1000000))"
  shows "find_stale_running tbl now jts th = []"
  using assms unfolding find_stale_running_def map_is_Nil_conv filter_empty_conv by blast

lemma reap_row_simps [simp]:
  "job_id (reap_row now base rnd ids row) = job_id row"
  "job_type (reap_row now base rnd ids row) = job_type row"
  "heartbeat_at (reap_row now base rnd ids row) = heartbeat_at row"
  by (simp_all add: reap_row_def fail_update_def)

subsection \<open>A job that is reaped while its worker is still busy\<close>

lemma filter_only: "distinct xs \<Longrightarrow> x \<in> set xs \<Longrightarrow> \<forall>y\<in>set xs. P y \<longleftrightarrow> y = x \<Longrightarrow> filter P xs = [x]"
  by (induction xs) (auto simp: filter_empty_conv)

lemma update_running:
  assumes "table_ok tbl" and "row \<in> set tbl" and "status row = ''running''"
  shows "update_where (\<lambda>x. job_id x = job_id row \<and> status x = ''running'') f tbl =
    update_where (\<lambda>x. job_id x = job_id row) f tbl"
  unfolding update_where_def using unique_row [OF assms(1) _ assms(2)] assms(3) by (intro map_cong) auto

lemma update_where_compose:
  "(\<And>x. job_id (f x) = job_id x) \<Longrightarrow>
   update_where (\<lambda>x. job_id x = k) g (update_where (\<lambda>x. job_id x = k) f tbl) =
     update_where (\<lambda>x. job_id x = k) (\<lambda>x. g (f x)) tbl"
  by (simp add: update_where_def)

lemma complete_present:
  assumes "table_ok tbl" and "row \<in> set tbl"
  shows "\<exists>j. complete tbl now (job_id row) res =
    Inr (j, update_where (\<lambda>x. job_id x = job_id row) (complete_update now res) tbl)"
proof -
  have "valid_row row" using assms by (simp add: table_ok_def list_all_iff)
  then obtain j where "parse_job_row (complete_update now res row) = Inr j"
    using parse_valid [OF complete_row.upd_valid] by blast
  then show ?thesis using find_id [OF assms] by (simp add: complete_def)
qed

lemma claim_only_due:
  assumes "table_ok tbl" and "row \<in> set tbl" and "due_job now locked jts row"
    and "\<forall>other\<in>set tbl. other \<noteq> row \<longrightarrow> \<not> due_job now locked jts other"
  shows "\<exists>j. job_id j = job_id row \<and> claim tbl now locked jts w =
    Inr (Some j, update_where (\<lambda>x. job_id x = job_id row) (claim_update now w) tbl)"
  using claim_cases [OF assms(1), of now locked jts w, unfolded claimable_iff]
proof (elim disjE bexE exE conjE)
  fix row' j assume r: "row' \<in> set tbl" "due_job now locked jts row'" "parse_job_row (claim_update now w row') = Inr j"
    "claim tbl now locked jts w = Inr (Some j, update_where (\<lambda>x. job_id x = job_id row') (claim_update now w) tbl)"
  have "row' = row" using r(1,2) assms(4) by blast
  moreover have "job_id j = job_id row'" using r(3) by (auto simp: parse_job_row_def claim_update_def split: option.splits)
  ultimately show ?thesis using r(4) by blast
qed (use assms in blast)

text \<open>The reaper's tick and the next claim, when one job of the types is stale and none is pending.\<close>

lemma reap_then_claim:
  fixes r :: rat
  assumes "table_ok (table s)" and "row \<in> set (table s)" and "stale_ids s = []" and "working s b = None"
    and "status row = ''running''" and "job_type row \<in> set (cfg_types cfg)"
    and "heartbeat_at row = Some t" and "t < clock s - cfg_threshold cfg * 1000000"
    and "attempts row < max_attempts row"
    and others: "\<forall>other\<in>set (table s). other \<noteq> row \<longrightarrow> job_type other \<in> set (cfg_types cfg) \<longrightarrow>
      status other \<noteq> ''pending'' \<and> (status other = ''running'' \<longrightarrow>
        \<not> (\<exists>t. heartbeat_at other = Some t \<and> t < clock s - cfg_threshold cfg * 1000000))"
  defines "d \<equiv> max 0 (backoff_us (cfg_base cfg) r (attempts row))"
    and "upd \<equiv> \<lambda>x. fail_update (clock s) (backoff_us (cfg_base cfg) r (attempts x)) ''stale heartbeat'' True x"
  shows "run cfg [FindStale, Reap r, Tick d, Claim b []] s = Some (s\<lparr>
    table := update_where (\<lambda>x. job_id x = job_id row) (\<lambda>x. claim_update (clock s + d) b (upd x)) (table s),
    clock := clock s + d, working := (working s)(b := Some (job_id row)), stale_ids := []\<rparr>)"
proof -
  let ?tbl = "update_where (\<lambda>x. job_id x = job_id row) upd (table s)"
  have "filter (\<lambda>x. status x = ''running'' \<and> job_type x \<in> set (cfg_types cfg) \<and>
      (case heartbeat_at x of None \<Rightarrow> False | Some t \<Rightarrow> t < clock s - cfg_threshold cfg * 1000000)) (table s) = [row]"
    using assms by (intro filter_only) (auto simp: table_ok_def distinct_map split: option.splits)
  then have stale: "find_stale_running (table s) (clock s) (cfg_types cfg) (cfg_threshold cfg) = [job_id row]"
    by (simp add: find_stale_running_def)
  obtain j where f: "fail (table s) (clock s) (cfg_base cfg) r (job_id row) ''stale heartbeat'' True = Inr (j, ?tbl)"
    using fail_running [OF assms(1,2,5)] unfolding upd_def update_running [OF assms(1,2,5)] by blast
  have ok: "table_ok ?tbl" by (rule fail_table_ok [OF assms(1) f])
  have upd_row: "upd row \<in> set ?tbl" using assms(2) by (auto simp: update_where_def)
  have mem: "x = upd row \<or> x \<in> set (table s) \<and> x \<noteq> row" if m: "x \<in> set ?tbl" for x
  proof -
    obtain y where y: "y \<in> set (table s)" "x = (if job_id y = job_id row then upd y else y)"
      using m unfolding update_where_def by auto
    show ?thesis using y unique_row [OF assms(1) y(1) assms(2)] by (cases "job_id y = job_id row") auto
  qed
  have due: "due_job (clock s + d) [] (cfg_types cfg) (upd row)"
    using assms(5,6,9) by (simp add: due_job_def upd_def fail_update_def d_def)
  have "\<forall>other\<in>set ?tbl. other \<noteq> upd row \<longrightarrow> \<not> due_job (clock s + d) [] (cfg_types cfg) other"
    using mem others by (auto simp: due_job_def)
  from claim_only_due [OF ok upd_row due this, of b] obtain k where
    "job_id k = job_id row" "claim ?tbl (clock s + d) [] (cfg_types cfg) b =
      Inr (Some k, update_where (\<lambda>x. job_id x = job_id row) (claim_update (clock s + d) b) ?tbl)"
    by (auto simp: upd_def fail_update_def)
  moreover have "update_where (\<lambda>x. job_id x = job_id row) (claim_update (clock s + d) b) ?tbl =
      update_where (\<lambda>x. job_id x = job_id row) (\<lambda>x. claim_update (clock s + d) b (upd x)) (table s)"
    by (rule update_where_compose) (simp add: upd_def fail_update_def)
  ultimately show ?thesis using assms(3,4) stale f by (simp add: reap_one_def d_def)
qed

subsection \<open>Properties\<close>

text \<open>C2: in every reachable state of the system, whatever the interleaving of enqueues, claims,
  heartbeats, completions, failures, crashes and reapers, ids are unique, no two pending or running jobs
  share a job type and a deduplication key, attempts stay within the maximum, and a running job has an
  owner, a start time and a heartbeat.\<close>

theorem reachable_table_invariant:
  assumes "reachable cfg allowed s"
  shows "distinct (map job_id (table s)) \<and> distinct (active_keys (table s)) \<and>
    (\<forall>row\<in>set (table s). 0 \<le> attempts row \<and> attempts row \<le> max 1 (max_attempts row) \<and>
       (\<exists>j. parse_job_row row = Inr j) \<and>
       (status row = ''running'' \<longrightarrow> claimed_by row \<noteq> None \<and> started_at row \<noteq> None \<and> heartbeat_at row \<noteq> None))"
proof -
  have "table_ok (table s)" by (rule reachable_table_ok [OF assms])
  then show ?thesis using parse_valid unfolding table_ok_def list_all_iff by (auto simp: valid_row_def)
qed

definition demo_cfg :: config where
  "demo_cfg = \<lparr>cfg_types = [''ingest''], cfg_threshold = 60, cfg_base = 2\<rparr>"

definition demo_events :: "event list" where
  "demo_events = [Enqueue 1 ''ingest'' JNull (Some ''acct'') 0 3, Claim ''A'' [], Tick 61000000,
     FindStale, Reap (1/2), Tick 5000001, Claim ''B'' []]"

theorem reachable_table_invariant_witness:
  "\<exists>s. run demo_cfg demo_events (init_system 0) = Some s \<and> distinct (active_keys (table s)) \<and> table s \<noteq> []"
proof -
  have "case run demo_cfg demo_events (init_system 0) of Some s \<Rightarrow> table s \<noteq> [] | None \<Rightarrow> False" by code_simp
  then obtain s where s: "run demo_cfg demo_events (init_system 0) = Some s" "table s \<noteq> []"
    by (auto split: option.splits)
  have "reachable demo_cfg (\<lambda>_. True) s"
    by (rule run_reachable [OF s(1)]) (simp_all add: list_all_iff reachable_init)
  with s reachable_table_invariant show ?thesis by blast
qed

text \<open>C7: bounded execution. In any run from an empty table, a job that is still in the table has been
  claimed at most \<open>max 1 max_attempts\<close> times, because its attempts column counts its claims exactly.\<close>

theorem claims_are_bounded:
  assumes "run cfg es (init_system t) = Some s" and "row \<in> set (table s)"
  shows "attempts row = int (count_claims cfg (job_id row) es (init_system t)) \<and>
    int (count_claims cfg (job_id row) es (init_system t)) \<le> max 1 (max_attempts row)"
proof -
  have i: "table_ok (table (init_system t))" by (simp add: init_system_def)
  have ok: "table_ok (table s)"
    by (rule reachable_table_ok [OF run_reachable [where allowed = "\<lambda>_. True", OF assms(1)]])
       (simp_all add: list_all_iff reachable_init)
  have "row_attempts (table s) (job_id row) = attempts row"
    using find_id [OF ok assms(2)] by (simp add: row_attempts_def)
  moreover have "row_attempts (table (init_system t)) (job_id row) = 0"
    by (simp add: init_system_def row_attempts_def)
  moreover have "attempts row \<le> max 1 (max_attempts row)"
    using ok assms(2) by (simp add: table_ok_def list_all_iff valid_row_def)
  ultimately show ?thesis using count_claims_attempts [OF assms(1) i, of "job_id row"] by simp
qed

theorem claims_are_bounded_witness:
  "\<exists>s row. run demo_cfg demo_events (init_system 0) = Some s \<and> row \<in> set (table s) \<and> attempts row = 2 \<and>
     count_claims demo_cfg (job_id row) demo_events (init_system 0) = 2"
proof -
  have "case run demo_cfg demo_events (init_system 0) of
      Some s \<Rightarrow> list_ex (\<lambda>row. attempts row = 2) (table s) | None \<Rightarrow> False" by code_simp
  then obtain s row where s: "run demo_cfg demo_events (init_system 0) = Some s" "row \<in> set (table s)" "attempts row = 2"
    by (auto simp: list_ex_iff split: option.splits)
  then show ?thesis using claims_are_bounded [OF s(1,2)] by auto
qed

text \<open>C6: as long as no reaper runs, a job is held by one worker at a time, and the row of the job a worker
  holds says so: it is running and claimed by that worker.\<close>

theorem one_worker_per_job_without_reaper:
  assumes "reachable cfg no_reaping s" and "working s w = Some jid" and "working s w' = Some jid"
  shows "w = w' \<and> (\<exists>row\<in>set (table s). job_id row = jid \<and> status row = ''running'' \<and> claimed_by row = Some w)"
proof -
  have h: "holds_owned s" by (rule reachable_holds_owned [OF assms(1)])
  have ok: "table_ok (table s)" by (rule reachable_table_ok [OF assms(1)])
  obtain a where a: "a \<in> set (table s)" "owned_row a jid w" using holds_ownedD [OF h assms(2)] by blast
  obtain b where b: "b \<in> set (table s)" "owned_row b jid w'" using holds_ownedD [OF h assms(3)] by blast
  have "job_id a = job_id b" using a(2) b(2) by (simp add: owned_row_def)
  then have "a = b" by (rule unique_row [OF ok a(1) b(1)])
  then have "w = w'" using a(2) b(2) by (simp add: owned_row_def)
  with a show ?thesis by (auto simp: owned_row_def)
qed

theorem one_worker_per_job_without_reaper_witness:
  "\<exists>s. run demo_cfg [Enqueue 1 ''ingest'' JNull None 0 3, Claim ''A'' [], Claim ''B'' []] (init_system 0) = Some s \<and>
     working s ''A'' = Some 1 \<and> (\<exists>row\<in>set (table s). claimed_by row = Some ''A'')"
proof -
  let ?es = "[Enqueue 1 ''ingest'' JNull None 0 3, Claim ''A'' [], Claim ''B'' []]"
  have "case run demo_cfg ?es (init_system 0) of Some s \<Rightarrow> working s ''A'' = Some 1 | None \<Rightarrow> False" by code_simp
  then obtain s where s: "run demo_cfg ?es (init_system 0) = Some s" "working s ''A'' = Some 1"
    by (auto split: option.splits)
  have "reachable demo_cfg no_reaping s"
    by (rule run_reachable [OF s(1)]) (simp_all add: no_reaping_def reachable_init)
  with s one_worker_per_job_without_reaper show ?thesis by blast
qed

text \<open>C9: with a reaper this fails, in every reachable state in which it can. Whenever a worker \<open>a\<close> holds a
  running job with attempts left whose heartbeat is older than the threshold (the worker is slow, not
  dead), a reaper tick and the next claim of an idle worker \<open>b\<close> give the same job to \<open>b\<close>, with one attempt
  more, while \<open>a\<close> still executes it. When \<open>a\<close> then returns a result, \<open>b\<close>'s run of the job is marked
  completed with \<open>a\<close>'s result although \<open>b\<close> still executes it, and an error that \<open>b\<close> returns later is not
  recorded. (The last hypothesis says that \<open>b\<close> finds no other job to claim and the reaper no other to
  reap.)\<close>

theorem reaped_job_runs_twice_and_stale_result_wins:
  assumes "reachable cfg allowed s" and "stale_ids s = []"
    and "working s a = Some (job_id row)" and "working s b = None"
    and "row \<in> set (table s)" and "status row = ''running''" and "job_type row \<in> set (cfg_types cfg)"
    and "heartbeat_at row = Some t" and "t < clock s - cfg_threshold cfg * 1000000"
    and "attempts row < max_attempts row"
    and "\<forall>other\<in>set (table s). other \<noteq> row \<longrightarrow> job_type other \<in> set (cfg_types cfg) \<longrightarrow>
      status other \<noteq> ''pending'' \<and> (status other = ''running'' \<longrightarrow>
        \<not> (\<exists>t. heartbeat_at other = Some t \<and> t < clock s - cfg_threshold cfg * 1000000))"
  shows "\<exists>d s1 s2. run cfg [FindStale, Reap r, Tick d, Claim b []] s = Some s1 \<and>
    working s1 a = Some (job_id row) \<and> working s1 b = Some (job_id row) \<and>
    (\<exists>x\<in>set (table s1). job_id x = job_id row \<and> status x = ''running'' \<and> claimed_by x = Some b \<and>
       attempts x = attempts row + 1) \<and>
    exec_event cfg (Finish a r' (Some (HandlerOk out))) s1 = Some s2 \<and>
    working s2 b = Some (job_id row) \<and>
    (\<exists>x\<in>set (table s2). job_id x = job_id row \<and> status x = ''completed'' \<and> claimed_by x = Some b \<and>
       job_result x = Some out) \<and>
    exec_event cfg (Finish b r'' (Some (HandlerErr e))) s2 = Some (s2\<lparr>working := (working s2)(b := None)\<rparr>)"
proof -
  have ok: "table_ok (table s)" by (rule reachable_table_ok [OF assms(1)])
  define d where "d = max 0 (backoff_us (cfg_base cfg) r (attempts row))"
  define again where "again = (\<lambda>x. claim_update (clock s + d) b
    (fail_update (clock s) (backoff_us (cfg_base cfg) r (attempts x)) ''stale heartbeat'' True x))"
  define s1 where "s1 = s\<lparr>table := update_where (\<lambda>x. job_id x = job_id row) again (table s),
    clock := clock s + d, working := (working s)(b := Some (job_id row)), stale_ids := []\<rparr>"
  have run: "run cfg [FindStale, Reap r, Tick d, Claim b []] s = Some s1"
    unfolding s1_def again_def d_def by (rule reap_then_claim [OF ok assms(5,2,4,6-11)])
  have ok1: "table_ok (table s1)"
    by (rule reachable_table_ok [OF run_reachable [where allowed = "\<lambda>_. True", OF run]])
       (use reachable_any assms(1) in \<open>auto simp: list_all_iff\<close>)
  have ab: "a \<noteq> b" using assms(3,4) by auto
  have row1: "again row \<in> set (table s1)" using assms(5) by (auto simp: s1_def update_where_def)
  have again: "job_id (again x) = job_id x" "status (again x) = ''running''" "claimed_by (again x) = Some b"
    "attempts (again x) = attempts x + 1" for x
    by (simp_all add: again_def claim_update_def fail_update_def)
  define tbl2 where "tbl2 = update_where (\<lambda>x. job_id x = job_id row) (complete_update (clock s1) out) (table s1)"
  define s2 where "s2 = s1\<lparr>table := tbl2, working := (working s1)(a := None)\<rparr>"
  obtain j where "complete (table s1) (clock s1) (job_id row) out = Inr (j, tbl2)"
    using complete_present [OF ok1 row1] unfolding again tbl2_def by blast
  then have fin: "exec_event cfg (Finish a r' (Some (HandlerOk out))) s1 = Some s2"
    using ab assms(3) by (simp add: s2_def finish_job_def s1_def)
  have done_rows: "\<forall>x\<in>set tbl2. job_id x = job_id row \<longrightarrow> status x \<noteq> ''running''"
    by (auto simp: tbl2_def update_where_def complete_update_def)
  have "complete_update (clock s1) out (again row) \<in> set tbl2"
    using row1 by (auto simp: tbl2_def update_where_def again(1))
  then have "\<exists>x\<in>set (table s2). job_id x = job_id row \<and> status x = ''completed'' \<and> claimed_by x = Some b \<and>
      job_result x = Some out"
    by (intro bexI [of _ "complete_update (clock s1) out (again row)"])
       (simp_all add: s2_def complete_update_def again)
  moreover have "exec_event cfg (Finish b r'' (Some (HandlerErr e))) s2 = Some (s2\<lparr>working := (working s2)(b := None)\<rparr>)"
    using ab fail_not_running [OF done_rows] by (simp add: s2_def s1_def finish_job_def)
  moreover have "working s1 a = Some (job_id row)" "working s1 b = Some (job_id row)" "working s2 b = Some (job_id row)"
    using ab assms(3) by (simp_all add: s1_def s2_def)
  ultimately show ?thesis using run fin row1 again by blast
qed

theorem reaped_job_runs_twice_and_stale_result_wins_witness:
  "\<exists>s d s1 s2. run demo_cfg (take 3 demo_events) (init_system 0) = Some s \<and>
     run demo_cfg [FindStale, Reap (1/2), Tick d, Claim ''B'' []] s = Some s1 \<and>
     working s1 ''A'' = Some 1 \<and> working s1 ''B'' = Some 1 \<and>
     exec_event demo_cfg (Finish ''A'' 0 (Some (HandlerOk (JString ''stale'')))) s1 = Some s2 \<and>
     (\<exists>row\<in>set (table s2). job_id row = 1 \<and> status row = ''completed'' \<and>
        claimed_by row = Some ''B'' \<and> job_result row = Some (JString ''stale''))"
proof -
  have "case run demo_cfg (take 3 demo_events) (init_system 0) of
      Some s \<Rightarrow> stale_ids s = [] \<and> working s ''A'' = Some 1 \<and> working s ''B'' = None \<and> clock s = 61000000 \<and>
        (case table s of [row] \<Rightarrow> job_id row = 1 \<and> status row = ''running'' \<and> job_type row = ''ingest'' \<and>
           heartbeat_at row = Some 0 \<and> attempts row < max_attempts row | _ \<Rightarrow> False)
    | None \<Rightarrow> False" by code_simp
  then obtain s row where s: "run demo_cfg (take 3 demo_events) (init_system 0) = Some s"
    and at: "stale_ids s = []" "working s ''A'' = Some (job_id row)" "working s ''B'' = None" "clock s = 61000000"
      "table s = [row]" "job_id row = 1" "status row = ''running''" "job_type row = ''ingest''"
      "heartbeat_at row = Some 0" "attempts row < max_attempts row"
    by (auto split: option.splits list.splits)
  have reach: "reachable demo_cfg (\<lambda>_. True) s"
    by (rule run_reachable [OF s]) (simp_all add: list_all_iff reachable_init)
  have row: "row \<in> set (table s)" "job_type row \<in> set (cfg_types demo_cfg)"
    "0 < clock s - cfg_threshold demo_cfg * 1000000"
    using at by (simp_all add: demo_cfg_def)
  have others: "\<forall>other\<in>set (table s). other \<noteq> row \<longrightarrow> job_type other \<in> set (cfg_types demo_cfg) \<longrightarrow>
      status other \<noteq> ''pending'' \<and> (status other = ''running'' \<longrightarrow>
        \<not> (\<exists>t. heartbeat_at other = Some t \<and> t < clock s - cfg_threshold demo_cfg * 1000000))"
    using at(5) by simp
  from reaped_job_runs_twice_and_stale_result_wins [OF reach at(1-3) row(1) at(7) row(2) at(9) row(3) at(10) others,
      of "1/2" 0 "JString ''stale''", unfolded at(6)]
  show ?thesis using s by blast
qed

text \<open>A reaper tick that nothing interrupts handles exactly the stale running jobs of its types: it
  counts all of them, fails each as retryable (back to pending while attempts remain, failed otherwise),
  changes no other row, keeps the table consistent, and leaves no stale job behind.\<close>

theorem reaper_tick_exact:
  assumes "table_ok tbl"
  shows "let ids = find_stale_running tbl now jts th;
      res = reaper_tick jts th base rnd now tbl
    in fst res = length ids \<and> snd res = map (reap_row now base rnd (set ids)) tbl \<and>
       table_ok (snd res) \<and> find_stale_running (snd res) now jts th = []"
proof -
  let ?ids = "find_stale_running tbl now jts th"
  let ?tbl = "map (reap_row now base rnd (set ?ids)) tbl"
  have r: "reaper_tick jts th base rnd now tbl = (length ?ids, ?tbl)"
    using reap_fold [OF assms] stale_ids_running [OF assms, of now jts th] by (simp add: reaper_tick_def)
  have t: "table_ok (snd (fold (\<lambda>jid. reap_one now base (rnd jid) jid) ids (n, tbl)))" for ids n
  proof (induction ids rule: rev_induct)
    case (snoc k ids)
    obtain m t where mt: "fold (\<lambda>jid. reap_one now base (rnd jid) jid) ids (n, tbl) = (m, t)"
      by (cases "fold (\<lambda>jid. reap_one now base (rnd jid) jid) ids (n, tbl)")
    then have "table_ok t" using snoc by simp
    then show ?case using reap_one_table_ok mt by simp
  qed (use assms in simp)
  have ok: "table_ok ?tbl" using t [of ?ids 0] r unfolding reaper_tick_def by (simp only: snd_conv)
  have fs: "find_stale_running ?tbl now jts th = []"
  proof -
    have "\<not> (status x = ''running'' \<and> job_type x \<in> set jts \<and>
        (case heartbeat_at x of None \<Rightarrow> False | Some t \<Rightarrow> t < now - th * 1000000))" if mem: "x \<in> set ?tbl" for x
    proof -
      obtain row where row: "row \<in> set tbl" "x = reap_row now base rnd (set ?ids) row" using mem by auto
      show ?thesis
      proof (cases "job_id row \<in> set ?ids")
        case True
        then have "status x \<noteq> ''running''" using row(2) by (auto simp: reap_row_def fail_update_def)
        then show ?thesis by simp
      next
        case False
        then have x: "x = row" using row(2) by (simp add: reap_row_def)
        have "\<not> (status row = ''running'' \<and> job_type row \<in> set jts \<and>
            (case heartbeat_at row of None \<Rightarrow> False | Some t \<Rightarrow> t < now - th * 1000000))"
          using False row(1) unfolding find_stale_running_def by fastforce
        then show ?thesis unfolding x .
      qed
    qed
    then show ?thesis by (rule find_stale_running_empty)
  qed
  show ?thesis
    unfolding Let_def r fst_conv snd_conv using ok fs by (intro conjI refl)
qed

theorem reaper_tick_exact_witness:
  "\<exists>s. run demo_cfg (take 3 demo_events) (init_system 0) = Some s \<and>
     fst (reaper_tick [''ingest''] 60 2 (\<lambda>_. 1/2) (clock s) (table s)) = 1 \<and>
     find_stale_running (snd (reaper_tick [''ingest''] 60 2 (\<lambda>_. 1/2) (clock s) (table s))) (clock s) [''ingest''] 60 = []"
proof -
  have "case run demo_cfg (take 3 demo_events) (init_system 0) of
      Some s \<Rightarrow> length (find_stale_running (table s) (clock s) [''ingest''] 60) = 1 | None \<Rightarrow> False" by code_simp
  then obtain s where s: "run demo_cfg (take 3 demo_events) (init_system 0) = Some s"
      "length (find_stale_running (table s) (clock s) [''ingest''] 60) = 1"
    by (auto split: option.splits)
  have "reachable demo_cfg (\<lambda>_. True) s"
    by (rule run_reachable [OF s(1)]) (simp_all add: list_all_iff reachable_init)
  then have "table_ok (table s)" by (rule reachable_table_ok)
  note tick = reaper_tick_exact [OF this, of "clock s" "[''ingest'']" 60 2 "\<lambda>_. 1/2", unfolded Let_def s(2)]
  show ?thesis
    by (rule exI [of _ s], intro conjI s(1))
       (rule tick [THEN conjunct1], rule tick [THEN conjunct2, THEN conjunct2, THEN conjunct2])
qed

text \<open>C18: starting twice is refused, but starting again after a shutdown is accepted although nothing
  runs: the shutdown flags of the pool and of the reaper are never reset, so each new worker leaves its
  loop before its first claim.\<close>

theorem restart_after_shutdown_is_dead:
  assumes "start sch = Inr running"
  shows "start running = Inl (DatabaseError ''scheduler already started'') \<and>
    (\<exists>again. start (shutdown running) = Inr again \<and> sch_workers again = sch_concurrency sch \<and>
       sch_pool_shutdown again \<and> sch_reaper_shutdown again \<and>
       worker_iteration (sch_handlers again) base (sch_pool_shutdown again) w now later r tbl = (False, tbl))"
  using assms by (auto simp: start_def shutdown_def worker_iteration_def split: if_splits)

theorem restart_after_shutdown_is_dead_witness:
  "\<exists>sch running again. build [(''ingest'', \<lambda>p. HandlerOk p)] 2 60 = Inr sch \<and> start sch = Inr running \<and>
     start (shutdown running) = Inr again \<and> sch_pool_shutdown again"
proof -
  obtain sch running where b: "build [(''ingest'', \<lambda>p. HandlerOk p)] 2 60 = Inr sch" "start sch = Inr running"
    by (auto simp: build_def start_def)
  with restart_after_shutdown_is_dead [OF b(2)] show ?thesis by blast
qed

end
