(* ===== verification/Labels.thy ===== *)
theory Labels
  imports Prelude
begin

section \<open>Node labels, edge types and edge validation\<close>

text \<open>
  \<open>activable-schema/src/labels.rs\<close> and \<open>edge_constraint.rs\<close>: the two enums of the attack graph with
  their strings, and the table of edges the v1 schema allows. \<open>CustomLabel\<close> and \<open>CustomEdge\<close> are the
  two \<open>Custom\<close> variants.
\<close>

datatype node_label =
    Principal
  | Resource
  | Permission
  | Account
  | Vpc
  | IamGroup
  | KmsKey
  | AccessKey
  | FederatedProvider
  | PolicyStatement
  | PermissionBoundary
  | ServiceControlPolicy
  | Bucket
  | Policy
  | WildcardPrincipal
  | Secret
  | CustomLabel string

fun node_label_as_str :: "node_label \<Rightarrow> string" where
  "node_label_as_str Principal = ''Principal''"
| "node_label_as_str Resource = ''Resource''"
| "node_label_as_str Permission = ''Permission''"
| "node_label_as_str Account = ''Account''"
| "node_label_as_str Vpc = ''Vpc''"
| "node_label_as_str IamGroup = ''IamGroup''"
| "node_label_as_str KmsKey = ''KmsKey''"
| "node_label_as_str AccessKey = ''AccessKey''"
| "node_label_as_str FederatedProvider = ''FederatedProvider''"
| "node_label_as_str PolicyStatement = ''PolicyStatement''"
| "node_label_as_str PermissionBoundary = ''PermissionBoundary''"
| "node_label_as_str ServiceControlPolicy = ''ServiceControlPolicy''"
| "node_label_as_str Bucket = ''Bucket''"
| "node_label_as_str Policy = ''Policy''"
| "node_label_as_str WildcardPrincipal = ''WildcardPrincipal''"
| "node_label_as_str Secret = ''Secret''"
| "node_label_as_str (CustomLabel s) = s"

definition node_label_from_str :: "string \<Rightarrow> node_label" where
  "node_label_from_str s =
    (if s = ''Principal'' then Principal
     else if s = ''Resource'' then Resource
     else if s = ''Permission'' then Permission
     else if s = ''Account'' then Account
     else if s = ''Vpc'' then Vpc
     else if s = ''IamGroup'' then IamGroup
     else if s = ''KmsKey'' then KmsKey
     else if s = ''AccessKey'' then AccessKey
     else if s = ''FederatedProvider'' then FederatedProvider
     else if s = ''PolicyStatement'' then PolicyStatement
     else if s = ''PermissionBoundary'' then PermissionBoundary
     else if s = ''ServiceControlPolicy'' then ServiceControlPolicy
     else if s = ''Bucket'' then Bucket
     else if s = ''Policy'' then Policy
     else if s = ''WildcardPrincipal'' then WildcardPrincipal
     else if s = ''Secret'' then Secret
     else CustomLabel s)"

datatype edge_type =
    CanAssume
  | HasPermission
  | Contains
  | MemberOf
  | SignedBy
  | HasEffectivePermission
  | BoundedBy
  | GovernedBy
  | CanEscalateTo
  | HasManagedPolicy
  | HasPermissionsBoundary
  | HasBucketPolicy
  | HasKeyPolicy
  | AllowsAccessFrom
  | KmsGrantable
  | EnforcesScp
  | EncryptedBy
  | ActsOn
  | CustomEdge string

fun edge_type_as_str :: "edge_type \<Rightarrow> string" where
  "edge_type_as_str CanAssume = ''CanAssume''"
| "edge_type_as_str HasPermission = ''HasPermission''"
| "edge_type_as_str Contains = ''Contains''"
| "edge_type_as_str MemberOf = ''MemberOf''"
| "edge_type_as_str SignedBy = ''SignedBy''"
| "edge_type_as_str HasEffectivePermission = ''HasEffectivePermission''"
| "edge_type_as_str BoundedBy = ''BoundedBy''"
| "edge_type_as_str GovernedBy = ''GovernedBy''"
| "edge_type_as_str CanEscalateTo = ''CanEscalateTo''"
| "edge_type_as_str HasManagedPolicy = ''HasManagedPolicy''"
| "edge_type_as_str HasPermissionsBoundary = ''HasPermissionsBoundary''"
| "edge_type_as_str HasBucketPolicy = ''HasBucketPolicy''"
| "edge_type_as_str HasKeyPolicy = ''HasKeyPolicy''"
| "edge_type_as_str AllowsAccessFrom = ''AllowsAccessFrom''"
| "edge_type_as_str KmsGrantable = ''KmsGrantable''"
| "edge_type_as_str EnforcesScp = ''EnforcesScp''"
| "edge_type_as_str EncryptedBy = ''EncryptedBy''"
| "edge_type_as_str ActsOn = ''ActsOn''"
| "edge_type_as_str (CustomEdge s) = s"

definition edge_type_from_str :: "string \<Rightarrow> edge_type" where
  "edge_type_from_str s =
    (if s = ''CanAssume'' then CanAssume
     else if s = ''HasPermission'' then HasPermission
     else if s = ''Contains'' then Contains
     else if s = ''MemberOf'' then MemberOf
     else if s = ''SignedBy'' then SignedBy
     else if s = ''HasEffectivePermission'' then HasEffectivePermission
     else if s = ''BoundedBy'' then BoundedBy
     else if s = ''GovernedBy'' then GovernedBy
     else if s = ''CanEscalateTo'' then CanEscalateTo
     else if s = ''HasManagedPolicy'' then HasManagedPolicy
     else if s = ''HasPermissionsBoundary'' then HasPermissionsBoundary
     else if s = ''HasBucketPolicy'' then HasBucketPolicy
     else if s = ''HasKeyPolicy'' then HasKeyPolicy
     else if s = ''AllowsAccessFrom'' then AllowsAccessFrom
     else if s = ''KmsGrantable'' then KmsGrantable
     else if s = ''EnforcesScp'' then EnforcesScp
     else if s = ''EncryptedBy'' then EncryptedBy
     else if s = ''ActsOn'' then ActsOn
     else CustomEdge s)"

text \<open>The variants other than \<open>Custom\<close>.\<close>

definition known_labels :: "node_label list" where
  "known_labels =
    [Principal, Resource, Permission, Account, Vpc, IamGroup, KmsKey, AccessKey,
     FederatedProvider, PolicyStatement, PermissionBoundary, ServiceControlPolicy, Bucket, Policy, WildcardPrincipal, Secret]"

definition known_edges :: "edge_type list" where
  "known_edges =
    [CanAssume, HasPermission, Contains, MemberOf, SignedBy, HasEffectivePermission, BoundedBy, GovernedBy, CanEscalateTo,
     HasManagedPolicy, HasPermissionsBoundary, HasBucketPolicy, HasKeyPolicy, AllowsAccessFrom, KmsGrantable, EnforcesScp, EncryptedBy, ActsOn]"

definition is_custom_label :: "node_label \<Rightarrow> bool" where
  "is_custom_label l = (case l of CustomLabel s \<Rightarrow> True | _ \<Rightarrow> False)"

definition is_custom_edge :: "edge_type \<Rightarrow> bool" where
  "is_custom_edge e = (case e of CustomEdge s \<Rightarrow> True | _ \<Rightarrow> False)"

definition v1_edges :: "(node_label \<times> edge_type \<times> node_label) list" where
  "v1_edges =
    [(Principal, CanAssume, Principal),
     (Principal, HasPermission, Permission),
     (Account, Contains, Principal),
     (Account, Contains, Resource),
     (Account, Contains, Permission),
     (Account, Contains, Account),
     (Account, Contains, Vpc),
     (Account, Contains, IamGroup),
     (Account, Contains, KmsKey),
     (Account, Contains, AccessKey),
     (Account, Contains, FederatedProvider),
     (Account, Contains, PolicyStatement),
     (Account, Contains, PermissionBoundary),
     (Account, Contains, ServiceControlPolicy),
     (Principal, MemberOf, IamGroup),
     (AccessKey, SignedBy, Principal),
     (Principal, HasEffectivePermission, Resource),
     (Principal, HasEffectivePermission, Permission),
     (Principal, BoundedBy, PermissionBoundary),
     (Account, GovernedBy, ServiceControlPolicy),
     (Principal, CanEscalateTo, Principal)]"

definition is_valid_edge :: "node_label \<Rightarrow> edge_type \<Rightarrow> node_label \<Rightarrow> bool" where
  "is_valid_edge src e dst =
     (if is_custom_label src \<or> is_custom_label dst then True
      else if is_custom_edge e then True
      else (src, e, dst) \<in> set v1_edges)"

subsection \<open>Enums with an open variant\<close>

text \<open>The contract of both enums: a string is read as the variant it names, or as \<open>Custom\<close>.\<close>

locale open_enum =
  fixes as_string :: "'a \<Rightarrow> string"
    and from_string :: "string \<Rightarrow> 'a"
    and custom :: "string \<Rightarrow> 'a"
    and known :: "'a list"
  assumes known_string: "l \<in> set known \<Longrightarrow> from_string (as_string l) = l"
    and known_not_custom: "l \<in> set known \<Longrightarrow> l \<noteq> custom s"
    and custom_string: "as_string (custom s) = s"
    and from_custom: "s \<notin> as_string ` set known \<Longrightarrow> from_string s = custom s"
    and variants: "l \<in> set known \<or> (\<exists>s. l = custom s)"
begin

lemma as_from: "as_string (from_string s) = s"
proof (cases "s \<in> as_string ` set known")
  case True
  then show ?thesis using known_string by auto
next
  case False
  then show ?thesis by (simp add: from_custom custom_string)
qed

lemma from_as_iff: "from_string (as_string l) = l \<longleftrightarrow> l \<notin> custom ` as_string ` set known"
proof
  assume "from_string (as_string l) = l"
  then show "l \<notin> custom ` as_string ` set known"
    using known_string known_not_custom custom_string by (metis imageE)
next
  assume "l \<notin> custom ` as_string ` set known"
  then show "from_string (as_string l) = l"
    using variants [of l] known_string custom_string from_custom by (metis imageI)
qed

lemma as_string_inj_known: "l \<in> set known \<Longrightarrow> m \<in> set known \<Longrightarrow> as_string l = as_string m \<Longrightarrow> l = m"
  by (metis known_string)

end

lemma known_labels_read_back: "list_all (\<lambda>l. node_label_from_str (node_label_as_str l) = l) known_labels"
  by code_simp

interpretation node_names: open_enum node_label_as_str node_label_from_str CustomLabel known_labels
proof
  show "l \<in> set known_labels \<Longrightarrow> node_label_from_str (node_label_as_str l) = l" for l
    using known_labels_read_back by (simp add: list_all_iff)
  show "l \<in> set known_labels \<or> (\<exists>s. l = CustomLabel s)" for l
    by (cases l) (simp_all add: known_labels_def)
  show "s \<notin> node_label_as_str ` set known_labels \<Longrightarrow> node_label_from_str s = CustomLabel s" for s
    unfolding known_labels_def list.set image_insert node_label_as_str.simps insert_iff de_Morgan_disj
    by (elim conjE, simp only: node_label_from_str_def if_False)
qed (auto simp: known_labels_def)

lemma known_edges_read_back: "list_all (\<lambda>l. edge_type_from_str (edge_type_as_str l) = l) known_edges"
  by code_simp

interpretation edge_names: open_enum edge_type_as_str edge_type_from_str CustomEdge known_edges
proof
  show "l \<in> set known_edges \<Longrightarrow> edge_type_from_str (edge_type_as_str l) = l" for l
    using known_edges_read_back by (simp add: list_all_iff)
  show "l \<in> set known_edges \<or> (\<exists>s. l = CustomEdge s)" for l
    by (cases l) (simp_all add: known_edges_def)
  show "s \<notin> edge_type_as_str ` set known_edges \<Longrightarrow> edge_type_from_str s = CustomEdge s" for s
    unfolding known_edges_def list.set image_insert edge_type_as_str.simps insert_iff de_Morgan_disj
    by (elim conjE, simp only: edge_type_from_str_def if_False)
qed (auto simp: known_edges_def)

lemma known_labels_not_custom: "l \<in> set known_labels \<Longrightarrow> \<not> is_custom_label l"
  by (auto simp: known_labels_def is_custom_label_def)

lemma v1_endpoints_known:
  "(src, e, dst) \<in> set v1_edges \<Longrightarrow> src \<in> set known_labels \<and> dst \<in> set known_labels"
  by (auto simp: v1_edges_def known_labels_def)

lemma edge_type_allowed_iff:
  "(\<exists>src\<in>set known_labels. \<exists>dst\<in>set known_labels. is_valid_edge src e dst) \<longleftrightarrow>
     is_custom_edge e \<or> e \<in> set (map (\<lambda>(src, e, dst). e) v1_edges)"
proof
  assume "is_custom_edge e \<or> e \<in> set (map (\<lambda>(src, e, dst). e) v1_edges)"
  then show "\<exists>src\<in>set known_labels. \<exists>dst\<in>set known_labels. is_valid_edge src e dst"
  proof
    assume "is_custom_edge e"
    then have "is_valid_edge Account e Account" by (simp add: is_valid_edge_def)
    then show ?thesis by (auto simp: known_labels_def)
  next
    assume "e \<in> set (map (\<lambda>(src, e, dst). e) v1_edges)"
    then obtain src dst where "(src, e, dst) \<in> set v1_edges" by auto
    then show ?thesis using v1_endpoints_known [of src e dst] unfolding is_valid_edge_def by auto
  qed
qed (auto simp: is_valid_edge_def known_labels_not_custom image_iff split: if_splits)

subsection \<open>Properties\<close>

text \<open>Reading the string of a label or an edge type gives it back exactly unless it is a
  \<open>Custom\<close> holding a name of the schema, which comes back as the schema's variant. Reading never loses
  the text: printing what was read gives the string back, so distinct strings stay distinct.\<close>

theorem label_strings_roundtrip:
  "(node_label_from_str (node_label_as_str l) = l \<longleftrightarrow>
      l \<notin> CustomLabel ` node_label_as_str ` set known_labels) \<and>
   (edge_type_from_str (edge_type_as_str e) = e \<longleftrightarrow>
      e \<notin> CustomEdge ` edge_type_as_str ` set known_edges) \<and>
   node_label_as_str (node_label_from_str s) = s \<and> edge_type_as_str (edge_type_from_str s) = s"
  by (intro conjI node_names.from_as_iff edge_names.from_as_iff node_names.as_from edge_names.as_from)

text \<open>Between labels of the schema the validator refuses every edge of the types the schema gained
  after v1, and an account does not contain a bucket, a policy, a secret or the wildcard principal. A
  custom label or edge type is accepted anywhere, also when its text is the name of a schema variant.\<close>

theorem edge_validation_gaps:
  "filter (\<lambda>e. \<not> (\<exists>src\<in>set known_labels. \<exists>dst\<in>set known_labels. is_valid_edge src e dst)) known_edges =
     [HasManagedPolicy, HasPermissionsBoundary, HasBucketPolicy, HasKeyPolicy, AllowsAccessFrom,
      KmsGrantable, EnforcesScp, EncryptedBy, ActsOn] \<and>
   filter (\<lambda>l. \<not> is_valid_edge Account Contains l) known_labels = [Bucket, Policy, WildcardPrincipal, Secret] \<and>
   is_valid_edge (CustomLabel s) e t \<and> is_valid_edge f e (CustomLabel s) \<and> is_valid_edge f (CustomEdge s) t"
proof (intro conjI)
  show "filter (\<lambda>e. \<not> (\<exists>src\<in>set known_labels. \<exists>dst\<in>set known_labels. is_valid_edge src e dst)) known_edges =
     [HasManagedPolicy, HasPermissionsBoundary, HasBucketPolicy, HasKeyPolicy, AllowsAccessFrom,
      KmsGrantable, EnforcesScp, EncryptedBy, ActsOn]"
    unfolding edge_type_allowed_iff by code_simp
  show "filter (\<lambda>l. \<not> is_valid_edge Account Contains l) known_labels = [Bucket, Policy, WildcardPrincipal, Secret]"
    by code_simp
qed (simp_all add: is_valid_edge_def is_custom_label_def is_custom_edge_def)

end
