(* ===== verification/Arn.thy ===== *)
theory Arn
  imports Prelude
begin

section \<open>Amazon resource names\<close>

text \<open>
  \<open>activable-schema/src/arn.rs\<close>: the parser that gives every graph node its identity, the canonical
  string it is stored under and the test for concrete node ids.
\<close>

record arn =
  arn_partition :: string
  arn_service :: string
  arn_region :: string
  arn_account :: string
  arn_resource :: string

definition partitions :: "string list" where
  "partitions = [''aws'', ''aws-cn'', ''aws-us-gov'']"

definition account_field_ok :: "string \<Rightarrow> bool" where
  "account_field_ok acc \<longleftrightarrow>
     acc = [] \<or> acc = ''aws'' \<or> length acc = 12 \<and> list_all is_ascii_digit acc"

text \<open>The checks on the six parts, in the order of the code.\<close>

definition arn_of_parts :: "string list \<Rightarrow> string + arn" where
  "arn_of_parts parts =
     (if length parts \<noteq> 6
      then Inl (''ARN must have exactly 6 colon-separated parts, got '' @ show_nat (length parts))
      else if parts ! 0 \<noteq> ''arn''
      then Inl (''ARN must start with '' @ quoted ''arn:'' @ '', got '' @ quoted (parts ! 0))
      else let part = to_lowercase (parts ! 1) in
      if part \<notin> set partitions
      then Inl (''Unknown ARN partition '' @ quoted part @ ''; must be one of {aws, aws-cn, aws-us-gov}'')
      else let service = to_lowercase (parts ! 2) in
      if service = [] then Inl ''ARN service field must not be empty''
      else let region = to_lowercase (parts ! 3); acc = parts ! 4 in
      if \<not> account_field_ok acc
      then Inl (''ARN account must be empty, '' @ quoted ''aws'' @ '', or exactly 12 digits, got '' @ quoted acc)
      else let resource = parts ! 5 in
      if resource = [] then Inl ''ARN resource field must not be empty''
      else Inr \<lparr>arn_partition = part, arn_service = service, arn_region = region, arn_account = acc,
        arn_resource = resource\<rparr>)"

definition parse_arn :: "string \<Rightarrow> string + arn" where
  "parse_arn s =
     (if s = [] then Inl ''ARN string is empty'' else arn_of_parts (splitn 6 CHR '':'' s))"

definition canonical :: "arn \<Rightarrow> string" where
  "canonical a = ''arn:'' @ arn_partition a @ '':'' @ arn_service a @ '':'' @ arn_region a @ '':'' @
     arn_account a @ '':'' @ arn_resource a"

definition is_valid_node_id :: "string \<Rightarrow> bool" where
  "is_valid_node_id s =
     (case parse_arn s of
        Inr a \<Rightarrow> CHR ''*'' \<notin> set (arn_resource a) \<and> CHR ''?'' \<notin> set (arn_resource a)
      | Inl e \<Rightarrow> False)"

subsection \<open>What the parser accepts\<close>

text \<open>The canonical ARNs: the values the parser can return.\<close>

definition arn_wf :: "arn \<Rightarrow> bool" where
  "arn_wf a \<longleftrightarrow>
     arn_partition a \<in> set partitions \<and>
     arn_service a \<noteq> [] \<and> CHR '':'' \<notin> set (arn_service a) \<and> to_lowercase (arn_service a) = arn_service a \<and>
     CHR '':'' \<notin> set (arn_region a) \<and> to_lowercase (arn_region a) = arn_region a \<and>
     account_field_ok (arn_account a) \<and> arn_resource a \<noteq> []"

lemma splitn_step:
  "splitn (Suc (Suc n)) c s = a # b # ps \<longleftrightarrow> c \<notin> set a \<and> (\<exists>r. s = a @ c # r \<and> splitn (Suc n) c r = b # ps)"
proof (cases "split_once c s")
  case None
  then have "c \<notin> set s" by (simp add: split_once_None_iff)
  with None show ?thesis by auto
next
  case (Some ar)
  then obtain x r where x: "split_once c s = Some (x, r)" by (cases ar) simp
  have "c \<notin> set a \<and> s = a @ c # r' \<longleftrightarrow> split_once c s = Some (a, r')" for r'
    unfolding split_once_Some_iff by blast
  then have "c \<notin> set a \<and> s = a @ c # r' \<longleftrightarrow> a = x \<and> r' = r" for r' unfolding x by auto
  then show ?thesis unfolding splitn.simps x option.case prod.case list.inject by blast
qed

lemma splitn_6_iff:
  "splitn 6 c s = [p0, p1, p2, p3, p4, p5] \<longleftrightarrow>
     s = p0 @ c # p1 @ c # p2 @ c # p3 @ c # p4 @ c # p5 \<and>
     c \<notin> set p0 \<and> c \<notin> set p1 \<and> c \<notin> set p2 \<and> c \<notin> set p3 \<and> c \<notin> set p4"
proof -
  have n: "splitn 6 c s = splitn (Suc (Suc (Suc (Suc (Suc (Suc 0)))))) c s" by (simp add: eval_nat_numeral)
  show ?thesis unfolding n splitn_step splitn.simps(2) by blast
qed

lemma length_6_iff: "length xs = 6 \<longleftrightarrow> (\<exists>a b c d e f. xs = [a, b, c, d, e, f])"
  by (auto simp: eval_nat_numeral length_Suc_conv)

lemma colon_not_lower: "CHR '':'' \<notin> set (to_lowercase s) \<longleftrightarrow> CHR '':'' \<notin> set s"
  by (simp add: in_to_lowercase_iff is_ascii_alphabetic_def)

lemma no_colon_account: "account_field_ok acc \<Longrightarrow> CHR '':'' \<notin> set acc"
  by (auto simp: account_field_ok_def list_all_iff is_ascii_digit_def)

lemma no_colon_partition: "p \<in> set partitions \<Longrightarrow> CHR '':'' \<notin> set p"
  by (auto simp: partitions_def)

lemma arn_of_parts_Inr_iff:
  "arn_of_parts parts = Inr a \<longleftrightarrow>
     (\<exists>p sv r. parts = [''arn'', p, sv, r, arn_account a, arn_resource a] \<and>
        to_lowercase p = arn_partition a \<and> to_lowercase sv = arn_service a \<and> to_lowercase r = arn_region a \<and>
        arn_partition a \<in> set partitions \<and> arn_service a \<noteq> [] \<and> account_field_ok (arn_account a) \<and>
        arn_resource a \<noteq> [])"
proof (cases "length parts = 6")
  case True
  then obtain p0 p1 p2 p3 p4 p5 where parts: "parts = [p0, p1, p2, p3, p4, p5]" by (auto simp: length_6_iff)
  show ?thesis
    by (cases a) (auto simp: parts arn_of_parts_def Let_def eval_nat_numeral)
qed (auto simp: arn_of_parts_def)

lemma parse_arn_Inr_iff:
  "parse_arn s = Inr a \<longleftrightarrow>
     (\<exists>p sv r. s = ''arn:'' @ p @ '':'' @ sv @ '':'' @ r @ '':'' @ arn_account a @ '':'' @ arn_resource a \<and>
        to_lowercase p = arn_partition a \<and> to_lowercase sv = arn_service a \<and> to_lowercase r = arn_region a) \<and>
     arn_wf a" (is "_ \<longleftrightarrow> ?rhs")
proof -
  have "parse_arn s = Inr a \<longleftrightarrow> s \<noteq> [] \<and> arn_of_parts (splitn 6 CHR '':'' s) = Inr a"
    by (simp add: parse_arn_def)
  also have "\<dots> \<longleftrightarrow> ?rhs"
  proof
    assume "s \<noteq> [] \<and> arn_of_parts (splitn 6 CHR '':'' s) = Inr a"
    then obtain p sv r where sp: "splitn 6 CHR '':'' s = [''arn'', p, sv, r, arn_account a, arn_resource a]"
      and l: "to_lowercase p = arn_partition a" "to_lowercase sv = arn_service a" "to_lowercase r = arn_region a"
      and ok: "arn_partition a \<in> set partitions" "arn_service a \<noteq> []" "account_field_ok (arn_account a)"
        "arn_resource a \<noteq> []"
      unfolding arn_of_parts_Inr_iff by blast
    have s: "s = ''arn:'' @ p @ '':'' @ sv @ '':'' @ r @ '':'' @ arn_account a @ '':'' @ arn_resource a"
      and c: "CHR '':'' \<notin> set sv" "CHR '':'' \<notin> set r"
      using sp unfolding splitn_6_iff by simp_all
    have "arn_wf a"
      unfolding arn_wf_def using ok c by (simp add: l [symmetric] colon_not_lower)
    with s l show ?rhs by blast
  next
    assume r: ?rhs
    then obtain p sv r where s: "s = ''arn:'' @ p @ '':'' @ sv @ '':'' @ r @ '':'' @ arn_account a @ '':'' @ arn_resource a"
      and l: "to_lowercase p = arn_partition a" "to_lowercase sv = arn_service a" "to_lowercase r = arn_region a"
      and wf: "arn_wf a" by blast
    have "CHR '':'' \<notin> set p" "CHR '':'' \<notin> set sv" "CHR '':'' \<notin> set r"
      using wf l colon_not_lower [of p] colon_not_lower [of sv] colon_not_lower [of r] no_colon_partition
      unfolding arn_wf_def by metis+
    then have "splitn 6 CHR '':'' s = [''arn'', p, sv, r, arn_account a, arn_resource a]"
      using wf unfolding splitn_6_iff s by (simp add: arn_wf_def no_colon_account)
    then show "s \<noteq> [] \<and> arn_of_parts (splitn 6 CHR '':'' s) = Inr a"
      unfolding arn_of_parts_Inr_iff using l wf s unfolding arn_wf_def by simp
  qed
  finally show ?thesis .
qed

lemma parse_canonical_iff: "parse_arn (canonical a) = Inr a \<longleftrightarrow> arn_wf a"
proof
  assume w: "arn_wf a"
  then have "to_lowercase (arn_partition a) = arn_partition a"
    by (auto simp: arn_wf_def partitions_def lower_char_def)
  with w show "parse_arn (canonical a) = Inr a"
    unfolding parse_arn_Inr_iff canonical_def arn_wf_def by blast
qed (simp add: parse_arn_Inr_iff)

lemma parse_canonical: "arn_wf a \<Longrightarrow> parse_arn (canonical a) = Inr a"
  by (simp add: parse_canonical_iff)

lemma parse_arn_wf: "parse_arn s = Inr a \<Longrightarrow> arn_wf a"
  by (simp add: parse_arn_Inr_iff)

subsection \<open>Properties\<close>

text \<open>C11: a string parses to an ARN exactly when it is \<open>arn:partition:service:region:account:resource\<close>
  with the fields of that ARN up to the case of the first three, and the ARN is canonical: a known
  partition, a service, lower case up to the region, an account that is empty, \<open>aws\<close> or twelve digits,
  a resource. The canonical ARNs are exactly those whose printed form reads back as themselves.\<close>

theorem arn_parse_exact:
  "(parse_arn s = Inr a \<longleftrightarrow>
     (\<exists>p sv r. s = ''arn:'' @ p @ '':'' @ sv @ '':'' @ r @ '':'' @ arn_account a @ '':'' @ arn_resource a \<and>
        to_lowercase p = arn_partition a \<and> to_lowercase sv = arn_service a \<and> to_lowercase r = arn_region a) \<and>
     arn_wf a) \<and>
   (parse_arn (canonical a) = Inr a \<longleftrightarrow> arn_wf a)"
  by (intro conjI parse_arn_Inr_iff parse_canonical_iff)

text \<open>Node identity. Two spellings of an ARN that differ in the case of partition, service or region
  get the same canonical id; canonicalising twice changes nothing; and a string is a node id exactly
  when its canonical form is one.\<close>

theorem node_identity:
  assumes "parse_arn s = Inr a"
  shows "parse_arn (canonical a) = Inr a \<and> to_lowercase (canonical a) = to_lowercase s \<and>
    is_valid_node_id (canonical a) = is_valid_node_id s \<and>
    (\<forall>t b. parse_arn t = Inr b \<longrightarrow> (canonical a = canonical b \<longleftrightarrow> a = b))"
proof (intro conjI allI impI)
  show c: "parse_arn (canonical a) = Inr a" using parse_arn_wf [OF assms] parse_canonical_iff by blast
  show "to_lowercase (canonical a) = to_lowercase s"
  proof -
    obtain p sv r where s: "s = ''arn:'' @ p @ '':'' @ sv @ '':'' @ r @ '':'' @ arn_account a @ '':'' @ arn_resource a"
      and l: "to_lowercase p = arn_partition a" "to_lowercase sv = arn_service a" "to_lowercase r = arn_region a"
      using assms unfolding parse_arn_Inr_iff by blast
    show ?thesis unfolding s canonical_def by (simp add: l [symmetric])
  qed
  show "is_valid_node_id (canonical a) = is_valid_node_id s" by (simp add: is_valid_node_id_def c assms)
  fix t b assume "parse_arn t = Inr b"
  then have "parse_arn (canonical b) = Inr b" using parse_arn_wf parse_canonical_iff by blast
  note d = this
  have "a = b" if e: "canonical a = canonical b"
    using trans [OF c [symmetric] d [folded e]] by (rule sum.inject(2) [THEN iffD1])
  then show "canonical a = canonical b \<longleftrightarrow> a = b" by blast
qed

theorem node_identity_witness:
  "\<exists>a. parse_arn ''arn:AWS:S3:::Bucket/Key'' = Inr a \<and> canonical a = ''arn:aws:s3:::Bucket/Key'' \<and>
     is_valid_node_id (canonical a)"
proof -
  have "case parse_arn ''arn:AWS:S3:::Bucket/Key'' of
      Inr a \<Rightarrow> canonical a = ''arn:aws:s3:::Bucket/Key'' \<and> is_valid_node_id ''arn:AWS:S3:::Bucket/Key''
    | Inl e \<Rightarrow> False" by code_simp
  then obtain a where a: "parse_arn ''arn:AWS:S3:::Bucket/Key'' = Inr a" "canonical a = ''arn:aws:s3:::Bucket/Key''"
    "is_valid_node_id ''arn:AWS:S3:::Bucket/Key''" by (auto split: sum.splits)
  with node_identity [OF a(1)] show ?thesis by blast
qed

end
