(* ===== verification/Properties.thy ===== *)
theory Properties
  imports Labels Arn Json
begin

section \<open>Node properties and their encoding as agtype values\<close>

text \<open>
  \<open>activable-schema/src/properties.rs\<close>: the property records of the node types, their wrapper enum and
  its accessors; \<open>serde_agtype.rs\<close>: the conversion of nine of them to JSON objects (the \<open>From\<close> impls,
  here \<open>..._to_json\<close>) and back (the \<open>TryFrom\<close> impls, here \<open>..._from_json\<close>), with the error texts in the
  order of the code. The statements on \<open>id\<close>, \<open>ingest_run_id\<close> and \<open>ingested_at\<close> that each decoder repeats
  are \<open>common_from_json\<close>. \<open>json_printer\<close> stands for \<open>serde_json\<close>'s \<open>to_string\<close> of a value.
\<close>

subsection \<open>Records\<close>

record common_properties =
  common_id :: arn
  common_ingest_run_id :: string
  common_ingested_at :: string

record principal_properties =
  principal_common :: common_properties
  principal_name :: string
  principal_principal_type :: string
  principal_account :: string
  principal_path :: "string option"

record resource_properties =
  resource_common :: common_properties
  resource_name :: string
  resource_resource_type :: string
  resource_account :: string
  resource_region :: string

record permission_properties =
  permission_common :: common_properties
  permission_sid :: "string option"
  permission_effect :: string
  permission_actions :: "string list"
  permission_resources :: "string list"
  permission_conditions :: "string option"

record account_properties =
  account_common :: common_properties
  account_name :: string
  account_organization_id :: "string option"

record vpc_properties =
  vpc_common :: common_properties
  vpc_cidr_block :: string
  vpc_region :: string
  vpc_is_default :: bool

record iam_group_properties =
  iam_group_common :: common_properties
  iam_group_name :: string
  iam_group_path :: "string option"

record kms_key_properties =
  kms_key_common :: common_properties
  kms_key_alias :: "string option"
  kms_key_key_state :: string

record access_key_properties =
  access_key_common :: common_properties
  access_key_status :: string
  access_key_created_at :: "string option"

record federated_provider_properties =
  federated_provider_common :: common_properties
  federated_provider_name :: string
  federated_provider_provider_type :: string

record bucket_properties =
  bucket_common :: common_properties
  bucket_name :: string
  bucket_region :: string
  bucket_account_id :: string
  bucket_created_at :: "string option"

record kms_key_extended_properties =
  kms_key_extended_common :: common_properties
  kms_key_extended_key_id :: string
  kms_key_extended_region :: string
  kms_key_extended_account_id :: string
  kms_key_extended_key_usage :: "string option"
  kms_key_extended_key_state :: "string option"

record policy_properties =
  policy_common :: common_properties
  policy_name :: string
  policy_document :: string
  policy_version_id :: "string option"
  policy_source :: string

record wildcard_principal_properties =
  wildcard_principal_common :: common_properties

datatype node_properties =
    PrincipalProps principal_properties
  | ResourceProps resource_properties
  | PermissionProps permission_properties
  | AccountProps account_properties
  | VpcProps vpc_properties
  | IamGroupProps iam_group_properties
  | KmsKeyProps kms_key_properties
  | AccessKeyProps access_key_properties
  | FederatedProviderProps federated_provider_properties
  | BucketProps bucket_properties
  | KmsKeyExtendedProps kms_key_extended_properties
  | PolicyProps policy_properties
  | WildcardPrincipalProps wildcard_principal_properties
  | CustomProps json

fun node_properties_label :: "node_properties \<Rightarrow> node_label" where
  "node_properties_label (PrincipalProps p) = Principal"
| "node_properties_label (ResourceProps p) = Resource"
| "node_properties_label (PermissionProps p) = Permission"
| "node_properties_label (AccountProps p) = Account"
| "node_properties_label (VpcProps p) = Vpc"
| "node_properties_label (IamGroupProps p) = IamGroup"
| "node_properties_label (KmsKeyProps p) = KmsKey"
| "node_properties_label (AccessKeyProps p) = AccessKey"
| "node_properties_label (FederatedProviderProps p) = FederatedProvider"
| "node_properties_label (BucketProps p) = Bucket"
| "node_properties_label (KmsKeyExtendedProps p) = KmsKey"
| "node_properties_label (PolicyProps p) = Policy"
| "node_properties_label (WildcardPrincipalProps p) = WildcardPrincipal"
| "node_properties_label (CustomProps v) = CustomLabel ''Unknown''"

fun node_properties_common :: "node_properties \<Rightarrow> common_properties option" where
  "node_properties_common (PrincipalProps p) = Some (principal_common p)"
| "node_properties_common (ResourceProps p) = Some (resource_common p)"
| "node_properties_common (PermissionProps p) = Some (permission_common p)"
| "node_properties_common (AccountProps p) = Some (account_common p)"
| "node_properties_common (VpcProps p) = Some (vpc_common p)"
| "node_properties_common (IamGroupProps p) = Some (iam_group_common p)"
| "node_properties_common (KmsKeyProps p) = Some (kms_key_common p)"
| "node_properties_common (AccessKeyProps p) = Some (access_key_common p)"
| "node_properties_common (FederatedProviderProps p) = Some (federated_provider_common p)"
| "node_properties_common (BucketProps p) = Some (bucket_common p)"
| "node_properties_common (KmsKeyExtendedProps p) = Some (kms_key_extended_common p)"
| "node_properties_common (PolicyProps p) = Some (policy_common p)"
| "node_properties_common (WildcardPrincipalProps p) = Some (wildcard_principal_common p)"
| "node_properties_common (CustomProps v) = None"

definition node_properties_id :: "node_properties \<Rightarrow> arn option" where
  "node_properties_id p = map_option common_id (node_properties_common p)"

subsection \<open>Building and reading objects\<close>

text \<open>The \<open>json!\<close> macro on an object literal: a map, iterated in key order.\<close>

definition json_obj :: "(string \<times> json) list \<Rightarrow> json" where
  "json_obj kvs = JObject (sort_key fst kvs)"

definition opt_json :: "string option \<Rightarrow> json" where
  "opt_json m = (case m of None \<Rightarrow> JNull | Some s \<Rightarrow> JString s)"

definition common_fields :: "common_properties \<Rightarrow> (string \<times> json) list" where
  "common_fields c =
    [(''id'', JString (canonical (common_id c))), (''ingest_run_id'', JString (common_ingest_run_id c)),
     (''ingested_at'', JString (common_ingested_at c))]"

definition missing_field :: "string \<Rightarrow> string" where
  "missing_field k = ''Missing or invalid '' @ quoted k @ '' field''"

definition req_str :: "(string \<times> json) list \<Rightarrow> string \<Rightarrow> string + string" where
  "req_str obj k = ok_or (missing_field k) (get_str obj k)"

definition req_bool :: "(string \<times> json) list \<Rightarrow> string \<Rightarrow> string + bool" where
  "req_bool obj k = ok_or (missing_field k) (Option.bind (obj_get obj k) as_bool)"

definition req_strings :: "(string \<times> json) list \<Rightarrow> string \<Rightarrow> string \<Rightarrow> string + string list" where
  "req_strings obj k err =
     res_bind (ok_or (missing_field k) (Option.bind (obj_get obj k) as_array))
       (traverse (\<lambda>v. ok_or err (as_str v)))"

definition object_for :: "bool \<Rightarrow> string \<Rightarrow> json \<Rightarrow> string + (string \<times> json) list" where
  "object_for label_ok label v =
     (if \<not> label_ok then Inl (''Expected NodeLabel::'' @ label)
      else ok_or ''Value must be a JSON object'' (as_object v))"

definition common_from_json :: "(string \<times> json) list \<Rightarrow> string + common_properties" where
  "common_from_json obj =
     res_bind (req_str obj ''id'') (\<lambda>id_str.
     res_bind (map_err (\<lambda>e. ''Invalid ARN: '' @ e) (parse_arn id_str)) (\<lambda>i.
     res_bind (req_str obj ''ingest_run_id'') (\<lambda>run.
     res_bind (req_str obj ''ingested_at'') (\<lambda>at.
       Inr \<lparr>common_id = i, common_ingest_run_id = run, common_ingested_at = at\<rparr>))))"

text \<open>Conditions stored as a nested object are printed to a string.\<close>

definition conditions_text :: "(json \<Rightarrow> string) \<Rightarrow> (string \<times> json) list \<Rightarrow> string option" where
  "conditions_text json_printer obj =
     Option.bind (obj_get obj ''conditions'')
       (\<lambda>v. case v of JNull \<Rightarrow> None | JString s \<Rightarrow> Some s | _ \<Rightarrow> Some (json_printer v))"

subsection \<open>The nine encodings\<close>

definition principal_to_json :: "principal_properties \<Rightarrow> json" where
  "principal_to_json p = json_obj (common_fields (principal_common p) @
    [(''name'', JString (principal_name p)),
     (''principal_type'', JString (principal_principal_type p)),
     (''account'', JString (principal_account p)),
     (''path'', opt_json (principal_path p))])"

definition principal_from_json :: "node_label \<times> json \<Rightarrow> string + principal_properties" where
  "principal_from_json lv =
     res_bind (object_for (fst lv = Principal) ''Principal'' (snd lv)) (\<lambda>obj.
     res_bind (common_from_json obj) (\<lambda>c.
     res_bind (req_str obj ''name'') (\<lambda>x_name.
     res_bind (req_str obj ''principal_type'') (\<lambda>x_principal_type.
     res_bind (req_str obj ''account'') (\<lambda>x_account.
       Inr \<lparr>principal_common = c, principal_name = x_name,
         principal_principal_type = x_principal_type,
         principal_account = x_account,
         principal_path = get_str obj ''path''\<rparr>)))))"

definition resource_to_json :: "resource_properties \<Rightarrow> json" where
  "resource_to_json p = json_obj (common_fields (resource_common p) @
    [(''name'', JString (resource_name p)),
     (''resource_type'', JString (resource_resource_type p)),
     (''account'', JString (resource_account p)),
     (''region'', JString (resource_region p))])"

definition resource_from_json :: "node_label \<times> json \<Rightarrow> string + resource_properties" where
  "resource_from_json lv =
     res_bind (object_for (fst lv = Resource) ''Resource'' (snd lv)) (\<lambda>obj.
     res_bind (common_from_json obj) (\<lambda>c.
     res_bind (req_str obj ''name'') (\<lambda>x_name.
     res_bind (req_str obj ''resource_type'') (\<lambda>x_resource_type.
     res_bind (req_str obj ''account'') (\<lambda>x_account.
     res_bind (req_str obj ''region'') (\<lambda>x_region.
       Inr \<lparr>resource_common = c, resource_name = x_name,
         resource_resource_type = x_resource_type,
         resource_account = x_account,
         resource_region = x_region\<rparr>))))))"

definition permission_to_json :: "permission_properties \<Rightarrow> json" where
  "permission_to_json p = json_obj (common_fields (permission_common p) @
    [(''sid'', opt_json (permission_sid p)),
     (''effect'', JString (permission_effect p)),
     (''actions'', JArray (map JString (permission_actions p))),
     (''resources'', JArray (map JString (permission_resources p))),
     (''conditions'', opt_json (permission_conditions p))])"

definition permission_from_json :: "(json \<Rightarrow> string) \<Rightarrow> node_label \<times> json \<Rightarrow> string + permission_properties" where
  "permission_from_json json_printer lv =
     res_bind (object_for (fst lv = Permission) ''Permission'' (snd lv)) (\<lambda>obj.
     res_bind (common_from_json obj) (\<lambda>c.
     res_bind (req_str obj ''effect'') (\<lambda>x_effect.
     res_bind (req_strings obj ''actions'' (''Invalid action in '' @ quoted ''actions'' @ '' array'')) (\<lambda>x_actions.
     res_bind (req_strings obj ''resources'' (''Invalid resource in '' @ quoted ''resources'' @ '' array'')) (\<lambda>x_resources.
       Inr \<lparr>permission_common = c, permission_sid = get_str obj ''sid'',
         permission_effect = x_effect,
         permission_actions = x_actions,
         permission_resources = x_resources,
         permission_conditions = conditions_text json_printer obj\<rparr>)))))"

definition account_to_json :: "account_properties \<Rightarrow> json" where
  "account_to_json p = json_obj (common_fields (account_common p) @
    [(''name'', JString (account_name p)),
     (''organization_id'', opt_json (account_organization_id p))])"

definition account_from_json :: "node_label \<times> json \<Rightarrow> string + account_properties" where
  "account_from_json lv =
     res_bind (object_for (fst lv = Account) ''Account'' (snd lv)) (\<lambda>obj.
     res_bind (common_from_json obj) (\<lambda>c.
     res_bind (req_str obj ''name'') (\<lambda>x_name.
       Inr \<lparr>account_common = c, account_name = x_name,
         account_organization_id = get_str obj ''organization_id''\<rparr>)))"

definition vpc_to_json :: "vpc_properties \<Rightarrow> json" where
  "vpc_to_json p = json_obj (common_fields (vpc_common p) @
    [(''cidr_block'', JString (vpc_cidr_block p)),
     (''region'', JString (vpc_region p)),
     (''is_default'', JBool (vpc_is_default p))])"

definition vpc_from_json :: "node_label \<times> json \<Rightarrow> string + vpc_properties" where
  "vpc_from_json lv =
     res_bind (object_for (fst lv = Vpc) ''Vpc'' (snd lv)) (\<lambda>obj.
     res_bind (common_from_json obj) (\<lambda>c.
     res_bind (req_str obj ''cidr_block'') (\<lambda>x_cidr_block.
     res_bind (req_str obj ''region'') (\<lambda>x_region.
     res_bind (req_bool obj ''is_default'') (\<lambda>x_is_default.
       Inr \<lparr>vpc_common = c, vpc_cidr_block = x_cidr_block,
         vpc_region = x_region,
         vpc_is_default = x_is_default\<rparr>)))))"

definition iam_group_to_json :: "iam_group_properties \<Rightarrow> json" where
  "iam_group_to_json p = json_obj (common_fields (iam_group_common p) @
    [(''name'', JString (iam_group_name p)),
     (''path'', opt_json (iam_group_path p))])"

definition iam_group_from_json :: "node_label \<times> json \<Rightarrow> string + iam_group_properties" where
  "iam_group_from_json lv =
     res_bind (object_for (fst lv = IamGroup) ''IamGroup'' (snd lv)) (\<lambda>obj.
     res_bind (common_from_json obj) (\<lambda>c.
     res_bind (req_str obj ''name'') (\<lambda>x_name.
       Inr \<lparr>iam_group_common = c, iam_group_name = x_name,
         iam_group_path = get_str obj ''path''\<rparr>)))"

definition kms_key_to_json :: "kms_key_properties \<Rightarrow> json" where
  "kms_key_to_json p = json_obj (common_fields (kms_key_common p) @
    [(''alias'', opt_json (kms_key_alias p)),
     (''key_state'', JString (kms_key_key_state p))])"

definition kms_key_from_json :: "node_label \<times> json \<Rightarrow> string + kms_key_properties" where
  "kms_key_from_json lv =
     res_bind (object_for (fst lv = KmsKey) ''KmsKey'' (snd lv)) (\<lambda>obj.
     res_bind (common_from_json obj) (\<lambda>c.
     res_bind (req_str obj ''key_state'') (\<lambda>x_key_state.
       Inr \<lparr>kms_key_common = c, kms_key_alias = get_str obj ''alias'',
         kms_key_key_state = x_key_state\<rparr>)))"

definition access_key_to_json :: "access_key_properties \<Rightarrow> json" where
  "access_key_to_json p = json_obj (common_fields (access_key_common p) @
    [(''status'', JString (access_key_status p)),
     (''created_at'', opt_json (access_key_created_at p))])"

definition access_key_from_json :: "node_label \<times> json \<Rightarrow> string + access_key_properties" where
  "access_key_from_json lv =
     res_bind (object_for (fst lv = AccessKey) ''AccessKey'' (snd lv)) (\<lambda>obj.
     res_bind (common_from_json obj) (\<lambda>c.
     res_bind (req_str obj ''status'') (\<lambda>x_status.
       Inr \<lparr>access_key_common = c, access_key_status = x_status,
         access_key_created_at = get_str obj ''created_at''\<rparr>)))"

definition federated_provider_to_json :: "federated_provider_properties \<Rightarrow> json" where
  "federated_provider_to_json p = json_obj (common_fields (federated_provider_common p) @
    [(''name'', JString (federated_provider_name p)),
     (''provider_type'', JString (federated_provider_provider_type p))])"

definition federated_provider_from_json :: "node_label \<times> json \<Rightarrow> string + federated_provider_properties" where
  "federated_provider_from_json lv =
     res_bind (object_for (fst lv = FederatedProvider) ''FederatedProvider'' (snd lv)) (\<lambda>obj.
     res_bind (common_from_json obj) (\<lambda>c.
     res_bind (req_str obj ''name'') (\<lambda>x_name.
     res_bind (req_str obj ''provider_type'') (\<lambda>x_provider_type.
       Inr \<lparr>federated_provider_common = c, federated_provider_name = x_name,
         federated_provider_provider_type = x_provider_type\<rparr>))))"

subsection \<open>Decoding what was encoded\<close>

lemma distinct_sort_fst: "distinct (map fst kvs) \<Longrightarrow> distinct (map fst (sort_key fst kvs))"
  by (simp add: distinct_map)

lemma obj_get_sorted: "distinct (map fst kvs) \<Longrightarrow> obj_get (sort_key fst kvs) k = obj_get kvs k"
  unfolding obj_get_def by (rule map_of_inject_set [THEN iffD2, THEN fun_cong])
     (simp_all add: distinct_sort_fst)

lemma wf_json_obj:
  "distinct (map fst kvs) \<Longrightarrow> list_all (\<lambda>kv. wf_json (snd kv)) kvs \<Longrightarrow> wf_json (json_obj kvs)"
  by (simp add: json_obj_def list_all_iff strict_sorted_iff distinct_sort_fst)

lemma as_str_opt_json: "as_str (opt_json m) = m"
  by (cases m) (simp_all add: opt_json_def)

lemma conditions_opt_json:
  "(case opt_json m of JNull \<Rightarrow> None | JString s \<Rightarrow> Some s | _ \<Rightarrow> Some (f (opt_json m))) = m"
  by (cases m) (simp_all add: opt_json_def)

lemma traverse_JStrings: "traverse (\<lambda>v. ok_or e (as_str v)) (map JString ss) = Inr ss"
  by (rule traverse_map_Inr) simp

lemma common_from_json_Inr: "common_from_json obj = Inr c \<Longrightarrow> arn_wf (common_id c)"
  by (auto simp: common_from_json_def res_iffs dest: parse_arn_wf)

lemma object_for_Inr: "object_for ok l v = Inr obj \<Longrightarrow> ok"
  by (simp add: object_for_def split: if_splits)

lemma wf_opt_json [simp]: "wf_json (opt_json m)"
  by (cases m) (simp_all add: opt_json_def)

lemmas codec_simps = json_obj_def object_for_def obj_get_sorted common_from_json_def common_fields_def
  req_str_def req_bool_def req_strings_def get_str_def conditions_text_def as_str_opt_json conditions_opt_json
  traverse_JStrings parse_canonical as_bool_def

text \<open>The contract of the nine codecs, and what follows from it.\<close>

locale agtype_codec =
  fixes label :: node_label
    and encode :: "'p \<Rightarrow> json"
    and decode :: "node_label \<times> json \<Rightarrow> string + 'p"
    and arn_of :: "'p \<Rightarrow> arn"
  assumes decode_encode: "arn_wf (arn_of p) \<Longrightarrow> decode (label, encode p) = Inr p"
    and decode_sound: "decode (l, v) = Inr p \<Longrightarrow> l = label \<and> arn_wf (arn_of p)"
    and encode_wf: "wf_json (encode p)"
begin

lemma roundtrip_iff: "decode (label, encode p) = Inr p \<longleftrightarrow> arn_wf (arn_of p)"
  using decode_encode decode_sound by blast

lemma decoded_values: "{p. \<exists>l v. decode (l, v) = Inr p} = {p. arn_wf (arn_of p)}"
  using decode_encode decode_sound by blast

lemma encode_inj: "inj_on encode {p. arn_wf (arn_of p)}"
proof (rule inj_onI)
  fix p q assume wf: "p \<in> {p. arn_wf (arn_of p)}" "q \<in> {p. arn_wf (arn_of p)}" and e: "encode p = encode q"
  have d: "decode (label, encode p) = Inr p" "decode (label, encode q) = Inr q"
    using wf by (simp_all add: decode_encode)
  show "p = q" by (rule sum.inject(2) [THEN iffD1, OF trans [OF d(1) [symmetric] d(2) [folded e]]])
qed

end

interpretation principal_codec: agtype_codec Principal principal_to_json principal_from_json "\<lambda>p. common_id (principal_common p)"
proof
  show "arn_wf (common_id (principal_common p)) \<Longrightarrow> principal_from_json (Principal, principal_to_json p) = Inr p" for p
    by (simp add: principal_from_json_def principal_to_json_def codec_simps)
  show "principal_from_json (l, v) = Inr p \<Longrightarrow> l = Principal \<and> arn_wf (common_id (principal_common p))" for l v p
    by (auto simp: principal_from_json_def res_iffs dest: object_for_Inr common_from_json_Inr)
  show "wf_json (principal_to_json p)" for p
    unfolding principal_to_json_def by (rule wf_json_obj) (simp_all add: common_fields_def list_all_iff)
qed

interpretation resource_codec: agtype_codec Resource resource_to_json resource_from_json "\<lambda>p. common_id (resource_common p)"
proof
  show "arn_wf (common_id (resource_common p)) \<Longrightarrow> resource_from_json (Resource, resource_to_json p) = Inr p" for p
    by (simp add: resource_from_json_def resource_to_json_def codec_simps)
  show "resource_from_json (l, v) = Inr p \<Longrightarrow> l = Resource \<and> arn_wf (common_id (resource_common p))" for l v p
    by (auto simp: resource_from_json_def res_iffs dest: object_for_Inr common_from_json_Inr)
  show "wf_json (resource_to_json p)" for p
    unfolding resource_to_json_def by (rule wf_json_obj) (simp_all add: common_fields_def list_all_iff)
qed

interpretation permission_codec: agtype_codec Permission permission_to_json "permission_from_json json_printer" "\<lambda>p. common_id (permission_common p)" for json_printer
proof
  show "arn_wf (common_id (permission_common p)) \<Longrightarrow> permission_from_json json_printer (Permission, permission_to_json p) = Inr p" for p
    by (simp add: permission_from_json_def permission_to_json_def codec_simps)
  show "permission_from_json json_printer (l, v) = Inr p \<Longrightarrow> l = Permission \<and> arn_wf (common_id (permission_common p))" for l v p
    by (auto simp: permission_from_json_def res_iffs dest: object_for_Inr common_from_json_Inr)
  show "wf_json (permission_to_json p)" for p
    unfolding permission_to_json_def by (rule wf_json_obj) (simp_all add: common_fields_def list_all_iff)
qed

interpretation account_codec: agtype_codec Account account_to_json account_from_json "\<lambda>p. common_id (account_common p)"
proof
  show "arn_wf (common_id (account_common p)) \<Longrightarrow> account_from_json (Account, account_to_json p) = Inr p" for p
    by (simp add: account_from_json_def account_to_json_def codec_simps)
  show "account_from_json (l, v) = Inr p \<Longrightarrow> l = Account \<and> arn_wf (common_id (account_common p))" for l v p
    by (auto simp: account_from_json_def res_iffs dest: object_for_Inr common_from_json_Inr)
  show "wf_json (account_to_json p)" for p
    unfolding account_to_json_def by (rule wf_json_obj) (simp_all add: common_fields_def list_all_iff)
qed

interpretation vpc_codec: agtype_codec Vpc vpc_to_json vpc_from_json "\<lambda>p. common_id (vpc_common p)"
proof
  show "arn_wf (common_id (vpc_common p)) \<Longrightarrow> vpc_from_json (Vpc, vpc_to_json p) = Inr p" for p
    by (simp add: vpc_from_json_def vpc_to_json_def codec_simps)
  show "vpc_from_json (l, v) = Inr p \<Longrightarrow> l = Vpc \<and> arn_wf (common_id (vpc_common p))" for l v p
    by (auto simp: vpc_from_json_def res_iffs dest: object_for_Inr common_from_json_Inr)
  show "wf_json (vpc_to_json p)" for p
    unfolding vpc_to_json_def by (rule wf_json_obj) (simp_all add: common_fields_def list_all_iff)
qed

interpretation iam_group_codec: agtype_codec IamGroup iam_group_to_json iam_group_from_json "\<lambda>p. common_id (iam_group_common p)"
proof
  show "arn_wf (common_id (iam_group_common p)) \<Longrightarrow> iam_group_from_json (IamGroup, iam_group_to_json p) = Inr p" for p
    by (simp add: iam_group_from_json_def iam_group_to_json_def codec_simps)
  show "iam_group_from_json (l, v) = Inr p \<Longrightarrow> l = IamGroup \<and> arn_wf (common_id (iam_group_common p))" for l v p
    by (auto simp: iam_group_from_json_def res_iffs dest: object_for_Inr common_from_json_Inr)
  show "wf_json (iam_group_to_json p)" for p
    unfolding iam_group_to_json_def by (rule wf_json_obj) (simp_all add: common_fields_def list_all_iff)
qed

interpretation kms_key_codec: agtype_codec KmsKey kms_key_to_json kms_key_from_json "\<lambda>p. common_id (kms_key_common p)"
proof
  show "arn_wf (common_id (kms_key_common p)) \<Longrightarrow> kms_key_from_json (KmsKey, kms_key_to_json p) = Inr p" for p
    by (simp add: kms_key_from_json_def kms_key_to_json_def codec_simps)
  show "kms_key_from_json (l, v) = Inr p \<Longrightarrow> l = KmsKey \<and> arn_wf (common_id (kms_key_common p))" for l v p
    by (auto simp: kms_key_from_json_def res_iffs dest: object_for_Inr common_from_json_Inr)
  show "wf_json (kms_key_to_json p)" for p
    unfolding kms_key_to_json_def by (rule wf_json_obj) (simp_all add: common_fields_def list_all_iff)
qed

interpretation access_key_codec: agtype_codec AccessKey access_key_to_json access_key_from_json "\<lambda>p. common_id (access_key_common p)"
proof
  show "arn_wf (common_id (access_key_common p)) \<Longrightarrow> access_key_from_json (AccessKey, access_key_to_json p) = Inr p" for p
    by (simp add: access_key_from_json_def access_key_to_json_def codec_simps)
  show "access_key_from_json (l, v) = Inr p \<Longrightarrow> l = AccessKey \<and> arn_wf (common_id (access_key_common p))" for l v p
    by (auto simp: access_key_from_json_def res_iffs dest: object_for_Inr common_from_json_Inr)
  show "wf_json (access_key_to_json p)" for p
    unfolding access_key_to_json_def by (rule wf_json_obj) (simp_all add: common_fields_def list_all_iff)
qed

interpretation federated_provider_codec: agtype_codec FederatedProvider federated_provider_to_json federated_provider_from_json "\<lambda>p. common_id (federated_provider_common p)"
proof
  show "arn_wf (common_id (federated_provider_common p)) \<Longrightarrow> federated_provider_from_json (FederatedProvider, federated_provider_to_json p) = Inr p" for p
    by (simp add: federated_provider_from_json_def federated_provider_to_json_def codec_simps)
  show "federated_provider_from_json (l, v) = Inr p \<Longrightarrow> l = FederatedProvider \<and> arn_wf (common_id (federated_provider_common p))" for l v p
    by (auto simp: federated_provider_from_json_def res_iffs dest: object_for_Inr common_from_json_Inr)
  show "wf_json (federated_provider_to_json p)" for p
    unfolding federated_provider_to_json_def by (rule wf_json_obj) (simp_all add: common_fields_def list_all_iff)
qed

subsection \<open>Properties\<close>

text \<open>C10: storage round trip, for each of the nine node types. A value is read back unchanged from its
  own encoding exactly when its ARN is canonical; no two such values share an encoding; and reading any
  stored value under any label gives only values with a canonical ARN, and all of them.\<close>

theorem agtype_roundtrip:
  "(principal_from_json (Principal, principal_to_json p) = Inr p \<longleftrightarrow> arn_wf (common_id (principal_common p))) \<and>
   (resource_from_json (Resource, resource_to_json r) = Inr r \<longleftrightarrow> arn_wf (common_id (resource_common r))) \<and>
   (permission_from_json json_printer (Permission, permission_to_json m) = Inr m \<longleftrightarrow> arn_wf (common_id (permission_common m))) \<and>
   (account_from_json (Account, account_to_json a) = Inr a \<longleftrightarrow> arn_wf (common_id (account_common a))) \<and>
   (vpc_from_json (Vpc, vpc_to_json n) = Inr n \<longleftrightarrow> arn_wf (common_id (vpc_common n))) \<and>
   (iam_group_from_json (IamGroup, iam_group_to_json g) = Inr g \<longleftrightarrow> arn_wf (common_id (iam_group_common g))) \<and>
   (kms_key_from_json (KmsKey, kms_key_to_json k) = Inr k \<longleftrightarrow> arn_wf (common_id (kms_key_common k))) \<and>
   (access_key_from_json (AccessKey, access_key_to_json y) = Inr y \<longleftrightarrow> arn_wf (common_id (access_key_common y))) \<and>
   (federated_provider_from_json (FederatedProvider, federated_provider_to_json f) = Inr f \<longleftrightarrow> arn_wf (common_id (federated_provider_common f))) \<and>
   {q. \<exists>l v. principal_from_json (l, v) = Inr q} = {q. arn_wf (common_id (principal_common q))} \<and>
   {q. \<exists>l v. resource_from_json (l, v) = Inr q} = {q. arn_wf (common_id (resource_common q))} \<and>
   {q. \<exists>l v. permission_from_json json_printer (l, v) = Inr q} = {q. arn_wf (common_id (permission_common q))} \<and>
   {q. \<exists>l v. account_from_json (l, v) = Inr q} = {q. arn_wf (common_id (account_common q))} \<and>
   {q. \<exists>l v. vpc_from_json (l, v) = Inr q} = {q. arn_wf (common_id (vpc_common q))} \<and>
   {q. \<exists>l v. iam_group_from_json (l, v) = Inr q} = {q. arn_wf (common_id (iam_group_common q))} \<and>
   {q. \<exists>l v. kms_key_from_json (l, v) = Inr q} = {q. arn_wf (common_id (kms_key_common q))} \<and>
   {q. \<exists>l v. access_key_from_json (l, v) = Inr q} = {q. arn_wf (common_id (access_key_common q))} \<and>
   {q. \<exists>l v. federated_provider_from_json (l, v) = Inr q} = {q. arn_wf (common_id (federated_provider_common q))} \<and>
   inj_on principal_to_json {q. arn_wf (common_id (principal_common q))} \<and>
   inj_on resource_to_json {q. arn_wf (common_id (resource_common q))} \<and>
   inj_on permission_to_json {q. arn_wf (common_id (permission_common q))} \<and>
   inj_on account_to_json {q. arn_wf (common_id (account_common q))} \<and>
   inj_on vpc_to_json {q. arn_wf (common_id (vpc_common q))} \<and>
   inj_on iam_group_to_json {q. arn_wf (common_id (iam_group_common q))} \<and>
   inj_on kms_key_to_json {q. arn_wf (common_id (kms_key_common q))} \<and>
   inj_on access_key_to_json {q. arn_wf (common_id (access_key_common q))} \<and>
   inj_on federated_provider_to_json {q. arn_wf (common_id (federated_provider_common q))}"
  by (intro conjI principal_codec.roundtrip_iff resource_codec.roundtrip_iff permission_codec.roundtrip_iff
      account_codec.roundtrip_iff vpc_codec.roundtrip_iff iam_group_codec.roundtrip_iff
      kms_key_codec.roundtrip_iff access_key_codec.roundtrip_iff federated_provider_codec.roundtrip_iff
      principal_codec.decoded_values resource_codec.decoded_values permission_codec.decoded_values
      account_codec.decoded_values vpc_codec.decoded_values iam_group_codec.decoded_values
      kms_key_codec.decoded_values access_key_codec.decoded_values federated_provider_codec.decoded_values
      principal_codec.encode_inj resource_codec.encode_inj permission_codec.encode_inj
      account_codec.encode_inj vpc_codec.encode_inj iam_group_codec.encode_inj
      kms_key_codec.encode_inj access_key_codec.encode_inj federated_provider_codec.encode_inj)

end
