(* ===== verification/Query_Builder.thy ===== *)
theory Query_Builder
  imports Prelude "HOL-Library.Word"
begin

section \<open>The Cypher query builder\<close>

text \<open>
  \<open>activable-graph/src/query_builder.rs\<close>, with the types of \<open>types.rs\<close> and \<open>error.rs\<close> it uses: the two
  escaping functions, label validation and the six query templates. \<open>debug_assert!\<close> is compiled out, as
  in a release build. Which text a Cypher lexer reads out of a literal is not decided here: it is the
  parameter \<open>lx\<close>, of which \<open>reads_literals\<close> states the documented behaviour.
\<close>

subsection \<open>Types\<close>

datatype graph_error =
    PoolError string
  | QueryError string
  | NodeNotFound
  | UnsafeParameter string
  | PoolExhausted
  | ParseError string

definition display_graph_error :: "graph_error \<Rightarrow> string" where
  "display_graph_error e =
     (case e of
        PoolError s \<Rightarrow> ''pool error: '' @ s
      | QueryError s \<Rightarrow> ''query error: '' @ s
      | NodeNotFound \<Rightarrow> ''node not found''
      | UnsafeParameter s \<Rightarrow> ''unsafe parameter: '' @ s
      | PoolExhausted \<Rightarrow> ''pool exhausted''
      | ParseError s \<Rightarrow> ''parse error: '' @ s)"

type_synonym node_id = string

record node_ref =
  ref_id :: node_id
  ref_label :: string

datatype direction = Outgoing | Incoming | Both

record graph_path =
  path_nodes :: "node_ref list"
  path_edge_labels :: "string list"

definition path_length :: "graph_path \<Rightarrow> nat" where
  "path_length p = length (path_nodes p) - 1"

subsection \<open>Escaping and labels\<close>

definition single_quote :: char where
  "single_quote = CHR 0x27"

definition backslash :: char where
  "backslash = CHR 0x5C"

text \<open>\<open>str::replace\<close> of one character by a string.\<close>

definition replace_char :: "char \<Rightarrow> string \<Rightarrow> string \<Rightarrow> string" where
  "replace_char c t s = concat (map (\<lambda>x. if x = c then t else [x]) s)"

definition escape_cypher :: "string \<Rightarrow> string" where
  "escape_cypher s =
     replace_char single_quote [backslash, single_quote] (replace_char backslash [backslash, backslash] s)"

definition escape_sql_literal :: "string \<Rightarrow> string" where
  "escape_sql_literal s =
     replace_char single_quote [single_quote, single_quote] (replace_char backslash [backslash, backslash] s)"

definition label_char_ok :: "char \<Rightarrow> bool" where
  "label_char_ok c \<longleftrightarrow> is_ascii_alphanumeric c \<or> c = CHR ''_''"

definition validate_label :: "string \<Rightarrow> graph_error + string" where
  "validate_label label =
     (case label of
        [] \<Rightarrow> Inl (UnsafeParameter ''empty label'')
      | first # rest \<Rightarrow>
          if \<not> is_ascii_alphabetic first
          then Inl (UnsafeParameter (''label must start with a letter: '' @ label))
          else case find (\<lambda>c. \<not> label_char_ok c) label of
              Some c \<Rightarrow> Inl (UnsafeParameter
                (''label contains invalid character '' @ quoted [c] @ '': '' @ label))
            | None \<Rightarrow> Inr label)"

subsection \<open>The templates\<close>

text \<open>The SQL around a Cypher body, which PostgreSQL reads up to the next pair of dollar signs.\<close>

definition cypher_call :: "string \<Rightarrow> string \<Rightarrow> string \<Rightarrow> string \<Rightarrow> string" where
  "cypher_call sel graph body cols =
     ''SELECT '' @ sel @ '' FROM ag_catalog.cypher('' @ quoted graph @ '', $$'' @ body @ ''$$) AS ('' @ cols @ '')''"

definition node_columns :: "string \<Rightarrow> string \<Rightarrow> string" where
  "node_columns graph body =
     cypher_call ''node_id::text, node_label::text'' graph body ''node_id agtype, node_label agtype''"

definition id_map :: "node_id \<Rightarrow> string" where
  "id_map i = ''{id: '' @ quoted (escape_cypher i) @ ''}''"

definition find_by_id :: "string \<Rightarrow> string \<Rightarrow> node_id \<Rightarrow> graph_error + string" where
  "find_by_id graph label i =
     res_bind (validate_label label) (\<lambda>_.
     Inr (node_columns graph (''MATCH (n:'' @ label @ '' '' @ id_map i @ '') RETURN n.id, label(n)'')))"

definition edge_filter :: "string list \<Rightarrow> string \<times> string" where
  "edge_filter edge_types =
     (case edge_types of
        [] \<Rightarrow> (''[r]'', '''')
      | [single] \<Rightarrow> (''[r:'' @ single @ '']'', '''')
      | many \<Rightarrow> (''[r]'', '' WHERE label(r) IN ['' @ join '', '' (map quoted many) @ '']''))"

definition arrows :: "direction \<Rightarrow> string \<times> string" where
  "arrows d = (case d of Outgoing \<Rightarrow> (''-'', ''->'') | Incoming \<Rightarrow> (''<-'', ''-'') | Both \<Rightarrow> (''-'', ''-''))"

definition walk_edges :: "string \<Rightarrow> node_id \<Rightarrow> string list \<Rightarrow> direction \<Rightarrow> 8 word \<Rightarrow> graph_error + string" where
  "walk_edges graph start edge_types d result_limit =
     res_bind (traverse validate_label edge_types) (\<lambda>_.
     case edge_filter edge_types of (rel_pattern, where_clause) \<Rightarrow>
     case arrows d of (arrow_left, arrow_right) \<Rightarrow>
     Inr (node_columns graph (''MATCH (s '' @ id_map start @ '')'' @ arrow_left @ rel_pattern @ arrow_right @
       ''(t)'' @ where_clause @ '' RETURN t.id, label(t) LIMIT '' @ show_nat (unat result_limit))))"

text \<open>The pattern of a variable-length traversal: at most one edge type.\<close>

definition vle_pattern :: "string list \<Rightarrow> 8 word \<Rightarrow> graph_error + string" where
  "vle_pattern edge_types max_hops =
     (case edge_types of
        [] \<Rightarrow> Inr (''[*1..'' @ show_nat (unat max_hops) @ '']'')
      | [single] \<Rightarrow> res_bind (validate_label single) (\<lambda>_.
          Inr (''[:'' @ single @ ''*1..'' @ show_nat (unat max_hops) @ '']''))
      | _ \<Rightarrow> Inl (UnsafeParameter (''variable-length traversal accepts at most one edge type '' @
          ''(AGE has no multi-type path filter); query per type instead'')))"

definition path_finder ::
  "string \<Rightarrow> node_id \<Rightarrow> node_id \<Rightarrow> string list \<Rightarrow> 8 word \<Rightarrow> graph_error + string" where
  "path_finder graph start end_id edge_pattern max_hops =
     res_bind (vle_pattern edge_pattern max_hops) (\<lambda>rel_pattern.
     Inr (cypher_call ''path::text'' graph
       (''MATCH path = (s '' @ id_map start @ '')-'' @ rel_pattern @ ''->(t '' @ id_map end_id @
        '') RETURN [n IN nodes(path) | {id: n.id, label: label(n)}]'') ''path agtype''))"

definition shortest_path_length :: "string \<Rightarrow> node_id \<Rightarrow> node_id \<Rightarrow> 8 word \<Rightarrow> graph_error + string" where
  "shortest_path_length graph start end_id max_hops =
     Inr (cypher_call ''path_length::text'' graph
       (''MATCH path = (s '' @ id_map start @ '')-[*1..'' @ show_nat (unat max_hops) @ '']->(t '' @ id_map end_id @
        '') RETURN length(path) ORDER BY length(path) LIMIT 1'') ''path_length agtype'')"

definition blast_radius :: "string \<Rightarrow> node_id \<Rightarrow> string list \<Rightarrow> 8 word \<Rightarrow> graph_error + string" where
  "blast_radius graph node edge_types max_hops =
     res_bind (vle_pattern edge_types max_hops) (\<lambda>rel_pattern.
     Inr (node_columns graph (''MATCH (c '' @ id_map node @ '')-'' @ rel_pattern @
       ''->(neighbor) RETURN neighbor.id, label(neighbor) LIMIT 100'')))"

definition subgraph :: "string \<Rightarrow> node_id \<Rightarrow> 8 word \<Rightarrow> graph_error + string" where
  "subgraph graph center radius =
     Inr (node_columns graph (''MATCH (c '' @ id_map center @ '')-[*1..'' @ show_nat (unat radius) @
       '']->(neighbor) RETURN neighbor.id, label(neighbor) LIMIT 100''))"

subsection \<open>Reading string literals\<close>

text \<open>
  The documented reading of a Cypher literal, after its opening quote: it ends at the next quote, and a
  backslash before a quote or a backslash stands for that character. \<open>lx\<close> answers the text of the
  literal and what follows it; what it does with other escapes is left open.
\<close>

definition reads_literals :: "(string \<Rightarrow> (string \<times> string) option) \<Rightarrow> bool" where
  "reads_literals lx \<longleftrightarrow>
     (\<forall>r. lx (single_quote # r) = Some ([], r)) \<and>
     (\<forall>c r. c \<noteq> single_quote \<and> c \<noteq> backslash \<longrightarrow> lx (c # r) = map_option (\<lambda>(s, t). (c # s, t)) (lx r)) \<and>
     (\<forall>c r. c = single_quote \<or> c = backslash \<longrightarrow>
        lx (backslash # c # r) = map_option (\<lambda>(s, t). (c # s, t)) (lx r))"

text \<open>The string literals of a Cypher text, in order.\<close>

inductive has_literals :: "(string \<Rightarrow> (string \<times> string) option) \<Rightarrow> string \<Rightarrow> string list \<Rightarrow> bool" for lx where
  no_literal: "single_quote \<notin> set t \<Longrightarrow> has_literals lx t []"
| one_literal: "single_quote \<notin> set pre \<Longrightarrow> lx post = Some (s, rest) \<Longrightarrow> has_literals lx rest ss \<Longrightarrow>
     has_literals lx (pre @ single_quote # post) (s # ss)"

lemma reads_literalsD:
  assumes "reads_literals lx"
  shows "lx (single_quote # r) = Some ([], r)"
    and "c \<noteq> single_quote \<Longrightarrow> c \<noteq> backslash \<Longrightarrow> lx (c # r) = map_option (\<lambda>(s, t). (c # s, t)) (lx r)"
    and "c = single_quote \<or> c = backslash \<Longrightarrow> lx (backslash # c # r) = map_option (\<lambda>(s, t). (c # s, t)) (lx r)"
  using assms unfolding reads_literals_def by blast+

lemma quote_not_backslash [simp]: "single_quote \<noteq> backslash" "backslash \<noteq> single_quote"
  by (simp_all add: single_quote_def backslash_def)

lemma escape_cypher_simps:
  "escape_cypher [] = []"
  "escape_cypher (c # s) =
     (if c = single_quote \<or> c = backslash then [backslash, c] else [c]) @ escape_cypher s"
  by (simp_all add: escape_cypher_def replace_char_def)

lemma escape_sql_literal_simps:
  "escape_sql_literal [] = []"
  "escape_sql_literal (c # s) =
     (if c = single_quote \<or> c = backslash then [c, c] else [c]) @ escape_sql_literal s"
  by (auto simp: escape_sql_literal_def replace_char_def)

lemma lex_escape_cypher:
  "reads_literals lx \<Longrightarrow> lx (escape_cypher s @ single_quote # r) = Some (s, r)"
  by (induction s) (auto simp: escape_cypher_simps reads_literalsD)

lemma lex_plain:
  "reads_literals lx \<Longrightarrow> single_quote \<notin> set s \<Longrightarrow> backslash \<notin> set s \<Longrightarrow>
     lx (s @ single_quote # r) = Some (s, r)"
  by (induction s) (auto simp: reads_literalsD)

lemma lex_escape_sql:
  "reads_literals lx \<Longrightarrow> single_quote \<notin> set s \<Longrightarrow> lx (escape_sql_literal s @ single_quote # r) = Some (s, r)"
  by (induction s) (auto simp: escape_sql_literal_simps reads_literalsD)

text \<open>How literals compose: after the text before a quoted value comes the value.\<close>

lemma has_literals_quoted:
  assumes "single_quote \<notin> set pre" and "lx (e @ single_quote # post) = Some (s, post)"
    and "has_literals lx post ss"
  shows "has_literals lx (pre @ quoted e @ post) (s # ss)"
proof -
  have "pre @ quoted e @ post = pre @ single_quote # (e @ single_quote # post)"
    by (simp add: quoted_def single_quote_def)
  then show ?thesis using one_literal [where lx = lx, OF assms] by (simp only:)
qed

lemma has_literals_id:
  assumes "reads_literals lx" and "single_quote \<notin> set pre" and "has_literals lx (CHR ''}'' # post) ss"
  shows "has_literals lx (pre @ id_map i @ post) (i # ss)"
proof -
  have "single_quote \<notin> set (pre @ ''{id: '')" using assms(2) by (simp add: single_quote_def)
  from has_literals_quoted [OF this lex_escape_cypher [OF assms(1)] assms(3), of i]
  show ?thesis by (simp add: id_map_def)
qed

lemma label_chars: "label_char_ok c \<Longrightarrow> c \<noteq> single_quote \<and> c \<noteq> backslash \<and> c \<noteq> CHR ''$''"
  by (auto simp: label_char_ok_def is_ascii_alphanumeric_def is_ascii_alphabetic_def is_ascii_digit_def
      single_quote_def backslash_def)

lemma validate_label_Inr_iff:
  "validate_label l = Inr l' \<longleftrightarrow>
     l' = l \<and> l \<noteq> [] \<and> is_ascii_alphabetic (hd l) \<and> list_all label_char_ok l"
  by (auto simp: validate_label_def list_all_iff find_None_iff split: list.splits option.splits)
     (auto simp: find_Some_iff)

lemma valid_label_chars:
  assumes "validate_label l = Inr l'"
  shows "single_quote \<notin> set l \<and> backslash \<notin> set l \<and> CHR ''$'' \<notin> set l"
  using assms label_chars unfolding validate_label_Inr_iff list_all_iff by metis

lemma digit_chars: "single_quote \<notin> set (show_nat n) \<and> CHR ''$'' \<notin> set (show_nat n)"
  using show_nat_digits [of n] by (auto simp: is_ascii_digit_def single_quote_def)

subsection \<open>Dollar quoting\<close>

abbreviation dollar_pair :: "string \<Rightarrow> bool" where
  "dollar_pair s \<equiv> sublist ''$$'' s"

lemma dollar_pair_Cons: "dollar_pair (c # s) \<longleftrightarrow> c = CHR ''$'' \<and> prefix ''$'' s \<or> dollar_pair s"
  by (auto simp: sublist_Cons_right)

lemma dollar_pair_prefix: "CHR ''$'' \<notin> set a \<Longrightarrow> dollar_pair (a @ s) \<longleftrightarrow> dollar_pair s"
  by (induction a) (auto simp: dollar_pair_Cons)

lemma dollar_pair_free: "CHR ''$'' \<notin> set a \<Longrightarrow> \<not> dollar_pair a"
  using dollar_pair_prefix [of a "[]"] by simp

lemma prefix_dollar_before: "c \<noteq> CHR ''$'' \<Longrightarrow> prefix ''$'' (s @ c # t) \<longleftrightarrow> prefix ''$'' s"
  by (cases s) auto

lemma dollar_pair_between:
  "c \<noteq> CHR ''$'' \<Longrightarrow> dollar_pair (s @ c # t) \<longleftrightarrow> dollar_pair s \<or> dollar_pair (c # t)"
  by (induction s) (auto simp: dollar_pair_Cons prefix_dollar_before)

lemma prefix_dollar_escape: "prefix ''$'' (escape_cypher s) \<longleftrightarrow> prefix ''$'' s"
  by (cases s) (auto simp: escape_cypher_simps single_quote_def backslash_def)

lemma dollar_pair_escape: "dollar_pair (escape_cypher s) \<longleftrightarrow> dollar_pair s"
  by (induction s)
     (auto simp: escape_cypher_simps dollar_pair_Cons prefix_dollar_escape single_quote_def backslash_def)

lemma dollar_pair_id_map: "dollar_pair (id_map i @ t) \<longleftrightarrow> dollar_pair i \<or> dollar_pair t"
proof -
  have "id_map i @ t = ''{id: '' @ [single_quote] @ escape_cypher i @ single_quote # ''}'' @ t"
    by (simp add: id_map_def quoted_def single_quote_def)
  then show ?thesis
    by (simp add: dollar_pair_between dollar_pair_Cons dollar_pair_escape single_quote_def)
qed

subsection \<open>The queries\<close>

text \<open>The body of a query holds the given literals and dollar pairs and no others.\<close>

definition body_holds :: "(string \<Rightarrow> (string \<times> string) option) \<Rightarrow> string \<Rightarrow> string list \<Rightarrow> bool" where
  "body_holds lx body lits \<longleftrightarrow> has_literals lx body lits \<and> (dollar_pair body \<longleftrightarrow> (\<exists>l\<in>set lits. dollar_pair l))"

definition inert :: "string \<Rightarrow> bool" where
  "inert t \<longleftrightarrow> single_quote \<notin> set t \<and> CHR ''$'' \<notin> set t"

lemma body_holds_inert: "inert t \<Longrightarrow> body_holds lx t []"
  by (simp add: body_holds_def inert_def no_literal dollar_pair_free)

lemma body_holds_id:
  assumes "reads_literals lx" and "inert pre" and "body_holds lx (CHR ''}'' # post) ss"
  shows "body_holds lx (pre @ id_map i @ post) (i # ss)"
  using assms has_literals_id [OF assms(1), of pre post ss i]
  by (auto simp: body_holds_def inert_def dollar_pair_prefix dollar_pair_id_map dollar_pair_Cons)

lemma inert_append [simp]: "inert (s @ t) \<longleftrightarrow> inert s \<and> inert t"
  by (auto simp: inert_def)

lemma inert_Cons [simp]: "inert (c # t) \<longleftrightarrow> c \<noteq> single_quote \<and> c \<noteq> CHR ''$'' \<and> inert t"
  by (auto simp: inert_def)

lemma inert_Nil [simp]: "inert []"
  by (simp add: inert_def)

lemma inert_digits [simp]: "inert (show_nat n)"
  using digit_chars by (simp add: inert_def)

lemma inert_label: "validate_label l = Inr l' \<Longrightarrow> inert l"
  using valid_label_chars by (simp add: inert_def)

lemma inert_vle: "vle_pattern ts n = Inr p \<Longrightarrow> inert p"
  by (auto simp: vle_pattern_def res_iffs single_quote_def dest: inert_label split: list.splits)

lemma inert_arrows: "arrows d = (l, r) \<Longrightarrow> inert l \<and> inert r"
  by (auto simp: arrows_def single_quote_def split: direction.splits)


lemma body_holds_quoted_labels:
  assumes lx: "reads_literals lx" and "list_all (\<lambda>l. validate_label l = Inr l) (l # ls)"
    and pre: "inert pre" and post: "inert post"
  shows "body_holds lx (pre @ join '', '' (map quoted (l # ls)) @ post) (l # ls)"
  using assms(2) pre
proof (induction ls arbitrary: l pre)
  case Nil
  then have l: "inert l" "single_quote \<notin> set l" "backslash \<notin> set l" by (auto dest: inert_label valid_label_chars)
  have "has_literals lx (pre @ quoted l @ post) [l]"
    using Nil(2) post by (intro has_literals_quoted no_literal lex_plain [OF lx l(2,3)]) (simp_all add: inert_def)
  moreover have "\<not> dollar_pair (pre @ quoted l @ post)"
    using Nil(2) post l by (intro dollar_pair_free) (simp add: inert_def quoted_def)
  ultimately show ?case using l by (simp add: body_holds_def dollar_pair_free inert_def)
next
  case (Cons k ks)
  then have l: "inert l" "single_quote \<notin> set l" "backslash \<notin> set l" by (auto dest: inert_label valid_label_chars)
  have IH: "body_holds lx ('', '' @ join '', '' (map quoted (k # ks)) @ post) (k # ks)"
    using Cons.prems by (intro Cons.IH) (simp_all add: single_quote_def)
  have e: "pre @ join '', '' (map quoted (l # k # ks)) @ post =
      pre @ quoted l @ ('', '' @ join '', '' (map quoted (k # ks)) @ post)"
    by simp
  have "has_literals lx (pre @ join '', '' (map quoted (l # k # ks)) @ post) (l # k # ks)"
    unfolding e using IH Cons.prems(2)
    by (intro has_literals_quoted lex_plain [OF lx l(2,3)]) (simp_all add: body_holds_def inert_def)
  moreover have "\<not> dollar_pair l" using l by (simp add: dollar_pair_free inert_def)
  moreover have "dollar_pair (pre @ quoted l @ rest) \<longleftrightarrow> dollar_pair rest" for rest
  proof -
    have "CHR ''$'' \<notin> set (pre @ quoted l)" using l Cons.prems(2) by (simp add: inert_def quoted_def)
    then show ?thesis using dollar_pair_prefix [of "pre @ quoted l" rest] by simp
  qed
  ultimately show ?case using IH unfolding body_holds_def e by auto
qed

text \<open>The literals of the six bodies.\<close>

lemma edge_filter_literals:
  assumes "reads_literals lx" and "list_all (\<lambda>l. validate_label l = Inr l) ts"
    and "edge_filter ts = (p, w)" and "inert post"
  shows "inert p \<and> body_holds lx (w @ post) (if length ts \<le> 1 then [] else ts)"
proof (cases ts rule: remdups_adj.cases)
  case (3 a b xs)
  have e: "p = ''[r]''" "w = '' WHERE label(r) IN ['' @ join '', '' (map quoted (a # b # xs)) @ '']''"
    using assms(3) 3 by (simp_all add: edge_filter_def)
  have "body_holds lx ('' WHERE label(r) IN ['' @ join '', '' (map quoted (a # b # xs)) @ ('']'' @ post)) (a # b # xs)"
    using assms 3 by (intro body_holds_quoted_labels) (simp_all add: single_quote_def)
  then show ?thesis using e 3 by (simp add: single_quote_def)
qed (use assms in \<open>auto simp: edge_filter_def single_quote_def body_holds_inert dest: inert_label\<close>)

lemma traverse_validate: "traverse validate_label ts = Inr us \<Longrightarrow> us = ts \<and> list_all (\<lambda>l. validate_label l = Inr l) ts"
proof -
  assume "traverse validate_label ts = Inr us"
  then have "list_all2 (\<lambda>x y. validate_label x = Inr y) ts us" by (simp add: traverse_Inr_iff)
  then show ?thesis by (induction rule: list_all2_induct) (auto simp: validate_label_Inr_iff)
qed

lemma body_holds_prefix:
  assumes "inert pre" and "body_holds lx t ss"
  shows "body_holds lx (pre @ t) ss"
proof -
  have "has_literals lx t ss" using assms(2) by (simp add: body_holds_def)
  then have "has_literals lx (pre @ t) ss"
  proof cases
    case no_literal
    then show ?thesis using assms(1) by (simp add: inert_def has_literals.no_literal)
  next
    case (one_literal pre' post s rest ss')
    then have "has_literals lx ((pre @ pre') @ single_quote # post) (s # ss')"
      using assms(1) by (intro has_literals.one_literal) (simp_all add: inert_def)
    then show ?thesis using one_literal by simp
  qed
  then show ?thesis using assms by (auto simp: body_holds_def inert_def dollar_pair_prefix)
qed

lemmas body_holds_intros = body_holds_id body_holds_prefix body_holds_inert

lemma find_by_id_body:
  assumes "reads_literals lx" and "find_by_id g l i = Inr q"
  shows "\<exists>body. q = node_columns g body \<and> body_holds lx body [i]"
proof -
  have l: "inert l" using assms(2) by (auto simp: find_by_id_def res_iffs dest: inert_label)
  have "body_holds lx ((''MATCH (n:'' @ l @ '' '') @ id_map i @ '') RETURN n.id, label(n)'') [i]"
    using assms(1) by (intro body_holds_intros) (simp_all add: l single_quote_def)
  then show ?thesis using assms(2) by (auto simp: find_by_id_def res_iffs)
qed

lemma walk_edges_body:
  assumes "reads_literals lx" and "walk_edges g i ts d n = Inr q"
  shows "\<exists>body. q = node_columns g body \<and> body_holds lx body (i # (if length ts \<le> 1 then [] else ts))"
proof -
  obtain p wh al ar where e: "edge_filter ts = (p, wh)" and a: "arrows d = (al, ar)" by fastforce
  have v: "list_all (\<lambda>l. validate_label l = Inr l) ts"
    using assms(2) by (auto simp: walk_edges_def res_iffs dest: traverse_validate)
  let ?post = "'' RETURN t.id, label(t) LIMIT '' @ show_nat (unat n)"
  have f: "inert p" "body_holds lx (wh @ ?post) (if length ts \<le> 1 then [] else ts)"
    using edge_filter_literals [OF assms(1) v e, of ?post] by (simp_all add: single_quote_def)
  have mid: "inert (''})'' @ al @ p @ ar @ ''(t)'')" using f(1) inert_arrows [OF a] by (simp add: single_quote_def)
  have "body_holds lx (CHR ''}'' # '')'' @ al @ p @ ar @ ''(t)'' @ wh @ ?post) (if length ts \<le> 1 then [] else ts)"
    using body_holds_prefix [OF mid f(2)] by simp
  then have "body_holds lx (''MATCH (s '' @ id_map i @ '')'' @ al @ p @ ar @ ''(t)'' @ wh @ ?post)
      (i # (if length ts \<le> 1 then [] else ts))"
    using assms(1) by (intro body_holds_id) (simp_all add: single_quote_def)
  then show ?thesis using assms(2) e a by (auto simp: walk_edges_def res_iffs)
qed

lemma two_ids_body:
  assumes "reads_literals lx" and "inert m" and "inert r"
  shows "body_holds lx (''MATCH path = (s '' @ id_map i @ '')-'' @ m @ ''->(t '' @ id_map j @ r) [i, j]"
proof -
  have "body_holds lx ((''})-'' @ m @ ''->(t '') @ id_map j @ r) [j]"
    using assms by (intro body_holds_intros) (simp_all add: single_quote_def)
  then show ?thesis using assms by (intro body_holds_id) (simp_all add: single_quote_def)
qed

lemma path_finder_body:
  assumes "reads_literals lx" and "path_finder g i j ts n = Inr q"
  shows "\<exists>body. q = cypher_call ''path::text'' g body ''path agtype'' \<and> body_holds lx body [i, j]"
proof -
  obtain p where p: "vle_pattern ts n = Inr p" using assms(2) by (auto simp: path_finder_def res_iffs)
  have "body_holds lx (''MATCH path = (s '' @ id_map i @ '')-'' @ p @ ''->(t '' @ id_map j @
      '') RETURN [n IN nodes(path) | {id: n.id, label: label(n)}]'') [i, j]"
    using inert_vle [OF p] by (intro two_ids_body [OF assms(1)]) (simp_all add: single_quote_def)
  then show ?thesis using assms(2) p by (auto simp: path_finder_def)
qed

lemma shortest_path_length_body:
  assumes "reads_literals lx" and "shortest_path_length g i j n = Inr q"
  shows "\<exists>body. q = cypher_call ''path_length::text'' g body ''path_length agtype'' \<and> body_holds lx body [i, j]"
proof -
  have "body_holds lx (''MATCH path = (s '' @ id_map i @ '')-'' @ (''[*1..'' @ show_nat (unat n) @ '']'') @
      ''->(t '' @ id_map j @ '') RETURN length(path) ORDER BY length(path) LIMIT 1'') [i, j]"
    by (intro two_ids_body [OF assms(1)]) (simp_all add: single_quote_def)
  then show ?thesis using assms(2) by (auto simp: shortest_path_length_def)
qed

lemma neighbours_body:
  assumes "reads_literals lx" and "inert m"
  shows "body_holds lx (''MATCH (c '' @ id_map i @ '')-'' @ m @
      ''->(neighbor) RETURN neighbor.id, label(neighbor) LIMIT 100'') [i]"
  using assms by (intro body_holds_id body_holds_inert) (simp_all add: single_quote_def)

lemma blast_radius_body:
  assumes "reads_literals lx" and "blast_radius g i ts n = Inr q"
  shows "\<exists>body. q = node_columns g body \<and> body_holds lx body [i]"
proof -
  obtain p where p: "vle_pattern ts n = Inr p" using assms(2) by (auto simp: blast_radius_def res_iffs)
  show ?thesis
    using assms(2) p neighbours_body [OF assms(1) inert_vle [OF p], of i] by (auto simp: blast_radius_def)
qed

lemma subgraph_body:
  assumes "reads_literals lx" and "subgraph g i n = Inr q"
  shows "\<exists>body. q = node_columns g body \<and> body_holds lx body [i]"
  using assms(2) neighbours_body [OF assms(1), of "''[*1..'' @ show_nat (unat n) @ '']''" i]
  by (auto simp: subgraph_def single_quote_def)

text \<open>A reading that satisfies the law.\<close>

fun read_literal :: "string \<Rightarrow> (string \<times> string) option" where
  "read_literal [] = None"
| "read_literal (c # r) =
     (if c = single_quote then Some ([], r)
      else if c = backslash then
        (case r of
           [] \<Rightarrow> None
         | d # r' \<Rightarrow> if d = single_quote \<or> d = backslash
             then map_option (\<lambda>(s, t). (d # s, t)) (read_literal r') else None)
      else map_option (\<lambda>(s, t). (c # s, t)) (read_literal r))"

lemma read_literal_law: "reads_literals read_literal"
  by (auto simp: reads_literals_def)

subsection \<open>Properties\<close>

text \<open>C19: whatever characters the ids hold, quotes and backslashes included, the string literals of the
  Cypher body of each query are exactly the given ids, in order, followed by the edge types when several
  are given; and the body holds a pair of dollar signs, which ends the SQL quoting around it, only where
  an id does.\<close>

theorem queries_carry_their_ids:
  assumes "reads_literals lx"
  shows "(find_by_id g l i = Inr q \<longrightarrow>
       (\<exists>body. q = node_columns g body \<and> body_holds lx body [i])) \<and>
    (walk_edges g i ts d n = Inr q \<longrightarrow>
       (\<exists>body. q = node_columns g body \<and> body_holds lx body (i # (if length ts \<le> 1 then [] else ts)))) \<and>
    (path_finder g i j ts n = Inr q \<longrightarrow>
       (\<exists>body. q = cypher_call ''path::text'' g body ''path agtype'' \<and> body_holds lx body [i, j])) \<and>
    (shortest_path_length g i j n = Inr q \<longrightarrow>
       (\<exists>body. q = cypher_call ''path_length::text'' g body ''path_length agtype'' \<and> body_holds lx body [i, j])) \<and>
    (blast_radius g i ts n = Inr q \<longrightarrow>
       (\<exists>body. q = node_columns g body \<and> body_holds lx body [i])) \<and>
    (subgraph g i n = Inr q \<longrightarrow>
       (\<exists>body. q = node_columns g body \<and> body_holds lx body [i]))"
  using find_by_id_body [OF assms, of g l i q] walk_edges_body [OF assms, of g i ts d n q]
    path_finder_body [OF assms, of g i j ts n q] shortest_path_length_body [OF assms, of g i j n q]
    blast_radius_body [OF assms, of g i ts n q] subgraph_body [OF assms, of g i n q]
  by (intro conjI impI) simp_all

theorem queries_carry_their_ids_witness:
  "\<exists>q body. walk_edges ''g'' [single_quote, CHR ''$'', CHR ''$''] [''CanAssume'', ''ActsOn''] Both 5 = Inr q \<and>
     q = node_columns ''g'' body \<and> has_literals read_literal body [[single_quote, CHR ''$'', CHR ''$''], ''CanAssume'', ''ActsOn''] \<and>
     dollar_pair body"
proof -
  let ?i = "[single_quote, CHR ''$'', CHR ''$'']"
  obtain q where q: "walk_edges ''g'' ?i [''CanAssume'', ''ActsOn''] Both 5 = Inr q"
    by (cases "walk_edges ''g'' ?i [''CanAssume'', ''ActsOn''] Both 5")
       (simp_all add: walk_edges_def validate_label_def label_char_ok_def is_ascii_alphanumeric_def
          is_ascii_alphabetic_def split: prod.splits)
  then obtain body where "q = node_columns ''g'' body" "body_holds read_literal body [?i, ''CanAssume'', ''ActsOn'']"
    using queries_carry_their_ids [OF read_literal_law] by force
  moreover have "dollar_pair ?i" by (simp add: single_quote_def sublist_Cons_right)
  ultimately show ?thesis using q by (auto simp: body_holds_def)
qed

text \<open>Which edge types a query accepts. Each type must be a letter followed by letters, digits and
  underscores; a one-hop walk takes any number of them, a variable-length traversal at most one.\<close>

theorem accepted_edge_types:
  "((\<exists>q. walk_edges g i ts d n = Inr q) \<longleftrightarrow>
      list_all (\<lambda>t. t \<noteq> [] \<and> is_ascii_alphabetic (hd t) \<and> list_all label_char_ok t) ts) \<and>
   ((\<exists>q. path_finder g i j ts n = Inr q) \<longleftrightarrow>
      length ts \<le> 1 \<and> list_all (\<lambda>t. t \<noteq> [] \<and> is_ascii_alphabetic (hd t) \<and> list_all label_char_ok t) ts) \<and>
   ((\<exists>q. blast_radius g i ts n = Inr q) \<longleftrightarrow> (\<exists>q. path_finder g i j ts n = Inr q))"
proof (intro conjI)
  have v: "list_all2 (\<lambda>x y. validate_label x = Inr y) ts us \<longleftrightarrow>
      us = ts \<and> list_all (\<lambda>t. t \<noteq> [] \<and> is_ascii_alphabetic (hd t) \<and> list_all label_char_ok t) ts" for us
    by (induction ts arbitrary: us) (auto simp: validate_label_Inr_iff list_all2_Cons1)
  show "(\<exists>q. walk_edges g i ts d n = Inr q) \<longleftrightarrow>
      list_all (\<lambda>t. t \<noteq> [] \<and> is_ascii_alphabetic (hd t) \<and> list_all label_char_ok t) ts"
    by (simp add: walk_edges_def res_iffs traverse_Inr_iff v split: prod.split)
  have p: "(\<exists>q. vle_pattern ts n = Inr q) \<longleftrightarrow>
      length ts \<le> 1 \<and> list_all (\<lambda>t. t \<noteq> [] \<and> is_ascii_alphabetic (hd t) \<and> list_all label_char_ok t) ts"
    by (cases ts rule: remdups_adj.cases) (auto simp: vle_pattern_def res_iffs validate_label_Inr_iff)
  show "(\<exists>q. path_finder g i j ts n = Inr q) \<longleftrightarrow>
      length ts \<le> 1 \<and> list_all (\<lambda>t. t \<noteq> [] \<and> is_ascii_alphabetic (hd t) \<and> list_all label_char_ok t) ts"
    using p by (simp add: path_finder_def res_iffs)
  show "(\<exists>q. blast_radius g i ts n = Inr q) \<longleftrightarrow> (\<exists>q. path_finder g i j ts n = Inr q)"
    by (simp add: blast_radius_def path_finder_def res_iffs)
qed

end
