(* ===== verification/Graph_Loader.thy ===== *)
theory Graph_Loader
  imports Query_Builder Json
begin

section \<open>The bulk loader\<close>

text \<open>
  \<open>activable-graph/src/loader.rs\<close>: the statements that insert nodes and edges, and the three loading
  operations with their transaction. The database is a parameter: \<open>srv\<close> answers each statement, given the
  statements sent before it on the connection, with an error or a number of rows. An operation maps the
  statements sent so far to the new ones and its result; a loop over \<open>chunks(0)\<close> panics. How
  \<open>serde_json\<close> prints numbers and values is a parameter too.
\<close>

type_synonym server = "string list \<Rightarrow> string \<Rightarrow> string + nat"

datatype load_failure = LoadError graph_error | LoadPanic

type_synonym 'a loading = "string list \<Rightarrow> string list \<times> (load_failure + 'a)"

record edge_load_outcome =
  created :: nat
  dropped :: nat

record printers =
  print_number :: "json_number \<Rightarrow> string"
  print_json :: "json \<Rightarrow> string"

subsection \<open>Sequencing\<close>

definition load_return :: "'a \<Rightarrow> 'a loading" where
  "load_return x sent = (sent, Inr x)"

definition load_fail :: "load_failure \<Rightarrow> 'a loading" where
  "load_fail e sent = (sent, Inl e)"

definition load_bind :: "'a loading \<Rightarrow> ('a \<Rightarrow> 'b loading) \<Rightarrow> 'b loading" where
  "load_bind m f sent = (case m sent of (sent', Inl e) \<Rightarrow> (sent', Inl e) | (sent', Inr x) \<Rightarrow> f x sent')"

text \<open>One statement; \<open>wrap\<close> makes the error of a failed one.\<close>

definition statement :: "server \<Rightarrow> (string \<Rightarrow> string) \<Rightarrow> string \<Rightarrow> nat loading" where
  "statement srv wrap sql sent =
     (sent @ [sql], map_err (\<lambda>e. LoadError (QueryError (wrap e))) (srv sent sql))"

definition connect :: "(string + unit) \<Rightarrow> unit loading" where
  "connect pool = (case pool of Inl e \<Rightarrow> load_fail (LoadError (PoolError e)) | Inr u \<Rightarrow> load_return ())"

definition age_setup :: string where
  "age_setup = ''LOAD '' @ quoted ''age'' @ ''; SET search_path = ag_catalog, '' @
     [CHR 0x22] @ ''$user'' @ [CHR 0x22] @ '', public;''"

definition begin_transaction :: "server \<Rightarrow> nat loading" where
  "begin_transaction srv = statement srv (\<lambda>e. ''Failed to start transaction: '' @ e) ''BEGIN;''"

definition commit_transaction :: "server \<Rightarrow> nat loading" where
  "commit_transaction srv = statement srv (\<lambda>e. ''Failed to commit transaction: '' @ e) ''COMMIT;''"

subsection \<open>Chunks\<close>

text \<open>\<open>slice::chunks\<close>, which panics on size zero.\<close>

function chunks :: "nat \<Rightarrow> 'a list \<Rightarrow> 'a list list option" where
  "chunks 0 xs = None"
| "chunks (Suc n) [] = Some []"
| "chunks (Suc n) (x # xs) = map_option (Cons (take (Suc n) (x # xs))) (chunks (Suc n) (drop (Suc n) (x # xs)))"
  by pat_completeness auto
termination by (relation "measure (\<lambda>(n, xs). length xs)") auto

lemma concat_chunks: "0 < n \<Longrightarrow> \<exists>css. chunks n xs = Some css \<and> concat css = xs"
proof (induction n xs rule: chunks.induct)
  case (3 n x xs)
  then obtain css where css: "chunks (Suc n) (drop (Suc n) (x # xs)) = Some css" "concat css = drop (Suc n) (x # xs)"
    by blast
  then have "chunks (Suc n) (x # xs) = Some (take (Suc n) (x # xs) # css)" by simp
  moreover have "concat (take (Suc n) (x # xs) # css) = x # xs"
    using css(2) by (simp only: concat.simps append_take_drop_id)
  ultimately show ?case by blast
qed auto

subsection \<open>Statements\<close>

definition node_property :: "printers \<Rightarrow> string \<times> json \<Rightarrow> string option" where
  "node_property pr kv =
     (case snd kv of
        JString s \<Rightarrow> Some (fst kv @ '': '' @ quoted (escape_sql_literal s))
      | JNumber n \<Rightarrow> Some (fst kv @ '': '' @ print_number pr n)
      | JBool b \<Rightarrow> Some (fst kv @ '': '' @ (if b then ''true'' else ''false''))
      | JNull \<Rightarrow> None
      | v \<Rightarrow> Some (fst kv @ '': '' @ quoted (escape_sql_literal (print_json pr v))))"

definition node_sql :: "printers \<Rightarrow> string \<Rightarrow> string \<Rightarrow> json \<Rightarrow> string" where
  "node_sql pr graph label node =
     (let props = (case as_object node of
          Some obj \<Rightarrow> join '', '' (List.map_filter (node_property pr) obj)
        | None \<Rightarrow> [])
      in cypher_call ''*'' graph (''MERGE (n:'' @ label @ '' {'' @ props @ ''})'') ''n agtype'')"

definition match_endpoints :: "string \<Rightarrow> string \<Rightarrow> string" where
  "match_endpoints from_id to_id =
     ''MATCH (a {id: '' @ quoted (escape_sql_literal from_id) @ ''}), (b {id: '' @
     quoted (escape_sql_literal to_id) @ ''}) MERGE ''"

definition edge_sql :: "string \<Rightarrow> string \<Rightarrow> string \<times> string \<Rightarrow> string" where
  "edge_sql graph edge_label e =
     cypher_call ''*'' graph
       (match_endpoints (fst e) (snd e) @ ''(a)-[:'' @ edge_label @ '']->(b) RETURN id(a), id(b)'')
       ''a agtype, b agtype''"

definition scalar_text :: "printers \<Rightarrow> json \<Rightarrow> string option" where
  "scalar_text pr v =
     (case v of
        JString s \<Rightarrow> Some (quoted (escape_sql_literal s))
      | JNumber n \<Rightarrow> Some (print_number pr n)
      | JBool b \<Rightarrow> Some (if b then ''true'' else ''false'')
      | _ \<Rightarrow> None)"

definition property_parts :: "printers \<Rightarrow> (string \<Rightarrow> bool) \<Rightarrow> (string \<times> json) list \<Rightarrow> string list" where
  "property_parts pr keep kvs =
     List.map_filter (\<lambda>(k, v). if keep k then map_option (\<lambda>t. k @ '': '' @ t) (scalar_text pr v) else None) kvs"

definition partition_properties :: "printers \<Rightarrow> json \<Rightarrow> string list \<Rightarrow> string \<times> string" where
  "partition_properties pr props identifying_keys =
     (case as_object props of
        None \<Rightarrow> ([], [])
      | Some kvs \<Rightarrow>
          let identifying_parts = property_parts pr (\<lambda>k. k \<in> set identifying_keys) kvs;
              settable_parts = property_parts pr (\<lambda>k. k \<notin> set identifying_keys) kvs
          in (join '', '' identifying_parts,
              if settable_parts = [] then [] else ''{'' @ join '', '' settable_parts @ ''}''))"

definition edge_props_sql :: "printers \<Rightarrow> string \<Rightarrow> string \<Rightarrow> string list \<Rightarrow> string \<times> string \<times> json \<Rightarrow> string" where
  "edge_props_sql pr graph edge_label identifying_keys e =
     (case e of (from_id, to_id, props) \<Rightarrow>
      case partition_properties pr props identifying_keys of (identifying_props, settable_props) \<Rightarrow>
      let merge_clause =
            (if identifying_props = [] then ''(a)-[r:'' @ edge_label @ '']->(b)''
             else ''(a)-[r:'' @ edge_label @ '' {'' @ identifying_props @ ''}]->(b)'');
          set_clause = (if settable_props = [] then [] else '' SET r += '' @ settable_props)
      in cypher_call ''*'' graph
        (match_endpoints from_id to_id @ merge_clause @ set_clause @ ''  RETURN id(a), id(b)'')
        ''a agtype, b agtype'')"

subsection \<open>Loading\<close>

text \<open>The loop over the nodes of all chunks.\<close>

fun insert_nodes :: "server \<Rightarrow> (json \<Rightarrow> string) \<Rightarrow> json list \<Rightarrow> nat \<Rightarrow> nat loading" where
  "insert_nodes srv sql [] count = load_return count"
| "insert_nodes srv sql (node # nodes) count =
     load_bind (statement srv (\<lambda>e. ''Node insert failed: '' @ e) (sql node)) (\<lambda>_.
     insert_nodes srv sql nodes (count + 1))"

definition load_nodes ::
  "server \<Rightarrow> printers \<Rightarrow> (string + unit) \<Rightarrow> string \<Rightarrow> string \<Rightarrow> json list \<Rightarrow> nat \<Rightarrow> nat loading" where
  "load_nodes srv pr pool graph label nodes batch_size =
     (if nodes = [] then load_return 0
      else
      load_bind (connect pool) (\<lambda>_.
      load_bind (statement srv (\<lambda>e. e) age_setup) (\<lambda>_.
      case label of
        [] \<Rightarrow> load_fail (LoadError (UnsafeParameter ''empty label''))
      | first # rest \<Rightarrow>
          if \<not> is_ascii_alphabetic first
          then load_fail (LoadError (UnsafeParameter ''label must start with a letter''))
          else
          load_bind (begin_transaction srv) (\<lambda>_.
          case chunks batch_size nodes of
            None \<Rightarrow> load_fail LoadPanic
          | Some css \<Rightarrow>
              load_bind (insert_nodes srv (node_sql pr graph label) (concat css) 0) (\<lambda>count.
              load_bind (commit_transaction srv) (\<lambda>_. load_return count))))))"

text \<open>The loop over the edges of all chunks, shared by the two edge loaders; \<open>what\<close> is the text of
  their errors.\<close>

fun insert_edges ::
  "server \<Rightarrow> bool \<Rightarrow> string \<Rightarrow> ('e \<Rightarrow> string \<times> string) \<Rightarrow> ('e \<Rightarrow> string) \<Rightarrow> 'e list \<Rightarrow> edge_load_outcome
     \<Rightarrow> edge_load_outcome loading" where
  "insert_edges srv strict what ends sql [] out = load_return out"
| "insert_edges srv strict what ends sql (e # es) out =
     load_bind (statement srv (\<lambda>err. ''Failed to insert '' @ what @ '' from '' @ fst (ends e) @ '' to '' @
         snd (ends e) @ '': '' @ err) (sql e)) (\<lambda>rows.
     if rows \<noteq> 0 then insert_edges srv strict what ends sql es (out\<lparr>created := created out + 1\<rparr>)
     else if strict then
       load_bind (commit_transaction srv) (\<lambda>_.
       load_fail (LoadError (QueryError (''Strict mode: missing endpoint in edge '' @ fst (ends e) @ '' -> '' @
         snd (ends e)))))
     else insert_edges srv strict what ends sql es (out\<lparr>dropped := dropped out + 1\<rparr>))"

definition load_edge_list ::
  "server \<Rightarrow> (string + unit) \<Rightarrow> string \<Rightarrow> string \<Rightarrow> ('e \<Rightarrow> string \<times> string) \<Rightarrow> ('e \<Rightarrow> string) \<Rightarrow> 'e list \<Rightarrow> nat
     \<Rightarrow> bool \<Rightarrow> edge_load_outcome loading" where
  "load_edge_list srv pool edge_label what ends sql edges batch_size strict =
     (if edges = [] then load_return \<lparr>created = 0, dropped = 0\<rparr>
      else
      load_bind (connect pool) (\<lambda>_.
      load_bind (statement srv (\<lambda>e. e) age_setup) (\<lambda>_.
      if edge_label = [] then load_fail (LoadError (UnsafeParameter ''empty edge label''))
      else
      load_bind (begin_transaction srv) (\<lambda>_.
      case chunks batch_size edges of
        None \<Rightarrow> load_fail LoadPanic
      | Some css \<Rightarrow>
          load_bind (insert_edges srv strict what ends sql (concat css) \<lparr>created = 0, dropped = 0\<rparr>) (\<lambda>out.
          load_bind (commit_transaction srv) (\<lambda>_. load_return out))))))"

definition load_edges ::
  "server \<Rightarrow> (string + unit) \<Rightarrow> string \<Rightarrow> string \<Rightarrow> (string \<times> string) list \<Rightarrow> nat \<Rightarrow> bool
     \<Rightarrow> edge_load_outcome loading" where
  "load_edges srv pool graph edge_label edges batch_size strict =
     load_edge_list srv pool edge_label ''edge'' (\<lambda>e. e) (edge_sql graph edge_label) edges batch_size strict"

definition load_edges_with_props_identifying ::
  "server \<Rightarrow> printers \<Rightarrow> (string + unit) \<Rightarrow> string \<Rightarrow> string \<Rightarrow> (string \<times> string \<times> json) list \<Rightarrow> nat \<Rightarrow> bool
     \<Rightarrow> string list \<Rightarrow> edge_load_outcome loading" where
  "load_edges_with_props_identifying srv pr pool graph edge_label edges batch_size strict identifying_keys =
     load_edge_list srv pool edge_label ''edge with props'' (\<lambda>(f, t, props). (f, t))
       (edge_props_sql pr graph edge_label identifying_keys) edges batch_size strict"

definition load_edges_with_props ::
  "server \<Rightarrow> printers \<Rightarrow> (string + unit) \<Rightarrow> string \<Rightarrow> string \<Rightarrow> (string \<times> string \<times> json) list \<Rightarrow> nat \<Rightarrow> bool
     \<Rightarrow> edge_load_outcome loading" where
  "load_edges_with_props srv pr pool graph edge_label edges batch_size strict =
     load_edges_with_props_identifying srv pr pool graph edge_label edges batch_size strict []"

subsection \<open>What a load does\<close>

text \<open>The answers to the statements of a list of edges, when all of them are sent.\<close>

fun answers :: "server \<Rightarrow> ('e \<Rightarrow> string) \<Rightarrow> 'e list \<Rightarrow> string list \<Rightarrow> (string + nat) list" where
  "answers srv sql [] sent = []"
| "answers srv sql (e # es) sent = srv sent (sql e) # answers srv sql es (sent @ [sql e])"

text \<open>An answer after which the loop goes on.\<close>

definition accepted :: "bool \<Rightarrow> string + nat \<Rightarrow> bool" where
  "accepted strict a = (case a of Inl err \<Rightarrow> False | Inr rows \<Rightarrow> rows \<noteq> 0 \<or> \<not> strict)"

definition tally :: "(string + nat) list \<Rightarrow> edge_load_outcome" where
  "tally as = \<lparr>created = length (filter (\<lambda>a. a \<noteq> Inr 0) as), dropped = length (filter (\<lambda>a. a = Inr 0) as)\<rparr>"

lemma load_bind_simps [simp]:
  "load_bind (load_return x) f = f x"
  "m sent = (sent', Inr x) \<Longrightarrow> load_bind m f sent = f x sent'"
  "m sent = (sent', Inl e) \<Longrightarrow> load_bind m f sent = (sent', Inl e)"
  by (auto simp: load_bind_def load_return_def)

lemma statement_ok: "srv sent sql = Inr r \<Longrightarrow> statement srv wrap sql sent = (sent @ [sql], Inr r)"
  by (simp add: statement_def)

lemma statement_error:
  "srv sent sql = Inl err \<Longrightarrow> statement srv wrap sql sent = (sent @ [sql], Inl (LoadError (QueryError (wrap err))))"
  by (simp add: statement_def)

lemma insert_edges_accepted:
  "list_all (accepted strict) (answers srv sql es sent) \<Longrightarrow>
     insert_edges srv strict what ends sql (es @ rest) out sent =
     insert_edges srv strict what ends sql rest
       \<lparr>created = created out + created (tally (answers srv sql es sent)),
        dropped = dropped out + dropped (tally (answers srv sql es sent))\<rparr> (sent @ map sql es)"
proof (induction es arbitrary: out sent)
  case Nil
  show ?case by (cases out) (simp add: tally_def)
next
  case (Cons e es)
  then obtain rows where r: "srv sent (sql e) = Inr rows" "rows \<noteq> 0 \<or> \<not> strict"
    by (auto simp: accepted_def split: sum.splits)
  have "list_all (accepted strict) (answers srv sql es (sent @ [sql e]))" using Cons.prems by simp
  note IH = Cons.IH [OF this]
  show ?case
    using r IH by (cases "rows = 0"; cases strict) (simp_all add: statement_ok tally_def)
qed

lemma load_edge_list_start:
  assumes "srv sent age_setup = Inr a" and "srv (sent @ [age_setup]) ''BEGIN;'' = Inr b"
    and "0 < n" and "edge_label \<noteq> []" and "edges \<noteq> []"
  shows "load_edge_list srv (Inr u) edge_label what ends sql edges n strict sent =
    load_bind (insert_edges srv strict what ends sql edges \<lparr>created = 0, dropped = 0\<rparr>)
      (\<lambda>out. load_bind (commit_transaction srv) (\<lambda>_. load_return out)) (sent @ [age_setup, ''BEGIN;''])"
proof -
  obtain css where "chunks n edges = Some css" "concat css = edges" using concat_chunks [OF assms(3)] by blast
  then show ?thesis using assms
    by (simp add: load_edge_list_def connect_def begin_transaction_def statement_ok)
qed

text \<open>A server that answers the statements of the transaction itself.\<close>

definition transacts :: "server \<Rightarrow> bool" where
  "transacts srv \<longleftrightarrow> (\<forall>sent. \<forall>q\<in>{age_setup, ''BEGIN;'', ''COMMIT;''}. \<exists>r. srv sent q = Inr r)"

lemma transactsD:
  assumes "transacts srv"
  obtains a b c where "srv sent age_setup = Inr a" "srv sent' ''BEGIN;'' = Inr b" "srv sent'' ''COMMIT;'' = Inr c"
  using assms unfolding transacts_def by blast

lemma load_edge_list_cases:
  assumes "transacts srv" and "0 < n" and "edge_label \<noteq> []" and "es \<noteq> [] \<or> rest \<noteq> []"
    and acc: "list_all (accepted strict) (answers srv sql es (sent @ [age_setup, ''BEGIN;'']))"
  shows "(rest = [] \<longrightarrow>
       load_edge_list srv (Inr u) edge_label what ends sql (es @ rest) n strict sent =
         (sent @ [age_setup, ''BEGIN;''] @ map sql es @ [''COMMIT;''],
          Inr (tally (answers srv sql es (sent @ [age_setup, ''BEGIN;'']))))) \<and>
    (\<forall>e es' err. rest = e # es' \<and> srv (sent @ [age_setup, ''BEGIN;''] @ map sql es) (sql e) = Inl err \<longrightarrow>
       load_edge_list srv (Inr u) edge_label what ends sql (es @ rest) n strict sent =
         (sent @ [age_setup, ''BEGIN;''] @ map sql es @ [sql e],
          Inl (LoadError (QueryError (''Failed to insert '' @ what @ '' from '' @ fst (ends e) @ '' to '' @
            snd (ends e) @ '': '' @ err))))) \<and>
    (\<forall>e es'. rest = e # es' \<and> strict \<and> srv (sent @ [age_setup, ''BEGIN;''] @ map sql es) (sql e) = Inr 0 \<longrightarrow>
       load_edge_list srv (Inr u) edge_label what ends sql (es @ rest) n strict sent =
         (sent @ [age_setup, ''BEGIN;''] @ map sql es @ [sql e, ''COMMIT;''],
          Inl (LoadError (QueryError (''Strict mode: missing endpoint in edge '' @ fst (ends e) @ '' -> '' @
            snd (ends e))))))"
proof -
  let ?start = "sent @ [age_setup, ''BEGIN;'']"
  obtain a b where ab: "srv sent age_setup = Inr a" "srv (sent @ [age_setup]) ''BEGIN;'' = Inr b"
    using transactsD [OF assms(1)] by metis
  have c: "\<exists>c. srv s ''COMMIT;'' = Inr c" for s using transactsD [OF assms(1)] by metis
  note start = load_edge_list_start [OF ab assms(2,3), of "es @ rest" u what ends sql strict]
  note acc' = insert_edges_accepted [OF acc, of what ends rest]
  show ?thesis
  proof (intro conjI allI impI)
    assume r: "rest = []"
    obtain c where "srv (?start @ map sql es) ''COMMIT;'' = Inr c" using c by blast
    then show "load_edge_list srv (Inr u) edge_label what ends sql (es @ rest) n strict sent =
         (sent @ [age_setup, ''BEGIN;''] @ map sql es @ [''COMMIT;''],
          Inr (tally (answers srv sql es (sent @ [age_setup, ''BEGIN;'']))))"
      using r assms(4) start acc'
      by (simp add: load_bind_def commit_transaction_def statement_ok load_return_def)
  next
    fix e es' err
    assume "rest = e # es' \<and> srv (sent @ [age_setup, ''BEGIN;''] @ map sql es) (sql e) = Inl err"
    then show "load_edge_list srv (Inr u) edge_label what ends sql (es @ rest) n strict sent =
         (sent @ [age_setup, ''BEGIN;''] @ map sql es @ [sql e],
          Inl (LoadError (QueryError (''Failed to insert '' @ what @ '' from '' @ fst (ends e) @ '' to '' @
            snd (ends e) @ '': '' @ err))))"
      using start acc' by (simp add: load_bind_def statement_error)
  next
    fix e es'
    assume r: "rest = e # es' \<and> strict \<and> srv (sent @ [age_setup, ''BEGIN;''] @ map sql es) (sql e) = Inr 0"
    obtain c where "srv (?start @ map sql es @ [sql e]) ''COMMIT;'' = Inr c" using c by blast
    then show "load_edge_list srv (Inr u) edge_label what ends sql (es @ rest) n strict sent =
         (sent @ [age_setup, ''BEGIN;''] @ map sql es @ [sql e, ''COMMIT;''],
          Inl (LoadError (QueryError (''Strict mode: missing endpoint in edge '' @ fst (ends e) @ '' -> '' @
            snd (ends e)))))"
      using r start acc'
      by (simp add: load_bind_def commit_transaction_def statement_ok load_return_def load_fail_def)
  qed
qed

lemma escape_sql_literal_append: "escape_sql_literal (s @ t) = escape_sql_literal s @ escape_sql_literal t"
  by (simp add: escape_sql_literal_def replace_char_def)

lemma tally_total: "created (tally as) + dropped (tally as) = length as"
  by (induction as) (auto simp: tally_def)

lemma length_answers [simp]: "length (answers srv sql es sent) = length es"
  by (induction es arbitrary: sent) auto

subsection \<open>Properties\<close>

text \<open>C20: what loading edges does on a server that answers the transaction statements. Edges are sent one
  by one inside one transaction, whatever the batch size, as long as each statement succeeds and, in
  strict mode, merges something. If all do, the transaction is committed and \<open>created\<close> counts the edges that
  merged, \<open>dropped\<close> the others, which add up to the edges given. A failed statement ends the load at once:
  its error is returned and neither a commit nor a rollback is sent. In strict mode a missing endpoint is
  an error, but the edges before it are committed.\<close>

theorem edge_load_transaction:
  assumes "transacts srv" and "0 < n" and "edge_label \<noteq> []" and "es \<noteq> [] \<or> rest \<noteq> []"
    and "list_all (accepted strict) (answers srv (edge_sql graph edge_label) es (sent @ [age_setup, ''BEGIN;'']))"
  shows "let sql = edge_sql graph edge_label; start = sent @ [age_setup, ''BEGIN;''];
      out = tally (answers srv sql es start);
      load = load_edges srv (Inr u) graph edge_label (es @ rest) n strict sent
    in created out + dropped out = length es \<and>
       (rest = [] \<longrightarrow> load = (start @ map sql es @ [''COMMIT;''], Inr out)) \<and>
       (\<forall>e es' err. rest = e # es' \<and> srv (start @ map sql es) (sql e) = Inl err \<longrightarrow>
          fst load = start @ map sql es @ [sql e] \<and> (\<exists>f. snd load = Inl f)) \<and>
       (\<forall>e es'. rest = e # es' \<and> strict \<and> srv (start @ map sql es) (sql e) = Inr 0 \<longrightarrow>
          fst load = start @ map sql es @ [sql e, ''COMMIT;''] \<and> (\<exists>f. snd load = Inl f))"
proof -
  note c = load_edge_list_cases [OF assms, of u "''edge''" "\<lambda>e. e"]
  note finished = c [THEN conjunct1, rule_format] and failed = c [THEN conjunct2, THEN conjunct1, rule_format]
    and missing = c [THEN conjunct2, THEN conjunct2, rule_format]
  show ?thesis
    unfolding Let_def load_edges_def append_assoc
    apply (intro conjI allI impI)
    subgoal by (simp add: tally_total)
    subgoal by (rule finished)
    subgoal by (drule failed) (simp only: fst_conv)
    subgoal by (drule failed) (simp only: snd_conv, blast)
    subgoal by (drule missing) (simp only: fst_conv)
    subgoal by (drule missing) (simp only: snd_conv, blast)
    done
qed

text \<open>A server for which the second edge misses an endpoint.\<close>

definition sample_server :: server where
  "sample_server sent sql = Inr (if length sent = 3 then 0 else 1)"

theorem edge_load_transaction_witness:
  "fst (load_edges sample_server (Inr ()) ''g'' ''ActsOn'' [(''a'', ''b''), (''c'', ''d''), (''e'', ''f'')] 2 True []) =
     [age_setup, ''BEGIN;'', edge_sql ''g'' ''ActsOn'' (''a'', ''b''), edge_sql ''g'' ''ActsOn'' (''c'', ''d''), ''COMMIT;'']"
proof -
  have t: "transacts sample_server" by (simp add: transacts_def sample_server_def)
  show ?thesis
    using edge_load_transaction [OF t, of 2 "''ActsOn''" "[(''a'', ''b'')]" "[(''c'', ''d''), (''e'', ''f'')]" True
        "''g''" "[]" "()"]
    by (simp add: Let_def accepted_def sample_server_def)
qed

text \<open>The loader escapes quotes the SQL way inside a Cypher literal. Under the reading that
  \<open>escape_cypher\<close> relies on, a value without a quote is read back unchanged, but of a value with a quote
  only the text before the first one is read, and the rest is left outside the literal. Escaping the same
  value with \<open>escape_cypher\<close> always reads back.\<close>

theorem loaded_literals_stop_at_quotes:
  assumes "reads_literals lx"
  shows "(single_quote \<notin> set s \<longrightarrow> lx (escape_sql_literal s @ single_quote # post) = Some (s, post)) \<and>
    (single_quote \<notin> set a \<longrightarrow>
       lx (escape_sql_literal (a @ single_quote # b) @ single_quote # post) =
         Some (a, single_quote # escape_sql_literal b @ single_quote # post)) \<and>
    lx (escape_cypher s @ single_quote # post) = Some (s, post)"
  using lex_escape_sql [OF assms, of s post]
    lex_escape_sql [OF assms, of a "single_quote # escape_sql_literal b @ single_quote # post"]
  by (simp add: lex_escape_cypher [OF assms] escape_sql_literal_append escape_sql_literal_simps)

theorem loaded_literals_stop_at_quotes_witness:
  "read_literal (escape_sql_literal ''O'' @ single_quote # []) = Some (''O'', []) \<and>
   (\<exists>left. read_literal (escape_sql_literal (''O'' @ single_quote # ''Brien'') @ [single_quote]) = Some (''O'', left) \<and>
      left \<noteq> [])"
  using loaded_literals_stop_at_quotes [OF read_literal_law, of "''O''" "[]" "''O''" "''Brien''"]
  by (simp add: single_quote_def)

end
