(* ===== verification/Graph_Client.thy ===== *)
theory Graph_Client
  imports Query_Builder Json
begin

section \<open>Decoding what the graph client receives\<close>

text \<open>
  The pure parts of \<open>activable-graph/src/client.rs\<close>: the parser of agtype scalars, the decoding of node
  references, and the query texts the client writes itself. The pool and the network are not modelled. A
  target type \<open>T: FromStr\<close> is its parser \<open>from_str\<close> and its name; an index out of range (a panic) is \<open>None\<close>.
\<close>

subsection \<open>Trimming\<close>

definition is_ascii_whitespace :: "char \<Rightarrow> bool" where
  "is_ascii_whitespace c \<longleftrightarrow> (of_char c :: nat) \<in> {9, 10, 11, 12, 13, 32}"

definition trim_by :: "(char \<Rightarrow> bool) \<Rightarrow> string \<Rightarrow> string" where
  "trim_by p s = rev (dropWhile p (rev (dropWhile p s)))"

definition trim :: "string \<Rightarrow> string" where
  "trim s = trim_by is_ascii_whitespace s"

definition double_quote :: char where
  "double_quote = CHR 0x22"

definition show_int :: "int \<Rightarrow> string" where
  "show_int i = (if i < 0 then CHR ''-'' # show_nat (nat (- i)) else show_nat (nat i))"

text \<open>\<open>Value::as_i64\<close>.\<close>

definition as_i64 :: "json \<Rightarrow> int option" where
  "as_i64 v =
     (case v of
        JNumber (PosInt n) \<Rightarrow> if int n < 2 ^ 63 then Some (int n) else None
      | JNumber (NegInt i) \<Rightarrow> Some i
      | _ \<Rightarrow> None)"

subsection \<open>Scalars\<close>

text \<open>\<open>&s[1..s.len() - 1]\<close>: the range is out of order on a string of one character.\<close>

definition inner_slice :: "string \<Rightarrow> string option" where
  "inner_slice s = (if length s < 2 then None else Some (take (length s - 2) (drop 1 s)))"

definition between :: "char \<Rightarrow> char \<Rightarrow> string \<Rightarrow> bool" where
  "between a b s \<longleftrightarrow> starts_with s [a] \<and> ends_with s [b]"

definition number_field :: "(string \<Rightarrow> 't option) \<Rightarrow> (string \<times> json) list \<Rightarrow> string \<Rightarrow> 't option" where
  "number_field from_str obj field_name =
     Option.bind (Option.bind (obj_get obj field_name) as_i64) (\<lambda>num. from_str (show_int num))"

definition object_scalar :: "json_parser \<Rightarrow> (string \<Rightarrow> 't option) \<Rightarrow> string \<Rightarrow> 't option" where
  "object_scalar pj from_str trimmed =
     (if between CHR ''{'' CHR ''}'' trimmed then
        case pj trimmed of
          Inr (JObject obj) \<Rightarrow>
            (case List.map_filter (number_field from_str obj) [''value'', ''result'', ''count'', ''count(*)''] of
               v # vs \<Rightarrow> Some v | [] \<Rightarrow> None)
        | _ \<Rightarrow> None
      else None)"

definition parse_agtype_scalar ::
  "json_parser \<Rightarrow> string \<Rightarrow> (string \<Rightarrow> 't option) \<Rightarrow> string \<Rightarrow> (graph_error + 't) option" where
  "parse_agtype_scalar pj type_name from_str raw =
     (let trimmed = trim raw;
          last_resort = Some (ok_or
            (ParseError (''Failed to parse agtype scalar to '' @ type_name @ '': '' @ quoted raw))
            (object_scalar pj from_str trimmed)) in
      case from_str trimmed of
        Some v \<Rightarrow> Some (Inr v)
      | None \<Rightarrow>
          if between double_quote double_quote trimmed \<or> between single_quote single_quote trimmed
          then (case inner_slice trimmed of
              None \<Rightarrow> None
            | Some inner \<Rightarrow> (case from_str (trim inner) of Some v \<Rightarrow> Some (Inr v) | None \<Rightarrow> last_resort))
          else last_resort)"

subsection \<open>Node references\<close>

definition strip_agtype :: "string \<Rightarrow> string" where
  "strip_agtype raw = trim_by (\<lambda>c. c = double_quote) (trim raw)"

text \<open>The row of a walk, and of a blast radius.\<close>

definition row_ref :: "string \<Rightarrow> string \<Rightarrow> node_ref" where
  "row_ref raw_id raw_label = \<lparr>ref_id = strip_agtype raw_id, ref_label = strip_agtype raw_label\<rparr>"

definition extract_first_label :: "string \<Rightarrow> string option" where
  "extract_first_label labels_str =
     (let trimmed = trim_by (\<lambda>c. c = CHR ''['' \<or> c = CHR '']'' \<or> c = CHR '' '') labels_str in
      if trimmed = [] then None
      else let label = trim_by (\<lambda>c. c = double_quote) (hd (split_on CHR '','' trimmed)) in
        if label = [] then None else Some label)"

subsection \<open>Query texts\<close>

definition raw_cypher_sql :: "string \<Rightarrow> string \<Rightarrow> string" where
  "raw_cypher_sql graph cypher = cypher_call ''result::text'' graph cypher ''result agtype''"

definition multi_column_sql :: "string \<Rightarrow> string \<Rightarrow> nat \<Rightarrow> string" where
  "multi_column_sql graph cypher column_count =
     cypher_call
       (join '', '' (map (\<lambda>i. ''col'' @ show_nat i @ ''::text'') [0..<column_count])) graph cypher
       (join '', '' (map (\<lambda>i. ''col'' @ show_nat i @ '' agtype'') [0..<column_count]))"

text \<open>A row of a multi-column query: a NULL column is null, text that is not JSON is kept as a string.\<close>

definition decode_columns :: "json_parser \<Rightarrow> string option list \<Rightarrow> json list" where
  "decode_columns pj row =
     map (\<lambda>c. case c of None \<Rightarrow> JNull | Some s \<Rightarrow> (case pj s of Inr v \<Rightarrow> v | Inl e \<Rightarrow> JString s)) row"

text \<open>The hydration query writes the id into its literal as it is.\<close>

definition hydrate_sql :: "string \<Rightarrow> node_id \<Rightarrow> string" where
  "hydrate_sql graph i =
     cypher_call ''*'' graph (''MATCH (n:{id: '' @ quoted i @ ''}) RETURN n'') ''node agtype''"

subsection \<open>Lemmas\<close>

lemma between_short:
  "between a b s \<Longrightarrow> length s < 2 \<longleftrightarrow> s = [a] \<and> a = b"
  by (cases s; cases "tl s") (auto simp: between_def starts_with_def ends_with_def)

lemma inner_slice_quotes: "inner_slice (a # s @ [b]) = Some s"
  by (simp add: inner_slice_def)

lemma inner_slice_None_iff: "inner_slice s = None \<longleftrightarrow> length s < 2"
  by (simp add: inner_slice_def)

lemma between_single: "between a b [c] \<longleftrightarrow> c = a \<and> c = b"
  by (auto simp: between_def starts_with_def ends_with_def)

lemma inner_slice_single: "inner_slice [c] = None"
  by (simp add: inner_slice_def)

lemma map_filter_member: "v \<in> set (List.map_filter f xs) \<Longrightarrow> \<exists>x. f x = Some v"
  by (induction xs) (auto simp: List.map_filter_simps split: option.splits)

lemma object_scalar_parsed: "object_scalar pj from_str s = Some v \<Longrightarrow> \<exists>t. from_str t = Some v"
proof -
  assume "object_scalar pj from_str s = Some v"
  then obtain obj vs where "List.map_filter (number_field from_str obj) [''value'', ''result'', ''count'', ''count(*)''] = v # vs"
    by (auto simp: object_scalar_def split: if_splits sum.splits json.splits list.splits)
  then have "v \<in> set (List.map_filter (number_field from_str obj) [''value'', ''result'', ''count'', ''count(*)''])"
    by simp
  then obtain f where "number_field from_str obj f = Some v" using map_filter_member by fast
  then show ?thesis by (auto simp: number_field_def bind_eq_Some_conv)
qed

lemma trim_by_around:
  assumes "p a" and "p b" and "s \<noteq> []" and "\<not> p (hd s)" and "\<not> p (last s)"
  shows "trim_by p (a # s @ [b]) = s"
proof -
  have "dropWhile p (s @ [b]) = s @ [b]" using assms by (cases s) auto
  moreover have "dropWhile p (rev s) = rev s" using assms by (cases s rule: rev_cases) auto
  ultimately show ?thesis using assms by (simp add: trim_by_def)
qed

text \<open>A label the builder accepts is read back from the JSON array of labels.\<close>

lemma extract_first_label_label:
  assumes "validate_label l = Inr l"
  shows "extract_first_label (CHR ''['' # (double_quote # l @ [double_quote]) @ [CHR '']'']) = Some l"
proof -
  have ok: "l \<noteq> []" "list_all label_char_ok l" using assms by (simp_all add: validate_label_Inr_iff)
  have c: "label_char_ok c \<Longrightarrow> c \<noteq> double_quote \<and> c \<noteq> CHR '',''" for c
    by (auto simp: label_char_ok_def is_ascii_alphanumeric_def is_ascii_alphabetic_def is_ascii_digit_def
        double_quote_def)
  have l: "double_quote \<notin> set l" "CHR '','' \<notin> set l" using ok(2) c by (auto simp: list_all_iff)
  have "trim_by (\<lambda>c. c = CHR ''['' \<or> c = CHR '']'' \<or> c = CHR '' '')
      (CHR ''['' # (double_quote # l @ [double_quote]) @ [CHR '']'']) = double_quote # l @ [double_quote]"
    by (rule trim_by_around) (simp_all add: double_quote_def)
  moreover have "split_on CHR '','' (double_quote # l @ [double_quote]) = [double_quote # l @ [double_quote]]"
    using l by (intro split_on_literal) (simp add: double_quote_def)
  moreover have "trim_by (\<lambda>c. c = double_quote) (double_quote # l @ [double_quote]) = l"
    using ok(1) l(1) by (intro trim_by_around) (auto dest: hd_in_set last_in_set)
  ultimately show ?thesis using ok(1) by (simp add: extract_first_label_def Let_def)
qed

text \<open>Hydrating an id with a quote: the literal ends there and the rest of the id is Cypher.\<close>

lemma hydrate_runs_the_rest_of_the_id:
  assumes "reads_literals lx" and "single_quote \<notin> set a" and "backslash \<notin> set a"
  shows "\<exists>pre post. hydrate_sql g (a @ single_quote # b) = pre @ single_quote # post \<and>
    (\<exists>rest. lx post = Some (a, b @ rest))"
proof -
  let ?rest = "single_quote # ''}) RETURN n'' @ ''$$) AS ('' @ ''node agtype'' @ '')''"
  have "lx (a @ single_quote # b @ ?rest) = Some (a, b @ ?rest)" by (rule lex_plain [OF assms])
  moreover have "hydrate_sql g (a @ single_quote # b) =
      (''SELECT '' @ ''*'' @ '' FROM ag_catalog.cypher('' @ quoted g @ '', $$'' @ ''MATCH (n:{id: '') @
        single_quote # (a @ single_quote # b @ ?rest)"
    by (simp add: hydrate_sql_def cypher_call_def quoted_def single_quote_def)
  ultimately show ?thesis by blast
qed

subsection \<open>Properties\<close>

text \<open>The scalar parser panics on exactly one shape of input: a lone quote character, with or without
  white space around it, that the target type does not accept. On every other text it returns, and a value it
  returns is one the target type parsed from some text.\<close>

theorem agtype_scalar_panics_on_lone_quote:
  "(parse_agtype_scalar pj ty from_str raw = None \<longleftrightarrow>
      from_str (trim raw) = None \<and> trim raw \<in> {[double_quote], [single_quote]}) \<and>
   {v. parse_agtype_scalar pj ty from_str raw = Some (Inr v)} \<subseteq> {v. \<exists>t. from_str t = Some v}"
proof (intro conjI)
  show "parse_agtype_scalar pj ty from_str raw = None \<longleftrightarrow>
      from_str (trim raw) = None \<and> trim raw \<in> {[double_quote], [single_quote]}"
    by (auto simp: parse_agtype_scalar_def Let_def inner_slice_None_iff inner_slice_single between_short between_single
        split: option.splits)
  show "{v. parse_agtype_scalar pj ty from_str raw = Some (Inr v)} \<subseteq> {v. \<exists>t. from_str t = Some v}"
    by (auto simp: parse_agtype_scalar_def Let_def ok_or_Inr_iff dest: object_scalar_parsed
        split: option.splits if_splits)
qed

end
