(* ===== verification/Policy_Drift.thy ===== *)
theory Policy_Drift
  imports Complex_Main Matchers Policy_Types
begin

section \<open>Policy drift\<close>

text \<open>
  \<open>activable-iam-engine/src/policy_drift.rs\<close>: two versions of a policy are compared as sets of (action,
  resource) pairs. A \<open>BTreeSet\<close> is its sorted list without duplicates. The score, an \<open>f64\<close> in the code, is
  the exact rational here: rounding is not modelled.
\<close>

record policy_version =
  version_id :: string
  pv_policy_arn :: string
  is_default :: bool
  pv_created_at :: string
  pv_policy :: parsed_policy

datatype drift_severity = DriftCritical | DriftHigh | DriftMedium | DriftLow | DriftNone

record policy_diff =
  pd_policy_arn :: string
  from_version :: string
  to_version :: string
  actions_added :: "string list"
  actions_removed :: "string list"
  resources_added :: "string list"
  resources_removed :: "string list"
  permission_expanded :: bool
  drift_sev :: drift_severity

subsection \<open>Permission sets\<close>

definition btree_set :: "'a::linorder list \<Rightarrow> 'a list" where
  "btree_set xs = sort_dedup (\<lambda>x. x) xs"

definition statement_pairs :: "policy_statement \<Rightarrow> (string \<times> string) list" where
  "statement_pairs st =
     (if effect st \<noteq> Allow then []
      else
        let acts = (if actions st \<noteq> [] then map action_pat (actions st) else []);
            ress = (if resources st \<noteq> [] then map resource_pat (resources st) else [])
        in if acts \<noteq> [] \<and> ress \<noteq> [] then concat (map (\<lambda>a. map (\<lambda>r. (a, r)) ress) acts) else [])"

definition permission_set :: "parsed_policy \<Rightarrow> (string \<times> string) list" where
  "permission_set p = btree_set (concat (map statement_pairs (statements p)))"

definition set_difference :: "(string \<times> string) list \<Rightarrow> (string \<times> string) list \<Rightarrow> (string \<times> string) list" where
  "set_difference a b = filter (\<lambda>p. p \<notin> set b) a"

definition set_union :: "(string \<times> string) list \<Rightarrow> (string \<times> string) list \<Rightarrow> (string \<times> string) list" where
  "set_union a b = btree_set (a @ b)"

subsection \<open>Comparison\<close>

definition DANGEROUS_PATTERNS :: "string list" where
  "DANGEROUS_PATTERNS =
    [''iam:CreatePolicyVersion'', ''iam:CreatePolicy'', ''iam:PutUserPolicy'', ''iam:PutRolePolicy'',
     ''iam:PutGroupPolicy'', ''iam:AttachUserPolicy'', ''iam:AttachRolePolicy'', ''iam:AttachGroupPolicy'',
     ''iam:UpdateAssumeRolePolicy'', ''iam:SetDefaultPolicyVersion'', ''iam:PassRole'', ''sts:AssumeRole'']"

definition is_dangerous_action :: "string \<Rightarrow> bool" where
  "is_dangerous_action act =
     (let action_lower = to_lowercase act in
      if action_lower = ''*'' then True
      else if action_lower = ''iam:*'' then True
      else list_ex (\<lambda>pat. action_matches pat act) DANGEROUS_PATTERNS)"

definition diff_policies ::
  "parsed_policy \<Rightarrow> parsed_policy \<Rightarrow> string \<Rightarrow> string \<Rightarrow> string \<Rightarrow> policy_diff" where
  "diff_policies from_pol to_pol arn from_ver to_ver =
     (let from_set = permission_set from_pol;
          to_set = permission_set to_pol;
          added_pairs = set_difference to_set from_set;
          removed_pairs = set_difference from_set to_set;
          added = btree_set (map fst added_pairs);
          expanded = (added_pairs \<noteq> []) in
      \<lparr>pd_policy_arn = arn, from_version = from_ver, to_version = to_ver,
       actions_added = added,
       actions_removed = btree_set (map fst removed_pairs),
       resources_added = btree_set (map snd added_pairs),
       resources_removed = btree_set (map snd removed_pairs),
       permission_expanded = expanded,
       drift_sev =
         (if list_ex is_dangerous_action added then
            if list_ex (\<lambda>a. a = ''*'' \<or> a = ''iam:*'') added then DriftCritical else DriftHigh
          else if expanded then DriftMedium
          else if removed_pairs \<noteq> [] then DriftLow
          else DriftNone)\<rparr>)"

definition diff_versions :: "policy_version \<times> policy_version \<Rightarrow> policy_diff" where
  "diff_versions ft = (case ft of (f, t) \<Rightarrow>
     diff_policies (pv_policy f) (pv_policy t) (pv_policy_arn f) (version_id f) (version_id t))"

definition analyze_version_history :: "policy_version list \<Rightarrow> policy_diff list" where
  "analyze_version_history versions =
     (if length versions < 2 then []
      else let vs = sort_key pv_created_at versions in map diff_versions (zip vs (tl vs)))"

definition compute_drift_score :: "policy_diff list \<Rightarrow> rat" where
  "compute_drift_score ds =
     (if ds = [] then 0
      else
        let n = rat_of_nat (length ds);
            expansion_count = length (filter permission_expanded ds);
            critical_count = length (filter (\<lambda>d. drift_sev d = DriftCritical) ds);
            high_count = length (filter (\<lambda>d. drift_sev d = DriftHigh) ds);
            expansion_ratio = rat_of_nat expansion_count / n;
            severity_weight = (rat_of_nat critical_count * 1 + rat_of_nat high_count * (1/2)) / n;
            score = expansion_ratio * (7/10) + severity_weight * (3/10)
        in max 0 (min 1 score))"

subsection \<open>Lemmas\<close>

lemma set_btree_set [simp]: "set (btree_set xs) = set xs"
  by (simp add: btree_set_def)

lemma sorted_btree_set: "sorted_wrt (<) (btree_set xs)"
  using sorted_sort_dedup [of "\<lambda>x. x" xs] distinct_sort_dedup [of "\<lambda>x. x" xs]
  by (simp add: btree_set_def strict_sorted_iff)

lemma btree_set_Nil_iff [simp]: "btree_set xs = [] \<longleftrightarrow> xs = []"
  by (metis set_btree_set set_empty)

lemma btree_set_Nil [simp]: "btree_set [] = []"
  by simp

lemma btree_set_cong: "set xs = set ys \<Longrightarrow> btree_set xs = btree_set ys"
  using sorted_btree_set [of xs] sorted_btree_set [of ys]
  by (intro sorted_distinct_set_unique) (simp_all add: strict_sorted_iff)

text \<open>The pairs a policy grants by name.\<close>

definition granted_pairs :: "parsed_policy \<Rightarrow> (string \<times> string) set" where
  "granted_pairs p = {(a, r). \<exists>st\<in>set (statements p). effect st = Allow \<and>
     ActionPattern a \<in> set (actions st) \<and> ResourcePattern r \<in> set (resources st)}"

lemma action_pat_image: "a \<in> action_pat ` A \<longleftrightarrow> ActionPattern a \<in> A"
  by (metis action_pattern.collapse action_pattern.sel image_iff)

lemma resource_pat_image: "r \<in> resource_pat ` A \<longleftrightarrow> ResourcePattern r \<in> A"
  by (metis resource_pattern.collapse resource_pattern.sel image_iff)

lemma set_statement_pairs:
  "(a, r) \<in> set (statement_pairs st) \<longleftrightarrow> effect st = Allow \<and>
     ActionPattern a \<in> set (actions st) \<and> ResourcePattern r \<in> set (resources st)"
  by (auto simp: statement_pairs_def Let_def action_pat_image [symmetric] resource_pat_image [symmetric])

lemma set_permission_set: "set (permission_set p) = granted_pairs p"
  by (auto simp: permission_set_def granted_pairs_def set_statement_pairs)

lemma set_set_difference: "set (set_difference a b) = set a - set b"
  by (auto simp: set_difference_def)

lemma set_difference_Nil_iff: "set_difference a b = [] \<longleftrightarrow> set a \<subseteq> set b"
  by (auto simp: set_difference_def filter_empty_conv)

text \<open>A statement the comparison sees.\<close>

definition visible :: "policy_statement \<Rightarrow> bool" where
  "visible st \<longleftrightarrow> effect st = Allow \<and> actions st \<noteq> [] \<and> resources st \<noteq> []"

lemma granted_pairs_visible: "granted_pairs (p\<lparr>statements := filter visible (statements p)\<rparr>) = granted_pairs p"
  by (auto simp: granted_pairs_def visible_def)

lemma permission_set_visible: "permission_set (p\<lparr>statements := filter visible (statements p)\<rparr>) = permission_set p"
proof -
  have "set (concat (map statement_pairs (filter visible (statements p)))) = set (concat (map statement_pairs (statements p)))"
    using granted_pairs_visible [of p] by (simp add: set_permission_set [symmetric] permission_set_def)
  then show ?thesis unfolding permission_set_def by (simp add: btree_set_cong)
qed

lemma critical_is_dangerous: "a = ''*'' \<or> a = ''iam:*'' \<Longrightarrow> is_dangerous_action a"
  by (auto simp: is_dangerous_action_def to_lowercase_def lower_char_def)

lemma weighted_le_one: "x \<le> 1 \<Longrightarrow> y \<le> 1 \<Longrightarrow> x * (7/10) + y * (3/10) \<le> (1::rat)"
  by linarith

lemma score_in_range:
  fixes e c h :: nat
  assumes "e \<le> n" and "c + h \<le> n" and "0 < n"
  shows "0 \<le> rat_of_nat e / rat_of_nat n * (7/10) + (rat_of_nat c * 1 + rat_of_nat h * (1/2)) / rat_of_nat n * (3/10)"
    and "rat_of_nat e / rat_of_nat n * (7/10) + (rat_of_nat c * 1 + rat_of_nat h * (1/2)) / rat_of_nat n * (3/10) \<le> 1"
proof -
  have n: "0 < rat_of_nat n" using assms(3) by simp
  show "0 \<le> rat_of_nat e / rat_of_nat n * (7/10) + (rat_of_nat c * 1 + rat_of_nat h * (1/2)) / rat_of_nat n * (3/10)"
    using n by simp
  have "rat_of_nat e / rat_of_nat n \<le> 1" using n assms(1) by simp
  moreover have "(rat_of_nat c * 1 + rat_of_nat h * (1/2)) / rat_of_nat n \<le> 1"
  proof -
    have "rat_of_nat c + rat_of_nat h \<le> rat_of_nat n" using assms(2) by (simp flip: of_nat_add)
    then have "rat_of_nat c * 1 + rat_of_nat h * (1/2) \<le> rat_of_nat n" by simp
    then show ?thesis using n by simp
  qed
  ultimately show "rat_of_nat e / rat_of_nat n * (7/10) + (rat_of_nat c * 1 + rat_of_nat h * (1/2)) / rat_of_nat n * (3/10) \<le> 1"
    by (rule weighted_le_one)
qed

lemma severity_counts:
  "length (filter (\<lambda>d. drift_sev d = DriftCritical) ds) + length (filter (\<lambda>d. drift_sev d = DriftHigh) ds) \<le> length ds"
  by (induction ds) auto

text \<open>The clamp never acts.\<close>

lemma drift_score_formula:
  "compute_drift_score ds =
     (if ds = [] then 0
      else rat_of_nat (length (filter permission_expanded ds)) / rat_of_nat (length ds) * (7/10) +
        (rat_of_nat (length (filter (\<lambda>d. drift_sev d = DriftCritical) ds)) * 1 +
         rat_of_nat (length (filter (\<lambda>d. drift_sev d = DriftHigh) ds)) * (1/2)) / rat_of_nat (length ds) * (3/10))"
  using score_in_range [of "length (filter permission_expanded ds)" "length ds", OF _ severity_counts]
  unfolding compute_drift_score_def Let_def by (cases "ds = []") (simp_all only: if_True if_False, simp_all)

lemma severe_is_expanded:
  "drift_sev (diff_policies f t arn v w) = DriftCritical \<or> drift_sev (diff_policies f t arn v w) = DriftHigh \<Longrightarrow>
     permission_expanded (diff_policies f t arn v w)"
  by (auto simp: diff_policies_def Let_def list_ex_iff split: if_splits)

lemma history_severe_is_expanded:
  "d \<in> set (analyze_version_history vs) \<Longrightarrow> drift_sev d = DriftCritical \<or> drift_sev d = DriftHigh \<Longrightarrow>
     permission_expanded d"
  by (auto simp: analyze_version_history_def diff_versions_def Let_def intro: severe_is_expanded split: if_splits)

lemma list_ex_added:
  "list_ex P (btree_set (map fst (set_difference a b))) \<longleftrightarrow> (\<exists>x\<in>fst ` (set a - set b). P x)"
  by (simp add: list_ex_iff set_set_difference)

lemma exists_either: "(\<exists>x\<in>A. x = a \<or> x = b) \<longleftrightarrow> a \<in> A \<or> b \<in> A"
  by blast

subsection \<open>Properties\<close>

text \<open>The comparison of two policies is exact on the pairs their Allow statements name. The added and
  removed actions and resources are the projections of the two set differences, sorted without
  duplicates; the policy counts as expanded exactly when a pair is new; and the severity is Critical when \<open>*\<close>
  or \<open>iam:*\<close> is among the added actions, else High when a dangerous one is, else Medium when expanded,
  else Low when something was removed, else None.\<close>

theorem policy_diff_exact:
  "let d = diff_policies f t arn v w;
       new = granted_pairs t - granted_pairs f; gone = granted_pairs f - granted_pairs t;
       admin = (''*'' \<in> fst ` new \<or> ''iam:*'' \<in> fst ` new);
       dangerous = (\<exists>a\<in>fst ` new. is_dangerous_action a) in
     set (actions_added d) = fst ` new \<and> set (actions_removed d) = fst ` gone \<and>
     set (resources_added d) = snd ` new \<and> set (resources_removed d) = snd ` gone \<and>
     sorted_wrt (<) (actions_added d) \<and> sorted_wrt (<) (resources_added d) \<and>
     (permission_expanded d \<longleftrightarrow> new \<noteq> {}) \<and>
     drift_sev d =
       (if admin then DriftCritical else if dangerous then DriftHigh else if new \<noteq> {} then DriftMedium
        else if gone \<noteq> {} then DriftLow else DriftNone)"
proof -
  have "(\<exists>a\<in>fst ` (granted_pairs t - granted_pairs f). is_dangerous_action a)"
    if "''*'' \<in> fst ` (granted_pairs t - granted_pairs f) \<or> ''iam:*'' \<in> fst ` (granted_pairs t - granted_pairs f)"
    using that critical_is_dangerous by blast
  then show ?thesis
    unfolding Let_def diff_policies_def policy_diff.select_convs list_ex_added exists_either set_btree_set set_map
      set_set_difference set_permission_set set_difference_Nil_iff Diff_eq_empty_iff
    by (intro conjI refl sorted_btree_set) (simp_all only: if_True if_False split: if_split, blast+)
qed

text \<open>What the comparison does not see. Deny statements and statements with NotAction or NotResource
  take no part in it: removing them all from a policy, or adding them, is reported as no change at all. And
  it compares patterns as text: replacing a wildcard by one of the actions it covers counts as an
  expansion.\<close>

theorem drift_blind_spots:
  "drift_sev (diff_policies p (p\<lparr>statements := filter visible (statements p)\<rparr>) arn v w) = DriftNone \<and>
   drift_sev (diff_policies (p\<lparr>statements := filter visible (statements p)\<rparr>) p arn v w) = DriftNone \<and>
   (let allow = (\<lambda>a. \<lparr>sid = None, effect = Allow, actions = [ActionPattern a], not_actions = [],
          resources = [ResourcePattern ''*''], not_resources = [], conditions = []\<rparr>);
        pol = (\<lambda>a. \<lparr>version = ''2012-10-17'', statements = [allow a]\<rparr>)
    in permission_expanded (diff_policies (pol ''s3:*'') (pol ''s3:GetObject'') arn v w))"
proof (intro conjI)
  show "drift_sev (diff_policies p (p\<lparr>statements := filter visible (statements p)\<rparr>) arn v w) = DriftNone"
    "drift_sev (diff_policies (p\<lparr>statements := filter visible (statements p)\<rparr>) p arn v w) = DriftNone"
    by (simp_all add: diff_policies_def Let_def permission_set_visible set_difference_def)
qed (simp add: Let_def diff_policies_def set_difference_Nil_iff set_permission_set granted_pairs_def)

text \<open>The drift score of a version history lies between 0 and 1 and is 0 exactly when no step expanded
  the permissions; the history has one step fewer than versions, and its steps chain: they compare
  consecutive versions in the order of creation.\<close>

theorem drift_score_of_history:
  "0 \<le> compute_drift_score ds \<and> compute_drift_score ds \<le> 1 \<and>
   (compute_drift_score (analyze_version_history vs) = 0 \<longleftrightarrow>
      filter permission_expanded (analyze_version_history vs) = []) \<and>
   length (analyze_version_history vs) = length vs - 1 \<and>
   map from_version (analyze_version_history vs) = butlast (map version_id (sort_key pv_created_at vs)) \<and>
   map to_version (analyze_version_history vs) = tl (map version_id (sort_key pv_created_at vs))"
proof (intro conjI)
  show "0 \<le> compute_drift_score ds" "compute_drift_score ds \<le> 1"
    by (simp_all add: compute_drift_score_def Let_def)
  let ?hs = "analyze_version_history vs" and ?vs = "sort_key pv_created_at vs"
  have h: "?hs = map diff_versions (zip ?vs (tl ?vs))"
  proof (cases "length vs < 2")
    case True
    then have "length (tl ?vs) = 0" by simp
    then have "tl ?vs = []" by (simp only: length_0_conv)
    then show ?thesis using True by (simp add: analyze_version_history_def)
  qed (simp add: analyze_version_history_def Let_def)
  then show "length ?hs = length vs - 1" by simp
  have z: "map fst (zip xs (tl xs)) = butlast xs" "map snd (zip xs (tl xs)) = tl xs" for xs :: "policy_version list"
    by (cases xs; simp add: map_fst_zip_take map_snd_zip_take butlast_conv_take min_def)+
  have fv: "from_version (diff_versions ft) = version_id (fst ft)" "to_version (diff_versions ft) = version_id (snd ft)" for ft
    by (simp_all add: diff_versions_def diff_policies_def Let_def split: prod.split)
  have "map from_version ?hs = map version_id (map fst (zip ?vs (tl ?vs)))" by (simp add: h fv)
  then show "map from_version ?hs = butlast (map version_id ?vs)" by (simp only: z map_butlast)
  have "map to_version ?hs = map version_id (map snd (zip ?vs (tl ?vs)))" by (simp add: h fv)
  then show "map to_version ?hs = tl (map version_id ?vs)" by (simp only: z map_tl)
  show "compute_drift_score ?hs = 0 \<longleftrightarrow> filter permission_expanded ?hs = []"
  proof
    assume "filter permission_expanded ?hs = []"
    then have "filter (\<lambda>d. drift_sev d = DriftCritical) ?hs = []" "filter (\<lambda>d. drift_sev d = DriftHigh) ?hs = []"
      using history_severe_is_expanded unfolding filter_empty_conv by blast+
    then show "compute_drift_score ?hs = 0"
      unfolding drift_score_formula \<open>filter permission_expanded ?hs = []\<close> by simp
  next
    assume zero: "compute_drift_score ?hs = 0"
    show "filter permission_expanded ?hs = []"
    proof (rule ccontr)
      assume f: "filter permission_expanded ?hs \<noteq> []"
      then have n: "?hs \<noteq> []" by auto
      have "0 < rat_of_nat (length (filter permission_expanded ?hs)) / rat_of_nat (length ?hs) * (7/10)"
        using f n by simp
      then have "0 < compute_drift_score ?hs"
        unfolding drift_score_formula using n by (simp add: add_pos_nonneg)
      then show False using zero by simp
    qed
  qed
qed

end
