(* ===== verification/Cloudtrail.thy ===== *)
theory Cloudtrail
  imports Complex_Main Json "HOL-Library.Multiset"
begin

section \<open>CloudTrail analysis\<close>

text \<open>
  \<open>activable-iam-engine/src/cloudtrail.rs\<close>: parsing of audit events and the detection of escalation
  patterns in a sequence of them. \<open>serde_json\<close>'s parser and printer are the parameters \<open>pj\<close> and
  \<open>print\<close>; \<open>iter\<close> is the unspecified order in which the hash map of principals is traversed. The scores,
  \<open>f64\<close> in the code, are exact rationals.
\<close>

subsection \<open>Events\<close>

record cloudtrail_resource =
  resource_type :: string
  resource_arn :: string

record cloudtrail_event =
  event_id :: string
  event_time :: string
  event_name :: string
  event_source :: string
  principal_arn :: string
  source_ip :: string
  error_code :: "string option"
  error_message :: "string option"
  event_resources :: "cloudtrail_resource list"
  request_parameters :: "json option"

record batch_result =
  batch_events :: "cloudtrail_event list"
  malformed_count :: nat
  total_count :: nat
  parse_success_rate :: rat
  quarantined :: "string list"

datatype escalation_pattern =
    DeniedThenSuccess
  | RapidIamChanges
  | PolicyModifyThenAssume
  | CrossAccountAssumption

record escalation_attempt =
  attempt_principal :: string
  attempt_pattern :: escalation_pattern
  attempt_events :: "cloudtrail_event list"
  timestamp_range :: "string \<times> string"

subsection \<open>Parsing\<close>

text \<open>\<open>v.get(k).and_then(|v| v.as_str())\<close>\<close>

definition value_str :: "json \<Rightarrow> string \<Rightarrow> string option" where
  "value_str v k = Option.bind (value_get v k) as_str"

definition parse_resource :: "json \<Rightarrow> cloudtrail_resource option" where
  "parse_resource r =
     (let ty = (case value_str r ''type'' of Some t \<Rightarrow> t | None \<Rightarrow> ''unknown'');
          arn = (case value_str r ''ARN'' of Some a \<Rightarrow> a | None \<Rightarrow> []) in
      if arn \<noteq> [] then Some \<lparr>resource_type = ty, resource_arn = arn\<rparr> else None)"

text \<open>The event of a parsed value; \<open>None\<close> when a required field is missing.\<close>

definition event_of_value :: "json \<Rightarrow> cloudtrail_event option" where
  "event_of_value v =
     Option.bind (value_str v ''eventID'') (\<lambda>i.
     Option.bind (value_str v ''eventTime'') (\<lambda>t.
     Option.bind (value_str v ''eventName'') (\<lambda>n.
     Option.bind (value_str v ''eventSource'') (\<lambda>s.
     Option.bind (Option.bind (value_get v ''userIdentity'') (\<lambda>ui. value_str ui ''arn'')) (\<lambda>p.
     Some \<lparr>event_id = i, event_time = t, event_name = n, event_source = s, principal_arn = p,
           source_ip = (case value_str v ''sourceIPAddress'' of Some ip \<Rightarrow> ip | None \<Rightarrow> ''unknown''),
           error_code = value_str v ''errorCode'',
           error_message = value_str v ''errorMessage'',
           event_resources = (case Option.bind (value_get v ''resources'') as_array of
               Some arr \<Rightarrow> List.map_filter parse_resource arr
             | None \<Rightarrow> []),
           request_parameters = value_get v ''requestParameters''\<rparr>)))))"

definition parse_cloudtrail_event :: "json_parser \<Rightarrow> string \<Rightarrow> string + cloudtrail_event" where
  "parse_cloudtrail_event pj txt_json =
     res_bind (map_err (\<lambda>_. txt_json) (pj txt_json)) (\<lambda>v. ok_or txt_json (event_of_value v))"

definition quarantine_all :: "string \<Rightarrow> batch_result" where
  "quarantine_all txt_json =
     \<lparr>batch_events = [], malformed_count = 1, total_count = 1, parse_success_rate = 0, quarantined = [txt_json]\<rparr>"

text \<open>The loop over the records, which prints and parses each one again.\<close>

fun sort_records :: "json_parser \<Rightarrow> string list \<Rightarrow> cloudtrail_event list \<times> string list" where
  "sort_records pj [] = ([], [])"
| "sort_records pj (raw # raws) =
     (case sort_records pj raws of (events, bad) \<Rightarrow>
      case parse_cloudtrail_event pj raw of Inr e \<Rightarrow> (e # events, bad) | Inl q \<Rightarrow> (events, raw # bad))"

definition batch_records :: "json \<Rightarrow> json list option" where
  "batch_records v =
     (case as_array v of
        Some arr \<Rightarrow> Some arr
      | None \<Rightarrow> Option.bind (value_get v ''Records'') as_array)"

definition parse_cloudtrail_batch :: "json_parser \<Rightarrow> (json \<Rightarrow> string) \<Rightarrow> string \<Rightarrow> batch_result" where
  "parse_cloudtrail_batch pj print txt_json =
     (case pj txt_json of
        Inl e \<Rightarrow> quarantine_all txt_json
      | Inr v \<Rightarrow>
          (case batch_records v of
             None \<Rightarrow> quarantine_all txt_json
           | Some records \<Rightarrow>
               (case sort_records pj (map print records) of (events, bad) \<Rightarrow>
                let total = length events + length bad in
                \<lparr>batch_events = events, malformed_count = length bad, total_count = total,
                 parse_success_rate = (if total = 0 then 0 else rat_of_nat (length events) / rat_of_nat total),
                 quarantined = bad\<rparr>)))"

subsection \<open>Helpers\<close>

definition i64_max :: int where
  "i64_max = 2 ^ 63 - 1"

text \<open>The digits of the time stamp, all of them, read as one number; 0 when they do not fit in an \<open>i64\<close>.\<close>

definition parse_timestamp :: "string \<Rightarrow> int" where
  "parse_timestamp s =
     (let digits = filter is_ascii_digit s in
      if digits \<noteq> [] \<and> int (read_nat digits) \<le> i64_max then int (read_nat digits) else 0)"

definition is_within_time_window :: "string \<Rightarrow> string \<Rightarrow> int \<Rightarrow> bool" where
  "is_within_time_window time_a time_b window_seconds \<longleftrightarrow>
     \<bar>parse_timestamp time_b - parse_timestamp time_a\<bar> \<le> window_seconds"

definition IAM_WRITE_ACTIONS :: "string list" where
  "IAM_WRITE_ACTIONS =
    [''CreatePolicy'', ''CreatePolicyVersion'', ''DeletePolicy'', ''DeletePolicyVersion'', ''PutUserPolicy'',
     ''PutGroupPolicy'', ''PutRolePolicy'', ''AttachUserPolicy'', ''AttachGroupPolicy'', ''AttachRolePolicy'',
     ''DetachUserPolicy'', ''DetachGroupPolicy'', ''DetachRolePolicy'', ''CreateRole'', ''UpdateAssumeRolePolicy'',
     ''CreateUser'', ''AddUserToGroup'', ''UpdateUserPolicy'', ''CreateAccessKey'']"

definition is_iam_write_action :: "string \<Rightarrow> bool" where
  "is_iam_write_action n \<longleftrightarrow> n \<in> set IAM_WRITE_ACTIONS"

definition POLICY_MODIFICATIONS :: "string list" where
  "POLICY_MODIFICATIONS =
    [''CreatePolicy'', ''CreatePolicyVersion'', ''DeletePolicy'', ''DeletePolicyVersion'', ''PutUserPolicy'',
     ''PutGroupPolicy'', ''PutRolePolicy'', ''AttachUserPolicy'', ''AttachGroupPolicy'', ''AttachRolePolicy'',
     ''UpdateAssumeRolePolicy'']"

definition is_policy_modification :: "string \<Rightarrow> bool" where
  "is_policy_modification n \<longleftrightarrow> n \<in> set POLICY_MODIFICATIONS"

definition extract_account_from_arn_str :: "string \<Rightarrow> string option" where
  "extract_account_from_arn_str arn =
     (let parts = split_on CHR '':'' arn in
      if 5 \<le> length parts then (let account = parts ! 4 in if account \<noteq> [] then Some account else None)
      else None)"

subsection \<open>Detection\<close>

definition pair_attempt ::
  "string \<Rightarrow> escalation_pattern \<Rightarrow> cloudtrail_event \<Rightarrow> cloudtrail_event \<Rightarrow> escalation_attempt" where
  "pair_attempt p pat a b =
     \<lparr>attempt_principal = p, attempt_pattern = pat, attempt_events = [a, b],
      timestamp_range = (event_time a, event_time b)\<rparr>"

definition success_after :: "cloudtrail_event \<Rightarrow> cloudtrail_event \<Rightarrow> bool" where
  "success_after a b \<longleftrightarrow>
     error_code b = None \<and> event_name b = event_name a \<and>
     is_within_time_window (event_time a) (event_time b) 3600"

fun denied_then_success :: "string \<Rightarrow> cloudtrail_event list \<Rightarrow> escalation_attempt list" where
  "denied_then_success p [] = []"
| "denied_then_success p (a # es) =
     (if error_code a = Some ''AccessDenied''
      then (case find (success_after a) es of
          Some b \<Rightarrow> [pair_attempt p DeniedThenSuccess a b]
        | None \<Rightarrow> [])
      else []) @ denied_then_success p es"

text \<open>The first write action that starts a run of more than three within its window.\<close>

fun rapid_iam_changes :: "string \<Rightarrow> cloudtrail_event list \<Rightarrow> escalation_attempt list" where
  "rapid_iam_changes p [] = []"
| "rapid_iam_changes p (a # es) =
     (let related = a # takeWhile (\<lambda>b. is_within_time_window (event_time a) (event_time b) 300) es in
      if 3 < length related
      then [\<lparr>attempt_principal = p, attempt_pattern = RapidIamChanges, attempt_events = related,
             timestamp_range = (event_time a, event_time ((a # es) ! (length related - 1)))\<rparr>]
      else rapid_iam_changes p es)"

definition policy_modify_then_assume ::
  "string \<Rightarrow> cloudtrail_event list \<Rightarrow> cloudtrail_event list \<Rightarrow> escalation_attempt list" where
  "policy_modify_then_assume p policy_events assume_events =
     concat (map (\<lambda>m. concat (map (\<lambda>a.
        if is_within_time_window (event_time m) (event_time a) 3600 \<and> error_code a = None
        then [pair_attempt p PolicyModifyThenAssume m a] else []) assume_events)) policy_events)"

definition foreign_resource :: "string \<Rightarrow> cloudtrail_resource \<Rightarrow> bool" where
  "foreign_resource account r \<longleftrightarrow>
     (case extract_account_from_arn_str (resource_arn r) of Some acc \<Rightarrow> acc \<noteq> account | None \<Rightarrow> False)"

definition cross_account :: "string \<Rightarrow> cloudtrail_event list \<Rightarrow> escalation_attempt list" where
  "cross_account p assume_events =
     concat (map (\<lambda>a.
       if error_code a = None then
         (case extract_account_from_arn_str p of
            None \<Rightarrow> []
          | Some account \<Rightarrow>
              if list_ex (foreign_resource account) (event_resources a)
              then [\<lparr>attempt_principal = p, attempt_pattern = CrossAccountAssumption, attempt_events = [a],
                     timestamp_range = (event_time a, event_time a)\<rparr>]
              else [])
       else []) assume_events)"

definition principal_attempts :: "string \<Rightarrow> cloudtrail_event list \<Rightarrow> escalation_attempt list" where
  "principal_attempts p es =
     (let writes = filter (\<lambda>e. event_source e = ''iam.amazonaws.com'' \<and> is_iam_write_action (event_name e)) es;
          modifications = filter (\<lambda>e. event_source e = ''iam.amazonaws.com'' \<and> is_policy_modification (event_name e)) es;
          assumptions = filter (\<lambda>e. event_source e = ''sts.amazonaws.com'' \<and> event_name e = ''AssumeRole'') es in
      denied_then_success p es @ rapid_iam_changes p writes @
      policy_modify_then_assume p modifications assumptions @ cross_account p assumptions)"

definition detect_escalation_attempts ::
  "(string list \<Rightarrow> string list) \<Rightarrow> cloudtrail_event list \<Rightarrow> escalation_attempt list" where
  "detect_escalation_attempts iter events =
     concat (map (\<lambda>p. principal_attempts p (filter (\<lambda>e. principal_arn e = p) events))
       (iter (remdups (map principal_arn events))))"

definition count_pattern :: "escalation_pattern \<Rightarrow> escalation_attempt list \<Rightarrow> nat" where
  "count_pattern pat as = length (filter (\<lambda>a. attempt_pattern a = pat) as)"

definition compute_escalation_score :: "escalation_attempt list \<Rightarrow> rat" where
  "compute_escalation_score attempts =
     (if attempts = [] then 0
      else min 1
        (rat_of_nat (min (count_pattern DeniedThenSuccess attempts) 2) * (3/10) +
         rat_of_nat (min (count_pattern RapidIamChanges attempts) 2) * (4/10) +
         rat_of_nat (min (count_pattern PolicyModifyThenAssume attempts) 1) * (5/10) +
         rat_of_nat (min (count_pattern CrossAccountAssumption attempts) 2) * (2/10)))"

subsection \<open>Lemmas on parsing\<close>

lemma parse_printed:
  "pj (print r) = Inr r \<Longrightarrow> parse_cloudtrail_event pj (print r) = ok_or (print r) (event_of_value r)"
  by (simp add: parse_cloudtrail_event_def)

lemma sort_records_printed:
  "\<forall>r\<in>set rs. pj (print r) = Inr r \<Longrightarrow>
     sort_records pj (map print rs) =
       (List.map_filter event_of_value rs, map print (filter (\<lambda>r. event_of_value r = None) rs))"
proof (induction rs)
  case (Cons r rs)
  then show ?case
    using parse_printed [of pj print r] by (cases "event_of_value r") (simp_all add: List.map_filter_simps)
qed (simp add: List.map_filter_simps)

lemma length_map_filter_split:
  "length (List.map_filter f xs) + length (filter (\<lambda>x. f x = None) xs) = length xs"
proof (induction xs)
  case (Cons x xs)
  then show ?case by (cases "f x") (simp_all add: List.map_filter_simps)
qed (simp add: List.map_filter_simps)

subsection \<open>Lemmas on detection\<close>

lemma pair_attempt_simps [simp]:
  "attempt_principal (pair_attempt p pat x y) = p" "attempt_pattern (pair_attempt p pat x y) = pat"
  by (simp_all add: pair_attempt_def)

lemma denied_then_success_fields:
  "a \<in> set (denied_then_success p es) \<Longrightarrow> attempt_principal a = p \<and> attempt_pattern a = DeniedThenSuccess"
proof (induction es)
  case (Cons e es)
  then show ?case by (cases "error_code e = Some ''AccessDenied''"; cases "find (success_after e) es") auto
qed simp

lemma denied_then_success_iff:
  "denied_then_success p es \<noteq> [] \<longleftrightarrow>
     (\<exists>i j. i < j \<and> j < length es \<and> error_code (es ! i) = Some ''AccessDenied'' \<and> success_after (es ! i) (es ! j))"
proof (induction es)
  case (Cons a es)
  have "(\<exists>i j. i < j \<and> j < length (a # es) \<and> error_code ((a # es) ! i) = Some ''AccessDenied'' \<and>
        success_after ((a # es) ! i) ((a # es) ! j)) \<longleftrightarrow>
      (error_code a = Some ''AccessDenied'' \<and> (\<exists>b\<in>set es. success_after a b)) \<or>
      (\<exists>i j. i < j \<and> j < length es \<and> error_code (es ! i) = Some ''AccessDenied'' \<and> success_after (es ! i) (es ! j))"
    (is "?l \<longleftrightarrow> ?r")
  proof
    assume ?l
    then obtain i j where ij: "i < j" "j < length (a # es)" "error_code ((a # es) ! i) = Some ''AccessDenied''"
      "success_after ((a # es) ! i) ((a # es) ! j)" by blast
    obtain k where k: "j = Suc k" using ij(1) by (cases j) auto
    show ?r
    proof (cases i)
      case 0
      then show ?thesis using ij k by (auto intro: bexI [of _ "es ! k"])
    next
      case (Suc m)
      then show ?thesis using ij k by auto
    qed
  next
    assume ?r
    then show ?l
    proof
      assume "error_code a = Some ''AccessDenied'' \<and> (\<exists>b\<in>set es. success_after a b)"
      then obtain k where "error_code a = Some ''AccessDenied''" "k < length es" "success_after a (es ! k)"
        by (auto simp: in_set_conv_nth)
      then show ?l by (intro exI [of _ 0] exI [of _ "Suc k"]) simp
    next
      assume "\<exists>i j. i < j \<and> j < length es \<and> error_code (es ! i) = Some ''AccessDenied'' \<and> success_after (es ! i) (es ! j)"
      then obtain i j where "i < j" "j < length es" "error_code (es ! i) = Some ''AccessDenied''" "success_after (es ! i) (es ! j)"
        by blast
      then show ?l by (intro exI [of _ "Suc i"] exI [of _ "Suc j"]) simp
    qed
  qed
  moreover have "find (success_after a) es \<noteq> None \<longleftrightarrow> (\<exists>b\<in>set es. success_after a b)"
    by (auto simp: find_None_iff)
  ultimately show ?case using Cons.IH by (auto split: option.splits)
qed simp

lemma rapid_iam_changes_fields:
  "a \<in> set (rapid_iam_changes p es) \<Longrightarrow> attempt_principal a = p \<and> attempt_pattern a = RapidIamChanges"
  by (induction es) (auto simp: Let_def split: if_splits)

text \<open>A run: an event followed by at least three within its window.\<close>

definition starts_run :: "cloudtrail_event list \<Rightarrow> bool" where
  "starts_run es \<longleftrightarrow> 3 < length es \<and>
     list_all (\<lambda>b. is_within_time_window (event_time (hd es)) (event_time b) 300) (take 3 (tl es))"

lemma take_takeWhile_length: "n \<le> length (takeWhile P xs) \<longleftrightarrow> n \<le> length xs \<and> list_all P (take n xs)"
proof (induction xs arbitrary: n)
  case (Cons x xs)
  then show ?case by (cases n) auto
qed simp

lemma rapid_iam_changes_iff:
  "rapid_iam_changes p es \<noteq> [] \<longleftrightarrow> (\<exists>k. starts_run (drop k es))"
proof (induction es)
  case (Cons a es)
  have "3 < length (a # takeWhile (\<lambda>b. is_within_time_window (event_time a) (event_time b) 300) es) \<longleftrightarrow> starts_run (a # es)"
    using take_takeWhile_length [of 3 "\<lambda>b. is_within_time_window (event_time a) (event_time b) 300" es]
    by (auto simp: starts_run_def)
  moreover have "(\<exists>k. starts_run (drop k (a # es))) \<longleftrightarrow> starts_run (a # es) \<or> (\<exists>k. starts_run (drop k es))"
    by (metis drop0 drop_Suc_Cons not0_implies_Suc)
  ultimately show ?case using Cons.IH by (auto simp: Let_def)
qed (simp add: starts_run_def)

lemma policy_modify_then_assume_member:
  "a \<in> set (policy_modify_then_assume p ms as) \<longleftrightarrow>
     (\<exists>m\<in>set ms. \<exists>e\<in>set as. is_within_time_window (event_time m) (event_time e) 3600 \<and> error_code e = None \<and>
        a = pair_attempt p PolicyModifyThenAssume m e)"
  by (auto simp: policy_modify_then_assume_def split: if_splits)

lemma cross_account_member:
  "a \<in> set (cross_account p as) \<longleftrightarrow>
     (\<exists>e\<in>set as. error_code e = None \<and> (\<exists>acc. extract_account_from_arn_str p = Some acc \<and>
        list_ex (foreign_resource acc) (event_resources e)) \<and>
        a = \<lparr>attempt_principal = p, attempt_pattern = CrossAccountAssumption, attempt_events = [e],
              timestamp_range = (event_time e, event_time e)\<rparr>)"
  by (cases "extract_account_from_arn_str p") (auto simp: cross_account_def split: if_splits)

text \<open>The events of one principal.\<close>

definition events_of :: "string \<Rightarrow> cloudtrail_event list \<Rightarrow> cloudtrail_event list" where
  "events_of p events = filter (\<lambda>e. principal_arn e = p) events"

definition iam_events :: "(string \<Rightarrow> bool) \<Rightarrow> cloudtrail_event list \<Rightarrow> cloudtrail_event list" where
  "iam_events q es = filter (\<lambda>e. event_source e = ''iam.amazonaws.com'' \<and> q (event_name e)) es"

definition role_assumptions :: "cloudtrail_event list \<Rightarrow> cloudtrail_event list" where
  "role_assumptions es = filter (\<lambda>e. event_source e = ''sts.amazonaws.com'' \<and> event_name e = ''AssumeRole'') es"

lemma attempt_in_principal:
  assumes "a \<in> set (principal_attempts p es)"
  shows "attempt_principal a = p"
  using assms
  by (auto simp: principal_attempts_def Let_def policy_modify_then_assume_member cross_account_member pair_attempt_def
      dest: denied_then_success_fields rapid_iam_changes_fields)

lemma detected_iff:
  assumes "mset (iter (remdups (map principal_arn events))) = mset (remdups (map principal_arn events))"
  shows "(\<exists>a\<in>set (detect_escalation_attempts iter events). attempt_principal a = p \<and> attempt_pattern a = pat) \<longleftrightarrow>
    (\<exists>a\<in>set (principal_attempts p (events_of p events)). attempt_pattern a = pat)"
proof -
  have s: "set (iter (remdups (map principal_arn events))) = principal_arn ` set events"
    using arg_cong [OF assms, of set_mset] by simp
  have none: "principal_attempts p [] = []"
    by (simp add: principal_attempts_def policy_modify_then_assume_def cross_account_def)
  have "p \<notin> principal_arn ` set events \<Longrightarrow> events_of p events = []"
    by (auto simp: events_of_def filter_empty_conv)
  then show ?thesis
    using none attempt_in_principal
    by (auto simp: detect_escalation_attempts_def s events_of_def [symmetric]) fastforce+
qed

lemma exists_member: "(\<And>x. x \<in> set xs \<Longrightarrow> P x) \<Longrightarrow> (\<exists>x\<in>set xs. P x) \<longleftrightarrow> xs \<noteq> []"
  by (cases xs) auto

lemma principal_attempts_patterns:
  "(\<exists>a\<in>set (principal_attempts p es). attempt_pattern a = DeniedThenSuccess) \<longleftrightarrow> denied_then_success p es \<noteq> []"
  "(\<exists>a\<in>set (principal_attempts p es). attempt_pattern a = RapidIamChanges) \<longleftrightarrow>
     rapid_iam_changes p (iam_events is_iam_write_action es) \<noteq> []"
  "(\<exists>a\<in>set (principal_attempts p es). attempt_pattern a = PolicyModifyThenAssume) \<longleftrightarrow>
     policy_modify_then_assume p (iam_events is_policy_modification es) (role_assumptions es) \<noteq> []"
  "(\<exists>a\<in>set (principal_attempts p es). attempt_pattern a = CrossAccountAssumption) \<longleftrightarrow>
     cross_account p (role_assumptions es) \<noteq> []"
proof -
  note d = denied_then_success_fields [of _ p es]
    and r = rapid_iam_changes_fields [of _ p "iam_events is_iam_write_action es"]
  have m: "a \<in> set (policy_modify_then_assume p xs ys) \<Longrightarrow> attempt_pattern a = PolicyModifyThenAssume" for a xs ys
    by (auto simp: policy_modify_then_assume_member pair_attempt_def)
  have c: "a \<in> set (cross_account p ys) \<Longrightarrow> attempt_pattern a = CrossAccountAssumption" for a ys
    by (auto simp: cross_account_member)
  have e: "set (principal_attempts p es) =
      set (denied_then_success p es) \<union> set (rapid_iam_changes p (iam_events is_iam_write_action es)) \<union>
      set (policy_modify_then_assume p (iam_events is_policy_modification es) (role_assumptions es)) \<union>
      set (cross_account p (role_assumptions es))"
    by (auto simp: principal_attempts_def Let_def iam_events_def role_assumptions_def)
  have ex: "xs \<noteq> [] \<longleftrightarrow> (\<exists>x. x \<in> set xs)" for xs :: "escalation_attempt list" by (cases xs) auto
  show "(\<exists>a\<in>set (principal_attempts p es). attempt_pattern a = DeniedThenSuccess) \<longleftrightarrow> denied_then_success p es \<noteq> []"
    unfolding e ex using d r m c by (metis UnE UnI1 escalation_pattern.distinct(1,3,5))
  show "(\<exists>a\<in>set (principal_attempts p es). attempt_pattern a = RapidIamChanges) \<longleftrightarrow>
     rapid_iam_changes p (iam_events is_iam_write_action es) \<noteq> []"
    unfolding e ex using d r m c by (metis UnE UnI1 UnI2 escalation_pattern.distinct(1,7,9))
  show "(\<exists>a\<in>set (principal_attempts p es). attempt_pattern a = PolicyModifyThenAssume) \<longleftrightarrow>
     policy_modify_then_assume p (iam_events is_policy_modification es) (role_assumptions es) \<noteq> []"
    unfolding e ex using d r m c by (metis UnE UnI1 UnI2 escalation_pattern.distinct(3,7,11))
  show "(\<exists>a\<in>set (principal_attempts p es). attempt_pattern a = CrossAccountAssumption) \<longleftrightarrow>
     cross_account p (role_assumptions es) \<noteq> []"
    unfolding e ex using d r m c by (metis UnE UnI2 escalation_pattern.distinct(5,9,11))
qed

lemma rapid_in_events:
  "rapid_iam_changes p (iam_events q es) \<noteq> [] \<longleftrightarrow> (\<exists>k. starts_run (drop k (iam_events q es)))"
  by (rule rapid_iam_changes_iff)

lemma policy_modify_nonempty_iff:
  "policy_modify_then_assume p ms as \<noteq> [] \<longleftrightarrow>
     (\<exists>m\<in>set ms. \<exists>e\<in>set as. is_within_time_window (event_time m) (event_time e) 3600 \<and> error_code e = None)"
proof -
  have "policy_modify_then_assume p ms as \<noteq> [] \<longleftrightarrow> (\<exists>a. a \<in> set (policy_modify_then_assume p ms as))"
    by (cases "policy_modify_then_assume p ms as") auto
  then show ?thesis unfolding policy_modify_then_assume_member by blast
qed

lemma cross_account_nonempty_iff:
  "cross_account p as \<noteq> [] \<longleftrightarrow>
     (\<exists>e\<in>set as. error_code e = None \<and> (\<exists>acc. extract_account_from_arn_str p = Some acc \<and>
        list_ex (foreign_resource acc) (event_resources e)))"
proof -
  have "cross_account p as \<noteq> [] \<longleftrightarrow> (\<exists>a. a \<in> set (cross_account p as))" by (cases "cross_account p as") auto
  then show ?thesis unfolding cross_account_member by blast
qed

text \<open>The score before the cap.\<close>

definition raw_score :: "escalation_attempt list \<Rightarrow> rat" where
  "raw_score as =
     rat_of_nat (min (count_pattern DeniedThenSuccess as) 2) * (3/10) +
     rat_of_nat (min (count_pattern RapidIamChanges as) 2) * (4/10) +
     rat_of_nat (min (count_pattern PolicyModifyThenAssume as) 1) * (5/10) +
     rat_of_nat (min (count_pattern CrossAccountAssumption as) 2) * (2/10)"

lemma raw_score_nonneg: "0 \<le> raw_score as"
  by (simp add: raw_score_def)

lemma compute_raw: "compute_escalation_score as = min 1 (raw_score as)"
  by (simp add: compute_escalation_score_def raw_score_def count_pattern_def)

lemma count_pattern_append: "count_pattern pat (as @ bs) = count_pattern pat as + count_pattern pat bs"
  by (simp add: count_pattern_def)

lemma raw_score_mono: "raw_score as \<le> raw_score (as @ bs)"
  unfolding raw_score_def count_pattern_append
  by (intro add_mono mult_right_mono of_nat_mono min.mono) simp_all

lemma raw_score_single: "0 < raw_score [a]"
  by (cases "attempt_pattern a") (simp_all add: raw_score_def count_pattern_def)

lemma raw_score_pos: "as \<noteq> [] \<Longrightarrow> 0 < raw_score as"
  by (cases as) (use raw_score_single raw_score_mono [of "[hd as]" "tl as"] in \<open>auto intro: less_le_trans\<close>)

subsection \<open>The patterns, stated on their own\<close>

text \<open>The number that the decimal digits of a time stamp spell, read across its separators; 0 when it needs
  more than 63 bits. Two stamps are near when these numbers are, whichever is first.\<close>

definition stamp_value :: "string \<Rightarrow> int" where
  "stamp_value s =
     (let ds = filter (\<lambda>c. c \<in> set ''0123456789'') s;
          n = (\<Sum>i<length ds. (of_char (ds ! i) - 48) * 10 ^ (length ds - 1 - i))
      in if n < 2 ^ 63 then n else 0)"

definition near :: "int \<Rightarrow> cloudtrail_event \<Rightarrow> cloudtrail_event \<Rightarrow> bool" where
  "near w a b \<longleftrightarrow> \<bar>stamp_value (event_time b) - stamp_value (event_time a)\<bar> \<le> w"

text \<open>The IAM write actions, and among them the policy modifications: those on policies, except
  detachments and the update of a user's policy.\<close>

definition iam_writes :: "string set" where
  "iam_writes =
     (\<Union>verb\<in>{''Put'', ''Attach'', ''Detach''}. \<Union>owner\<in>{''User'', ''Group'', ''Role''}. {verb @ owner @ ''Policy''}) \<union>
     (\<Union>verb\<in>{''Create'', ''Delete''}. {verb @ ''Policy'', verb @ ''PolicyVersion''}) \<union>
     {''CreateRole'', ''CreateUser'', ''CreateAccessKey'', ''AddUserToGroup'', ''UpdateUserPolicy'',
      ''UpdateAssumeRolePolicy''}"

definition policy_changes :: "string set" where
  "policy_changes =
     {n \<in> iam_writes. sublist ''Policy'' n \<and> \<not> prefix ''Detach'' n \<and> n \<noteq> ''UpdateUserPolicy''}"

text \<open>The account of an ARN: its fifth part, when that is not empty.\<close>

definition arn_account :: "string \<Rightarrow> string \<Rightarrow> bool" where
  "arn_account s acc \<longleftrightarrow>
     (\<exists>parts. s = join '':'' parts \<and> (\<forall>p\<in>set parts. CHR '':'' \<notin> set p) \<and> 5 \<le> length parts \<and>
        parts ! 4 = acc \<and> acc \<noteq> [])"

definition assumes_role :: "cloudtrail_event \<Rightarrow> bool" where
  "assumes_role e \<longleftrightarrow>
     event_source e = ''sts.amazonaws.com'' \<and> event_name e = ''AssumeRole'' \<and> error_code e = None"

definition modifies_policy :: "cloudtrail_event \<Rightarrow> bool" where
  "modifies_policy e \<longleftrightarrow> event_source e = ''iam.amazonaws.com'' \<and> event_name e \<in> policy_changes"

lemma read_nat_sum:
  "int (read_nat ds) = (\<Sum>i<length ds. int (digit_value (ds ! i)) * 10 ^ (length ds - 1 - i))"
proof (induction ds rule: rev_induct)
  case (snoc d ds)
  have "(\<Sum>i<length (ds @ [d]). int (digit_value ((ds @ [d]) ! i)) * 10 ^ (length (ds @ [d]) - 1 - i)) =
      (\<Sum>i<length ds. int (digit_value (ds ! i)) * 10 ^ (length ds - i)) + int (digit_value d)"
    by (simp add: nth_append)
  also have "(\<Sum>i<length ds. int (digit_value (ds ! i)) * 10 ^ (length ds - i)) =
      10 * (\<Sum>i<length ds. int (digit_value (ds ! i)) * 10 ^ (length ds - 1 - i))"
    unfolding sum_distrib_left
  proof (rule sum.cong [OF refl])
    fix i assume "i \<in> {..<length ds}"
    then have "length ds - i = Suc (length ds - 1 - i)" by simp
    then show "int (digit_value (ds ! i)) * 10 ^ (length ds - i) =
        10 * (int (digit_value (ds ! i)) * 10 ^ (length ds - 1 - i))" by simp
  qed
  finally show ?case using snoc by (simp add: read_nat_def)
qed (simp add: read_nat_def)

lemma digit_iff: "is_ascii_digit c \<longleftrightarrow> c \<in> set ''0123456789''"
  by (cases c) (auto simp: is_ascii_digit_def)

lemma parse_timestamp_stamp: "parse_timestamp s = stamp_value s"
proof -
  let ?ds = "filter (\<lambda>c. c \<in> set ''0123456789'') s"
  have "int (digit_value c) = of_char c - 48" if "c \<in> set ?ds" for c
    using that by (auto simp: digit_value_def)
  then have n: "int (read_nat ?ds) = (\<Sum>i<length ?ds. (of_char (?ds ! i) - 48) * 10 ^ (length ?ds - 1 - i))"
    unfolding read_nat_sum by (intro sum.cong refl) (simp only: lessThan_iff nth_mem)
  show ?thesis
    unfolding parse_timestamp_def stamp_value_def Let_def digit_iff [abs_def] n [symmetric]
    by (auto simp: i64_max_def read_nat_def)
qed

lemma within_near: "is_within_time_window (event_time a) (event_time b) w \<longleftrightarrow> near w a b"
  by (simp add: is_within_time_window_def near_def parse_timestamp_stamp)

lemma iam_writes_eq: "iam_writes = set IAM_WRITE_ACTIONS"
  by code_simp

lemma policy_changes_eq: "policy_changes = set POLICY_MODIFICATIONS"
proof -
  have "filter (\<lambda>n. sublist ''Policy'' n \<and> \<not> prefix ''Detach'' n \<and> n \<noteq> ''UpdateUserPolicy'') IAM_WRITE_ACTIONS =
      POLICY_MODIFICATIONS" by code_simp
  then show ?thesis unfolding policy_changes_def iam_writes_eq by (metis set_filter)
qed

lemma account_arn: "extract_account_from_arn_str s = Some acc \<longleftrightarrow> arn_account s acc"
proof -
  let ?parts = "split_on CHR '':'' s"
  have "arn_account s acc \<longleftrightarrow> 5 \<le> length ?parts \<and> ?parts ! 4 = acc \<and> acc \<noteq> []"
  proof
    assume "arn_account s acc"
    then obtain parts where p: "s = join '':'' parts" "\<forall>p\<in>set parts. CHR '':'' \<notin> set p" "5 \<le> length parts"
      "parts ! 4 = acc" "acc \<noteq> []" unfolding arn_account_def by blast
    from p(3) have "parts \<noteq> []" by auto
    from split_on_join [OF this p(2)] have "?parts = parts" unfolding p(1) .
    then show "5 \<le> length ?parts \<and> ?parts ! 4 = acc \<and> acc \<noteq> []" using p(3-5) by simp
  next
    assume "5 \<le> length ?parts \<and> ?parts ! 4 = acc \<and> acc \<noteq> []"
    then show "arn_account s acc"
      unfolding arn_account_def using join_split_on [of "CHR '':''" s] split_on_parts [of _ "CHR '':''" s]
      by (intro exI [of _ ?parts]) simp
  qed
  then show ?thesis by (auto simp: extract_account_from_arn_str_def Let_def)
qed

lemma foreign_resource_arn:
  "foreign_resource acc r \<longleftrightarrow> (\<exists>other. arn_account (resource_arn r) other \<and> other \<noteq> acc)"
  unfolding account_arn [symmetric] by (simp add: foreign_resource_def split: option.split)

lemma starts_run_drop:
  "starts_run (drop k ws) \<longleftrightarrow> k + 3 < length ws \<and> (\<forall>i\<in>{1, 2, 3}. near 300 (ws ! k) (ws ! (k + i)))"
proof -
  have three: "take 3 (tl (drop k ws)) = [ws ! (k + 1), ws ! (k + 2), ws ! (k + 3)]" if "k + 3 < length ws"
    using that by (intro nth_equalityI) (auto simp: nth_tl less_Suc_eq numeral_3_eq_3 numeral_2_eq_2)
  have "starts_run (drop k ws) \<longleftrightarrow> k + 3 < length ws \<and>
      list_all (\<lambda>b. near 300 (ws ! k) b) (take 3 (tl (drop k ws)))"
    by (auto simp: starts_run_def within_near hd_drop_conv_nth)
  then show ?thesis using three by auto
qed

subsection \<open>Properties\<close>

text \<open>Parsing a batch loses no record. When the printer's text of each record parses back to it, the
  events are exactly those of the records that have the required fields, in order, the other records are
  quarantined as text, the counts add up to the number of records, and the success rate is a proper
  fraction.\<close>

theorem batch_accounts_for_every_record:
  assumes "pj tx = Inr v" and "batch_records v = Some rs" and "\<forall>r\<in>set rs. pj (print r) = Inr r"
  shows "let b = parse_cloudtrail_batch pj print tx in
    batch_events b = List.map_filter event_of_value rs \<and>
    quarantined b = map print (filter (\<lambda>r. event_of_value r = None) rs) \<and>
    total_count b = length rs \<and> length (batch_events b) + malformed_count b = total_count b \<and>
    0 \<le> parse_success_rate b \<and> parse_success_rate b \<le> 1 \<and>
    (parse_success_rate b = 1 \<longleftrightarrow> rs \<noteq> [] \<and> quarantined b = [])"
proof -
  let ?ok = "List.map_filter event_of_value rs" and ?bad = "filter (\<lambda>r. event_of_value r = None) rs"
  have n: "length ?ok + length ?bad = length rs" by (rule length_map_filter_split)
  have b: "parse_cloudtrail_batch pj print tx =
      \<lparr>batch_events = ?ok, malformed_count = length ?bad, total_count = length rs,
       parse_success_rate = (if length rs = 0 then 0 else rat_of_nat (length ?ok) / rat_of_nat (length rs)),
       quarantined = map print ?bad\<rparr>"
    using assms(1,2) sort_records_printed [OF assms(3)] n
    by (simp add: parse_cloudtrail_batch_def Let_def del: length_0_conv length_greater_0_conv)
  have "length ?ok \<le> length rs" using n by linarith
  then have r: "rs \<noteq> [] \<Longrightarrow> rat_of_nat (length ?ok) / rat_of_nat (length rs) \<le> 1" by (simp add: divide_le_eq_1)
  have e: "rs \<noteq> [] \<Longrightarrow> rat_of_nat (length ?ok) / rat_of_nat (length rs) = 1 \<longleftrightarrow> ?bad = []"
  proof -
    assume "rs \<noteq> []"
    then have "rat_of_nat (length ?ok) / rat_of_nat (length rs) = 1 \<longleftrightarrow> length ?ok = length rs" by auto
    also have "\<dots> \<longleftrightarrow> length ?bad = 0" using n by linarith
    finally show ?thesis by simp
  qed
  show ?thesis
    unfolding b Let_def batch_result.select_convs
    using n r e by (cases "rs = []") (simp_all add: List.map_filter_simps)
qed

definition sample_record :: json where
  "sample_record = JObject
    [(''eventID'', JString ''1''), (''eventName'', JString ''AssumeRole''), (''eventSource'', JString ''sts.amazonaws.com''),
     (''eventTime'', JString ''2026-05-23T14:30:45Z''), (''userIdentity'', JObject [(''arn'', JString ''alice'')])]"

definition sample_parser :: json_parser where
  "sample_parser s = (if s = ''r'' then Inr sample_record else if s = ''n'' then Inr JNull
     else Inr (JArray [sample_record, JNull]))"

theorem batch_accounts_for_every_record_witness:
  "let b = parse_cloudtrail_batch sample_parser (\<lambda>v. if v = JNull then ''n'' else ''r'') ''batch'' in
     total_count b = 2 \<and> quarantined b = [''n''] \<and> length (batch_events b) = 1"
proof -
  have "sample_record \<noteq> JNull" by (simp add: sample_record_def)
  moreover have "event_of_value sample_record \<noteq> None" "event_of_value JNull = None"
    by (simp_all add: event_of_value_def value_str_def value_get_def sample_record_def)
  ultimately show ?thesis
    using batch_accounts_for_every_record [of sample_parser "''batch''" "JArray [sample_record, JNull]"
        "[sample_record, JNull]" "\<lambda>v. if v = JNull then ''n'' else ''r''"]
    by (auto simp: Let_def sample_parser_def batch_records_def List.map_filter_simps)
qed

text \<open>C21: detection, pattern by pattern and principal by principal, in any order of the hash map. An attempt is
  reported for a principal exactly when, among the principal's events: an access denial is followed in the
  list by a success of the same action (no other counts as similar) near to it; or three IAM writes directly
  follow a fourth and are near to it; or a policy modification is near to a successful role assumption; or a
  successful assumption names a resource of another account than the principal's. The third pattern is
  documented as a modification followed by an assumption, but only the distance of the two stamps counts:
  it is reported as well when the assumption comes first. A modification counts also when it was denied,
  and deleting a policy is one. The fourth is documented as an assumption from a different account or an
  unusual source; no source is looked at.\<close>

theorem detection_characterised:
  assumes "mset (iter (remdups (map principal_arn events))) = mset (remdups (map principal_arn events))"
  shows "let es = filter (\<lambda>e. principal_arn e = p) events;
      writes = filter (\<lambda>e. event_source e = ''iam.amazonaws.com'' \<and> event_name e \<in> iam_writes) es;
      reported = (\<lambda>pat. \<exists>a\<in>set (detect_escalation_attempts iter events).
        attempt_principal a = p \<and> attempt_pattern a = pat)
    in (reported DeniedThenSuccess \<longleftrightarrow>
          (\<exists>i j. i < j \<and> j < length es \<and> error_code (es ! i) = Some ''AccessDenied'' \<and>
             error_code (es ! j) = None \<and> event_name (es ! j) = event_name (es ! i) \<and>
             near 3600 (es ! i) (es ! j))) \<and>
       (reported RapidIamChanges \<longleftrightarrow>
          (\<exists>k. k + 3 < length writes \<and> (\<forall>i\<in>{1, 2, 3}. near 300 (writes ! k) (writes ! (k + i))))) \<and>
       (reported PolicyModifyThenAssume \<longleftrightarrow>
          (\<exists>m\<in>set es. \<exists>e\<in>set es. modifies_policy m \<and> assumes_role e \<and> near 3600 m e)) \<and>
       ((\<exists>i j. i < j \<and> j < length es \<and> assumes_role (es ! i) \<and> modifies_policy (es ! j) \<and>
           near 3600 (es ! i) (es ! j)) \<longrightarrow> reported PolicyModifyThenAssume) \<and>
       (reported CrossAccountAssumption \<longleftrightarrow>
          (\<exists>e\<in>set es. assumes_role e \<and> (\<exists>own other r. arn_account p own \<and> r \<in> set (event_resources e) \<and>
             arn_account (resource_arn r) other \<and> other \<noteq> own)))"
proof -
  let ?es = "filter (\<lambda>e. principal_arn e = p) events"
  let ?writes = "filter (\<lambda>e. event_source e = ''iam.amazonaws.com'' \<and> event_name e \<in> iam_writes) ?es"
  note found = detected_iff [where iter = iter, OF assms, unfolded events_of_def]
  have sym: "near w a b \<longleftrightarrow> near w b a" for w a b by (simp add: near_def abs_minus_commute)
  have writes: "iam_events is_iam_write_action ?es = ?writes"
    by (simp add: iam_events_def is_iam_write_action_def iam_writes_eq)
  have modify: "(\<exists>m\<in>set (iam_events is_policy_modification ?es). \<exists>e\<in>set (role_assumptions ?es).
        near 3600 m e \<and> error_code e = None) \<longleftrightarrow>
      (\<exists>m\<in>set ?es. \<exists>e\<in>set ?es. modifies_policy m \<and> assumes_role e \<and> near 3600 m e)"
    by (auto simp: iam_events_def role_assumptions_def is_policy_modification_def modifies_policy_def assumes_role_def
        policy_changes_eq)
  have cross: "(\<exists>e\<in>set (role_assumptions ?es). error_code e = None \<and>
        (\<exists>own. arn_account p own \<and> list_ex (foreign_resource own) (event_resources e))) \<longleftrightarrow>
      (\<exists>e\<in>set ?es. assumes_role e \<and> (\<exists>own other r. arn_account p own \<and> r \<in> set (event_resources e) \<and>
         arn_account (resource_arn r) other \<and> other \<noteq> own))"
    unfolding list_ex_iff foreign_resource_arn role_assumptions_def assumes_role_def by auto
  have either: "(\<exists>i j. i < j \<and> j < length ?es \<and> assumes_role (?es ! i) \<and> modifies_policy (?es ! j) \<and>
      near 3600 (?es ! i) (?es ! j)) \<longrightarrow>
      (\<exists>m\<in>set ?es. \<exists>e\<in>set ?es. modifies_policy m \<and> assumes_role e \<and> near 3600 m e)"
  proof (intro impI; elim exE conjE)
    fix i j assume "i < j" "j < length ?es" and h: "assumes_role (?es ! i)" "modifies_policy (?es ! j)"
      "near 3600 (?es ! i) (?es ! j)"
    then have "?es ! i \<in> set ?es" "?es ! j \<in> set ?es" by (simp_all only: nth_mem less_trans)
    with h sym show "\<exists>m\<in>set ?es. \<exists>e\<in>set ?es. modifies_policy m \<and> assumes_role e \<and> near 3600 m e" by blast
  qed
  show ?thesis
    unfolding Let_def found principal_attempts_patterns denied_then_success_iff rapid_iam_changes_iff
      policy_modify_nonempty_iff cross_account_nonempty_iff success_after_def within_near writes starts_run_drop
      modify account_arn cross
    using either by (intro conjI refl)
qed

definition sample_event :: "string \<Rightarrow> string option \<Rightarrow> cloudtrail_event" where
  "sample_event t err = \<lparr>event_id = ''1'', event_time = t, event_name = ''AssumeRole'',
     event_source = ''sts.amazonaws.com'', principal_arn = ''alice'', source_ip = ''10.0.0.1'', error_code = err,
     error_message = None, event_resources = [], request_parameters = None\<rparr>"

theorem detection_characterised_witness:
  "\<exists>a\<in>set (detect_escalation_attempts (\<lambda>ps. ps)
      [sample_event ''14:30:00'' (Some ''AccessDenied''), sample_event ''14:31:00'' None]).
     attempt_principal a = ''alice'' \<and> attempt_pattern a = DeniedThenSuccess"
proof -
  let ?es = "[sample_event ''14:30:00'' (Some ''AccessDenied''), sample_event ''14:31:00'' None]"
  have es: "filter (\<lambda>e. principal_arn e = ''alice'') ?es = ?es" by (simp add: sample_event_def)
  have "near 3600 (?es ! 0) (?es ! 1)"
    by (simp add: within_near [symmetric] sample_event_def is_within_time_window_def parse_timestamp_def
        is_ascii_digit_def read_nat_def digit_value_def i64_max_def)
  then have "\<exists>i j. i < j \<and> j < length ?es \<and> error_code (?es ! i) = Some ''AccessDenied'' \<and>
      error_code (?es ! j) = None \<and> event_name (?es ! j) = event_name (?es ! i) \<and> near 3600 (?es ! i) (?es ! j)"
    by (intro exI [of _ 0] exI [of _ 1]) (simp add: sample_event_def)
  then show ?thesis
    using detection_characterised [of "\<lambda>ps. ps" ?es "''alice''", OF refl, unfolded Let_def es, THEN conjunct1]
    by (simp only: simp_thms)
qed

text \<open>The time window is not a length of time. It compares the digits of the two stamps as numbers: one
  second across the hour is more than an hour, four minutes are more than five, and the order of the two
  events does not matter, so an assumption before the modification counts as one after it.\<close>

theorem time_window_misjudges:
  "\<not> is_within_time_window ''2026-05-23T14:59:59Z'' ''2026-05-23T15:00:00Z'' 3600 \<and>
   \<not> is_within_time_window ''2026-05-23T14:30:00Z'' ''2026-05-23T14:34:00Z'' 300 \<and>
   is_within_time_window s t w = is_within_time_window t s w"
  by (simp add: is_within_time_window_def parse_timestamp_def is_ascii_digit_def read_nat_def digit_value_def
      i64_max_def abs_minus_commute)

text \<open>The escalation score lies between 0 and 1, is 0 exactly when nothing was detected, and never falls
  when further attempts are added.\<close>

theorem escalation_score_bounds:
  "0 \<le> compute_escalation_score as \<and> compute_escalation_score as \<le> 1 \<and>
   (compute_escalation_score as = 0 \<longleftrightarrow> as = []) \<and>
   compute_escalation_score as \<le> compute_escalation_score (as @ bs)"
proof (intro conjI)
  show "0 \<le> compute_escalation_score as" "compute_escalation_score as \<le> 1"
    using raw_score_nonneg [of as] by (simp_all add: compute_raw)
  show "compute_escalation_score as \<le> compute_escalation_score (as @ bs)"
    using raw_score_mono [of as bs] by (simp add: compute_raw min.coboundedI2)
  show "compute_escalation_score as = 0 \<longleftrightarrow> as = []"
  proof (cases "as = []")
    case True
    then show ?thesis by (simp add: compute_raw raw_score_def count_pattern_def)
  next
    case False
    then have "0 < min 1 (raw_score as)" using raw_score_pos [of as] by simp
    then show ?thesis using False by (simp add: compute_raw)
  qed
qed

end
