(* ===== verification/Risk_Rules.thy ===== *)
theory Risk_Rules
  imports Complex_Main Matchers Json Effective_Permissions "HOL-Library.Word"
begin

section \<open>Escalation rules\<close>

text \<open>
  \<open>activable-risk/src/types.rs\<close>, \<open>rule_engine.rs\<close> and \<open>rule_loader.rs\<close>: the requirement trees of
  escalation rules, their parsing from the permission field of a rule file, their evaluation against the
  effective permissions of a principal, and the cascade rules counted over the primary matches.
  \<open>EffectivePermission\<close> of \<open>rule_engine.rs\<close> has the fields of the record of \<open>effective_permissions.rs\<close>,
  which is used here. Boosts are real numbers. The YAML parser, the texts of \<open>serde\<close>'s errors and the file
  system are parameters.
\<close>

subsection \<open>Types\<close>

record required_permission =
  rp_permission :: string
  rp_resource_constraints :: "string option"

datatype rule_requirement =
    Single required_permission
  | AllOf "rule_requirement list"
  | AnyOf "rule_requirement list"

datatype cascade_scope = ScopePrincipal | ScopeAccount

record cascade_trigger =
  match_count :: "32 word"
  min_tier :: "8 word"
  trigger_scope :: cascade_scope

datatype prerequisites = Uniform "string list" | Tabbed "string list" "string list"

definition prerequisites_default :: prerequisites where
  "prerequisites_default = Uniform []"

record escalation_rule =
  rule_id :: string
  rule_name :: string
  rule_category :: string
  rule_services :: "string list"
  rule_permissions :: "rule_requirement option"
  rule_prerequisites :: prerequisites
  rule_tier :: "8 word"
  rule_boost :: real
  rule_trigger :: "cascade_trigger option"
  rule_description :: "string option"

record matched_rule =
  mr_rule_id :: string
  mr_rule_name :: string
  mr_category :: string
  mr_tier :: "8 word"
  mr_boost :: real
  mr_permissions :: "string list"

datatype rule_error = ParseError string | LoadError string | InvalidCategory string | DepthExceeded string

definition display_rule_error :: "rule_error \<Rightarrow> string" where
  "display_rule_error e =
     (case e of
        ParseError msg \<Rightarrow> ''Parse error: '' @ msg
      | LoadError msg \<Rightarrow> ''Load error: '' @ msg
      | InvalidCategory cat \<Rightarrow> ''Invalid category: '' @ cat
      | DepthExceeded msg \<Rightarrow> ''Depth exceeded: '' @ msg)"

definition too_deep :: string where
  "too_deep = ''rule requirement tree exceeds max depth 2 '' @ [CHR 0xE2, CHR 0x80, CHR 0x94] @ '' flatten''"

text \<open>The depth check stops at the first subtree that is too deep.\<close>

fun check_depth :: "rule_requirement \<Rightarrow> nat \<Rightarrow> string + unit"
  and check_depths :: "rule_requirement list \<Rightarrow> nat \<Rightarrow> string + unit" where
  "check_depth req current_depth =
     (if 2 < current_depth then Inl too_deep
      else case req of
          Single rp \<Rightarrow> Inr ()
        | AllOf all_of \<Rightarrow> check_depths all_of (current_depth + 1)
        | AnyOf any_of \<Rightarrow> check_depths any_of (current_depth + 1))"
| "check_depths [] current_depth = Inr ()"
| "check_depths (req # reqs) current_depth =
     res_bind (check_depth req current_depth) (\<lambda>_. check_depths reqs current_depth)"

declare check_depth.simps [simp del]

definition validate_depth :: "rule_requirement \<Rightarrow> string + unit" where
  "validate_depth req = check_depth req 0"

subsection \<open>Matching\<close>

text \<open>The loops over the sub-requirements stop at the first that fails or the first that matches.\<close>

fun evaluate_requirement :: "rule_requirement \<Rightarrow> effective_permission list \<Rightarrow> bool \<times> string list"
  and evaluate_all :: "rule_requirement list \<Rightarrow> effective_permission list \<Rightarrow> string list \<Rightarrow> bool \<times> string list"
  and evaluate_any :: "rule_requirement list \<Rightarrow> effective_permission list \<Rightarrow> bool \<times> string list" where
  "evaluate_requirement (Single rp) perms =
     (let matched = map (\<lambda>_. rp_permission rp)
        (filter (\<lambda>e. perm_action e = ''*'' \<or> action_matches (perm_action e) (rp_permission rp)) perms)
      in (matched \<noteq> [], matched))"
| "evaluate_requirement (AllOf all_of) perms = evaluate_all all_of perms []"
| "evaluate_requirement (AnyOf any_of) perms = evaluate_any any_of perms"
| "evaluate_all [] perms all_perms = (True, all_perms)"
| "evaluate_all (req # reqs) perms all_perms =
     (let (matched, ps) = evaluate_requirement req perms in
      if \<not> matched then (False, all_perms) else evaluate_all reqs perms (all_perms @ ps))"
| "evaluate_any [] perms = (False, [])"
| "evaluate_any (req # reqs) perms =
     (let (matched, ps) = evaluate_requirement req perms in
      if matched then (True, ps) else evaluate_any reqs perms)"

definition matched_rule_of :: "escalation_rule \<Rightarrow> string list \<Rightarrow> matched_rule" where
  "matched_rule_of rule ps =
     \<lparr>mr_rule_id = rule_id rule, mr_rule_name = rule_name rule, mr_category = rule_category rule,
      mr_tier = rule_tier rule, mr_boost = rule_boost rule, mr_permissions = ps\<rparr>"

definition match_rule :: "escalation_rule \<Rightarrow> effective_permission list \<Rightarrow> matched_rule option" where
  "match_rule rule perms =
     (if rule_trigger rule \<noteq> None then None
      else case rule_permissions rule of
          None \<Rightarrow> None
        | Some req \<Rightarrow>
            let (matched, ps) = evaluate_requirement req perms in
            if matched then Some (matched_rule_of rule ps) else None)"

text \<open>The count of qualifying matches is cast to 32 bits.\<close>

definition cascade_fires :: "matched_rule list \<Rightarrow> cascade_trigger \<Rightarrow> bool" where
  "cascade_fires primary trigger =
     (let qualifying_count = (word_of_nat (length (filter (\<lambda>m. mr_tier m \<le> min_tier trigger) primary)) :: 32 word)
      in match_count trigger \<le> qualifying_count)"

definition match_all_rules :: "escalation_rule list \<Rightarrow> effective_permission list \<Rightarrow> matched_rule list" where
  "match_all_rules rules perms =
     (let primary = List.map_filter (\<lambda>rule. match_rule rule perms) rules in
      primary @ List.map_filter (\<lambda>rule. case rule_trigger rule of
          None \<Rightarrow> None
        | Some trigger \<Rightarrow> if cascade_fires primary trigger then Some (matched_rule_of rule []) else None) rules)"

definition compute_rule_boost :: "matched_rule list \<Rightarrow> real" where
  "compute_rule_boost ms = min (sum_list (map mr_boost ms)) (30 / 100)"

subsection \<open>Loading\<close>

record yaml_rule =
  yr_id :: string
  yr_name :: string
  yr_category :: string
  yr_services :: "string list"
  yr_permissions :: "json option"
  yr_prerequisites :: prerequisites
  yr_trigger :: "cascade_trigger option"
  yr_description :: "string option"

definition category_to_tier :: "string \<Rightarrow> 8 word" where
  "category_to_tier category =
     (if category = ''cascade'' then 1
      else if category = ''self-escalation'' then 1
      else if category \<in> {''new-passrole'', ''passrole''} then 2
      else if category \<in> {''credential-access'', ''new-principal''} then 3
      else if category = ''data-access'' then 4
      else 5)"

definition tier_to_boost :: "8 word \<Rightarrow> real" where
  "tier_to_boost tier =
     (if tier = 1 then 15 / 100
      else if tier = 2 then 10 / 100
      else if tier = 3 then 5 / 100
      else if tier = 4 then 3 / 100
      else 2 / 100)"

text \<open>The derived deserialisers. A struct is read from an object, unknown fields ignored, or from an array
  of its fields; an option accepts null. The variants of the untagged enum are tried in order, and its
  struct variants are read from objects only.\<close>

definition option_string_of_value :: "json \<Rightarrow> string option option" where
  "option_string_of_value v =
     (case v of JNull \<Rightarrow> Some None | JString s \<Rightarrow> Some (Some s) | _ \<Rightarrow> None)"

definition required_permission_of_value :: "json \<Rightarrow> required_permission option" where
  "required_permission_of_value v =
     (case v of
        JObject kvs \<Rightarrow>
          Option.bind (get_str kvs ''permission'') (\<lambda>p.
          map_option (\<lambda>c. \<lparr>rp_permission = p, rp_resource_constraints = c\<rparr>)
            (case obj_get kvs ''resourceConstraints'' of
               None \<Rightarrow> Some None
             | Some c \<Rightarrow> option_string_of_value c))
      | JArray [JString p, c] \<Rightarrow>
          map_option (\<lambda>c. \<lparr>rp_permission = p, rp_resource_constraints = c\<rparr>) (option_string_of_value c)
      | _ \<Rightarrow> None)"

definition array_field :: "json \<Rightarrow> string \<Rightarrow> json list option" where
  "array_field v k = Option.bind (value_get v k) as_array"

lemma array_field_size: "array_field v k = Some xs \<Longrightarrow> x \<in> set xs \<Longrightarrow> size x < size v"
proof -
  assume "array_field v k = Some xs" and x: "x \<in> set xs"
  then obtain kvs where v: "v = JObject kvs" and "map_of kvs k = Some (JArray xs)"
    by (cases v) (auto simp: array_field_def value_get_def obj_get_def bind_eq_Some_conv json_iffs)
  then have "(k, JArray xs) \<in> set kvs" by (simp add: map_of_SomeD)
  then have "size (JArray xs) \<le> size_list (size_prod (\<lambda>_. 0) size) kvs"
    by (rule size_list_estimation') simp
  moreover have "size x < size (JArray xs)"
    using size_list_estimation' [OF x order_refl] by (simp add: less_Suc_eq_le)
  ultimately show ?thesis unfolding v by simp
qed

function requirement_of_value :: "json \<Rightarrow> rule_requirement option" where
  "requirement_of_value v =
     (case required_permission_of_value v of
        Some rp \<Rightarrow> Some (Single rp)
      | None \<Rightarrow>
          (case Option.bind (array_field v ''all_of'') (\<lambda>xs. those (map requirement_of_value xs)) of
             Some all_of \<Rightarrow> Some (AllOf all_of)
           | None \<Rightarrow>
               map_option AnyOf
                 (Option.bind (array_field v ''any_of'') (\<lambda>xs. those (map requirement_of_value xs)))))"
  by pat_completeness auto
termination
  by (relation "measure size") (auto dest: array_field_size)

declare requirement_of_value.simps [simp del]

definition required_list :: "json \<Rightarrow> required_permission list option" where
  "required_list v = Option.bind (as_array v) (\<lambda>xs. those (map required_permission_of_value xs))"

definition parse_permissions :: "(json \<Rightarrow> string) \<Rightarrow> json option \<Rightarrow> rule_error + rule_requirement option" where
  "parse_permissions serde_error permissions_value =
     (case permissions_value of
        None \<Rightarrow> Inr None
      | Some val \<Rightarrow>
          if as_object val = Some [] then Inr None
          else
            res_bind
              (case requirement_of_value val of
                 Some r \<Rightarrow> Inr r
               | None \<Rightarrow>
                   (case as_object val of
                      None \<Rightarrow> Inl (ParseError ''permissions field must be an object'')
                    | Some obj \<Rightarrow>
                        (case obj_get obj ''required'' of
                           None \<Rightarrow> Inl (ParseError (''permissions field is malformed '' @
                             [CHR 0xE2, CHR 0x80, CHR 0x94] @ '' expected all_of, any_of, or required''))
                         | Some required_val \<Rightarrow>
                             (case required_list required_val of
                                Some perms \<Rightarrow> Inr (AllOf (map Single perms))
                              | None \<Rightarrow> Inl (ParseError (''failed to parse permissions.required: ''
                                    @ serde_error required_val))))))
              (\<lambda>req. res_bind
                 (map_err (\<lambda>e. DepthExceeded (''rule requirement: '' @ e)) (validate_depth req))
                 (\<lambda>_. Inr (Some req))))"

text \<open>\<open>py\<close> is the YAML parser, with the text of its error.\<close>

definition parse_rule ::
  "(string \<Rightarrow> string + yaml_rule) \<Rightarrow> (json \<Rightarrow> string) \<Rightarrow> string \<Rightarrow> rule_error + escalation_rule" where
  "parse_rule py serde_error yaml =
     res_bind (map_err ParseError (py yaml)) (\<lambda>yr.
     let severity_tier = category_to_tier (yr_category yr);
         boost = tier_to_boost severity_tier in
     res_bind (parse_permissions serde_error (yr_permissions yr)) (\<lambda>permissions.
     if permissions = None \<and> yr_category yr \<noteq> ''cascade''
     then Inl (ParseError (''rule '' @ yr_id yr @ '': non-cascade rules must have permissions''))
     else Inr
       \<lparr>rule_id = yr_id yr, rule_name = yr_name yr, rule_category = yr_category yr,
        rule_services = yr_services yr, rule_permissions = permissions,
        rule_prerequisites = yr_prerequisites yr, rule_tier = severity_tier, rule_boost = boost,
        rule_trigger = yr_trigger yr, rule_description = yr_description yr\<rparr>))"

text \<open>A file bundled at compile time: its path, its extension, and its text if it is UTF-8.\<close>

record bundled_file =
  bf_path :: string
  bf_extension :: "string option"
  bf_contents :: "string option"

definition yaml_extension :: "string option \<Rightarrow> bool" where
  "yaml_extension ext \<longleftrightarrow> ext = Some ''yaml'' \<or> ext = Some ''yml''"

definition load_rules_from_embedded ::
  "(string \<Rightarrow> string + yaml_rule) \<Rightarrow> (json \<Rightarrow> string) \<Rightarrow> bundled_file list \<Rightarrow> rule_error + escalation_rule list" where
  "load_rules_from_embedded py serde_error files =
     traverse
       (\<lambda>file. res_bind
          (ok_or (LoadError (''rule file '' @ bf_path file @ '' not valid utf-8'')) (bf_contents file))
          (parse_rule py serde_error))
       (filter (\<lambda>file. yaml_extension (bf_extension file)) files)"

text \<open>A directory entry: whether it is a file, its extension, and what reading it returns. Reading the
  directory or one of its entries may fail.\<close>

record dir_entry =
  de_is_file :: bool
  de_extension :: "string option"
  de_contents :: "string + string"

definition load_entry ::
  "(string \<Rightarrow> string + yaml_rule) \<Rightarrow> (json \<Rightarrow> string) \<Rightarrow> string + dir_entry \<Rightarrow> rule_error + escalation_rule option" where
  "load_entry py serde_error entry =
     res_bind (map_err LoadError entry) (\<lambda>e.
     if de_is_file e \<and> yaml_extension (de_extension e)
     then res_bind (map_err LoadError (de_contents e)) (\<lambda>content.
       case parse_rule py serde_error content of
         Inr rule \<Rightarrow> Inr (Some rule)
       | Inl _ \<Rightarrow> Inr None)
     else Inr None)"

definition load_rules_from_dir ::
  "(string \<Rightarrow> string + yaml_rule) \<Rightarrow> (json \<Rightarrow> string) \<Rightarrow> bool \<Rightarrow> string + (string + dir_entry) list \<Rightarrow> string
     \<Rightarrow> rule_error + escalation_rule list" where
  "load_rules_from_dir py serde_error is_dir read_dir dir_path =
     (if \<not> is_dir then Inl (LoadError (''Path is not a directory: '' @ dir_path))
      else
        res_bind (map_err LoadError read_dir) (\<lambda>entries.
        res_bind (traverse (load_entry py serde_error) entries) (\<lambda>loaded.
        let rules = List.map_filter (\<lambda>r. r) loaded in
        if rules = [] then Inl (LoadError ''No valid rules found in directory'')
        else Inr (sort_key rule_id rules))))"

subsection \<open>What a requirement means\<close>

text \<open>A permission grants an action when the action is covered by its pattern; a requirement tree is a
  formula over granted actions.\<close>

definition grants_action :: "effective_permission list \<Rightarrow> string \<Rightarrow> bool" where
  "grants_action perms act \<longleftrightarrow> (\<exists>e\<in>set perms. glob (to_lowercase (perm_action e)) (to_lowercase act))"

fun satisfied :: "effective_permission list \<Rightarrow> rule_requirement \<Rightarrow> bool" where
  "satisfied perms (Single rp) \<longleftrightarrow> grants_action perms (rp_permission rp)"
| "satisfied perms (AllOf reqs) \<longleftrightarrow> list_all (satisfied perms) reqs"
| "satisfied perms (AnyOf reqs) \<longleftrightarrow> list_ex (satisfied perms) reqs"

lemma evaluate_satisfied:
  "fst (evaluate_requirement req perms) \<longleftrightarrow> satisfied perms req"
  "fst (evaluate_all reqs perms acc) \<longleftrightarrow> list_all (satisfied perms) reqs"
  "fst (evaluate_any reqs perms) \<longleftrightarrow> list_ex (satisfied perms) reqs"
proof (induction req perms and reqs perms acc and reqs perms
    rule: evaluate_requirement_evaluate_all_evaluate_any.induct)
  case (1 rp perms)
  have "to_lowercase ''*'' = ''*''" by (simp add: to_lowercase_def lower_char_def)
  then have "(perm_action e = ''*'' \<or> action_matches (perm_action e) act) \<longleftrightarrow>
      glob (to_lowercase (perm_action e)) (to_lowercase act)" for e :: effective_permission and act
    by (cases "perm_action e = ''*''") (simp_all only: action_matches_glob glob_star_only simp_thms)
  then show ?case by (simp add: Let_def filter_empty_conv grants_action_def)
qed (auto split: prod.splits)

lemma satisfied_mono:
  assumes "set perms \<subseteq> set perms'"
  shows "satisfied perms req \<Longrightarrow> satisfied perms' req"
  using assms
proof (induction perms req rule: satisfied.induct)
  case (1 perms rp)
  then show ?case by (auto simp: grants_action_def)
qed (auto simp: list_all_iff list_ex_iff)

text \<open>A primary rule has no trigger and a satisfied requirement.\<close>

definition primary_fires :: "effective_permission list \<Rightarrow> escalation_rule \<Rightarrow> bool" where
  "primary_fires perms rule \<longleftrightarrow>
     rule_trigger rule = None \<and> (\<exists>req. rule_permissions rule = Some req \<and> satisfied perms req)"

definition qualifying :: "escalation_rule list \<Rightarrow> effective_permission list \<Rightarrow> 8 word \<Rightarrow> nat" where
  "qualifying rules perms tier =
     length (filter (\<lambda>rule. primary_fires perms rule \<and> rule_tier rule \<le> tier) rules)"

definition cascade_due :: "escalation_rule list \<Rightarrow> effective_permission list \<Rightarrow> escalation_rule \<Rightarrow> bool" where
  "cascade_due rules perms rule \<longleftrightarrow>
     (\<exists>t. rule_trigger rule = Some t \<and>
        match_count t \<le> (word_of_nat (qualifying rules perms (min_tier t)) :: 32 word))"

lemma match_rule_eq:
  "match_rule rule perms =
     (if primary_fires perms rule
      then Some (matched_rule_of rule (snd (evaluate_requirement (the (rule_permissions rule)) perms)))
      else None)"
proof (cases "rule_permissions rule")
  case (Some req)
  then show ?thesis
    using evaluate_satisfied(1) [of req perms]
    by (cases "evaluate_requirement req perms") (auto simp: match_rule_def primary_fires_def)
qed (auto simp: match_rule_def primary_fires_def)

lemma map_filter_if:
  "List.map_filter (\<lambda>x. if P x then Some (f x) else None) xs = map f (filter P xs)"
  by (induction xs) (simp_all add: List.map_filter_simps)

lemma matched_rule_of_simps [simp]:
  "mr_rule_id (matched_rule_of rule ps) = rule_id rule"
  "mr_tier (matched_rule_of rule ps) = rule_tier rule"
  "mr_boost (matched_rule_of rule ps) = rule_boost rule"
  by (simp_all add: matched_rule_of_def)

lemma match_all_rules_eq:
  "match_all_rules rules perms =
     map (\<lambda>rule. matched_rule_of rule (snd (evaluate_requirement (the (rule_permissions rule)) perms)))
       (filter (primary_fires perms) rules) @
     map (\<lambda>rule. matched_rule_of rule []) (filter (cascade_due rules perms) rules)"
proof -
  let ?m = "\<lambda>rule. matched_rule_of rule (snd (evaluate_requirement (the (rule_permissions rule)) perms))"
  let ?primary = "map ?m (filter (primary_fires perms) rules)"
  have "length (filter (\<lambda>m. mr_tier m \<le> t) ?primary) = qualifying rules perms t" for t
    by (simp add: qualifying_def filter_map comp_def conj_commute)
  then have "(case rule_trigger rule of None \<Rightarrow> None
      | Some t \<Rightarrow> if cascade_fires ?primary t then Some (matched_rule_of rule []) else None) =
    (if cascade_due rules perms rule then Some (matched_rule_of rule []) else None)" for rule
    by (auto simp: cascade_due_def cascade_fires_def split: option.split)
  then show ?thesis
    by (simp add: match_all_rules_def match_rule_eq map_filter_if)
qed

lemma qualifying_le: "qualifying rules perms t \<le> length rules"
  by (simp add: qualifying_def)

lemma length_filter_mono: "(\<And>x. P x \<Longrightarrow> Q x) \<Longrightarrow> length (filter P xs) \<le> length (filter Q xs)"
  by (induction xs) auto

lemma primary_fires_mono: "set perms \<subseteq> set perms' \<Longrightarrow> primary_fires perms rule \<Longrightarrow> primary_fires perms' rule"
  unfolding primary_fires_def using satisfied_mono by blast

lemma cascade_due_mono:
  assumes "set perms \<subseteq> set perms'" and "length rules < 2 ^ 32" and "cascade_due rules perms rule"
  shows "cascade_due rules perms' rule"
proof -
  obtain t where t: "rule_trigger rule = Some t"
    and m: "match_count t \<le> (word_of_nat (qualifying rules perms (min_tier t)) :: 32 word)"
    using assms(3) by (auto simp: cascade_due_def)
  have "qualifying rules perms (min_tier t) \<le> qualifying rules perms' (min_tier t)"
    unfolding qualifying_def using primary_fires_mono [OF assms(1)] by (intro length_filter_mono) auto
  moreover have "unat (word_of_nat (qualifying rules q (min_tier t)) :: 32 word) = qualifying rules q (min_tier t)" for q
    using qualifying_le [of rules q "min_tier t"] assms(2) by (simp add: unat_of_nat)
  ultimately have "(word_of_nat (qualifying rules perms (min_tier t)) :: 32 word)
      \<le> word_of_nat (qualifying rules perms' (min_tier t))"
    by (simp add: word_le_nat_alt)
  then show ?thesis using t m unfolding cascade_due_def by (blast intro: order_trans)
qed

lemma subseq_filter_mono: "(\<And>x. P x \<Longrightarrow> Q x) \<Longrightarrow> subseq (filter P xs) (filter Q xs)"
  by (induction xs) auto

subsection \<open>Depth\<close>

fun req_depth :: "rule_requirement \<Rightarrow> nat" where
  "req_depth (Single rp) = 0"
| "req_depth (AllOf reqs) = fold max (map (\<lambda>r. Suc (req_depth r)) reqs) 0"
| "req_depth (AnyOf reqs) = fold max (map (\<lambda>r. Suc (req_depth r)) reqs) 0"

lemma fold_max_le: "fold max ns (m :: nat) \<le> k \<longleftrightarrow> m \<le> k \<and> list_all (\<lambda>n. n \<le> k) ns"
  by (induction ns arbitrary: m) auto

lemma depth_bound:
  "d + fold max (map f reqs) (0 :: nat) \<le> k \<longleftrightarrow> d \<le> k \<and> list_all (\<lambda>r. d + f r \<le> k) reqs"
proof -
  have "d + n \<le> k \<longleftrightarrow> d \<le> k \<and> n \<le> k - d" for n by linarith
  then show ?thesis by (simp add: fold_max_le list_all_iff) blast
qed

lemma check_depth_iff:
  "check_depth req d = Inr () \<longleftrightarrow> d + req_depth req \<le> 2"
  "check_depths reqs d = Inr () \<longleftrightarrow> list_all (\<lambda>req. d + req_depth req \<le> 2) reqs"
proof (induction req d and reqs d rule: check_depth_check_depths.induct)
  case (1 req d)
  then show ?case by (cases req) (auto simp: check_depth.simps depth_bound)
next
  case (3 req reqs d)
  then show ?case by (auto simp: res_iffs)
qed simp

lemma check_depth_message:
  "check_depth req d = Inl e \<Longrightarrow> e = too_deep"
  "check_depths reqs d = Inl e \<Longrightarrow> e = too_deep"
proof (induction req d and reqs d rule: check_depth_check_depths.induct)
  case (1 req d)
  then show ?case by (cases req) (auto simp: check_depth.simps split: if_splits)
qed (auto simp: res_iffs)

lemma validate_depth_eq: "validate_depth req = (if req_depth req \<le> 2 then Inr () else Inl too_deep)"
  using check_depth_iff(1) [of req 0] check_depth_message(1) [of req 0]
  by (cases "check_depth req 0") (auto simp: validate_depth_def)

subsection \<open>Requirements as values\<close>

text \<open>The derived serialiser.\<close>

definition option_string_to_value :: "string option \<Rightarrow> json" where
  "option_string_to_value c = (case c of None \<Rightarrow> JNull | Some s \<Rightarrow> JString s)"

fun requirement_to_value :: "rule_requirement \<Rightarrow> json" where
  "requirement_to_value (Single rp) =
     JObject [(''permission'', JString (rp_permission rp)),
       (''resourceConstraints'', option_string_to_value (rp_resource_constraints rp))]"
| "requirement_to_value (AllOf reqs) = JObject [(''all_of'', JArray (map requirement_to_value reqs))]"
| "requirement_to_value (AnyOf reqs) = JObject [(''any_of'', JArray (map requirement_to_value reqs))]"

lemma those_map_Some: "(\<And>x. x \<in> set xs \<Longrightarrow> f (g x) = Some x) \<Longrightarrow> those (map f (map g xs)) = Some xs"
  by (induction xs) simp_all

lemma requirement_of_to_value: "requirement_of_value (requirement_to_value req) = Some req"
proof (induction req)
  case (Single rp)
  have "option_string_of_value (option_string_to_value c) = Some c" for c
    by (cases c) (simp_all add: option_string_of_value_def option_string_to_value_def)
  then show ?case
    by (simp add: requirement_of_value.simps required_permission_of_value_def get_str_def)
next
  case (AllOf reqs)
  then have "those (map requirement_of_value (map requirement_to_value reqs)) = Some reqs"
    by (rule those_map_Some)
  then show ?case
    by (simp add: requirement_of_value.simps [of "JObject _"] required_permission_of_value_def get_str_def
        array_field_def value_get_def)
next
  case (AnyOf reqs)
  then have "those (map requirement_of_value (map requirement_to_value reqs)) = Some reqs"
    by (rule those_map_Some)
  then show ?case
    by (simp add: requirement_of_value.simps [of "JObject _"] required_permission_of_value_def get_str_def
        array_field_def value_get_def)
qed

lemma requirement_value_nonempty: "as_object (requirement_to_value req) \<noteq> Some []"
  by (cases req) simp_all

lemma match_all_rules_ids:
  "map mr_rule_id (match_all_rules rules perms) =
     map rule_id (filter (primary_fires perms) rules @ filter (cascade_due rules perms) rules)"
  by (simp add: match_all_rules_eq comp_def)

lemma match_all_rules_boosts:
  "map mr_boost (match_all_rules rules perms) =
     map rule_boost (filter (primary_fires perms) rules @ filter (cascade_due rules perms) rules)"
  by (simp add: match_all_rules_eq comp_def)

lemma sum_list_subseq:
  fixes xs :: "'a :: ordered_comm_monoid_add list"
  shows "subseq xs ys \<Longrightarrow> (\<And>y. y \<in> set ys \<Longrightarrow> 0 \<le> y) \<Longrightarrow> sum_list xs \<le> sum_list ys"
  by (induction rule: list_emb.induct) (auto intro: add_increasing add_left_mono sum_list_nonneg)

lemma fired_mono:
  assumes "set perms \<subseteq> set perms'" and "length rules < 2 ^ 32"
  shows "subseq (filter (primary_fires perms) rules @ filter (cascade_due rules perms) rules)
    (filter (primary_fires perms') rules @ filter (cascade_due rules perms') rules)"
  using primary_fires_mono [OF assms(1)] cascade_due_mono [OF assms]
  by (intro list_emb_append_mono subseq_filter_mono) auto

lemma rule_boost_mono:
  assumes "set perms \<subseteq> set perms'" and "length rules < 2 ^ 32" and "list_all (\<lambda>rule. 0 \<le> rule_boost rule) rules"
  shows "compute_rule_boost (match_all_rules rules perms) \<le> compute_rule_boost (match_all_rules rules perms')"
proof -
  let ?fired = "\<lambda>perms. filter (primary_fires perms) rules @ filter (cascade_due rules perms) rules"
  have "0 \<le> b" if "b \<in> set (map rule_boost (?fired perms'))" for b
    using that assms(3) by (auto simp: list_all_iff)
  then have "sum_list (map rule_boost (?fired perms)) \<le> sum_list (map rule_boost (?fired perms'))"
    by (rule sum_list_subseq [OF subseq_map [OF fired_mono [OF assms(1,2)]]])
  then show ?thesis unfolding compute_rule_boost_def match_all_rules_boosts by (rule min.mono) simp
qed

lemma parse_permissions_depth:
  "parse_permissions serde_error pv = Inr (Some req) \<Longrightarrow> req_depth req \<le> 2"
  by (auto simp: parse_permissions_def res_iffs validate_depth_eq split: option.splits if_splits)

lemma tier_to_boost_bounds: "2 / 100 \<le> tier_to_boost t \<and> tier_to_boost t \<le> 15 / 100"
  by (simp add: tier_to_boost_def)

text \<open>The bundled rules must all parse; of the rules of a directory those that do not parse are dropped.\<close>

definition parsed_rules :: "(string \<Rightarrow> string + yaml_rule) \<Rightarrow> (json \<Rightarrow> string) \<Rightarrow> string list \<Rightarrow> escalation_rule list" where
  "parsed_rules py serde_error texts =
     concat (map (\<lambda>t. case parse_rule py serde_error t of Inr r \<Rightarrow> [r] | Inl _ \<Rightarrow> []) texts)"

lemma load_entries_of_texts:
  "\<exists>loaded. traverse (load_entry py serde_error)
      (map (\<lambda>t. Inr \<lparr>de_is_file = True, de_extension = Some ''yaml'', de_contents = Inr t\<rparr>) texts) = Inr loaded \<and>
    List.map_filter (\<lambda>r. r) loaded = parsed_rules py serde_error texts"
  by (induction texts)
     (auto simp: parsed_rules_def load_entry_def yaml_extension_def List.map_filter_simps split: sum.split)

lemma loaders_differ_on_broken_rules:
  "load_rules_from_embedded py serde_error
      (map (\<lambda>t. \<lparr>bf_path = ''r.yaml'', bf_extension = Some ''yaml'', bf_contents = Some t\<rparr>) texts) =
     traverse (parse_rule py serde_error) texts \<and>
   load_rules_from_dir py serde_error True
      (Inr (map (\<lambda>t. Inr \<lparr>de_is_file = True, de_extension = Some ''yaml'', de_contents = Inr t\<rparr>) texts)) dir =
     (if parsed_rules py serde_error texts = [] then Inl (LoadError ''No valid rules found in directory'')
      else Inr (sort_key rule_id (parsed_rules py serde_error texts)))"
proof
  show "load_rules_from_embedded py serde_error
      (map (\<lambda>t. \<lparr>bf_path = ''r.yaml'', bf_extension = Some ''yaml'', bf_contents = Some t\<rparr>) texts) =
     traverse (parse_rule py serde_error) texts"
    by (induction texts) (simp_all add: load_rules_from_embedded_def yaml_extension_def)
  show "load_rules_from_dir py serde_error True
      (Inr (map (\<lambda>t. Inr \<lparr>de_is_file = True, de_extension = Some ''yaml'', de_contents = Inr t\<rparr>) texts)) dir =
     (if parsed_rules py serde_error texts = [] then Inl (LoadError ''No valid rules found in directory'')
      else Inr (sort_key rule_id (parsed_rules py serde_error texts)))"
    using load_entries_of_texts [of py serde_error texts]
    by (auto simp: load_rules_from_dir_def Let_def)
qed

subsection \<open>Properties\<close>

text \<open>The same rule with other prerequisites, another scope of its trigger and other resource constraints.\<close>

fun with_constraints :: "(required_permission \<Rightarrow> string option) \<Rightarrow> rule_requirement \<Rightarrow> rule_requirement" where
  "with_constraints c (Single rp) = Single (rp\<lparr>rp_resource_constraints := c rp\<rparr>)"
| "with_constraints c (AllOf reqs) = AllOf (map (with_constraints c) reqs)"
| "with_constraints c (AnyOf reqs) = AnyOf (map (with_constraints c) reqs)"

definition with_unread ::
  "prerequisites \<Rightarrow> cascade_scope \<Rightarrow> (required_permission \<Rightarrow> string option) \<Rightarrow> escalation_rule \<Rightarrow> escalation_rule" where
  "with_unread pre scope c rule =
     rule\<lparr>rule_prerequisites := pre,
          rule_trigger := map_option (\<lambda>t. t\<lparr>trigger_scope := scope\<rparr>) (rule_trigger rule),
          rule_permissions := map_option (with_constraints c) (rule_permissions rule)\<rparr>"

definition with_resource :: "(effective_permission \<Rightarrow> string) \<Rightarrow> effective_permission \<Rightarrow> effective_permission" where
  "with_resource h e = e\<lparr>perm_resource := h e\<rparr>"

lemma evaluate_unread:
  "evaluate_requirement (with_constraints c req) (map (with_resource h) perms) = evaluate_requirement req perms"
  "evaluate_all (map (with_constraints c) reqs) (map (with_resource h) perms) ps = evaluate_all reqs perms ps"
  "evaluate_any (map (with_constraints c) reqs) (map (with_resource h) perms) = evaluate_any reqs perms"
  by (induction req perms and reqs perms ps and reqs perms
      rule: evaluate_requirement_evaluate_all_evaluate_any.induct)
     (auto simp: Let_def with_resource_def filter_map comp_def split: prod.splits)

lemma map_filter_map: "List.map_filter f (map g xs) = List.map_filter (\<lambda>x. f (g x)) xs"
  by (induction xs) (auto simp: List.map_filter_simps split: option.split)

lemma match_all_rules_unread:
  "match_all_rules (map (\<lambda>rule. with_unread (pre rule) (scope rule) (c rule) rule) rules)
     (map (with_resource h) perms) = match_all_rules rules perms"
proof -
  have m: "matched_rule_of (with_unread p s k rule) = matched_rule_of rule" for p s k rule
    by (simp add: fun_eq_iff matched_rule_of_def with_unread_def)
  have "match_rule (with_unread p s k rule) (map (with_resource h) perms) = match_rule rule perms" for p s k rule
    by (cases "rule_permissions rule")
       (simp_all add: match_rule_def with_unread_def evaluate_unread matched_rule_of_def split: prod.split)
  moreover have "(case rule_trigger (with_unread p s k rule) of None \<Rightarrow> None
      | Some t \<Rightarrow> if cascade_fires primary t then Some (matched_rule_of (with_unread p s k rule) []) else None) =
    (case rule_trigger rule of None \<Rightarrow> None
      | Some t \<Rightarrow> if cascade_fires primary t then Some (matched_rule_of rule []) else None)" for p s k rule primary
    unfolding m by (cases "rule_trigger rule") (simp_all add: with_unread_def cascade_fires_def)
  ultimately show ?thesis by (simp add: match_all_rules_def map_filter_map)
qed

text \<open>C22: which rules match. First come the rules without a trigger whose requirement, read as a formula over
  the actions some permission's pattern covers, holds; then the rules with a trigger for which enough of the
  first are of its tier or worse, counted in 32 bits; each group in the order of the rules, with the id, the
  tier and the boost of its rule. A principal matches nothing else. Nothing else is read: with other
  prerequisites, other scopes of the triggers and other resource constraints in the rules, and with other
  resources in the permissions, the matches are the same. So a cascade of scope \<open>Account\<close>, which is
  documented to fire on matches anywhere in the account, fires on those of the one principal, and
  prerequisites, which the rule guide says are verified, are not.\<close>

theorem match_all_rules_exact:
  "let matched = filter (primary_fires perms) rules @ filter (cascade_due rules perms) rules in
     map mr_rule_id (match_all_rules rules perms) = map rule_id matched \<and>
     map mr_tier (match_all_rules rules perms) = map rule_tier matched \<and>
     compute_rule_boost (match_all_rules rules perms) = min (sum_list (map rule_boost matched)) (3 / 10) \<and>
     match_all_rules (map (\<lambda>rule. with_unread (pre rule) (scope rule) (c rule) rule) rules)
       (map (with_resource h) perms) = match_all_rules rules perms"
  by (simp add: Let_def match_all_rules_unread) (simp add: match_all_rules_eq compute_rule_boost_def comp_def)

text \<open>More permissions never match fewer rules. For fewer than 2^32 rules, the matches of a principal
  are, in order, among those of any principal that holds its permissions and possibly others; with boosts
  that are not negative the capped boost does not fall either.\<close>

theorem match_all_rules_mono:
  assumes "set perms \<subseteq> set perms'" and "length rules < 2 ^ 32" and "list_all (\<lambda>rule. 0 \<le> rule_boost rule) rules"
  shows "subseq (map mr_rule_id (match_all_rules rules perms)) (map mr_rule_id (match_all_rules rules perms')) \<and>
    compute_rule_boost (match_all_rules rules perms) \<le> compute_rule_boost (match_all_rules rules perms')"
  using subseq_map [OF fired_mono [OF assms(1,2)], of rule_id] rule_boost_mono [OF assms]
  unfolding match_all_rules_ids by blast

definition sample_rule :: "string \<Rightarrow> rule_requirement option \<Rightarrow> cascade_trigger option \<Rightarrow> escalation_rule" where
  "sample_rule i req trigger =
     \<lparr>rule_id = i, rule_name = i, rule_category = ''self-escalation'', rule_services = [''iam''],
      rule_permissions = req, rule_prerequisites = prerequisites_default, rule_tier = 1, rule_boost = 15 / 100,
      rule_trigger = trigger, rule_description = None\<rparr>"

theorem match_all_rules_mono_witness:
  "let rules = [sample_rule ''a'' (Some (Single \<lparr>rp_permission = ''sts:x'', rp_resource_constraints = None\<rparr>)) None,
        sample_rule ''b'' None (Some \<lparr>match_count = 1, min_tier = 2, trigger_scope = ScopePrincipal\<rparr>)];
      p = \<lparr>perm_action = ''sts:x'', perm_resource = ''*''\<rparr>; q = \<lparr>perm_action = ''s3:*'', perm_resource = ''*''\<rparr> in
    map mr_rule_id (match_all_rules rules [p]) = [''a'', ''b''] \<and>
    subseq [''a'', ''b''] (map mr_rule_id (match_all_rules rules [q, p]))"
proof -
  let ?rules = "[sample_rule ''a'' (Some (Single \<lparr>rp_permission = ''sts:x'', rp_resource_constraints = None\<rparr>)) None,
        sample_rule ''b'' None (Some \<lparr>match_count = 1, min_tier = 2, trigger_scope = ScopePrincipal\<rparr>)]"
  let ?p = "\<lparr>perm_action = ''sts:x'', perm_resource = ''*''\<rparr>"
  let ?q = "\<lparr>perm_action = ''s3:*'', perm_resource = ''*''\<rparr>"
  have ids: "map mr_rule_id (match_all_rules ?rules [?p]) = [''a'', ''b'']"
    by (simp add: sample_rule_def match_all_rules_def match_rule_def cascade_fires_def matched_rule_of_def
        action_matches_glob to_lowercase_def lower_char_def glob_Cons Let_def List.map_filter_simps)
  have "subseq (map mr_rule_id (match_all_rules ?rules [?p])) (map mr_rule_id (match_all_rules ?rules [?q, ?p]))"
    by (rule conjunct1 [OF match_all_rules_mono]) (simp_all add: sample_rule_def)
  then show ?thesis using ids unfolding Let_def by simp
qed

text \<open>A requirement tree is read back from what it is written as, and the loader accepts it exactly when
  it is at most two levels deep; a deeper tree is the depth error, never another one.\<close>

theorem requirement_roundtrip:
  "requirement_of_value (requirement_to_value req) = Some req \<and>
   parse_permissions serde_error (Some (requirement_to_value req)) =
     (if req_depth req \<le> 2 then Inr (Some req)
      else Inl (DepthExceeded (''rule requirement: '' @ too_deep)))"
  using requirement_value_nonempty [of req]
  by (simp add: requirement_of_to_value parse_permissions_def validate_depth_eq)

text \<open>C24: what a rule that parses looks like. Its tier is the one of its category and its boost the one of
  its tier, between 0.02 and 0.15, whatever the file says; its requirement is at most two levels deep; and it
  has one unless its category is \<open>cascade\<close>, in which case it can only fire through a trigger.\<close>

theorem parsed_rule_invariant:
  assumes "parse_rule py serde_error yaml = Inr rule"
  shows "rule_tier rule = category_to_tier (rule_category rule) \<and>
    rule_boost rule = tier_to_boost (rule_tier rule) \<and> 2 / 100 \<le> rule_boost rule \<and> rule_boost rule \<le> 15 / 100 \<and>
    pred_option (\<lambda>req. req_depth req \<le> 2) (rule_permissions rule) \<and>
    (rule_permissions rule = None \<longrightarrow> rule_category rule = ''cascade'' \<and> match_rule rule perms = None)"
proof -
  have "\<exists>pv. parse_permissions serde_error pv = Inr (rule_permissions rule)"
    and "rule_permissions rule = None \<Longrightarrow> rule_category rule = ''cascade''"
    and "rule_tier rule = category_to_tier (rule_category rule)" "rule_boost rule = tier_to_boost (rule_tier rule)"
    using assms by (auto simp: parse_rule_def res_iffs Let_def split: if_splits)
  then show ?thesis
    using tier_to_boost_bounds [of "rule_tier rule"] parse_permissions_depth
    by (cases "rule_permissions rule") (auto simp: match_rule_def)
qed

theorem parsed_rule_invariant_witness:
  "let py = (\<lambda>_. Inr \<lparr>yr_id = ''x'', yr_name = ''x'', yr_category = ''passrole'', yr_services = [],
        yr_permissions = Some (JObject [(''permission'', JString ''iam:PassRole'')]),
        yr_prerequisites = prerequisites_default, yr_trigger = None, yr_description = None\<rparr>) in
    \<exists>rule. parse_rule py (\<lambda>_. []) ''id: x'' = Inr rule \<and> rule_boost rule = 10 / 100"
proof -
  let ?py = "\<lambda>_. Inr \<lparr>yr_id = ''x'', yr_name = ''x'', yr_category = ''passrole'', yr_services = [],
        yr_permissions = Some (JObject [(''permission'', JString ''iam:PassRole'')]),
        yr_prerequisites = prerequisites_default, yr_trigger = None, yr_description = None\<rparr>"
  obtain rule where r: "parse_rule ?py (\<lambda>_. []) ''id: x'' = Inr rule" and "rule_category rule = ''passrole''"
    by (simp add: parse_rule_def parse_permissions_def requirement_of_value.simps required_permission_of_value_def
        get_str_def validate_depth_eq Let_def)
  then have "rule_boost rule = tier_to_boost (category_to_tier ''passrole'')"
    using parsed_rule_invariant [OF r, of "[]"] by simp
  then show ?thesis using r by (auto simp: category_to_tier_def tier_to_boost_def)
qed

end
