(* ===== verification/Risk_Scoring.thy ===== *)
theory Risk_Scoring
  imports Risk_Rules Dangerous_Actions "HOL-Library.AList" "HOL-Library.Multiset"
begin

section \<open>Risk scores\<close>

text \<open>
  \<open>activable-risk/src/config.rs\<close>, \<open>finding.rs\<close>, \<open>scorer.rs\<close>, \<open>cascade.rs\<close>, \<open>stale_checker.rs\<close> and the
  signals computed from permissions alone (\<open>signals/mod.rs\<close>, \<open>dangerous_action_count.rs\<close>,
  \<open>permission_surface.rs\<close>). Numbers that are always finite are exact reals; where the code lets an infinity or
  a NaN through, a value is of type \<open>f64\<close>. A hash map is an association list with distinct keys.
\<close>

subsection \<open>Configuration\<close>

datatype f64 = Finite real | PosInf | NegInf | NaN

record severity_thresholds =
  th_critical :: real
  th_high :: real
  th_medium :: real
  th_low :: real

record risk_config =
  signals :: "(string \<times> real) list"
  thresholds :: severity_thresholds

definition default_thresholds :: severity_thresholds where
  "default_thresholds = \<lparr>th_critical = 80 / 100, th_high = 60 / 100, th_medium = 40 / 100, th_low = 20 / 100\<rparr>"

definition risk_config_default :: risk_config where
  "risk_config_default =
     \<lparr>signals = [(''blast_radius'', 18 / 100), (''path_to_admin'', 22 / 100), (''dangerous_action_count'', 18 / 100),
        (''cross_account_hops'', 7 / 100), (''permission_surface'', 5 / 100)],
      thresholds = default_thresholds\<rparr>"

text \<open>The deserialiser moves the value of a legacy key to its new name.\<close>

definition migrate_signals :: "(string \<times> real) list \<Rightarrow> (string \<times> real) list" where
  "migrate_signals raw =
     (case map_of raw ''dangerous_actions'' of
        Some v \<Rightarrow> AList.update ''dangerous_action_count'' v (AList.delete ''dangerous_actions'' raw)
      | None \<Rightarrow> raw)"

definition load_risk_config :: "(string \<Rightarrow> string + risk_config) \<Rightarrow> string \<Rightarrow> string + risk_config" where
  "load_risk_config py yaml =
     res_bind (py yaml) (\<lambda>raw. Inr (raw\<lparr>signals := migrate_signals (signals raw)\<rparr>))"

definition signal_weight :: "risk_config \<Rightarrow> string \<Rightarrow> real" where
  "signal_weight config name = (case map_of (signals config) name of Some w \<Rightarrow> w | None \<Rightarrow> 0)"

definition signals_weight_sum :: "risk_config \<Rightarrow> real" where
  "signals_weight_sum config = sum_list (map snd (signals config))"

text \<open>\<open>fmt\<close> prints a number with four digits.\<close>

definition validate_signal_weights :: "(real \<Rightarrow> string) \<Rightarrow> risk_config \<Rightarrow> string + unit" where
  "validate_signal_weights fmt config =
     (let s = sum_list (map snd (signals config)) in
      if 1 / 1000 < \<bar>s - 70 / 100\<bar>
      then Inl (''Signal weights sum to '' @ fmt s @ '', expected ~0.70'')
      else Inr ())"

subsection \<open>Severity\<close>

datatype risk_severity = RiskCritical | RiskHigh | RiskMedium | RiskLow | RiskInfo

definition severity_from :: "real \<Rightarrow> severity_thresholds \<Rightarrow> risk_severity" where
  "severity_from score th =
     (if th_critical th \<le> score then RiskCritical
      else if th_high th \<le> score then RiskHigh
      else if th_medium th \<le> score then RiskMedium
      else if th_low th \<le> score then RiskLow
      else RiskInfo)"

definition severity_from_score :: "real \<Rightarrow> risk_severity" where
  "severity_from_score score = severity_from score default_thresholds"

definition display_risk_severity :: "risk_severity \<Rightarrow> string" where
  "display_risk_severity s =
     (case s of RiskCritical \<Rightarrow> ''Critical'' | RiskHigh \<Rightarrow> ''High'' | RiskMedium \<Rightarrow> ''Medium''
      | RiskLow \<Rightarrow> ''Low'' | RiskInfo \<Rightarrow> ''Info'')"

subsection \<open>Signals\<close>

record signal_result =
  sr_name :: string
  sr_raw_value :: f64
  sr_normalized :: real
  sr_weight :: real

definition log_normalize :: "real \<Rightarrow> real \<Rightarrow> real" where
  "log_normalize raw maximum =
     (if raw \<le> 0 then 0 else if maximum \<le> 0 then 0 else log 10 (raw + 1) / log 10 (maximum + 1))"

definition clamp :: "real \<Rightarrow> real \<Rightarrow> real \<Rightarrow> real" where
  "clamp x lo hi = (if x < lo then lo else if hi < x then hi else x)"

definition inverse_normalize :: "real \<Rightarrow> real \<Rightarrow> real" where
  "inverse_normalize raw maximum =
     (if raw \<le> 0 then 1 else if maximum \<le> 0 then 0 else clamp (1 - raw / maximum) 0 1)"

definition linear_cap :: "real \<Rightarrow> real \<Rightarrow> real" where
  "linear_cap raw cap = (if cap \<le> 0 then 0 else min (raw / cap) 1)"

definition tier_weight :: "8 word \<Rightarrow> real" where
  "tier_weight tier = (if tier = 1 then 3 else if tier = 2 then 2 else if tier = 3 then 1 else 1 / 2)"

definition dangerous_action_count :: "effective_permission list \<Rightarrow> signal_result" where
  "dangerous_action_count perms =
     (let raw = sum_list (map (\<lambda>m. tier_weight (match_tier m))
          (detect_dangerous_actions perms dangerous_actions_registry))
      in \<lparr>sr_name = ''dangerous_action_count'', sr_raw_value = Finite raw,
          sr_normalized = min (raw / 10) 1, sr_weight = 25 / 100\<rparr>)"

definition AWS_CATALOG_SIZE :: real where
  "AWS_CATALOG_SIZE = 15000"

definition permission_surface :: "effective_permission list \<Rightarrow> signal_result" where
  "permission_surface perms =
     (let raw = foldl (\<lambda>acc p. if perm_action p = ''*'' then acc + AWS_CATALOG_SIZE else acc + 1) 0 perms
      in \<lparr>sr_name = ''permission_surface'', sr_raw_value = Finite raw,
          sr_normalized = log_normalize raw AWS_CATALOG_SIZE, sr_weight = 20 / 100\<rparr>)"

subsection \<open>Scoring\<close>

record signal_contribution =
  sc_name :: string
  sc_raw_value :: f64
  sc_normalized :: real
  sc_weight :: real
  sc_contribution :: real

record risk_assessment =
  ra_principal_id :: string
  ra_score :: real
  ra_severity :: risk_severity
  ra_contributions :: "signal_contribution list"
  ra_matched_rules :: "matched_rule list"
  ra_rule_boost :: real
  ra_signal_total :: real
  ra_computed_at :: string

text \<open>The weight is looked up in the configuration; the one the signal carries is not used.\<close>

definition contribution_of :: "risk_config \<Rightarrow> signal_result \<Rightarrow> signal_contribution" where
  "contribution_of config s =
     (let weight = signal_weight config (sr_name s) in
      \<lparr>sc_name = sr_name s, sc_raw_value = sr_raw_value s, sc_normalized = sr_normalized s,
       sc_weight = weight, sc_contribution = sr_normalized s * weight\<rparr>)"

definition score_principal ::
  "string \<Rightarrow> signal_result list \<Rightarrow> matched_rule list \<Rightarrow> risk_config \<Rightarrow> string \<Rightarrow> risk_assessment" where
  "score_principal principal_id signal_results matched_rules config computed_at =
     (let contributions = map (contribution_of config) signal_results;
          signal_total = sum_list (map sc_contribution contributions);
          rule_boost = min (sum_list (map mr_boost matched_rules)) (30 / 100);
          score = clamp (signal_total + rule_boost) 0 1
      in \<lparr>ra_principal_id = principal_id, ra_score = score, ra_severity = severity_from score (thresholds config),
          ra_contributions = contributions, ra_matched_rules = matched_rules, ra_rule_boost = rule_boost,
          ra_signal_total = signal_total, ra_computed_at = computed_at\<rparr>)"

subsection \<open>Cascade scores and staleness\<close>

definition positive_finite :: "f64 \<Rightarrow> real list" where
  "positive_finite s = (case s of Finite r \<Rightarrow> if 0 < r then [r] else [] | _ \<Rightarrow> [])"

definition harmonic_mean :: "f64 list \<Rightarrow> real" where
  "harmonic_mean scores =
     (let non_zero = concat (map positive_finite scores) in
      if non_zero = [] then 0
      else real (length non_zero) / sum_list (map (\<lambda>s. 1 / s) non_zero))"

definition is_stale :: "string \<Rightarrow> string \<Rightarrow> bool" where
  "is_stale score_timestamp ingest_timestamp \<longleftrightarrow> score_timestamp < ingest_timestamp"

definition is_stale_option :: "string option \<Rightarrow> string \<Rightarrow> bool" where
  "is_stale_option score_timestamp ingest_timestamp =
     (case score_timestamp of None \<Rightarrow> True | Some t \<Rightarrow> is_stale t ingest_timestamp)"

subsection \<open>Lemmas\<close>

lemma clamp_bounds: "lo \<le> hi \<Longrightarrow> lo \<le> clamp x lo hi \<and> clamp x lo hi \<le> hi"
  by (simp add: clamp_def)

lemma clamp_mono: "x \<le> y \<Longrightarrow> lo \<le> hi \<Longrightarrow> clamp x lo hi \<le> clamp y lo hi"
  by (simp add: clamp_def)

lemma log_normalize_nonneg: "0 \<le> log_normalize raw maximum"
  by (simp add: log_normalize_def)

lemma log_normalize_le_1_iff: "0 < maximum \<Longrightarrow> log_normalize raw maximum \<le> 1 \<longleftrightarrow> raw \<le> maximum"
proof -
  assume "0 < maximum"
  then have "0 < log 10 (maximum + 1)" by simp
  with \<open>0 < maximum\<close> show ?thesis by (simp add: log_normalize_def)
qed

lemma log_normalize_mono: "raw \<le> raw' \<Longrightarrow> log_normalize raw maximum \<le> log_normalize raw' maximum"
  by (auto simp: log_normalize_def intro!: divide_right_mono)

lemma inverse_normalize_bounds: "0 \<le> inverse_normalize raw maximum \<and> inverse_normalize raw maximum \<le> 1"
  using clamp_bounds [of 0 1 "1 - raw / maximum"] by (simp add: inverse_normalize_def)

lemma linear_cap_le_1: "linear_cap raw cap \<le> 1"
  by (simp add: linear_cap_def)

lemma surface_count:
  "foldl (\<lambda>acc p. if perm_action p = ''*'' then acc + AWS_CATALOG_SIZE else acc + 1) k perms =
     k + sum_list (map (\<lambda>p. if perm_action p = ''*'' then AWS_CATALOG_SIZE else 1) perms)"
  by (induction perms arbitrary: k) simp_all

lemma tier_weight_pos: "0 < tier_weight t"
  by (simp add: tier_weight_def)

lemma sum_delete:
  "distinct (map fst ws) \<Longrightarrow> map_of ws k = Some w \<Longrightarrow>
     sum_list (map snd ws) = w + sum_list (map snd (AList.delete k ws))" for w :: real
  by (induction ws) (auto simp: AList.delete_id split: if_splits)

lemma sum_contributions_le:
  fixes norm :: "'a \<Rightarrow> real"
  assumes "distinct (map name xs)" and "distinct (map fst ws)" and "list_all (\<lambda>w. 0 \<le> snd w) ws"
    and "list_all (\<lambda>x. 0 \<le> norm x \<and> norm x \<le> 1) xs"
  shows "sum_list (map (\<lambda>x. norm x * (case map_of ws (name x) of Some w \<Rightarrow> w | None \<Rightarrow> 0)) xs) \<le> sum_list (map snd ws)"
  using assms
proof (induction xs arbitrary: ws)
  case Nil
  then show ?case by (auto simp: list_all_iff intro!: sum_list_nonneg)
next
  case (Cons x xs)
  show ?case
  proof (cases "map_of ws (name x)")
    case None
    then show ?thesis using Cons by simp
  next
    case (Some w)
    let ?ws = "AList.delete (name x) ws"
    have w: "0 \<le> w" using Some Cons.prems(3) by (auto simp: list_all_iff dest!: map_of_SomeD)
    have "sum_list (map snd ws) = w + sum_list (map snd ?ws)"
      by (rule sum_delete [OF Cons.prems(2) Some])
    moreover have "sum_list (map (\<lambda>x. norm x * (case map_of ws (name x) of Some w \<Rightarrow> w | None \<Rightarrow> 0)) xs) =
        sum_list (map (\<lambda>x. norm x * (case map_of ?ws (name x) of Some w \<Rightarrow> w | None \<Rightarrow> 0)) xs)"
    proof (intro arg_cong [where f = sum_list] map_cong refl)
      fix y assume "y \<in> set xs"
      moreover have "name x \<notin> name ` set xs" using Cons.prems(1) by simp
      ultimately have "name y \<noteq> name x" by (metis imageI)
      then show "norm y * (case map_of ws (name y) of Some w \<Rightarrow> w | None \<Rightarrow> 0) =
          norm y * (case map_of ?ws (name y) of Some w \<Rightarrow> w | None \<Rightarrow> 0)" by (simp add: AList.delete_conv')
    qed
    moreover have "sum_list (map (\<lambda>x. norm x * (case map_of ?ws (name x) of Some w \<Rightarrow> w | None \<Rightarrow> 0)) xs)
        \<le> sum_list (map snd ?ws)"
      by (rule Cons.IH) (use Cons.prems in \<open>auto simp: list_all_iff AList.delete_eq distinct_map_filter\<close>)
    moreover have "norm x * w \<le> w" using Cons.prems(4) w by (simp add: mult_left_le_one_le)
    ultimately show ?thesis using Some by simp
  qed
qed

lemma mean_step:
  fixes n s t x :: real
  assumes "0 < x" and "0 \<le> n" and "0 \<le> s" and "0 \<le> t" and "n\<^sup>2 \<le> s * t"
  shows "(1 + n)\<^sup>2 \<le> (x + s) * (1 / x + t)"
proof -
  have am_gm: "4 * (a * b) \<le> (a + b)\<^sup>2" for a b :: real
    using zero_le_power2 [of "a - b"] unfolding power2_diff power2_sum by linarith
  have "(2 * n)\<^sup>2 = 4 * n\<^sup>2" by simp
  also have "\<dots> \<le> 4 * (s * t)" using assms(5) by simp
  also have "s * t = s / x * (x * t)" using assms(1) by simp
  also have "4 * (s / x * (x * t)) \<le> (s / x + x * t)\<^sup>2" by (rule am_gm)
  finally have "2 * n \<le> s / x + x * t"
    by (rule power2_le_imp_le) (use assms in simp)
  moreover have "(x + s) * (1 / x + t) = 1 + s / x + x * t + s * t"
    using assms(1) by (simp add: distrib_left distrib_right add_divide_distrib)
  moreover have "(1 + n)\<^sup>2 = 1 + 2 * n + n\<^sup>2" by (simp add: power2_sum)
  ultimately show ?thesis using assms(5) by linarith
qed

lemma mean_product: "(\<And>x. x \<in> set xs \<Longrightarrow> 0 < (x :: real)) \<Longrightarrow>
    (real (length xs))\<^sup>2 \<le> sum_list xs * sum_list (map (\<lambda>x. 1 / x) xs)"
proof (induction xs)
  case (Cons x xs)
  have "0 \<le> sum_list xs" "0 \<le> sum_list (map (\<lambda>x. 1 / x) xs)"
    using Cons.prems by (auto intro!: sum_list_nonneg simp: less_imp_le)
  then have "(1 + real (length xs))\<^sup>2 \<le> (x + sum_list xs) * (1 / x + sum_list (map (\<lambda>x. 1 / x) xs))"
    using Cons by (intro mean_step) simp_all
  then show ?case by simp
qed simp

lemma sum_reciprocals_le:
  "(\<And>x. x \<in> set xs \<Longrightarrow> m \<le> x) \<Longrightarrow> 0 < (m :: real) \<Longrightarrow> sum_list (map (\<lambda>x. 1 / x) xs) * m \<le> real (length xs)"
proof (induction xs)
  case (Cons x xs)
  then have "m \<le> x" "0 < x" by (simp, meson less_le_trans list.set_intros(1))
  then have "1 / x * m \<le> 1" by simp
  moreover have "sum_list (map (\<lambda>x. 1 / x) xs) * m \<le> real (length xs)" using Cons by simp
  ultimately show ?case by (simp add: distrib_right)
qed simp

lemma sum_reciprocals_pos:
  "xs \<noteq> [] \<Longrightarrow> (\<And>x. x \<in> set xs \<Longrightarrow> 0 < (x :: real)) \<Longrightarrow> 0 < sum_list (map (\<lambda>x. 1 / x) xs)"
  by (cases xs) (auto intro!: add_pos_nonneg sum_list_nonneg simp: less_imp_le)

definition positive_scores :: "f64 list \<Rightarrow> real list" where
  "positive_scores scores = concat (map positive_finite scores)"

lemma positive_scores_pos: "x \<in> set (positive_scores scores) \<Longrightarrow> 0 < x"
  by (auto simp: positive_scores_def positive_finite_def split: f64.splits if_splits)

lemma harmonic_mean_eq:
  "harmonic_mean scores =
     (let xs = positive_scores scores in
      if xs = [] then 0 else real (length xs) / sum_list (map (\<lambda>x. 1 / x) xs))"
  by (simp add: harmonic_mean_def positive_scores_def)

lemma harmonic_between:
  assumes "xs \<noteq> []" and "\<And>x. x \<in> set xs \<Longrightarrow> 0 < x" and "\<And>x. x \<in> set xs \<Longrightarrow> m \<le> x" and "0 < (m :: real)"
  shows "m \<le> real (length xs) / sum_list (map (\<lambda>x. 1 / x) xs)"
    and "real (length xs) / sum_list (map (\<lambda>x. 1 / x) xs) \<le> sum_list xs / real (length xs)"
proof -
  have p: "0 < sum_list (map (\<lambda>x. 1 / x) xs)" by (rule sum_reciprocals_pos [OF assms(1,2)])
  then show "m \<le> real (length xs) / sum_list (map (\<lambda>x. 1 / x) xs)"
    using sum_reciprocals_le [of xs m] assms(3,4) by (simp add: pos_le_divide_eq mult.commute)
  have "0 < real (length xs)" using assms(1) by simp
  then show "real (length xs) / sum_list (map (\<lambda>x. 1 / x) xs) \<le> sum_list xs / real (length xs)"
    using mean_product [of xs] assms(2) p by (simp add: pos_divide_le_eq pos_le_divide_eq power2_eq_square field_simps)
qed

subsection \<open>Properties\<close>

text \<open>The cascade score lies between the smallest positive score and the mean of the positive scores, and
  is 0 exactly when no score is positive. Scores that are zero, negative, infinite or undefined do not count at
  all: a step that fails does not break the chain, contrary to what the module says of it, and leaves the
  score of the other steps as it is.\<close>

theorem harmonic_mean_bounds:
  "0 \<le> harmonic_mean scores \<and> (harmonic_mean scores = 0 \<longleftrightarrow> positive_scores scores = []) \<and>
   ((\<exists>m\<in>set (positive_scores scores). m \<le> harmonic_mean scores \<and>
       harmonic_mean scores \<le> sum_list (positive_scores scores) / real (length (positive_scores scores)))
     \<longleftrightarrow> positive_scores scores \<noteq> []) \<and>
   harmonic_mean (scores @ Finite 0 # rest) = harmonic_mean (scores @ rest) \<and>
   harmonic_mean (scores @ NaN # rest) = harmonic_mean (scores @ rest)"
proof -
  let ?xs = "positive_scores scores"
  have skip: "harmonic_mean (scores @ Finite 0 # rest) = harmonic_mean (scores @ rest)"
    "harmonic_mean (scores @ NaN # rest) = harmonic_mean (scores @ rest)"
    by (simp_all add: harmonic_mean_def positive_finite_def)
  show ?thesis
  proof (cases "?xs = []")
    case True
    then show ?thesis using skip by (simp add: harmonic_mean_eq)
  next
    case False
    let ?m = "Min (set ?xs)"
    have m: "?m \<in> set ?xs" using False by simp
    then have "0 < ?m" by (rule positive_scores_pos)
    have "?m \<le> x" if "x \<in> set ?xs" for x using that by simp
    moreover have "0 < x" if "x \<in> set ?xs" for x using that by (rule positive_scores_pos)
    ultimately have "?m \<le> real (length ?xs) / sum_list (map (\<lambda>x. 1 / x) ?xs)"
      "real (length ?xs) / sum_list (map (\<lambda>x. 1 / x) ?xs) \<le> sum_list ?xs / real (length ?xs)"
      using harmonic_between [OF False, of ?m] \<open>0 < ?m\<close> by blast+
    then have "?m \<le> harmonic_mean scores" "harmonic_mean scores \<le> sum_list ?xs / real (length ?xs)"
      using False by (simp_all add: harmonic_mean_eq Let_def)
    then have "0 < harmonic_mean scores" using \<open>0 < ?m\<close> by linarith
    then show ?thesis using skip m False \<open>?m \<le> harmonic_mean scores\<close>
        \<open>harmonic_mean scores \<le> sum_list ?xs / real (length ?xs)\<close> by auto
  qed
qed

text \<open>In a configuration that passes validation, with weights that are not negative and the default
  thresholds, signals between 0 and 1 add up to at most 0.701, so that a principal that matches no rule is
  never Critical; and whatever the input, the score lies between 0 and 1 and the severity is the one of the
  score.\<close>

theorem no_critical_without_rules:
  assumes "validate_signal_weights fmt config = Inr ()" and "distinct (map fst (signals config))"
    and "list_all (\<lambda>w. 0 \<le> snd w) (signals config)" and "thresholds config = default_thresholds"
    and "distinct (map sr_name results)" and "list_all (\<lambda>s. 0 \<le> sr_normalized s \<and> sr_normalized s \<le> 1) results"
  shows "let a = score_principal prin results matched config computed_at in
    0 \<le> ra_score a \<and> ra_score a \<le> 1 \<and> ra_severity a = severity_from_score (ra_score a) \<and>
    ra_signal_total a \<le> 701 / 1000 \<and> (matched = [] \<longrightarrow> ra_severity a \<noteq> RiskCritical)"
proof -
  let ?total = "sum_list (map sc_contribution (map (contribution_of config) results))"
  have "?total \<le> sum_list (map snd (signals config))"
    using sum_contributions_le [OF assms(5,2,3,6)]
    by (simp add: contribution_of_def signal_weight_def Let_def comp_def)
  moreover have "\<bar>sum_list (map snd (signals config)) - 70 / 100\<bar> \<le> 1 / 1000"
    using assms(1) by (rule contrapos_pp) (simp only: validate_signal_weights_def Let_def not_le if_True, simp)
  ultimately have "?total \<le> 701 / 1000" by linarith
  then show ?thesis
    using clamp_bounds [of 0 1] assms(4)
    by (simp add: score_principal_def Let_def severity_from_score_def)
       (auto simp: severity_from_def clamp_def default_thresholds_def)
qed

theorem no_critical_without_rules_witness:
  "let a = score_principal ''alice'' [\<lparr>sr_name = ''path_to_admin'', sr_raw_value = Finite 0, sr_normalized = 1,
      sr_weight = 0\<rparr>] [] risk_config_default ''now'' in
    ra_signal_total a = 22 / 100 \<and> ra_severity a \<noteq> RiskCritical"
proof -
  let ?r = "[\<lparr>sr_name = ''path_to_admin'', sr_raw_value = Finite 0, sr_normalized = 1, sr_weight = 0\<rparr>]"
  have v: "validate_signal_weights (\<lambda>_. []) risk_config_default = Inr ()"
    by (simp add: validate_signal_weights_def risk_config_default_def)
  have d: "distinct (map fst (signals risk_config_default))" "list_all (\<lambda>w. 0 \<le> snd w) (signals risk_config_default)"
    "thresholds risk_config_default = default_thresholds"
    by (simp_all add: risk_config_default_def)
  have "distinct (map sr_name ?r)" "list_all (\<lambda>s. 0 \<le> sr_normalized s \<and> sr_normalized s \<le> 1) ?r" by simp_all
  from no_critical_without_rules [OF v d this, of "''alice''" "[]" "''now''"]
  have "ra_severity (score_principal ''alice'' ?r [] risk_config_default ''now'') \<noteq> RiskCritical"
    unfolding Let_def by blast
  then show ?thesis
    unfolding Let_def
    by (simp add: score_principal_def contribution_of_def signal_weight_def risk_config_default_def Let_def)
qed

text \<open>The permission surface is capped at the size of the catalogue only as long as no more permissions than
  that are counted; a second wildcard, or one more permission beside a wildcard, takes it above 1.\<close>

theorem permission_surface_exceeds_one:
  "(sr_normalized (permission_surface perms) \<le> 1 \<longleftrightarrow>
      sum_list (map (\<lambda>p. if perm_action p = ''*'' then AWS_CATALOG_SIZE else 1) perms) \<le> AWS_CATALOG_SIZE) \<and>
   1 < sr_normalized (permission_surface [\<lparr>perm_action = ''*'', perm_resource = r\<rparr>, p])"
proof -
  have "sr_normalized (permission_surface perms) =
      log_normalize (sum_list (map (\<lambda>p. if perm_action p = ''*'' then AWS_CATALOG_SIZE else 1) perms)) AWS_CATALOG_SIZE"
    for perms
    by (simp add: permission_surface_def Let_def surface_count)
  then have "sr_normalized (permission_surface perms) \<le> 1 \<longleftrightarrow>
      sum_list (map (\<lambda>p. if perm_action p = ''*'' then AWS_CATALOG_SIZE else 1) perms) \<le> AWS_CATALOG_SIZE" for perms
    by (simp add: log_normalize_le_1_iff AWS_CATALOG_SIZE_def)
  from this [of perms] this [of "[\<lparr>perm_action = ''*'', perm_resource = r\<rparr>, p]"]
  show ?thesis by (simp add: AWS_CATALOG_SIZE_def not_le [symmetric])
qed

end
