(* ===== verification/Risk_Batch.thy ===== *)
theory Risk_Batch
  imports Risk_Scoring
begin

section \<open>Scoring runs\<close>

text \<open>
  \<open>activable-risk/src/batch_runner.rs\<close>, the graph signals of \<open>signals/\<close> and
  \<open>enumeration/principal_enumerator.rs\<close> and \<open>iterative_scorer.rs\<close>. The trait \<open>GraphQueryService\<close> is a
  record of functions: what a call answers may depend on the assessments written before it, the pairs of
  principal and text in \<open>written\<close>, so that a service whose answers change while a run writes to it is
  covered. Errors are their texts. The printer of assessments is a parameter, which may fail.
\<close>

type_synonym written = "(string \<times> string) list"

record graph_service =
  reachable_count :: "written \<Rightarrow> string \<Rightarrow> 8 word \<Rightarrow> string + nat"
  shortest_path_to_admin :: "written \<Rightarrow> string \<Rightarrow> 8 word \<Rightarrow> string + nat option"
  cross_account_hop_count :: "written \<Rightarrow> string \<Rightarrow> string + nat"
  list_principal_ids :: "written \<Rightarrow> string + string list"
  get_effective_permissions :: "written \<Rightarrow> string \<Rightarrow> string + (string \<times> string) list"
  read_risk_assessment :: "written \<Rightarrow> string \<Rightarrow> string + string option"
  write_risk_assessment :: "written \<Rightarrow> string \<Rightarrow> string \<Rightarrow> string + unit"

subsection \<open>Graph signals\<close>

record blast_radius_signal =
  max_reachable :: real
  blast_weight :: real

definition blast_radius_default :: blast_radius_signal where
  "blast_radius_default = \<lparr>max_reachable = 10000, blast_weight = 25 / 100\<rparr>"

definition blast_radius_compute ::
  "blast_radius_signal \<Rightarrow> graph_service \<Rightarrow> written \<Rightarrow> string \<Rightarrow> 8 word \<Rightarrow> string + signal_result" where
  "blast_radius_compute sig graph w principal_id max_hops =
     res_bind (reachable_count graph w principal_id max_hops) (\<lambda>n.
     Inr \<lparr>sr_name = ''blast_radius'', sr_raw_value = Finite (real n),
          sr_normalized = log_normalize (real n) (max_reachable sig), sr_weight = blast_weight sig\<rparr>)"

definition path_to_admin_compute ::
  "8 word \<Rightarrow> graph_service \<Rightarrow> written \<Rightarrow> string \<Rightarrow> string + signal_result" where
  "path_to_admin_compute max_depth graph w principal_id =
     res_bind (shortest_path_to_admin graph w principal_id max_depth) (\<lambda>maybe_distance.
     let (raw, normalized) =
       (case maybe_distance of
          Some distance \<Rightarrow> (Finite (real distance), inverse_normalize (real distance) (real (unat max_depth)))
        | None \<Rightarrow> (PosInf, 0))
     in Inr \<lparr>sr_name = ''path_to_admin'', sr_raw_value = raw, sr_normalized = normalized, sr_weight = 35 / 100\<rparr>)"

definition cross_account_compute :: "graph_service \<Rightarrow> written \<Rightarrow> string \<Rightarrow> string + signal_result" where
  "cross_account_compute graph w principal_id =
     res_bind (cross_account_hop_count graph w principal_id) (\<lambda>n.
     Inr \<lparr>sr_name = ''cross_account_hops'', sr_raw_value = Finite (real n),
          sr_normalized = linear_cap (real n) 5, sr_weight = 20 / 100\<rparr>)"

subsection \<open>One principal\<close>

definition score_single_principal ::
  "string \<Rightarrow> effective_permission list \<Rightarrow> escalation_rule list \<Rightarrow> graph_service \<Rightarrow> written \<Rightarrow> risk_config
     \<Rightarrow> string \<Rightarrow> string + risk_assessment" where
  "score_single_principal principal_id perms rules graph w config computed_at =
     res_bind (blast_radius_compute blast_radius_default graph w principal_id 6) (\<lambda>blast_radius.
     res_bind (path_to_admin_compute 8 graph w principal_id) (\<lambda>path_to_admin.
     res_bind (cross_account_compute graph w principal_id) (\<lambda>cross_account.
     Inr (score_principal principal_id
       [blast_radius, path_to_admin, dangerous_action_count perms, cross_account, permission_surface perms]
       (match_all_rules rules perms) config computed_at))))"

definition permissions_of :: "(string \<times> string) list \<Rightarrow> effective_permission list" where
  "permissions_of pairs = map (\<lambda>(act, res). \<lparr>perm_action = act, perm_resource = res\<rparr>) pairs"

subsection \<open>All principals\<close>

record batch_score_result =
  bs_assessments :: "risk_assessment list"
  total_principals :: nat
  scored_count :: nat
  skipped_stale :: nat
  bs_errors :: "(string \<times> string) list"

text \<open>The loop over the principals, with what was written, the assessments and the errors so far.\<close>

fun score_all ::
  "(risk_assessment \<Rightarrow> string option) \<Rightarrow> escalation_rule list \<Rightarrow> graph_service \<Rightarrow> risk_config \<Rightarrow> string
     \<Rightarrow> string list \<Rightarrow> written \<Rightarrow> risk_assessment list \<Rightarrow> (string \<times> string) list
     \<Rightarrow> written \<times> risk_assessment list \<times> (string \<times> string) list" where
  "score_all print rules graph config computed_at [] w assessments errors = (w, assessments, errors)"
| "score_all print rules graph config computed_at (pid # pids) w assessments errors =
     (case get_effective_permissions graph w pid of
        Inl e \<Rightarrow> score_all print rules graph config computed_at pids w assessments (errors @ [(pid, e)])
      | Inr pairs \<Rightarrow>
          (case score_single_principal pid (permissions_of pairs) rules graph w config computed_at of
             Inl e \<Rightarrow> score_all print rules graph config computed_at pids w assessments (errors @ [(pid, e)])
           | Inr assessment \<Rightarrow>
               let json = (case print assessment of Some t \<Rightarrow> t | None \<Rightarrow> []);
                   errors' = (case write_risk_assessment graph w pid json of
                       Inl e \<Rightarrow> errors @ [(pid, ''write failed: '' @ e)]
                     | Inr _ \<Rightarrow> errors)
               in score_all print rules graph config computed_at pids (w @ [(pid, json)])
                    (assessments @ [assessment]) errors'))"

definition batch_score_all ::
  "(risk_assessment \<Rightarrow> string option) \<Rightarrow> escalation_rule list \<Rightarrow> graph_service \<Rightarrow> risk_config \<Rightarrow> string
     \<Rightarrow> written \<Rightarrow> written \<times> batch_score_result" where
  "batch_score_all print rules graph config computed_at w =
     (case list_principal_ids graph w of
        Inl e \<Rightarrow> (w, \<lparr>bs_assessments = [], total_principals = 0, scored_count = 0, skipped_stale = 0,
                     bs_errors = [(''*'', e)]\<rparr>)
      | Inr ids \<Rightarrow>
          let (w', assessments, errors) = score_all print rules graph config computed_at ids w [] [] in
          (w', \<lparr>bs_assessments = assessments, total_principals = length ids, scored_count = length assessments,
                skipped_stale = 0, bs_errors = errors\<rparr>))"

subsection \<open>Iterative scoring\<close>

record enumerated_principal =
  ep_principal_id :: string
  ep_permissions :: "effective_permission list"

definition enumerate_principals :: "graph_service \<Rightarrow> written \<Rightarrow> string + enumerated_principal list" where
  "enumerate_principals graph w =
     res_bind (list_principal_ids graph w) (\<lambda>ids.
     Inr (List.map_filter (\<lambda>pid.
       case get_effective_permissions graph w pid of
         Inr pairs \<Rightarrow> Some \<lparr>ep_principal_id = pid, ep_permissions = permissions_of pairs\<rparr>
       | Inl _ \<Rightarrow> None) ids))"

record iteration_config =
  max_iterations :: nat
  convergence_threshold :: nat
  max_path_length :: nat

definition iteration_config_default :: iteration_config where
  "iteration_config_default = \<lparr>max_iterations = 10, convergence_threshold = 5, max_path_length = 20\<rparr>"

record iteration_stats =
  it_total_principals :: nat
  iterations_completed :: nat
  converged :: bool
  new_edges_per_iteration :: "nat list"
  it_assessments :: "risk_assessment list"

text \<open>What the loop carries: the writes, the latest assessment per principal, and the chains seen.\<close>

record run_state =
  rs_written :: written
  rs_assessments :: "(string \<times> risk_assessment) list"
  rs_visited :: "string list"

definition chain_key :: "string \<Rightarrow> matched_rule \<Rightarrow> string" where
  "chain_key principal_id m = principal_id @ [CHR 0xE2, CHR 0x86, CHR 0x92] @ mr_rule_id m"

text \<open>Inserting the chains of an assessment into the set, counting the new ones.\<close>

fun insert_chains :: "string list \<Rightarrow> string list \<Rightarrow> string list \<times> nat" where
  "insert_chains [] visited = (visited, 0)"
| "insert_chains (key # keys) visited =
     (if key \<in> set visited then insert_chains keys visited
      else let (visited', n) = insert_chains keys (key # visited) in (visited', n + 1))"

definition score_one ::
  "(risk_assessment \<Rightarrow> string option) \<Rightarrow> escalation_rule list \<Rightarrow> graph_service \<Rightarrow> risk_config \<Rightarrow> string
     \<Rightarrow> enumerated_principal \<Rightarrow> run_state \<Rightarrow> run_state \<times> nat" where
  "score_one print rules graph config computed_at p st =
     (case score_single_principal (ep_principal_id p) (ep_permissions p) rules graph (rs_written st) config computed_at of
        Inl e \<Rightarrow> (st, 0)
      | Inr assessment \<Rightarrow>
          let (visited, n) = insert_chains (map (chain_key (ep_principal_id p)) (ra_matched_rules assessment)) (rs_visited st);
              w = (case print assessment of
                  Some json \<Rightarrow> rs_written st @ [(ep_principal_id p, json)]
                | None \<Rightarrow> rs_written st)
          in (\<lparr>rs_written = w, rs_assessments = AList.update (ep_principal_id p) assessment (rs_assessments st),
               rs_visited = visited\<rparr>, n))"

fun score_round ::
  "(risk_assessment \<Rightarrow> string option) \<Rightarrow> escalation_rule list \<Rightarrow> graph_service \<Rightarrow> risk_config \<Rightarrow> string
     \<Rightarrow> enumerated_principal list \<Rightarrow> run_state \<Rightarrow> run_state \<times> nat" where
  "score_round print rules graph config computed_at [] st = (st, 0)"
| "score_round print rules graph config computed_at (p # ps) st =
     (let (st', n) = score_one print rules graph config computed_at p st;
          (st'', m) = score_round print rules graph config computed_at ps st'
      in (st'', n + m))"

text \<open>The loop of at most \<open>n\<close> more iterations; the flag says whether it converged.\<close>

fun iterate_rounds ::
  "(risk_assessment \<Rightarrow> string option) \<Rightarrow> escalation_rule list \<Rightarrow> graph_service \<Rightarrow> risk_config \<Rightarrow> string
     \<Rightarrow> nat \<Rightarrow> enumerated_principal list \<Rightarrow> nat \<Rightarrow> run_state \<Rightarrow> nat list \<Rightarrow> run_state \<times> nat list \<times> bool" where
  "iterate_rounds print rules graph config computed_at threshold ps 0 st edges = (st, edges, False)"
| "iterate_rounds print rules graph config computed_at threshold ps (Suc n) st edges =
     (let (st', new_edges) = score_round print rules graph config computed_at ps st;
          edges' = edges @ [new_edges];
          len = length edges'
      in if new_edges < threshold then (st', edges', True)
         else if 2 \<le> len \<and> edges' ! (len - 1) = 0 \<and> edges' ! (len - 2) = 0 then (st', edges', True)
         else iterate_rounds print rules graph config computed_at threshold ps n st' edges')"

definition run_iterative_scoring ::
  "(risk_assessment \<Rightarrow> string option) \<Rightarrow> (risk_assessment list \<Rightarrow> risk_assessment list) \<Rightarrow> graph_service
     \<Rightarrow> escalation_rule list \<Rightarrow> risk_config \<Rightarrow> iteration_config \<Rightarrow> string \<Rightarrow> written \<Rightarrow> string + written \<times> iteration_stats" where
  "run_iterative_scoring print iter graph rules config ic computed_at w =
     res_bind (enumerate_principals graph w) (\<lambda>principals.
     let start = \<lparr>rs_written = w, rs_assessments = [], rs_visited = []\<rparr>;
         (st, edges, conv) =
           (if 0 < length principals
            then iterate_rounds print rules graph config computed_at (convergence_threshold ic) principals
                   (max_iterations ic) start []
            else (start, [], True))
     in Inr (rs_written st,
          \<lparr>it_total_principals = length principals, iterations_completed = length edges, converged = conv,
           new_edges_per_iteration = edges, it_assessments = iter (map snd (rs_assessments st))\<rparr>))"

subsection \<open>The score grows with the permissions\<close>

lemma sum_list_submset:
  fixes f :: "'a \<Rightarrow> real"
  assumes "mset xs \<subseteq># mset ys" and "\<And>y. 0 \<le> f y"
  shows "sum_list (map f xs) \<le> sum_list (map f ys)"
proof -
  obtain Z where "mset ys = mset xs + Z" using assms(1) by (auto simp: subset_mset.le_iff_add)
  then have "sum_list (map f ys) = sum_list (map f xs) + sum_mset (image_mset f Z)"
    by (simp flip: sum_mset_sum_list)
  moreover have "0 \<le> sum_mset (image_mset f Z)" using assms(2) by (induction Z) simp_all
  ultimately show ?thesis by simp
qed

lemma dangerous_action_count_mono:
  assumes "set perms \<subseteq> set perms'"
  shows "sr_normalized (dangerous_action_count perms) \<le> sr_normalized (dangerous_action_count perms')"
proof -
  have eq: "sum_list (map (\<lambda>m. tier_weight (match_tier m)) (detect_dangerous_actions q registry)) =
      sum_list (map (\<lambda>d. tier_weight (danger_tier d)) (filter (danger_present q) registry))" for q registry
    using arg_cong [OF match_tiers_eq, of "map tier_weight" q registry] by (simp add: comp_def)
  have "sum_list (map (\<lambda>d. tier_weight (danger_tier d)) (filter (danger_present perms) registry)) \<le>
      sum_list (map (\<lambda>d. tier_weight (danger_tier d)) (filter (danger_present perms') registry))" for registry
    using danger_present_mono [OF _ assms]
    by (intro sum_list_subseq subseq_map subseq_filter_mono) (auto simp: less_imp_le [OF tier_weight_pos])
  from this [of dangerous_actions_registry] show ?thesis
    unfolding dangerous_action_count_def Let_def signal_result.select_convs eq by (intro min.mono divide_right_mono) simp_all
qed

lemma permission_surface_mono:
  assumes "mset perms \<subseteq># mset perms'"
  shows "sr_normalized (permission_surface perms) \<le> sr_normalized (permission_surface perms')"
  using sum_list_submset [OF assms, of "\<lambda>p. if perm_action p = ''*'' then AWS_CATALOG_SIZE else 1"]
  by (simp add: permission_surface_def Let_def surface_count AWS_CATALOG_SIZE_def log_normalize_mono)

lemma signal_weight_nonneg:
  "list_all (\<lambda>w. 0 \<le> snd w) (signals config) \<Longrightarrow> 0 \<le> signal_weight config name"
  by (auto simp: signal_weight_def list_all_iff dest!: map_of_SomeD split: option.split)

fun severity_rank :: "risk_severity \<Rightarrow> nat" where
  "severity_rank RiskInfo = 0"
| "severity_rank RiskLow = 1"
| "severity_rank RiskMedium = 2"
| "severity_rank RiskHigh = 3"
| "severity_rank RiskCritical = 4"

lemma severity_from_mono: "a \<le> b \<Longrightarrow> severity_rank (severity_from a th) \<le> severity_rank (severity_from b th)"
  by (simp add: severity_from_def)

lemma score_principal_mono:
  assumes "list_all2 (\<lambda>s s'. sr_name s = sr_name s' \<and> sr_normalized s \<le> sr_normalized s') results results'"
    and "compute_rule_boost ms \<le> compute_rule_boost ms'"
    and "list_all (\<lambda>w. 0 \<le> snd w) (signals config)"
  shows "ra_score (score_principal prin results ms config now) \<le> ra_score (score_principal prin results' ms' config now)"
    and "severity_rank (ra_severity (score_principal prin results ms config now)) \<le>
      severity_rank (ra_severity (score_principal prin results' ms' config now))"
proof -
  have "sum_list (map sc_contribution (map (contribution_of config) results)) \<le>
      sum_list (map sc_contribution (map (contribution_of config) results'))"
    using assms(1) signal_weight_nonneg [OF assms(3)]
    by (induction rule: list_all2_induct)
       (auto simp: contribution_of_def Let_def intro!: add_mono mult_right_mono)
  then show "ra_score (score_principal prin results ms config now) \<le> ra_score (score_principal prin results' ms' config now)"
    using assms(2)
    by (simp add: score_principal_def Let_def compute_rule_boost_def) (intro clamp_mono; linarith)
  then show "severity_rank (ra_severity (score_principal prin results ms config now)) \<le>
      severity_rank (ra_severity (score_principal prin results' ms' config now))"
    by (simp add: score_principal_def Let_def severity_from_mono)
qed

subsection \<open>Every principal is accounted for\<close>

lemma scored_principal_id:
  "score_single_principal pid perms rules graph w config now = Inr a \<Longrightarrow> ra_principal_id a = pid"
  by (auto simp: score_single_principal_def res_iffs score_principal_def Let_def)

lemma score_all_accounts:
  "score_all print rules graph config now ids w as es = (w', as', es') \<Longrightarrow>
   \<exists>scored errs. subseq scored ids \<and> map ra_principal_id as' = map ra_principal_id as @ scored \<and>
     map fst w' = map fst w @ scored \<and> es' = es @ errs \<and>
     length ids \<le> length scored + length errs \<and> set ids = set scored \<union> fst ` set errs"
proof (induction ids arbitrary: w as es)
  case Nil
  then show ?case by (intro exI [of _ "[]"]) simp
next
  case (Cons pid ids)
  let ?fail = "\<lambda>e. score_all print rules graph config now ids w as (es @ [(pid, e)]) = (w', as', es')"
  have fail: ?case if f: "?fail e" for e
  proof -
    obtain scored errs where "subseq scored ids" "map ra_principal_id as' = map ra_principal_id as @ scored"
      "map fst w' = map fst w @ scored" "es' = (es @ [(pid, e)]) @ errs"
      "length ids \<le> length scored + length errs" "set ids = set scored \<union> fst ` set errs"
      using Cons.IH [OF f] by blast
    then show ?case by (intro exI [of _ scored] exI [of _ "(pid, e) # errs"]) auto
  qed
  show ?case
  proof (cases "get_effective_permissions graph w pid")
    case (Inl e)
    then show ?thesis using Cons.prems by (intro fail [of e]) simp
  next
    case (Inr pairs)
    show ?thesis
    proof (cases "score_single_principal pid (permissions_of pairs) rules graph w config now")
      case (Inl e)
      then show ?thesis using Cons.prems Inr by (intro fail [of e]) simp
    next
      case s: (Inr a)
      obtain json err where f:
        "score_all print rules graph config now ids (w @ [(pid, json)]) (as @ [a]) (es @ err) = (w', as', es')"
        and err: "fst ` set err \<subseteq> {pid}"
      proof (cases "write_risk_assessment graph w pid (case print a of Some t \<Rightarrow> t | None \<Rightarrow> [])")
        case (Inl e)
        then show ?thesis using Cons.prems Inr s that [of _ "[(pid, ''write failed: '' @ e)]"] by simp
      next
        case (Inr u)
        then show ?thesis using Cons.prems \<open>get_effective_permissions graph w pid = Inr pairs\<close> s that [of _ "[]"] by simp
      qed
      then obtain scored errs where r: "subseq scored ids"
        "map ra_principal_id as' = map ra_principal_id (as @ [a]) @ scored"
        "map fst w' = map fst (w @ [(pid, json)]) @ scored" "es' = (es @ err) @ errs"
        "length ids \<le> length scored + length errs" and ids: "set ids = set scored \<union> fst ` set errs"
        using Cons.IH [OF f] by blast
      have "set (pid # ids) = set (pid # scored) \<union> fst ` set (err @ errs)"
        unfolding list.set set_append image_Un ids using err by blast
      show ?thesis
      proof (intro exI conjI)
        show "subseq (pid # scored) (pid # ids)" using r(1) by simp
        show "map ra_principal_id as' = map ra_principal_id as @ pid # scored"
          unfolding r(2) by (simp add: scored_principal_id [OF s])
        show "map fst w' = map fst w @ pid # scored" unfolding r(3) by simp
        show "es' = es @ err @ errs" unfolding r(4) by simp
        show "length (pid # ids) \<le> length (pid # scored) + length (err @ errs)" using r(5) by simp
      qed fact
    qed
  qed
qed

subsection \<open>Rounds\<close>

lemma insert_chains_spec:
  "insert_chains keys visited = (visited', n) \<Longrightarrow> distinct visited \<Longrightarrow>
     set visited' = set visited \<union> set keys \<and> distinct visited' \<and> length visited' = length visited + n"
proof (induction keys arbitrary: visited visited' n)
  case (Cons key keys)
  obtain v m where r: "insert_chains keys (key # visited) = (v, m)" by (cases "insert_chains keys (key # visited)")
  show ?case
  proof (cases "key \<in> set visited")
    case True
    then show ?thesis using Cons by auto
  next
    case False
    then have "visited' = v" "n = m + 1" using Cons.prems(1) r by simp_all
    have "set v = set (key # visited) \<union> set keys \<and> distinct v \<and> length v = length (key # visited) + m"
      by (rule Cons.IH [OF r]) (use Cons.prems(2) False in simp)
    then show ?thesis unfolding \<open>visited' = v\<close> \<open>n = m + 1\<close> by (simp; blast)
  qed
qed simp

text \<open>A service whose answers to the scorer do not depend on the assessments written.\<close>

definition ignores_writes :: "graph_service \<Rightarrow> bool" where
  "ignores_writes graph \<longleftrightarrow>
     (\<forall>w. reachable_count graph w = reachable_count graph [] \<and>
        shortest_path_to_admin graph w = shortest_path_to_admin graph [] \<and>
        cross_account_hop_count graph w = cross_account_hop_count graph [])"

lemma score_ignores_writes:
  assumes "ignores_writes graph"
  shows "score_single_principal pid perms rules graph w config now =
    score_single_principal pid perms rules graph [] config now"
proof -
  have "reachable_count graph w = reachable_count graph []"
    "shortest_path_to_admin graph w = shortest_path_to_admin graph []"
    "cross_account_hop_count graph w = cross_account_hop_count graph []"
    using assms unfolding ignores_writes_def by blast+
  then show ?thesis
    by (simp only: score_single_principal_def blast_radius_compute_def path_to_admin_compute_def cross_account_compute_def)
qed

text \<open>The chains of a principal: none when it cannot be scored.\<close>

definition chains_of ::
  "escalation_rule list \<Rightarrow> graph_service \<Rightarrow> risk_config \<Rightarrow> string \<Rightarrow> enumerated_principal \<Rightarrow> string list" where
  "chains_of rules graph config now p =
     (case score_single_principal (ep_principal_id p) (ep_permissions p) rules graph [] config now of
        Inl _ \<Rightarrow> []
      | Inr a \<Rightarrow> map (chain_key (ep_principal_id p)) (ra_matched_rules a))"

definition all_chains ::
  "escalation_rule list \<Rightarrow> graph_service \<Rightarrow> risk_config \<Rightarrow> string \<Rightarrow> enumerated_principal list \<Rightarrow> string set" where
  "all_chains rules graph config now ps = (\<Union>p\<in>set ps. set (chains_of rules graph config now p))"

lemma score_one_chains:
  assumes "ignores_writes graph" and "score_one print rules graph config now p st = (st', n)" and "distinct (rs_visited st)"
  shows "set (rs_visited st') = set (rs_visited st) \<union> set (chains_of rules graph config now p) \<and>
    distinct (rs_visited st') \<and> length (rs_visited st') = length (rs_visited st) + n"
proof (cases "score_single_principal (ep_principal_id p) (ep_permissions p) rules graph [] config now")
  case (Inl e)
  then show ?thesis
    using assms(2,3) by (simp add: score_one_def score_ignores_writes [OF assms(1), where w = "rs_written st"] chains_of_def)
next
  case (Inr a)
  obtain visited m where i: "insert_chains (map (chain_key (ep_principal_id p)) (ra_matched_rules a)) (rs_visited st) = (visited, m)"
    by (cases "insert_chains (map (chain_key (ep_principal_id p)) (ra_matched_rules a)) (rs_visited st)")
  then have "rs_visited st' = visited" "n = m"
    using assms(2) Inr
    by (auto simp: score_one_def score_ignores_writes [OF assms(1), where w = "rs_written st"] Let_def)
  then show ?thesis using insert_chains_spec [OF i assms(3)] Inr by (simp add: chains_of_def)
qed

lemma score_round_chains:
  assumes "ignores_writes graph"
  shows "score_round print rules graph config now ps st = (st', n) \<Longrightarrow> distinct (rs_visited st) \<Longrightarrow>
    set (rs_visited st') = set (rs_visited st) \<union> all_chains rules graph config now ps \<and>
    distinct (rs_visited st') \<and> length (rs_visited st') = length (rs_visited st) + n"
proof (induction ps arbitrary: st st' n)
  case Nil
  then show ?case by (simp add: all_chains_def)
next
  case (Cons p ps)
  obtain st1 k where o: "score_one print rules graph config now p st = (st1, k)"
    by (cases "score_one print rules graph config now p st")
  obtain st2 m where r: "score_round print rules graph config now ps st1 = (st2, m)"
    by (cases "score_round print rules graph config now ps st1")
  have "st' = st2" "n = k + m" using Cons.prems(1) o r by auto
  then show ?case
    using score_one_chains [OF assms o Cons.prems(2)] Cons.IH [OF r] by (auto simp: all_chains_def)
qed

lemma length_iterate_rounds:
  "iterate_rounds print rules graph config now th ps n st edges = (st', edges', conv) \<Longrightarrow>
     length edges' \<le> length edges + n \<and> prefix edges edges'"
proof (induction n arbitrary: st edges)
  case (Suc n)
  obtain st1 k where r: "score_round print rules graph config now ps st = (st1, k)"
    by (cases "score_round print rules graph config now ps st")
  show ?case
    using Suc.prems Suc.IH [of st1 "edges @ [k]"] r
    by (auto simp: Let_def split: if_splits dest: append_prefixD)
qed simp

subsection \<open>Properties\<close>

text \<open>C23: a principal with more permissions is never scored lower. When the graph answers the same for it and
  the weights and boosts are not negative, adding permissions, even repeated ones, can only raise the score
  and the severity; and whether scoring fails, and with which error, does not depend on the permissions.\<close>

theorem score_grows_with_permissions:
  assumes "mset perms \<subseteq># mset perms'" and "list_all (\<lambda>w. 0 \<le> snd w) (signals config)"
    and "list_all (\<lambda>rule. 0 \<le> rule_boost rule) rules" and "length rules < 2 ^ 32"
  shows "case (score_single_principal prin perms rules graph w config now,
         score_single_principal prin perms' rules graph w config now) of
       (Inr a, Inr b) \<Rightarrow> ra_score a \<le> ra_score b \<and> severity_rank (ra_severity a) \<le> severity_rank (ra_severity b)
     | (Inl e, Inl e') \<Rightarrow> e = e'
     | _ \<Rightarrow> False"
proof -
  have s: "set perms \<subseteq> set perms'" using assms(1) by (metis set_mset_mono set_mset_mset)
  have boost: "compute_rule_boost (match_all_rules rules perms) \<le> compute_rule_boost (match_all_rules rules perms')"
    by (rule rule_boost_mono [OF s assms(4,3)])
  have "list_all2 (\<lambda>s s'. sr_name s = sr_name s' \<and> sr_normalized s \<le> sr_normalized s')
      [b, p, dangerous_action_count perms, c, permission_surface perms]
      [b, p, dangerous_action_count perms', c, permission_surface perms']" for b p c
    using dangerous_action_count_mono [OF s] permission_surface_mono [OF assms(1)]
    by (simp add: dangerous_action_count_def permission_surface_def Let_def)
  note mono = score_principal_mono [OF this boost assms(2)]
  show ?thesis
    unfolding score_single_principal_def
    by (cases "blast_radius_compute blast_radius_default graph w prin 6"; cases "path_to_admin_compute 8 graph w prin";
        cases "cross_account_compute graph w prin") (simp_all add: mono)
qed

definition sample_graph :: graph_service where
  "sample_graph =
     \<lparr>reachable_count = \<lambda>w i h. Inr 0, shortest_path_to_admin = \<lambda>w i h. Inr None,
      cross_account_hop_count = \<lambda>w i. Inr 0, list_principal_ids = \<lambda>w. Inr [''alice'', ''bob''],
      get_effective_permissions = \<lambda>w i. if i = ''bob'' then Inl ''gone'' else Inr [(''sts:x'', ''*'')],
      read_risk_assessment = \<lambda>w i. Inr None, write_risk_assessment = \<lambda>w i t. Inr ()\<rparr>"

theorem score_grows_with_permissions_witness:
  "\<exists>a b. score_single_principal ''alice'' [] [] sample_graph [] risk_config_default ''now'' = Inr a \<and>
     score_single_principal ''alice'' [\<lparr>perm_action = ''*'', perm_resource = ''*''\<rparr>] [] sample_graph []
       risk_config_default ''now'' = Inr b \<and> ra_score a \<le> ra_score b"
proof -
  have "\<exists>a. score_single_principal ''alice'' perms [] sample_graph [] risk_config_default ''now'' = Inr a" for perms
    by (simp add: score_single_principal_def blast_radius_compute_def path_to_admin_compute_def
        cross_account_compute_def sample_graph_def)
  then obtain a b where ab: "score_single_principal ''alice'' [] [] sample_graph [] risk_config_default ''now'' = Inr a"
    "score_single_principal ''alice'' [\<lparr>perm_action = ''*'', perm_resource = ''*''\<rparr>] [] sample_graph []
       risk_config_default ''now'' = Inr b" by blast
  have "list_all (\<lambda>w. 0 \<le> snd w) (signals risk_config_default)" by (simp add: risk_config_default_def)
  then show ?thesis
    using score_grows_with_permissions [of "[]" "[\<lparr>perm_action = ''*'', perm_resource = ''*''\<rparr>]"
        risk_config_default "[]" "''alice''" sample_graph "[]" "''now''"] ab by simp
qed

text \<open>A batch run accounts for every principal. Each listed principal is scored or reported with an
  error; the assessments are in the order of the list, and one text is written per assessment, in that order,
  after what was written before; the counts agree and no principal is ever skipped as stale.\<close>

theorem batch_accounts_for_every_principal:
  assumes "list_principal_ids graph w = Inr ids"
  shows "let (w', b) = batch_score_all print rules graph config now w;
           scored = map ra_principal_id (bs_assessments b) in
    subseq scored ids \<and> map fst w' = map fst w @ scored \<and>
    set ids = set scored \<union> fst ` set (bs_errors b) \<and>
    total_principals b = length ids \<and> scored_count b = length scored \<and> skipped_stale b = 0 \<and>
    total_principals b \<le> scored_count b + length (bs_errors b)"
proof -
  obtain w' as es where s: "score_all print rules graph config now ids w [] [] = (w', as, es)"
    by (cases "score_all print rules graph config now ids w [] []")
  show ?thesis
    using assms s score_all_accounts [OF s] by (auto simp: batch_score_all_def Let_def)
qed

theorem batch_accounts_for_every_principal_witness:
  "let (w', b) = batch_score_all (\<lambda>_. Some ''json'') [] sample_graph risk_config_default ''now'' [] in
     total_principals b = 2 \<and> {''alice'', ''bob''} = set (map ra_principal_id (bs_assessments b)) \<union> fst ` set (bs_errors b)"
proof -
  have "list_principal_ids sample_graph [] = Inr [''alice'', ''bob'']" by (simp add: sample_graph_def)
  from batch_accounts_for_every_principal [OF this, of "\<lambda>_. Some ''json''" "[]" risk_config_default "''now''"]
  show ?thesis by (auto simp: Let_def split: prod.splits)
qed

text \<open>C25: iterating adds nothing. When the answers of the graph do not depend on the assessments a run writes,
  the first round finds all chains and the second none: with a positive threshold and at least two
  iterations allowed, the run converges after one round if there are fewer chains than the threshold and
  after two otherwise, and the chains counted are those of a single pass.\<close>

theorem iteration_is_one_pass:
  assumes "ignores_writes graph" and "enumerate_principals graph w = Inr ps" and "ps \<noteq> []"
    and "0 < convergence_threshold ic" and "2 \<le> max_iterations ic"
  shows "let n = card (all_chains rules graph config now ps) in
    \<exists>w' stats. run_iterative_scoring print iter graph rules config ic now w = Inr (w', stats) \<and>
      converged stats \<and> it_total_principals stats = length ps \<and>
      new_edges_per_iteration stats = (if n < convergence_threshold ic then [n] else [n, 0])"
proof -
  let ?start = "\<lparr>rs_written = w, rs_assessments = [], rs_visited = []\<rparr>"
  obtain k where k: "max_iterations ic = Suc (Suc k)"
    using assms(5) by (cases "max_iterations ic"; cases "max_iterations ic - 1") auto
  obtain st1 n where r1: "score_round print rules graph config now ps ?start = (st1, n)"
    by (cases "score_round print rules graph config now ps ?start")
  obtain st2 m where r2: "score_round print rules graph config now ps st1 = (st2, m)"
    by (cases "score_round print rules graph config now ps st1")
  have one: "set (rs_visited st1) = all_chains rules graph config now ps" "distinct (rs_visited st1)" "length (rs_visited st1) = n"
    using score_round_chains [OF assms(1) r1] by simp_all
  then have n: "n = card (all_chains rules graph config now ps)" by (metis distinct_card)
  have "set (rs_visited st2) = set (rs_visited st1)" "distinct (rs_visited st2)" "length (rs_visited st2) = n + m"
    using score_round_chains [OF assms(1) r2 one(2)] one by simp_all
  then have "m = 0" using one by (metis add_cancel_left_right distinct_card)
  then show ?thesis
    using assms(2,3,4) r1 r2 k
    by (simp add: run_iterative_scoring_def Let_def n [symmetric])
qed

theorem iteration_is_one_pass_witness:
  "\<exists>w' stats. run_iterative_scoring (\<lambda>_. Some ''json'') (\<lambda>as. as) sample_graph [] risk_config_default
     iteration_config_default ''now'' [] = Inr (w', stats) \<and> converged stats \<and> it_total_principals stats = 1"
proof -
  have i: "ignores_writes sample_graph" by (simp add: ignores_writes_def sample_graph_def)
  have e: "enumerate_principals sample_graph [] =
      Inr [\<lparr>ep_principal_id = ''alice'', ep_permissions = permissions_of [(''sts:x'', ''*'')]\<rparr>]"
    by (simp add: enumerate_principals_def sample_graph_def List.map_filter_simps)
  show ?thesis
    using iteration_is_one_pass [OF i e, of iteration_config_default "[]" risk_config_default "''now''"]
    by (fastforce simp: iteration_config_default_def Let_def)
qed

end
