(* ===== verification/Risk_Catalog.thy ===== *)
theory Risk_Catalog
  imports Risk_Scoring
begin

section \<open>Service catalogue and rule fuzzing\<close>

text \<open>
  \<open>activable-risk/src/service_catalog.rs\<close> compares two snapshots of the action catalogue and assesses which
  wildcard policies grew with it; \<open>fuzzing.rs\<close> tries combinations of actions against the rules. A hash map is
  an association list with distinct keys; \<open>iter\<close> is the unspecified order of a hash set of strings.
\<close>

subsection \<open>Snapshots and their difference\<close>

record action_catalog_snapshot =
  acs_timestamp :: string
  acs_services :: "(string \<times> string list) list"
  total_action_count :: nat

record catalog_diff =
  from_timestamp :: string
  to_timestamp :: string
  new_services :: "string list"
  removed_services :: "string list"
  new_actions :: "(string \<times> string list) list"
  removed_actions :: "(string \<times> string list) list"
  total_new_actions :: nat
  total_removed_actions :: nat

definition create_snapshot :: "(string \<times> string list) list \<Rightarrow> string \<Rightarrow> action_catalog_snapshot" where
  "create_snapshot services timestamp =
     \<lparr>acs_timestamp = timestamp, acs_services = services,
      total_action_count = sum_list (map (\<lambda>(_, v). length v) services)\<rparr>"

definition service_actions :: "action_catalog_snapshot \<Rightarrow> string \<Rightarrow> string list" where
  "service_actions snap service =
     remdups (case map_of (acs_services snap) service of Some v \<Rightarrow> v | None \<Rightarrow> [])"

definition set_minus :: "(string list \<Rightarrow> string list) \<Rightarrow> string list \<Rightarrow> string list \<Rightarrow> string list" where
  "set_minus iter xs ys = iter (filter (\<lambda>x. x \<notin> set ys) xs)"

definition changed_actions ::
  "(string list \<Rightarrow> string list) \<Rightarrow> string list \<Rightarrow> action_catalog_snapshot \<Rightarrow> action_catalog_snapshot
     \<Rightarrow> (string \<times> string list) list" where
  "changed_actions iter common old new =
     filter (\<lambda>(s, as). as \<noteq> [])
       (map (\<lambda>s. (s, set_minus iter (service_actions new s) (service_actions old s))) common)"

definition counted_actions :: "action_catalog_snapshot \<Rightarrow> (string \<times> string list) list \<Rightarrow> string list \<Rightarrow> nat" where
  "counted_actions snap changed services =
     sum_list (map (\<lambda>(_, v). length v) changed) +
     sum_list (List.map_filter (\<lambda>s. map_option length (map_of (acs_services snap) s)) services)"

definition diff_catalogs ::
  "(string list \<Rightarrow> string list) \<Rightarrow> action_catalog_snapshot \<Rightarrow> action_catalog_snapshot \<Rightarrow> catalog_diff" where
  "diff_catalogs iter old new =
     (let from_services = map fst (acs_services old);
          to_services = map fst (acs_services new);
          news = set_minus iter to_services from_services;
          removed = set_minus iter from_services to_services;
          common = iter (filter (\<lambda>s. s \<in> set to_services) from_services);
          added_actions = changed_actions iter common old new;
          lost_actions = changed_actions iter common new old
      in \<lparr>from_timestamp = acs_timestamp old, to_timestamp = acs_timestamp new,
          new_services = news, removed_services = removed,
          new_actions = added_actions, removed_actions = lost_actions,
          total_new_actions = counted_actions new added_actions news,
          total_removed_actions = counted_actions old lost_actions removed\<rparr>)"

subsection \<open>Impact on wildcard policies\<close>

datatype expansion_severity = ExpCritical | ExpHigh | ExpMedium | ExpLow

record expansion_impact =
  affected_principal :: string
  wildcard_pattern :: string
  new_actions_covered :: "string list"
  exp_severity :: expansion_severity

definition classify_action_severity :: "string \<Rightarrow> expansion_severity" where
  "classify_action_severity act =
     (let action_lower = to_lowercase act in
      if list_ex (str_contains action_lower) [''iam'', ''role'', ''policy'', ''key'', ''credential'', ''password'']
      then ExpCritical
      else if list_ex (starts_with action_lower) [''put'', ''delete'', ''create'', ''update'', ''modify''] then ExpHigh
      else if list_ex (starts_with action_lower) [''get'', ''list'', ''describe'', ''fetch''] then ExpMedium
      else ExpLow)"

definition extract_service_from_wildcard :: "string \<Rightarrow> string option" where
  "extract_service_from_wildcard pat =
     (if pat = ''*'' then None else Some (to_lowercase (hd (split_on CHR '':'' pat))))"

fun expansion_key :: "expansion_severity \<Rightarrow> nat" where
  "expansion_key ExpCritical = 3"
| "expansion_key ExpHigh = 2"
| "expansion_key ExpMedium = 1"
| "expansion_key ExpLow = 0"

text \<open>\<open>max_by_key\<close> keeps the last of the greatest elements.\<close>

fun max_by_key :: "('a \<Rightarrow> nat) \<Rightarrow> 'a list \<Rightarrow> 'a option" where
  "max_by_key k [] = None"
| "max_by_key k (x # xs) =
     (case max_by_key k xs of None \<Rightarrow> Some x | Some y \<Rightarrow> Some (if k y < k x then x else y))"

definition covered_new_actions :: "catalog_diff \<Rightarrow> string \<Rightarrow> string list" where
  "covered_new_actions d pat =
     (if pat = ''*'' then concat (map snd (new_actions d))
      else case extract_service_from_wildcard pat of
          None \<Rightarrow> []
        | Some service \<Rightarrow> (case map_of (new_actions d) service of Some as \<Rightarrow> as | None \<Rightarrow> []))"

definition assess_expansion_impact :: "catalog_diff \<Rightarrow> (string \<times> string) list \<Rightarrow> expansion_impact list" where
  "assess_expansion_impact d wildcard_policies =
     List.map_filter (\<lambda>(principal_id, pat).
       let covered = covered_new_actions d pat in
       if covered = [] then None
       else Some \<lparr>affected_principal = principal_id, wildcard_pattern = pat, new_actions_covered = covered,
           exp_severity = (case max_by_key expansion_key (map classify_action_severity covered) of
               Some s \<Rightarrow> s | None \<Rightarrow> ExpLow)\<rparr>) wildcard_policies"

text \<open>The bonus of an impact without actions is the logarithm of 0, negative infinity, which then is the
  score.\<close>

definition severity_score :: "expansion_severity \<Rightarrow> real" where
  "severity_score s =
     (case s of ExpCritical \<Rightarrow> 4 / 10 | ExpHigh \<Rightarrow> 2 / 10 | ExpMedium \<Rightarrow> 1 / 10 | ExpLow \<Rightarrow> 5 / 100)"

definition impact_score :: "expansion_impact \<Rightarrow> real" where
  "impact_score i = severity_score (exp_severity i) + log 10 (real (length (new_actions_covered i))) * (1 / 10)"

definition compute_expansion_score :: "expansion_impact list \<Rightarrow> f64" where
  "compute_expansion_score impacts =
     (if impacts = [] then Finite 0
      else if list_ex (\<lambda>i. new_actions_covered i = []) impacts then NegInf
      else Finite (min (sum_list (map impact_score impacts) / real (length impacts)) 1))"

definition builtin_catalog :: action_catalog_snapshot where
  "builtin_catalog =
     create_snapshot
       [(''iam'', [''CreateUser'', ''DeleteUser'', ''CreateRole'', ''DeleteRole'', ''CreatePolicy'', ''DeletePolicy'',
          ''CreatePolicyVersion'', ''AttachUserPolicy'', ''DetachUserPolicy'', ''AttachRolePolicy'', ''PutUserPolicy'',
          ''PutRolePolicy'', ''CreateAccessKey'', ''PassRole'', ''TagUser'', ''TagRole'', ''UpdateAssumeRolePolicy'',
          ''AddUserToGroup'', ''CreateGroup'', ''CreateInstanceProfile'', ''ListUsers'', ''GetUser'', ''UpdateUser'',
          ''ListRoles'', ''GetRole'']),
        (''s3'', [''GetObject'', ''PutObject'', ''DeleteObject'', ''ListBucket'', ''CreateBucket'', ''DeleteBucket'',
          ''PutBucketPolicy'', ''GetBucketPolicy'', ''PutObjectTagging'', ''GetObjectTagging'', ''WriteAccessPoint'']),
        (''sts'', [''AssumeRole'', ''AssumeRoleWithSAML'', ''AssumeRoleWithWebIdentity'', ''GetSessionToken'',
          ''GetCallerIdentity'', ''GetFederationToken'']),
        (''ec2'', [''RunInstances'', ''TerminateInstances'', ''DescribeInstances'', ''CreateTags'', ''DeleteTags'',
          ''CreateSecurityGroup'']),
        (''lambda'', [''CreateFunction'', ''InvokeFunction'', ''UpdateFunctionCode'', ''AddPermission'', ''TagResource''])]
       ''2026-01-01T00:00:00Z''"

subsection \<open>Fuzzing\<close>

datatype fuzz_severity = FuzzCritical | FuzzHigh | FuzzMedium | FuzzLow

record fuzz_discovery =
  fd_actions :: "string list"
  fd_matched_rules :: "string list"
  is_novel :: bool
  fd_severity :: fuzz_severity

record fuzz_config =
  max_combo_size :: nat
  service_families :: "string list list"
  known_rule_ids :: "string list"

definition default_service_families :: "string list list" where
  "default_service_families =
     [[''iam:CreatePolicyVersion'', ''iam:AttachUserPolicy'', ''iam:PutUserPolicy'', ''iam:AttachRolePolicy'',
       ''iam:PutRolePolicy'', ''iam:CreateAccessKey'', ''iam:UpdateAssumeRolePolicy'', ''iam:AddUserToGroup''],
      [''iam:PassRole'', ''ec2:RunInstances'', ''lambda:CreateFunction'', ''lambda:InvokeFunction'',
       ''ecs:RegisterTaskDefinition'', ''ecs:RunTask'', ''codebuild:StartBuild''],
      [''sts:AssumeRole'', ''sts:AssumeRoleWithSAML'', ''sts:AssumeRoleWithWebIdentity'', ''sts:GetSessionToken'',
       ''sts:GetFederationToken''],
      [''s3:GetObject'', ''s3:PutObject'', ''s3:DeleteBucket'', ''s3:PutBucketPolicy'', ''kms:Decrypt'',
       ''kms:CreateGrant'', ''secretsmanager:GetSecretValue'']]"

definition fuzz_config_default :: fuzz_config where
  "fuzz_config_default =
     \<lparr>max_combo_size = 2, service_families = default_service_families, known_rule_ids = []\<rparr>"

definition generate_pairs :: "string list \<Rightarrow> (string \<times> string) list" where
  "generate_pairs family =
     concat (map (\<lambda>i. map (\<lambda>j. (family ! i, family ! j)) [i + 1..<length family]) [0..<length family])"

definition generate_triples :: "string list \<Rightarrow> (string \<times> string \<times> string) list" where
  "generate_triples family =
     concat (map (\<lambda>i. concat (map (\<lambda>j. map (\<lambda>k. (family ! i, family ! j, family ! k)) [j + 1..<length family])
       [i + 1..<length family])) [0..<length family])"

definition classify_discovery_severity :: "string list \<Rightarrow> fuzz_severity" where
  "classify_discovery_severity acts =
     (let has_admin = list_ex (\<lambda>a. a = ''*'' \<or> a = ''iam:*'') acts;
          has_dangerous = list_ex (\<lambda>a. starts_with a ''iam:Create'' \<or> starts_with a ''iam:Attach'' \<or>
            starts_with a ''iam:Put'' \<or> str_contains a ''PassRole'') acts
      in if has_admin then FuzzCritical else if has_dangerous then FuzzHigh else FuzzMedium)"

text \<open>The body of both loops of the fuzzer: one combination of actions.\<close>

definition probe :: "escalation_rule list \<Rightarrow> fuzz_config \<Rightarrow> string list \<Rightarrow> fuzz_discovery option" where
  "probe rules config acts =
     (let matched = match_all_rules rules (map (\<lambda>a. \<lparr>perm_action = a, perm_resource = ''*''\<rparr>) acts) in
      if matched = [] then None
      else
        let rule_ids = map mr_rule_id matched in
        Some \<lparr>fd_actions = acts, fd_matched_rules = rule_ids,
              is_novel = list_all (\<lambda>i. i \<notin> set (known_rule_ids config)) rule_ids,
              fd_severity = classify_discovery_severity acts\<rparr>)"

definition run_fuzzer :: "escalation_rule list \<Rightarrow> fuzz_config \<Rightarrow> fuzz_discovery list" where
  "run_fuzzer rules config =
     concat (map (\<lambda>family.
       List.map_filter (\<lambda>(a, b). probe rules config [a, b]) (generate_pairs family) @
       (if 3 \<le> max_combo_size config
        then List.map_filter (\<lambda>(a, b, c). probe rules config [a, b, c]) (generate_triples family)
        else [])) (service_families config))"

subsection \<open>The difference as a set of actions\<close>

text \<open>The pairs of service and action of a snapshot. A snapshot is well formed when its services are distinct and
  no service lists an action twice.\<close>

definition catalog_services :: "action_catalog_snapshot \<Rightarrow> string set" where
  "catalog_services snap = fst ` set (acs_services snap)"

definition actions_in :: "action_catalog_snapshot \<Rightarrow> string \<Rightarrow> string set" where
  "actions_in snap s = set (case map_of (acs_services snap) s of Some v \<Rightarrow> v | None \<Rightarrow> [])"

definition catalog_pairs :: "action_catalog_snapshot \<Rightarrow> (string \<times> string) set" where
  "catalog_pairs snap = Sigma (catalog_services snap) (actions_in snap)"

definition wf_catalog :: "action_catalog_snapshot \<Rightarrow> bool" where
  "wf_catalog snap \<longleftrightarrow> distinct (map fst (acs_services snap)) \<and> list_all (\<lambda>(_, v). distinct v) (acs_services snap)"

text \<open>An iteration order lists the same elements.\<close>

definition permutes :: "('a list \<Rightarrow> 'a list) \<Rightarrow> bool" where
  "permutes iter \<longleftrightarrow> (\<forall>xs. mset (iter xs) = mset xs)"

lemma permutes_facts:
  assumes "permutes iter"
  shows "set (iter xs) = set xs" "length (iter xs) = length xs" "distinct (iter xs) \<longleftrightarrow> distinct xs"
  using assms mset_eq_setD [of "iter xs" xs] mset_eq_length [of "iter xs" xs] mset_eq_imp_distinct_iff [of "iter xs" xs]
  by (simp_all add: permutes_def)

lemma set_service_actions: "set (service_actions snap s) = actions_in snap s"
  by (simp add: service_actions_def actions_in_def)

lemma actions_in_outside: "s \<notin> catalog_services snap \<Longrightarrow> actions_in snap s = {}"
  by (simp add: actions_in_def catalog_services_def map_of_eq_None_iff [THEN iffD2])

lemma set_minus_spec:
  assumes "permutes iter"
  shows "set (set_minus iter xs ys) = set xs - set ys" "distinct xs \<Longrightarrow> distinct (set_minus iter xs ys)"
  by (auto simp: set_minus_def permutes_facts [OF assms])

lemma changed_actions_spec:
  assumes "permutes iter"
  shows "{(s, a). \<exists>as. (s, as) \<in> set (changed_actions iter common old new) \<and> a \<in> set as} =
    Sigma (set common) (\<lambda>s. actions_in new s - actions_in old s)"
proof -
  let ?m = "\<lambda>s. set_minus iter (service_actions new s) (service_actions old s)"
  have "(s, as) \<in> set (changed_actions iter common old new) \<longleftrightarrow> s \<in> set common \<and> as = ?m s \<and> as \<noteq> []" for s as
    by (auto simp: changed_actions_def)
  moreover have "set (?m s) = actions_in new s - actions_in old s" for s
    by (simp add: set_minus_spec [OF assms] set_service_actions)
  ultimately have "(\<exists>as. (s, as) \<in> set (changed_actions iter common old new) \<and> a \<in> set as) \<longleftrightarrow>
      s \<in> set common \<and> a \<in> actions_in new s - actions_in old s" for s a
    by (metis (no_types, lifting) empty_iff list.set(1))
  then show ?thesis by auto
qed

lemma length_changed_actions:
  assumes "permutes iter" and "distinct common"
  shows "sum_list (map (\<lambda>(_, v). length v) (changed_actions iter common old new)) =
    (\<Sum>s\<in>set common. card (actions_in new s - actions_in old s))"
proof -
  let ?m = "\<lambda>s. set_minus iter (service_actions new s) (service_actions old s)"
  have "length (?m s) = card (actions_in new s - actions_in old s)" for s
    using distinct_card [OF set_minus_spec(2) [OF assms(1)], of "service_actions new s" "service_actions old s"]
    by (simp add: set_minus_spec(1) [OF assms(1)] set_service_actions) (simp add: service_actions_def)
  moreover have "sum_list (map (\<lambda>(_, v). length v) (changed_actions iter common old new)) =
      sum_list (map (\<lambda>s. length (?m s)) common)"
    by (induction common) (auto simp: changed_actions_def)
  ultimately show ?thesis using assms(2) by (simp add: sum_list_distinct_conv_sum_set)
qed

lemma length_service:
  assumes "wf_catalog snap" and "map_of (acs_services snap) s = Some v"
  shows "length v = card (actions_in snap s)"
proof -
  have "distinct v" using assms map_of_SomeD [OF assms(2)] by (auto simp: wf_catalog_def list_all_iff)
  then show ?thesis using assms(2) by (simp add: actions_in_def distinct_card)
qed

lemma sum_services:
  assumes "wf_catalog snap" and "set ss \<subseteq> catalog_services snap" and "distinct ss"
  shows "sum_list (List.map_filter (\<lambda>s. map_option length (map_of (acs_services snap) s)) ss) =
    (\<Sum>s\<in>set ss. card (actions_in snap s))"
  using assms(2,3)
proof (induction ss)
  case (Cons s ss)
  then obtain v where "map_of (acs_services snap) s = Some v"
    by (auto simp: catalog_services_def dest!: weak_map_of_SomeI)
  then show ?case using Cons length_service [OF assms(1)] by (simp add: List.map_filter_simps)
qed (simp add: List.map_filter_simps)

lemma counted_is_card:
  assumes "permutes iter" and "wf_catalog old" and "wf_catalog new"
    and "set common = catalog_services old \<inter> catalog_services new" and "distinct common"
    and "set news = catalog_services new - catalog_services old" and "distinct news"
  shows "counted_actions new (changed_actions iter common old new) news = card (catalog_pairs new - catalog_pairs old)"
proof -
  let ?d = "\<lambda>s. actions_in new s - actions_in old s"
  have fin: "finite (?d s)" for s unfolding actions_in_def by (intro finite_Diff finite_set)
  have "(\<Sum>s\<in>set news. card (actions_in new s)) = (\<Sum>s\<in>set news. card (?d s))"
    using assms(6) by (intro sum.cong) (auto simp: actions_in_outside)
  then have "counted_actions new (changed_actions iter common old new) news =
      (\<Sum>s\<in>set common. card (?d s)) + (\<Sum>s\<in>set news. card (?d s))"
    using assms length_changed_actions [OF assms(1,5)] sum_services [OF assms(3) _ assms(7)]
    by (simp add: counted_actions_def)
  also have "\<dots> = (\<Sum>s\<in>catalog_services new. card (?d s))"
    using assms(4,6) sum.union_disjoint [of "set common" "set news" "\<lambda>s. card (?d s)"]
    by (metis Int_Diff_disjoint Int_Diff_Un Int_commute finite_set)
  also have "\<dots> = card (Sigma (catalog_services new) ?d)"
    by (rule card_SigmaI [symmetric]) (simp_all add: catalog_services_def fin)
  also have "Sigma (catalog_services new) ?d = catalog_pairs new - catalog_pairs old"
    by (auto simp: catalog_pairs_def actions_in_outside) (metis actions_in_outside emptyE)
  finally show ?thesis .
qed

lemma common_services:
  assumes "permutes iter" and "wf_catalog old"
  shows "set (iter (filter (\<lambda>s. s \<in> set (map fst (acs_services new))) (map fst (acs_services old)))) =
      catalog_services old \<inter> catalog_services new"
    and "distinct (iter (filter (\<lambda>s. s \<in> set (map fst (acs_services new))) (map fst (acs_services old))))"
  using assms by (auto simp: permutes_facts [OF assms(1)] catalog_services_def wf_catalog_def)

lemma service_set_minus:
  assumes "permutes iter" and "wf_catalog snap"
  shows "set (set_minus iter (map fst (acs_services snap)) (map fst (acs_services other))) =
      catalog_services snap - catalog_services other"
    and "distinct (set_minus iter (map fst (acs_services snap)) (map fst (acs_services other)))"
  using assms by (auto simp: set_minus_spec [OF assms(1)] catalog_services_def wf_catalog_def)

subsection \<open>Combinations\<close>

lemma set_generate_pairs:
  "p \<in> set (generate_pairs f) \<longleftrightarrow> (\<exists>i j. i < j \<and> j < length f \<and> p = (f ! i, f ! j))"
proof
  assume "p \<in> set (generate_pairs f)"
  then obtain i j where "i < length f" "j \<in> {Suc i..<length f}" "p = (f ! i, f ! j)"
    by (auto simp: generate_pairs_def)
  then show "\<exists>i j. i < j \<and> j < length f \<and> p = (f ! i, f ! j)" by (intro exI [of _ i] exI [of _ j]) simp
next
  assume "\<exists>i j. i < j \<and> j < length f \<and> p = (f ! i, f ! j)"
  then obtain i j where "i < j" "j < length f" and p: "p = (f ! i, f ! j)" by blast
  then have "i \<in> set [0..<length f]" "j \<in> set [i + 1..<length f]" by simp_all
  then show "p \<in> set (generate_pairs f)"
    unfolding generate_pairs_def set_concat set_map p
    by - (rule UN_I [OF imageI], assumption, unfold set_map, rule imageI, assumption)
qed

text \<open>A combination that contains a discovered one is discovered too: what a triple adds to the pairs it contains
  can only be rules that need all three actions, or cascades.\<close>

lemma probe_mono:
  assumes "probe rules config acts = Some d" and "set acts \<subseteq> set acts'" and "length rules < 2 ^ 32"
  shows "\<exists>d'. probe rules config acts' = Some d' \<and> subseq (fd_matched_rules d) (fd_matched_rules d')"
proof -
  let ?perms = "map (\<lambda>a. \<lparr>perm_action = a, perm_resource = ''*''\<rparr>)"
  have s: "subseq (map mr_rule_id (match_all_rules rules (?perms acts))) (map mr_rule_id (match_all_rules rules (?perms acts')))"
    using subseq_map [OF fired_mono [OF _ assms(3), of "?perms acts" "?perms acts'"], of rule_id] assms(2)
    unfolding match_all_rules_ids by auto
  have "match_all_rules rules (?perms acts) \<noteq> []" and d: "fd_matched_rules d = map mr_rule_id (match_all_rules rules (?perms acts))"
    using assms(1) by (auto simp: probe_def Let_def split: if_splits)
  then have "match_all_rules rules (?perms acts') \<noteq> []" using s by auto
  then show ?thesis using s d by (simp add: probe_def Let_def)
qed

lemma catalog_diff_pairs:
  assumes "permutes iter" and "wf_catalog old" and "wf_catalog new"
  shows "{(s, a). \<exists>as. (s, as) \<in> set (new_actions (diff_catalogs iter old new)) \<and> a \<in> set as} =
    {(s, a) \<in> catalog_pairs new - catalog_pairs old. s \<in> catalog_services old}"
  unfolding Let_def diff_catalogs_def catalog_diff.select_convs changed_actions_spec [OF assms(1)]
    common_services(1) [OF assms(1,2)]
  by (auto simp: catalog_pairs_def)

subsection \<open>Properties\<close>

text \<open>The comparison of two snapshots is exact. New and removed services are the differences of the service
  sets; the new actions listed are the new pairs of service and action of the services both snapshots have; and
  the totals count all new and all removed pairs, those of new and of removed services included.\<close>

theorem catalog_diff_exact:
  assumes "permutes iter" and "wf_catalog old" and "wf_catalog new"
  shows "let d = diff_catalogs iter old new in
    set (new_services d) = catalog_services new - catalog_services old \<and>
    set (removed_services d) = catalog_services old - catalog_services new \<and>
    {(s, a). \<exists>as. (s, as) \<in> set (new_actions d) \<and> a \<in> set as} =
      {(s, a) \<in> catalog_pairs new - catalog_pairs old. s \<in> catalog_services old} \<and>
    {(s, a). \<exists>as. (s, as) \<in> set (removed_actions d) \<and> a \<in> set as} =
      {(s, a) \<in> catalog_pairs old - catalog_pairs new. s \<in> catalog_services new} \<and>
    total_new_actions d = card (catalog_pairs new - catalog_pairs old) \<and>
    total_removed_actions d = card (catalog_pairs old - catalog_pairs new)"
proof -
  note common = common_services [OF assms(1,2), of new]
  have flip: "catalog_services old \<inter> catalog_services new = catalog_services new \<inter> catalog_services old" by blast
  have pairs: "Sigma (catalog_services a \<inter> catalog_services b) (\<lambda>s. actions_in a s - actions_in b s) =
      {(s, x) \<in> catalog_pairs a - catalog_pairs b. s \<in> catalog_services b}" for a b
    by (auto simp: catalog_pairs_def)
  show ?thesis
    unfolding Let_def diff_catalogs_def catalog_diff.select_convs changed_actions_spec [OF assms(1)] common(1)
      service_set_minus(1) [OF assms(1,3)] service_set_minus(1) [OF assms(1,2)] pairs
      counted_is_card [OF assms common service_set_minus [OF assms(1,3), of old]]
      counted_is_card [OF assms(1,3,2) common(1) [unfolded flip] common(2) service_set_minus [OF assms(1,2), of new]]
    using pairs [of new old] by (simp add: flip pairs)
qed

theorem catalog_diff_exact_witness:
  "let d = diff_catalogs (\<lambda>xs. xs) (create_snapshot [(''s3'', [''GetObject''])] ''t0'')
        (create_snapshot [(''s3'', [''GetObject'', ''PutObject'']), (''sts'', [''AssumeRole''])] ''t1'') in
    total_new_actions d = 2 \<and> set (new_services d) = {''sts''}"
proof -
  let ?old = "create_snapshot [(''s3'', [''GetObject''])] ''t0''"
  let ?new = "create_snapshot [(''s3'', [''GetObject'', ''PutObject'']), (''sts'', [''AssumeRole''])] ''t1''"
  have wf: "permutes (\<lambda>xs :: string list. xs)" "wf_catalog ?old" "wf_catalog ?new"
    by (simp_all add: permutes_def wf_catalog_def create_snapshot_def)
  have pairs: "catalog_pairs ?new - catalog_pairs ?old = {(''s3'', ''PutObject''), (''sts'', ''AssumeRole'')}"
    "catalog_services ?new - catalog_services ?old = {''sts''}"
    by (auto simp: catalog_pairs_def catalog_services_def actions_in_def create_snapshot_def)
  show ?thesis using catalog_diff_exact [OF wf] unfolding Let_def pairs by simp
qed

text \<open>What the impact assessment looks at. The wildcard \<open>*\<close> is credited with the new actions of the services both
  snapshots have, and not with those of new services; any other pattern with all new actions of the service
  before its first colon, whatever action it names.\<close>

theorem impact_ignores_new_services:
  assumes "permutes iter" and "wf_catalog old" and "wf_catalog new"
  shows "set (covered_new_actions (diff_catalogs iter old new) ''*'') =
      snd ` {(s, a) \<in> catalog_pairs new - catalog_pairs old. s \<in> catalog_services old} \<and>
    (CHR '':'' \<notin> set pre \<and> pre \<noteq> ''*'' \<longrightarrow>
      covered_new_actions d (pre @ CHR '':'' # x) = covered_new_actions d (pre @ CHR '':'' # y))"
proof
  have "set (covered_new_actions (diff_catalogs iter old new) ''*'') =
      snd ` {(s, a). \<exists>as. (s, as) \<in> set (new_actions (diff_catalogs iter old new)) \<and> a \<in> set as}"
    by (force simp: covered_new_actions_def)
  then show "set (covered_new_actions (diff_catalogs iter old new) ''*'') =
      snd ` {(s, a) \<in> catalog_pairs new - catalog_pairs old. s \<in> catalog_services old}"
    using catalog_diff_pairs [OF assms] by simp
qed (auto simp: covered_new_actions_def extract_service_from_wildcard_def split_on_append append_eq_Cons_conv
      append_eq_append_conv2)

text \<open>The score of the impacts the assessment finds lies between 0 and 1, and is 0 exactly when there are none.\<close>

theorem expansion_score_bounds:
  "\<exists>s. compute_expansion_score (assess_expansion_impact d policies) = Finite s \<and> 0 \<le> s \<and> s \<le> 1 \<and>
     (s = 0 \<longleftrightarrow> assess_expansion_impact d policies = [])"
proof -
  let ?is = "assess_expansion_impact d policies"
  have ne: "new_actions_covered i \<noteq> []" if "i \<in> set ?is" for i
    using that by (auto simp: assess_expansion_impact_def List.map_filter_def Let_def split: if_splits)
  have pos: "0 < impact_score i" if "i \<in> set ?is" for i
  proof -
    have "0 < length (new_actions_covered i)" using ne [OF that] by simp
    then have "0 < real (length (new_actions_covered i)) \<and> 1 \<le> real (length (new_actions_covered i))" by linarith
    then have "0 \<le> log 10 (real (length (new_actions_covered i)))" by simp
    moreover have "0 < severity_score (exp_severity i)" by (simp add: severity_score_def split: expansion_severity.split)
    ultimately show ?thesis by (simp add: impact_score_def add_pos_nonneg)
  qed
  show ?thesis
  proof (cases "?is = []")
    case False
    then have "0 < sum_list (map impact_score ?is)"
      using pos by (cases "?is") (auto intro!: add_pos_nonneg sum_list_nonneg simp: less_imp_le)
    then have "0 < sum_list (map impact_score ?is) / real (length ?is)" using False by simp
    moreover have "\<not> list_ex (\<lambda>i. new_actions_covered i = []) ?is" using ne by (auto simp: list_ex_iff)
    ultimately show ?thesis using False by (simp add: compute_expansion_score_def)
  qed (simp add: compute_expansion_score_def)
qed

end
