(* ===== verification/Job_Lifecycle.thy ===== *)
theory Job_Lifecycle
  imports Scheduler
begin

section \<open>The life of a job\<close>

text \<open>
  What the job table promises of each job, as a small machine on the phases of jobs, and the proof that the system of
  workers, statements and reaper implements it. The machine does not know rows, statements, time or the other columns.
  With \<open>strict\<close> it is the machine one wants; without, a job may also be completed out of any phase, because the
  statement that completes a job has no guard on its status.
\<close>

datatype phase = Queued int | Held string int | Succeeded | Dead

text \<open>A job with the limit on its attempts and its phase; the attempts made are those of the phase.\<close>

type_synonym lifecycle = "uuid \<Rightarrow> (int \<times> phase) option"

inductive life_step :: "bool \<Rightarrow> lifecycle \<Rightarrow> lifecycle \<Rightarrow> bool" for strict where
  submit: "m j = None \<Longrightarrow> life_step strict m (m(j \<mapsto> (bound, Queued 0)))"
| take_up: "m j = Some (bound, Queued a) \<Longrightarrow> a < max 1 bound \<Longrightarrow> life_step strict m (m(j \<mapsto> (bound, Held w (a + 1))))"
| succeed: "m j = Some (bound, Held w a) \<Longrightarrow> life_step strict m (m(j \<mapsto> (bound, Succeeded)))"
| retry: "m j = Some (bound, Held w a) \<Longrightarrow> a < bound \<Longrightarrow> life_step strict m (m(j \<mapsto> (bound, Queued a)))"
| give_up: "m j = Some (bound, Held w a) \<Longrightarrow> life_step strict m (m(j \<mapsto> (bound, Dead)))"
| late_result: "\<not> strict \<Longrightarrow> m j = Some (bound, p) \<Longrightarrow> life_step strict m (m(j \<mapsto> (bound, Succeeded)))"

inductive_cases life_stepE: "life_step strict m m'"

subsection \<open>The abstraction\<close>

definition phase_of :: "job_row \<Rightarrow> phase" where
  "phase_of row =
     (if status row = ''pending'' then Queued (attempts row)
      else if status row = ''running'' then Held (case claimed_by row of Some w \<Rightarrow> w | None \<Rightarrow> []) (attempts row)
      else if status row = ''completed'' then Succeeded
      else Dead)"

definition job_entry :: "job_row \<Rightarrow> int \<times> phase" where
  "job_entry row = (max_attempts row, phase_of row)"

definition lifecycle_of :: "job_table \<Rightarrow> lifecycle" where
  "lifecycle_of tbl = (\<lambda>j. map_option job_entry (find (\<lambda>row. job_id row = j) tbl))"

subsection \<open>Lemmas\<close>

context row_update
begin

lemma lifecycle_update:
  assumes "find (\<lambda>x. job_id x = k) tbl = Some row" and "g row"
  shows "lifecycle_of (update_where (\<lambda>x. job_id x = k \<and> g x) upd tbl) = (lifecycle_of tbl)(k \<mapsto> job_entry (upd row))"
proof
  fix j
  show "lifecycle_of (update_where (\<lambda>x. job_id x = k \<and> g x) upd tbl) j = ((lifecycle_of tbl)(k \<mapsto> job_entry (upd row))) j"
  proof (cases "find (\<lambda>x. job_id x = j) tbl")
    case None
    then show ?thesis using assms by (auto simp: lifecycle_of_def find_update)
  next
    case (Some x)
    then have "job_id x = j" by (auto simp: find_Some_iff)
    then show ?thesis using assms Some by (auto simp: lifecycle_of_def find_update)
  qed
qed

lemmas lifecycle_update_all = lifecycle_update [where g = "\<lambda>_. True", simplified]

end

lemma lifecycle_row:
  "table_ok tbl \<Longrightarrow> row \<in> set tbl \<Longrightarrow> lifecycle_of tbl (job_id row) = Some (job_entry row)"
  by (simp add: lifecycle_of_def find_id)

lemma lifecycle_append:
  assumes "job_id row \<notin> job_id ` set tbl"
  shows "lifecycle_of tbl (job_id row) = None"
    and "lifecycle_of (tbl @ [row]) = (lifecycle_of tbl)(job_id row \<mapsto> job_entry row)"
proof -
  have none: "find (\<lambda>x. job_id x = job_id row) tbl = None"
    unfolding find_None_iff using assms by (metis image_eqI)
  then show "lifecycle_of tbl (job_id row) = None"
    by (simp add: lifecycle_of_def)
  show "lifecycle_of (tbl @ [row]) = (lifecycle_of tbl)(job_id row \<mapsto> job_entry row)"
    using none by (auto simp: lifecycle_of_def find_append fun_eq_iff split: option.split)
qed

lemma lifecycle_enqueue:
  assumes "enqueue tbl now new_id jt pl dk prio m = Inr (r, tbl')"
  shows "lifecycle_of tbl' = lifecycle_of tbl \<or> life_step strict (lifecycle_of tbl) (lifecycle_of tbl')"
proof (cases "dedup_conflict tbl jt dk")
  case False
  then obtain row where "tbl' = tbl @ [row]" "job_id row \<notin> job_id ` set tbl" "job_entry row = (m, Queued 0)"
    using assms by (fastforce simp: enqueue_def list_ex_iff job_entry_def phase_of_def split: if_splits)
  then show ?thesis
    using submit [of "lifecycle_of tbl" "job_id row" strict m] lifecycle_append [of row tbl] by simp
qed (use assms in \<open>simp add: enqueue_def\<close>)

lemma lifecycle_claim:
  assumes "table_ok tbl" and "claim tbl now locked jts w = Inr (r, tbl')"
  shows "lifecycle_of tbl' = lifecycle_of tbl \<or> life_step strict (lifecycle_of tbl) (lifecycle_of tbl')"
  using claim_cases [OF assms(1), of now locked jts w]
proof (elim disjE bexE exE conjE)
  fix row j assume row: "row \<in> set tbl" "claimable now locked jts row"
    and c: "claim tbl now locked jts w =
      Inr (Some j, update_where (\<lambda>x. job_id x = job_id row) (claim_update now w) tbl)"
  have l: "lifecycle_of tbl' = (lifecycle_of tbl)(job_id row \<mapsto> job_entry (claim_update now w row))"
    using c assms(2) claim_row.lifecycle_update_all [OF find_id [OF assms(1) row(1)]] by simp
  have v: "valid_row row" "status row = ''pending''"
    using row assms(1) by (auto simp: table_ok_def list_all_iff claimable_def)
  then have "attempts row < max 1 (max_attempts row)"
    by (auto simp: valid_row_def)
  moreover have "lifecycle_of tbl (job_id row) = Some (max_attempts row, Queued (attempts row))"
    using lifecycle_row [OF assms(1) row(1)] v(2) by (simp add: job_entry_def phase_of_def)
  moreover have "job_entry (claim_update now w row) = (max_attempts row, Held w (attempts row + 1))"
    by (simp add: job_entry_def phase_of_def claim_update_def)
  ultimately show ?thesis using take_up l by metis
qed (use assms in simp)

lemma lifecycle_fail:
  assumes "table_ok tbl" and "fail tbl now base r jid err re = Inr (j, tbl')"
  shows "life_step strict (lifecycle_of tbl) (lifecycle_of tbl')"
proof -
  let ?upd = "\<lambda>row. fail_update now (backoff_us base r (attempts row)) err re row"
  obtain row where row: "find (\<lambda>row. job_id row = jid \<and> status row = ''running'') tbl = Some row"
    and tbl': "tbl' = update_where (\<lambda>x. job_id x = jid \<and> status x = ''running'') ?upd tbl"
    using assms(2) by (auto simp: fail_def Let_def res_iffs split: option.splits)
  have mem: "row \<in> set tbl" "job_id row = jid" "status row = ''running''"
    using row by (auto simp: find_Some_iff)
  have l: "lifecycle_of tbl' = (lifecycle_of tbl)(jid \<mapsto> job_entry (?upd row))"
    using fail_row.lifecycle_update [OF find_id [OF assms(1) mem(1)], where g = "\<lambda>x. status x = ''running''"] mem tbl'
    by simp
  obtain w where held: "lifecycle_of tbl jid = Some (max_attempts row, Held w (attempts row))"
    using lifecycle_row [OF assms(1) mem(1)] mem by (simp add: job_entry_def phase_of_def)
  have "job_entry (?upd row) =
      (max_attempts row, if re \<and> attempts row < max_attempts row then Queued (attempts row) else Dead)"
    using mem(3) by (simp add: job_entry_def phase_of_def fail_update_def)
  then show ?thesis
    using l retry [of "lifecycle_of tbl" jid, OF held, of strict] give_up [of "lifecycle_of tbl" jid, OF held, of strict]
    by (simp split: if_splits)
qed

lemma lifecycle_complete:
  assumes "table_ok tbl" and "complete tbl now jid res = Inr (j, tbl')"
    and "strict \<Longrightarrow> \<exists>row\<in>set tbl. owned_row row jid w"
  shows "life_step strict (lifecycle_of tbl) (lifecycle_of tbl')"
proof -
  obtain row where row: "find (\<lambda>row. job_id row = jid) tbl = Some row"
    and tbl': "tbl' = update_where (\<lambda>x. job_id x = jid) (complete_update now res) tbl"
    using assms(2) by (auto simp: complete_def res_iffs split: option.splits)
  have mem: "row \<in> set tbl" "job_id row = jid"
    using row by (auto simp: find_Some_iff)
  have l: "lifecycle_of tbl' = (lifecycle_of tbl)(jid \<mapsto> (max_attempts row, Succeeded))"
    using complete_row.lifecycle_update_all [OF row] tbl'
    by (simp add: job_entry_def phase_of_def complete_update_def)
  have here: "lifecycle_of tbl jid = Some (max_attempts row, phase_of row)"
    using lifecycle_row [OF assms(1) mem(1)] mem by (simp add: job_entry_def)
  show ?thesis
  proof (cases strict)
    case True
    then obtain owned where owned: "owned \<in> set tbl" "owned_row owned jid w"
      using assms(3) by blast
    have "row = owned"
      by (rule unique_row [OF assms(1) mem(1) owned(1)]) (use mem(2) owned(2) in \<open>simp add: owned_row_def\<close>)
    then have "status row = ''running''"
      using owned(2) by (simp add: owned_row_def)
    then show ?thesis
      using here l succeed [of "lifecycle_of tbl" jid "max_attempts row"] by (simp add: phase_of_def)
  next
    case False
    then show ?thesis
      using late_result [of strict "lifecycle_of tbl" jid, OF False here] by (simp add: l)
  qed
qed

lemma lifecycle_heartbeat: "lifecycle_of (update_heartbeat tbl now k) = lifecycle_of tbl"
proof
  fix j
  show "lifecycle_of (update_heartbeat tbl now k) j = lifecycle_of tbl j"
    by (cases "find (\<lambda>x. job_id x = j) tbl")
      (auto simp: lifecycle_of_def update_heartbeat_def heartbeat_row.find_update heartbeat_update_def job_entry_def
        phase_of_def)
qed

lemma lifecycle_finish:
  assumes "table_ok tbl" and "strict \<Longrightarrow> \<exists>row\<in>set tbl. owned_row row jid w"
  shows "lifecycle_of (finish_job tbl now base r jid outcome) = lifecycle_of tbl \<or>
    life_step strict (lifecycle_of tbl) (lifecycle_of (finish_job tbl now base r jid outcome))"
  using lifecycle_fail [OF assms(1), of now base r jid _ _ _ _ strict] lifecycle_complete [OF assms(1) _ assms(2), of now]
  by (cases outcome) (auto simp: finish_job_def Let_def split: handler_outcome.split sum.split)

lemma lifecycle_reap:
  assumes "table_ok tbl"
  shows "lifecycle_of (snd (reap_one now base r jid (n, tbl))) = lifecycle_of tbl \<or>
    life_step strict (lifecycle_of tbl) (lifecycle_of (snd (reap_one now base r jid (n, tbl))))"
  using lifecycle_fail [OF assms, of now base r jid _ _ _ _ strict] by (auto simp: reap_one_def split: sum.split)

lemma lifecycle_event:
  assumes "exec_event cfg e s = Some s'" and "table_ok (table s)"
    and "strict \<Longrightarrow> holds_owned s" and "strict \<Longrightarrow> no_reaping e"
  shows "lifecycle_of (table s') = lifecycle_of (table s) \<or> life_step strict (lifecycle_of (table s)) (lifecycle_of (table s'))"
proof (cases e)
  case (Enqueue new_id jt pl dk prio m)
  then show ?thesis
    using assms(1) lifecycle_enqueue by (fastforce split: if_splits sum.splits)
next
  case (Claim w locked)
  then show ?thesis
    using assms(1) lifecycle_claim [OF assms(2)] by (fastforce split: if_splits sum.splits option.splits)
next
  case (Heartbeat w)
  then show ?thesis
    using assms(1) by (auto simp: lifecycle_heartbeat split: option.splits)
next
  case (Finish w r outcome)
  then obtain jid where jid: "working s w = Some jid"
    and s': "table s' = finish_job (table s) (clock s) (cfg_base cfg) r jid outcome"
    using assms(1) by (auto split: option.splits)
  have "strict \<Longrightarrow> \<exists>row\<in>set (table s). owned_row row jid w"
    using holds_ownedD [OF assms(3) jid] by blast
  then show ?thesis
    using lifecycle_finish [OF assms(2)] unfolding s' by blast
next
  case (Reap r)
  then show ?thesis
    using assms(1) lifecycle_reap [OF assms(2)] by (fastforce split: list.splits)
qed (use assms(1) in \<open>auto split: if_splits\<close>)

text \<open>
  C29: the job system refines the machine of job lives. Every event of a reachable system, whatever the interleaving
  of workers and reaper, leaves the lives of all jobs as they are or is one step of the machine, which touches one job;
  as long as no reaper runs it is a step of the strict machine, in which only the holder of a job ends its attempt and
  a job that has succeeded or is dead stays so.
\<close>

theorem jobs_refine_lifecycle:
  assumes "reachable cfg (\<lambda>e. strict \<longrightarrow> no_reaping e) s" and "strict \<longrightarrow> no_reaping e"
    and "exec_event cfg e s = Some s'"
  shows "(life_step strict)\<^sup>=\<^sup>= (lifecycle_of (table s)) (lifecycle_of (table s'))"
proof -
  have "holds_owned s" if strict
    using assms(1) that by (intro reachable_holds_owned [of cfg]) simp
  then show ?thesis
    using lifecycle_event [OF assms(3) reachable_table_ok [OF assms(1)], of strict] assms(2) by auto
qed

text \<open>In the strict machine the final phases are final, and attempts never pass their limit.\<close>

lemma strict_final:
  assumes "life_step True m m'" and "m j = Some (bound, p)" and "p = Succeeded \<or> p = Dead"
  shows "m' j = m j"
  using assms by (auto elim!: life_stepE)

theorem jobs_refine_lifecycle_witness:
  "\<exists>s s' e. exec_event demo_cfg e s = Some s' \<and> lifecycle_of (table s) \<noteq> lifecycle_of (table s') \<and>
     (life_step True)\<^sup>=\<^sup>= (lifecycle_of (table s)) (lifecycle_of (table s'))"
proof -
  let ?es = "[Enqueue 1 ''ingest'' JNull None 0 3]" and ?e = "Claim ''A'' []"
  have "case run demo_cfg ?es (init_system 0) of
      Some s \<Rightarrow> (case exec_event demo_cfg ?e s of Some s' \<Rightarrow> lifecycle_of (table s) 1 \<noteq> lifecycle_of (table s') 1 | None \<Rightarrow> False)
    | None \<Rightarrow> False"
    by code_simp
  then obtain s s' where s: "run demo_cfg ?es (init_system 0) = Some s" "exec_event demo_cfg ?e s = Some s'"
      "lifecycle_of (table s) 1 \<noteq> lifecycle_of (table s') 1"
    by (auto split: option.splits)
  have "reachable demo_cfg (\<lambda>e. True \<longrightarrow> no_reaping e) s"
    by (rule run_reachable [OF s(1)]) (simp_all add: no_reaping_def reachable_init)
  moreover have "True \<longrightarrow> no_reaping ?e"
    by (simp add: no_reaping_def)
  ultimately have "(life_step True)\<^sup>=\<^sup>= (lifecycle_of (table s)) (lifecycle_of (table s'))"
    using s(2) by (rule jobs_refine_lifecycle)
  then show ?thesis
    using s by metis
qed

end
