(* ===== verification/Scheduler_Loops.thy ===== *)
theory Scheduler_Loops
  imports Scheduler
begin

section \<open>The loops of the scheduler\<close>

text \<open>
  The rest of \<open>worker.rs\<close>, \<open>reaper.rs\<close>, \<open>registry.rs\<close> and \<open>scheduler.rs\<close>: the builder of a scheduler, the pool of
  workers, and the loops of a worker and of the reaper. A loop is a function of its turns: what it reads of the
  shutdown flag, the clock and the random numbers each time round. A loop that runs alone does what a run of the
  concurrent system does.
\<close>

subsection \<open>The registry and the builder\<close>

definition registry_new :: handlers where
  "registry_new = []"

definition registry_len :: "handlers \<Rightarrow> nat" where
  "registry_len hs = length hs"

definition registry_is_empty :: "handlers \<Rightarrow> bool" where
  "registry_is_empty hs \<longleftrightarrow> hs = []"

record scheduler_builder =
  sb_registry :: handlers
  sb_concurrency :: nat
  sb_poll_ms :: nat
  sb_heartbeat_seconds :: nat
  sb_reap_threshold_seconds :: int
  sb_reap_check_seconds :: nat

definition builder_new :: scheduler_builder where
  "builder_new = \<lparr>sb_registry = registry_new, sb_concurrency = 2, sb_poll_ms = 500, sb_heartbeat_seconds = 5,
     sb_reap_threshold_seconds = 60, sb_reap_check_seconds = 10\<rparr>"

definition builder_register :: "string \<Rightarrow> (json \<Rightarrow> handler_outcome) \<Rightarrow> scheduler_builder \<Rightarrow> scheduler_builder" where
  "builder_register jt h b = b\<lparr>sb_registry := register (sb_registry b) jt h\<rparr>"

definition builder_concurrency :: "nat \<Rightarrow> scheduler_builder \<Rightarrow> scheduler_builder" where
  "builder_concurrency n b = b\<lparr>sb_concurrency := n\<rparr>"

definition builder_poll_ms :: "nat \<Rightarrow> scheduler_builder \<Rightarrow> scheduler_builder" where
  "builder_poll_ms ms b = b\<lparr>sb_poll_ms := ms\<rparr>"

definition builder_heartbeat_interval :: "nat \<Rightarrow> scheduler_builder \<Rightarrow> scheduler_builder" where
  "builder_heartbeat_interval secs b = b\<lparr>sb_heartbeat_seconds := secs\<rparr>"

definition builder_reap_threshold_seconds :: "int \<Rightarrow> scheduler_builder \<Rightarrow> scheduler_builder" where
  "builder_reap_threshold_seconds secs b = b\<lparr>sb_reap_threshold_seconds := secs\<rparr>"

definition builder_reap_check_interval :: "nat \<Rightarrow> scheduler_builder \<Rightarrow> scheduler_builder" where
  "builder_reap_check_interval secs b = b\<lparr>sb_reap_check_seconds := secs\<rparr>"

definition builder_build :: "scheduler_builder \<Rightarrow> scheduler_error + scheduler" where
  "builder_build b = build (sb_registry b) (sb_concurrency b) (sb_reap_threshold_seconds b)"

subsection \<open>The pool of workers\<close>

record worker_pool =
  wp_handlers :: handlers
  wp_concurrency :: nat
  wp_shutdown :: bool
  wp_workers :: "string list"
  wp_heartbeat_seconds :: nat
  wp_poll_ms :: nat

definition pool_new :: "handlers \<Rightarrow> nat \<Rightarrow> worker_pool" where
  "pool_new hs n = \<lparr>wp_handlers = hs, wp_concurrency = n, wp_shutdown = False, wp_workers = [],
     wp_heartbeat_seconds = 5, wp_poll_ms = 100\<rparr>"

definition with_heartbeat_interval :: "nat \<Rightarrow> worker_pool \<Rightarrow> worker_pool" where
  "with_heartbeat_interval secs p = p\<lparr>wp_heartbeat_seconds := secs\<rparr>"

definition with_poll_ms :: "nat \<Rightarrow> worker_pool \<Rightarrow> worker_pool" where
  "with_poll_ms ms p = p\<lparr>wp_poll_ms := ms\<rparr>"

definition generate_worker_id :: "string option \<Rightarrow> nat \<Rightarrow> string" where
  "generate_worker_id hostname i =
     ''worker-'' @ (case hostname of Some h \<Rightarrow> h | None \<Rightarrow> ''unknown'') @ ''-'' @ show_nat i"

definition pool_start :: "string option \<Rightarrow> worker_pool \<Rightarrow> worker_pool" where
  "pool_start hostname p =
     p\<lparr>wp_workers := wp_workers p @ map (generate_worker_id hostname) [0..<wp_concurrency p]\<rparr>"

definition pool_shutdown :: "worker_pool \<Rightarrow> worker_pool" where
  "pool_shutdown p = p\<lparr>wp_shutdown := True, wp_workers := []\<rparr>"

text \<open>The ids of one start are distinct; a pool started a second time, or by another process of the host, has the
  same ones.\<close>

lemma generate_worker_id_inj: "generate_worker_id hostname i = generate_worker_id hostname j \<longleftrightarrow> i = j"
  by (simp add: generate_worker_id_def show_nat_inj)

lemma worker_ids_distinct: "distinct (wp_workers (pool_start hostname (pool_new hs n)))"
  by (simp add: pool_start_def pool_new_def distinct_map inj_on_def generate_worker_id_inj)

subsection \<open>The loops\<close>

type_synonym worker_turn = "bool \<times> time \<times> time \<times> rat"

fun worker_run :: "handlers \<Rightarrow> rat \<Rightarrow> string \<Rightarrow> worker_turn list \<Rightarrow> job_table \<Rightarrow> job_table" where
  "worker_run hs base w [] tbl = tbl"
| "worker_run hs base w ((down, now, later, r) # turns) tbl =
     (case worker_iteration hs base down w now later r tbl of
        (False, tbl') \<Rightarrow> tbl'
      | (True, tbl') \<Rightarrow> worker_run hs base w turns tbl')"

fun reaper_run :: "string list \<Rightarrow> int \<Rightarrow> rat \<Rightarrow> (bool \<times> time \<times> (uuid \<Rightarrow> rat)) list \<Rightarrow> job_table \<Rightarrow> job_table" where
  "reaper_run jts threshold base [] tbl = tbl"
| "reaper_run jts threshold base ((down, now, rnd) # turns) tbl =
     (if down then tbl else reaper_run jts threshold base turns (snd (reaper_tick jts threshold base rnd now tbl)))"

text \<open>The clock does not go back.\<close>

fun worker_turns_from :: "time \<Rightarrow> worker_turn list \<Rightarrow> bool" where
  "worker_turns_from t [] = True"
| "worker_turns_from t ((down, now, later, r) # turns) \<longleftrightarrow> t \<le> now \<and> now \<le> later \<and> worker_turns_from later turns"

fun reaper_turns_from :: "time \<Rightarrow> (bool \<times> time \<times> (uuid \<Rightarrow> rat)) list \<Rightarrow> bool" where
  "reaper_turns_from t [] = True"
| "reaper_turns_from t ((down, now, rnd) # turns) \<longleftrightarrow> t \<le> now \<and> reaper_turns_from now turns"

lemma run_append: "run cfg (es @ fs) s = Option.bind (run cfg es s) (run cfg fs)"
  by (induction es arbitrary: s) (simp_all split: Option.bind_split)

lemma worker_iteration_is_run:
  assumes "working s w = None" and "clock s \<le> now" and "now \<le> later"
    and "cfg_types cfg = registered_types hs" and "cfg_base cfg = base"
  shows "\<exists>es s'. run cfg es s = Some s' \<and> list_all no_reaping es \<and> working s' = working s \<and> clock s' = later \<and>
     table s' = snd (worker_iteration hs base down w now later r (table s))"
proof -
  let ?s = "s\<lparr>clock := now\<rparr>"
  have idle: "(working s)(w := None) = working s" using assms(1) by (simp add: fun_upd_idem)
  have tick: "exec_event cfg (Tick (now - clock s)) s = Some ?s" using assms(2) by simp
  have stay: ?thesis if "table s = snd (worker_iteration hs base down w now later r (table s))"
    using that assms(2,3)
    by (intro exI [of _ "[Tick (later - clock s)]"] exI [of _ "s\<lparr>clock := later\<rparr>"]) (simp add: no_reaping_def)
  show ?thesis
  proof (cases "down \<or> (\<exists>e. claim (table s) now [] (registered_types hs) w = Inl e)")
    case True
    then show ?thesis by (intro stay) (auto simp: worker_iteration_def)
  next
    case False
    then obtain m tbl where c: "claim (table s) now [] (registered_types hs) w = Inr (m, tbl)" "\<not> down"
      by (cases "claim (table s) now [] (registered_types hs) w") auto
    show ?thesis
    proof (cases m)
      case None
      let ?es = "[Tick (now - clock s), Claim w [], Tick (later - now)]"
      have "run cfg ?es s = Some (s\<lparr>table := tbl, clock := later\<rparr>)"
        using assms c None by simp
      moreover have "list_all no_reaping ?es" by (simp add: no_reaping_def)
      ultimately show ?thesis
        using c None by (intro exI [of _ ?es] exI [of _ "s\<lparr>table := tbl, clock := later\<rparr>"]) (simp add: worker_iteration_def)
    next
      case (Some j)
      let ?outcome = "map_option (\<lambda>h. h (payload j)) (get_handler hs (job_type j))"
      let ?es = "[Tick (now - clock s), Claim w [], Tick (later - now), Finish w r ?outcome]"
      let ?s' = "s\<lparr>table := finish_job tbl later base r (job_id j) ?outcome, clock := later, working := working s\<rparr>"
      have "run cfg ?es s = Some ?s'"
        using assms c Some idle by simp
      moreover have "list_all no_reaping ?es" by (simp add: no_reaping_def)
      ultimately show ?thesis
        using c Some by (intro exI [of _ ?es] exI [of _ ?s']) (simp add: worker_iteration_def)
    qed
  qed
qed

text \<open>What the loop of a worker does to the table while nothing else runs, a run of the system does.\<close>

theorem worker_run_is_run:
  assumes "working s w = None" and "worker_turns_from (clock s) turns"
    and "cfg_types cfg = registered_types hs" and "cfg_base cfg = base"
  shows "\<exists>es s'. run cfg es s = Some s' \<and> list_all no_reaping es \<and> table s' = worker_run hs base w turns (table s)"
  using assms(1,2)
proof (induction turns arbitrary: s)
  case Nil
  show ?case by (intro exI [of _ "[]"] exI [of _ s]) simp
next
  case (Cons turn turns)
  obtain down now later r where turn: "turn = (down, now, later, r)" by (cases turn)
  obtain es s1 where one: "run cfg es s = Some s1" "list_all no_reaping es" "working s1 = working s" "clock s1 = later"
    "table s1 = snd (worker_iteration hs base down w now later r (table s))"
    using worker_iteration_is_run [OF Cons.prems(1) _ _ assms(3,4), of now later down r] Cons.prems(2) turn by auto
  obtain go tbl where it: "worker_iteration hs base down w now later r (table s) = (go, tbl)"
    by (cases "worker_iteration hs base down w now later r (table s)")
  obtain fs s2 where rest: "run cfg fs s1 = Some s2" "list_all no_reaping fs" "table s2 = worker_run hs base w turns (table s1)"
    using Cons.IH [of s1] Cons.prems turn one by auto
  show ?case
  proof (cases go)
    case True
    then show ?thesis
      using one rest it turn by (intro exI [of _ "es @ fs"] exI [of _ s2]) (simp add: run_append)
  next
    case False
    then show ?thesis
      using one it turn by (intro exI [of _ es] exI [of _ s1]) simp
  qed
qed

lemma reap_fold_is_run:
  assumes "stale_ids s = ids"
  shows "run cfg (map (\<lambda>i. Reap (rnd i)) ids) s = Some (s\<lparr>stale_ids := [],
    table := snd (fold (\<lambda>jid. reap_one (clock s) (cfg_base cfg) (rnd jid) jid) ids (n, table s))\<rparr>)"
  using assms
proof (induction ids arbitrary: s n)
  case (Cons i ids)
  have count: "snd (reap_one now base r jid (n, tbl)) = snd (reap_one now base r jid (0, tbl))" for now base r jid tbl
    by (simp add: reap_one_def split: sum.split)
  let ?s = "s\<lparr>table := snd (reap_one (clock s) (cfg_base cfg) (rnd i) i (n, table s)), stale_ids := ids\<rparr>"
  have "exec_event cfg (Reap (rnd i)) s = Some ?s" using Cons.prems count by simp
  then show ?case
    using Cons.IH [of ?s "fst (reap_one (clock s) (cfg_base cfg) (rnd i) i (n, table s))"] by simp
qed simp

text \<open>And so for the reaper.\<close>

theorem reaper_run_is_run:
  assumes "stale_ids s = []" and "reaper_turns_from (clock s) turns"
  shows "\<exists>es s'. run cfg es s = Some s' \<and> stale_ids s' = [] \<and> working s' = working s \<and>
    table s' = reaper_run (cfg_types cfg) (cfg_threshold cfg) (cfg_base cfg) turns (table s)"
  using assms
proof (induction turns arbitrary: s)
  case Nil
  then show ?case by (intro exI [of _ "[]"] exI [of _ s]) simp
next
  case (Cons turn turns)
  obtain down now rnd where turn: "turn = (down, now, rnd)" by (cases turn)
  show ?case
  proof (cases down)
    case True
    then show ?thesis using Cons.prems turn by (intro exI [of _ "[]"] exI [of _ s]) simp
  next
    case False
    let ?ids = "find_stale_running (table s) now (cfg_types cfg) (cfg_threshold cfg)"
    let ?s = "s\<lparr>clock := now, stale_ids := ?ids\<rparr>"
    let ?tbl = "snd (reaper_tick (cfg_types cfg) (cfg_threshold cfg) (cfg_base cfg) rnd now (table s))"
    let ?es = "[Tick (now - clock s), FindStale] @ map (\<lambda>i. Reap (rnd i)) ?ids"
    have tick: "run cfg ?es s = Some (?s\<lparr>stale_ids := [], table := ?tbl\<rparr>)"
      using Cons.prems turn reap_fold_is_run [of ?s ?ids cfg rnd 0] by (simp add: reaper_tick_def)
    obtain es s' where rest: "run cfg es (?s\<lparr>stale_ids := [], table := ?tbl\<rparr>) = Some s'" "stale_ids s' = []"
      "working s' = working s"
      "table s' = reaper_run (cfg_types cfg) (cfg_threshold cfg) (cfg_base cfg) turns ?tbl"
      using Cons.IH [of "?s\<lparr>stale_ids := [], table := ?tbl\<rparr>"] Cons.prems turn by auto
    have "run cfg (?es @ es) s = Some s'"
      using rest(1) by (simp only: run_append [of _ ?es] tick Option.bind.simps)
    then show ?thesis
      using False turn rest(2-4) by (intro exI [of _ "?es @ es"] exI [of _ s']) (simp only: reaper_run.simps if_False)
  qed
qed

end
