(* ===== verification/Ingest_Policies.thy ===== *)
theory Ingest_Policies
  imports Graph_Loader Properties
begin

section \<open>Access edges of resource policies\<close>

text \<open>
  \<open>activable-ingest/src/error.rs\<close>, \<open>native/mod.rs\<close>, \<open>native/resource_policy.rs\<close>, \<open>native/principal.rs\<close>,
  \<open>native/access_edges.rs\<close> and \<open>native/sentinel.rs\<close>: the statements of a resource policy, the nodes of the
  principals they name, and the edges between resource and principals. \<open>serde_json\<close>'s parser is the parameter
  \<open>pj\<close>. An enricher is a program over the database like the loader's: it maps the statements sent so far to
  those sent after it and its result.
\<close>

subsection \<open>Errors and sequencing\<close>

datatype ingest_error =
    AwsSdk string
  | CloudControl string string
  | GraphFailure string
  | ConfigError string
  | YamlParse string
  | RegistryNotLoaded
  | IoError string

definition display_ingest_error :: "ingest_error \<Rightarrow> string" where
  "display_ingest_error e =
     (case e of
        AwsSdk m \<Rightarrow> ''AWS SDK error: '' @ m
      | CloudControl type_name m \<Rightarrow> ''Cloud Control API error for '' @ type_name @ '': '' @ m
      | GraphFailure m \<Rightarrow> ''graph write error: '' @ m
      | ConfigError m \<Rightarrow> ''config error: '' @ m
      | YamlParse m \<Rightarrow> ''YAML parse error: '' @ m
      | RegistryNotLoaded \<Rightarrow> ''resource registry not loaded''
      | IoError m \<Rightarrow> ''io error: '' @ m)"

datatype ingest_failure = IngestFailed ingest_error | IngestPanic

type_synonym 'a ingesting = "string list \<Rightarrow> string list \<times> (ingest_failure + 'a)"

definition ingest_return :: "'a \<Rightarrow> 'a ingesting" where
  "ingest_return x sent = (sent, Inr x)"

definition ingest_fail :: "ingest_error \<Rightarrow> 'a ingesting" where
  "ingest_fail e sent = (sent, Inl (IngestFailed e))"

definition ingest_bind :: "'a ingesting \<Rightarrow> ('a \<Rightarrow> 'b ingesting) \<Rightarrow> 'b ingesting" where
  "ingest_bind m f sent = (case m sent of (sent', Inl e) \<Rightarrow> (sent', Inl e) | (sent', Inr x) \<Rightarrow> f x sent')"

definition ingest_of :: "string + 'a \<Rightarrow> (string \<Rightarrow> ingest_error) \<Rightarrow> 'a ingesting" where
  "ingest_of r wrap = (case r of Inl e \<Rightarrow> ingest_fail (wrap e) | Inr x \<Rightarrow> ingest_return x)"

text \<open>A load with \<open>?\<close>, whose error is converted, and one whose result is dropped.\<close>

definition from_graph :: "'a loading \<Rightarrow> 'a ingesting" where
  "from_graph m sent =
     (case m sent of
        (sent', Inr x) \<Rightarrow> (sent', Inr x)
      | (sent', Inl (LoadError e)) \<Rightarrow> (sent', Inl (IngestFailed (GraphFailure (display_graph_error e))))
      | (sent', Inl LoadPanic) \<Rightarrow> (sent', Inl IngestPanic))"

definition ignore_result :: "'a loading \<Rightarrow> unit ingesting" where
  "ignore_result m sent =
     (case m sent of (sent', Inl LoadPanic) \<Rightarrow> (sent', Inl IngestPanic) | (sent', _) \<Rightarrow> (sent', Inr ()))"

record enrichment_stats =
  stats_service :: string
  edges_created :: nat

subsection \<open>Resource policies\<close>

record parsed_statement =
  ps_effect :: string
  ps_principals :: "string list"
  ps_actions :: "string list"
  ps_condition_keys :: "string list"
  ps_wildcard :: bool

text \<open>The principals named by a string, by an array, or by each field of an object.\<close>

definition principals_of_value :: "json \<Rightarrow> string list" where
  "principals_of_value v =
     (case v of
        JObject obj \<Rightarrow> concat (map (\<lambda>(_, w). extract_string_or_array w) obj)
      | w \<Rightarrow> extract_string_or_array w)"

definition condition_keys_of :: "json \<Rightarrow> string list" where
  "condition_keys_of stmt =
     (case Option.bind (value_get stmt ''Condition'') as_object of
        None \<Rightarrow> []
      | Some ops \<Rightarrow> concat (map (\<lambda>(_, keys). case as_object keys of Some m \<Rightarrow> map fst m | None \<Rightarrow> []) ops))"

definition parse_native_statement :: "json \<Rightarrow> parsed_statement option" where
  "parse_native_statement stmt =
     (let effect = (case Option.bind (value_get stmt ''Effect'') as_str of Some e \<Rightarrow> e | None \<Rightarrow> ''Allow'') in
      if effect = ''Deny'' then None
      else
        let principals = (case value_get stmt ''Principal'' of Some v \<Rightarrow> principals_of_value v | None \<Rightarrow> []);
            actions = (case value_get stmt ''Action'' of Some v \<Rightarrow> extract_string_or_array v | None \<Rightarrow> [])
        in if principals \<noteq> [] \<and> actions \<noteq> []
           then Some \<lparr>ps_effect = effect, ps_principals = principals, ps_actions = actions,
                  ps_condition_keys = condition_keys_of stmt, ps_wildcard = ''*'' \<in> set principals\<rparr>
           else None)"

definition parse_native_policy :: "json_parser \<Rightarrow> string \<Rightarrow> string + parsed_statement list" where
  "parse_native_policy pj policy_doc =
     res_bind (pj policy_doc) (\<lambda>policy.
     Inr (case Option.bind (value_get policy ''Statement'') as_array of
        Some stmts \<Rightarrow> List.map_filter parse_native_statement stmts
      | None \<Rightarrow> []))"

subsection \<open>Principal nodes\<close>

definition principal_type_of :: "string \<Rightarrow> string" where
  "principal_type_of principal_arn =
     (if str_contains principal_arn ''.amazonaws.com'' then ''Service''
      else if str_contains principal_arn '':root'' then ''AccountRoot''
      else if str_contains principal_arn '':role/'' then ''Role''
      else if str_contains principal_arn '':user/'' then ''User''
      else ''Principal'')"

definition principal_account_id :: "string \<Rightarrow> string" where
  "principal_account_id principal_arn =
     (let parts = split_on CHR '':'' principal_arn in
      if 4 < length parts then parts ! 4 else ''000000000000'')"

definition principal_display_name :: "string \<Rightarrow> string" where
  "principal_display_name principal_arn =
     (if CHR ''/'' \<in> set principal_arn then last (split_on CHR ''/'' principal_arn)
      else last (split_on CHR '':'' principal_arn))"

definition build_principal_node :: "string \<Rightarrow> string \<Rightarrow> json" where
  "build_principal_node principal_arn caller_account_id =
     (let account_id = principal_account_id principal_arn;
          is_service = str_contains principal_arn ''.amazonaws.com'';
          is_external = (\<not> is_service \<and> account_id \<noteq> caller_account_id)
      in json_obj
        [(''id'', JString principal_arn), (''name'', JString (principal_display_name principal_arn)),
         (''principal_type'', JString (principal_type_of principal_arn)), (''account_id'', JString account_id),
         (''service'', JBool is_service), (''external'', JBool is_external)])"

subsection \<open>Access edges\<close>

definition WILDCARD_PRINCIPAL_ID :: string where
  "WILDCARD_PRINCIPAL_ID = ''*''"

definition AWS_MANAGED_KEY_ID :: string where
  "AWS_MANAGED_KEY_ID = ''AwsManagedKey''"

definition condition_props :: "(string \<times> json) list \<Rightarrow> parsed_statement \<Rightarrow> json" where
  "condition_props extra stmt =
     json_obj (extra @ [(''condition_keys'', JArray (map JString (ps_condition_keys stmt)))])"

text \<open>The ends of a statement's edges with their properties: the wildcard sentinel, or the principals, of which
  at most 49 are followed by the sentinel when there are more than 50.\<close>

definition capped_principals :: "parsed_statement \<Rightarrow> string list" where
  "capped_principals stmt =
     (if 50 < length (ps_principals stmt) then take 49 (ps_principals stmt) else ps_principals stmt)"

definition statement_ends :: "parsed_statement \<Rightarrow> (string \<times> json) list" where
  "statement_ends stmt =
     (if ps_wildcard stmt
      then [(WILDCARD_PRINCIPAL_ID, condition_props [(''wildcard_principal'', JBool True)] stmt)]
      else map (\<lambda>p. (p, condition_props [] stmt)) (capped_principals stmt) @
        (if 50 < length (ps_principals stmt)
         then [(WILDCARD_PRINCIPAL_ID, condition_props [(''cap_exceeded'', JBool True)] stmt)] else []))"

definition native_principals :: "parsed_statement \<Rightarrow> string list" where
  "native_principals stmt = (if ps_wildcard stmt then [] else capped_principals stmt)"

definition build_access_edges ::
  "string \<Rightarrow> parsed_statement list \<Rightarrow> string \<Rightarrow> (string \<times> string \<times> json) list \<times> json list" where
  "build_access_edges resource_arn stmts caller_account_id =
     (concat (map (\<lambda>stmt. map (\<lambda>(p, props). (resource_arn, p, props)) (statement_ends stmt)) stmts),
      concat (map (\<lambda>stmt. map (\<lambda>p. build_principal_node p caller_account_id) (native_principals stmt)) stmts))"

definition ensure_wildcard_principal :: "server \<Rightarrow> printers \<Rightarrow> (string + unit) \<Rightarrow> string \<Rightarrow> unit ingesting" where
  "ensure_wildcard_principal srv pr pool graph =
     ingest_bind (from_graph (load_nodes srv pr pool graph ''WildcardPrincipal''
       [json_obj [(''id'', JString WILDCARD_PRINCIPAL_ID), (''name'', JString ''*''), (''wildcard'', JBool True)]] 1))
       (\<lambda>_. ingest_return ())"

definition ensure_aws_managed_key :: "server \<Rightarrow> printers \<Rightarrow> (string + unit) \<Rightarrow> string \<Rightarrow> unit ingesting" where
  "ensure_aws_managed_key srv pr pool graph =
     ingest_bind (from_graph (load_nodes srv pr pool graph ''KmsKey''
       [json_obj [(''id'', JString AWS_MANAGED_KEY_ID), (''key_id'', JString ''aws-managed''),
         (''aws_managed'', JBool True)]] 1))
       (\<lambda>_. ingest_return ())"

subsection \<open>Lemmas\<close>

text \<open>Which of its properties an edge is written with: an array is skipped.\<close>

lemma settable_condition_props:
  "edge_props_sql pr graph label [] (f, t, condition_props [] stmt) =
     edge_props_sql pr graph label [] (f, t, condition_props [] (stmt\<lparr>ps_condition_keys := ks\<rparr>))"
  "edge_props_sql pr graph label [] (f, t, condition_props [(''wildcard_principal'', JBool True)] stmt) =
     edge_props_sql pr graph label [] (f, t, condition_props [(''wildcard_principal'', JBool True)] (stmt\<lparr>ps_condition_keys := ks\<rparr>))"
  "edge_props_sql pr graph label [] (f, t, condition_props [(''cap_exceeded'', JBool True)] stmt) =
     edge_props_sql pr graph label [] (f, t, condition_props [(''cap_exceeded'', JBool True)] (stmt\<lparr>ps_condition_keys := ks\<rparr>))"
  by (simp_all add: edge_props_sql_def partition_properties_def condition_props_def json_obj_def property_parts_def
      List.map_filter_simps scalar_text_def Let_def)

definition without_conditions :: "parsed_statement \<Rightarrow> parsed_statement" where
  "without_conditions stmt = stmt\<lparr>ps_condition_keys := []\<rparr>"

lemma statement_ends_unconditioned:
  "map (\<lambda>(p, props). edge_props_sql pr graph label [] (f, p, props)) (statement_ends stmt) =
     map (\<lambda>(p, props). edge_props_sql pr graph label [] (f, p, props)) (statement_ends (without_conditions stmt))"
  using settable_condition_props [of pr graph label f _ stmt "[]"]
  by (simp add: statement_ends_def capped_principals_def without_conditions_def)

subsection \<open>What a policy document grants\<close>

text \<open>The strings of a value in order, the principals a statement names, and whether it grants: it is not a
  Deny and lists an action.\<close>

definition listed :: "json \<Rightarrow> string list" where
  "listed v = (case v of JString s \<Rightarrow> [s] | JArray items \<Rightarrow> [s. JString s \<leftarrow> items] | _ \<Rightarrow> [])"

definition stated_principals :: "(string \<times> json) list \<Rightarrow> string list" where
  "stated_principals st =
     (case obj_get st ''Principal'' of
        Some (JObject kinds) \<Rightarrow> concat (map (\<lambda>(kind, names). listed names) kinds)
      | Some names \<Rightarrow> listed names
      | None \<Rightarrow> [])"

definition statement_grants :: "(string \<times> json) list \<Rightarrow> bool" where
  "statement_grants st \<longleftrightarrow> obj_get st ''Effect'' \<noteq> Some (JString ''Deny'') \<and>
     (\<exists>acts a. obj_get st ''Action'' = Some acts \<and> json_names acts a)"

text \<open>The ends of the edges a statement contributes, each with the marks of the edge.\<close>

definition granted_ends :: "json \<Rightarrow> (string \<times> string list) list" where
  "granted_ends v =
     (case v of
        JObject st \<Rightarrow>
          (let ps = stated_principals st in
           if \<not> statement_grants st then []
           else if ''*'' \<in> set ps then [(''*'', [''wildcard_principal''])]
           else if length ps \<le> 50 then map (\<lambda>p. (p, [])) ps
           else map (\<lambda>p. (p, [])) (take 49 ps) @ [(''*'', [''cap_exceeded''])])
      | _ \<Rightarrow> [])"

definition policy_statements_of :: "json \<Rightarrow> json list" where
  "policy_statements_of doc =
     (case doc of
        JObject m \<Rightarrow> (case obj_get m ''Statement'' of Some (JArray sts) \<Rightarrow> sts | _ \<Rightarrow> [])
      | _ \<Rightarrow> [])"

definition edge_marks :: "json \<Rightarrow> string list" where
  "edge_marks props =
     filter (\<lambda>k. value_get props k = Some (JBool True)) [''cap_exceeded'', ''wildcard_principal'']"

lemma listed_eq: "extract_string_or_array v = listed v"
proof -
  have "List.map_filter as_str items = [s. JString s \<leftarrow> items]" for items
  proof (induction items)
    case (Cons i items)
    then show ?case by (cases i) (simp_all add: List.map_filter_simps)
  qed (simp add: List.map_filter_simps)
  then show ?thesis by (cases v) (simp_all add: extract_string_or_array_def listed_def)
qed

lemma stated_principals_eq:
  "(case obj_get st ''Principal'' of Some v \<Rightarrow> principals_of_value v | None \<Rightarrow> []) = stated_principals st"
  unfolding stated_principals_def principals_of_value_def listed_eq by (simp split: option.split json.split)

lemma statement_grants_iff:
  "statement_grants st \<longleftrightarrow>
     (case Option.bind (obj_get st ''Effect'') as_str of Some e \<Rightarrow> e | None \<Rightarrow> ''Allow'') \<noteq> ''Deny'' \<and>
     (case obj_get st ''Action'' of Some v \<Rightarrow> extract_string_or_array v | None \<Rightarrow> []) \<noteq> []"
proof -
  have "(case Option.bind (obj_get st ''Effect'') as_str of Some e \<Rightarrow> e | None \<Rightarrow> ''Allow'') = ''Deny'' \<longleftrightarrow>
      obj_get st ''Effect'' = Some (JString ''Deny'')"
    by (cases "Option.bind (obj_get st ''Effect'') as_str") (auto simp: bind_eq_Some_conv json_iffs)
  then show ?thesis
    by (cases "obj_get st ''Action''") (simp_all add: statement_grants_def extract_string_or_array_eq_Nil)
qed

lemma parse_native_statement_eq:
  "parse_native_statement (JObject st) =
     (if statement_grants st \<and> stated_principals st \<noteq> []
      then Some \<lparr>ps_effect = (case Option.bind (obj_get st ''Effect'') as_str of Some e \<Rightarrow> e | None \<Rightarrow> ''Allow''),
             ps_principals = stated_principals st,
             ps_actions = (case obj_get st ''Action'' of Some v \<Rightarrow> extract_string_or_array v | None \<Rightarrow> []),
             ps_condition_keys = condition_keys_of (JObject st), ps_wildcard = ''*'' \<in> set (stated_principals st)\<rparr>
      else None)"
  by (simp add: parse_native_statement_def Let_def value_get_def stated_principals_eq statement_grants_iff)

lemma condition_props_marks:
  "edge_marks (condition_props [] stmt) = []"
  "edge_marks (condition_props [(''wildcard_principal'', JBool True)] stmt) = [''wildcard_principal'']"
  "edge_marks (condition_props [(''cap_exceeded'', JBool True)] stmt) = [''cap_exceeded'']"
  by (simp_all add: edge_marks_def condition_props_def json_obj_def value_get_def obj_get_def)

lemma statement_ends_granted:
  assumes "parse_native_statement v = Some stmt"
  shows "map (\<lambda>(p, props). (p, edge_marks props)) (statement_ends stmt) = granted_ends v \<and>
    native_principals stmt = filter (\<lambda>p. p \<noteq> ''*'') (map fst (granted_ends v))"
proof -
  obtain st where v: "v = JObject st"
    using assms by (cases v) (auto simp: parse_native_statement_def value_get_def Let_def split: if_splits)
  have stmt: "statement_grants st" "ps_principals stmt = stated_principals st" "ps_wildcard stmt \<longleftrightarrow> ''*'' \<in> set (stated_principals st)"
    using assms unfolding v parse_native_statement_eq by (auto split: if_splits)
  have "''*'' \<notin> set (stated_principals st) \<Longrightarrow> filter (\<lambda>p. p \<noteq> ''*'') (stated_principals st) = stated_principals st"
    "''*'' \<notin> set (stated_principals st) \<Longrightarrow> filter (\<lambda>p. p \<noteq> ''*'') (take 49 (stated_principals st)) =
      take 49 (stated_principals st)"
    by (auto simp: filter_id_conv dest: in_set_takeD)
  then show ?thesis using stmt
    by (simp add: v granted_ends_def Let_def statement_ends_def native_principals_def capped_principals_def
        condition_props_marks WILDCARD_PRINCIPAL_ID_def comp_def)
qed

lemma statement_not_granted: "parse_native_statement v = None \<Longrightarrow> granted_ends v = []"
  by (cases v) (auto simp: granted_ends_def parse_native_statement_eq Let_def split: if_splits)

lemma map_filter_concat:
  assumes "\<And>x y. f x = Some y \<Longrightarrow> g y = h x" and "\<And>x. f x = None \<Longrightarrow> h x = []"
  shows "concat (map g (List.map_filter f xs)) = concat (map h xs)"
proof (induction xs)
  case (Cons x xs)
  then show ?case using assms by (cases "f x") (simp_all add: List.map_filter_simps)
qed (simp add: List.map_filter_simps)

lemma granted_ends_cover:
  "length (granted_ends v) \<le> 50"
  "v = JObject st \<Longrightarrow> statement_grants st \<Longrightarrow> p \<in> set (stated_principals st) \<Longrightarrow>
     p \<in> fst ` set (granted_ends v) \<or> ''*'' \<in> fst ` set (granted_ends v)"
  by (auto simp: granted_ends_def Let_def split: json.split) (force simp: not_le)+

lemma build_principal_node_id: "value_get (build_principal_node p caller) ''id'' = Some (JString p)"
  by (simp add: build_principal_node_def json_obj_def value_get_def obj_get_def Let_def)

subsection \<open>Properties\<close>

text \<open>C26: the access edges of a resource policy, from its JSON document. Every statement that grants (it is
  not a Deny and lists an action; one that only has \<open>NotAction\<close> or \<open>NotPrincipal\<close> contributes nothing)
  contributes, in order: one edge to the wildcard sentinel when it names \<open>*\<close>, an edge to each of its principals
  when they are at most 50, and otherwise edges to its first 49 and one to the sentinel; the edges to the
  sentinel are marked with which of the two it was. The nodes are those of the ends that are not the sentinel,
  each with its ARN as id. So a statement contributes at most 50 edges, and every principal it names is the end
  of one unless the sentinel is. The design document caps the edges per resource, by the number of its grant
  statements; here the cap is per statement, so a policy of many statements has more than 50 edges.\<close>

theorem access_edges_cover_principals:
  assumes "parse_native_policy pj doc = Inr stmts"
  shows "\<exists>policy. pj doc = Inr policy \<and>
    (let ends = concat (map granted_ends (policy_statements_of policy));
         (edges, nodes) = build_access_edges arn stmts caller in
     map (\<lambda>(f, p, props). (f, p, edge_marks props)) edges = map (\<lambda>(p, marks). (arn, p, marks)) ends \<and>
     nodes = map (\<lambda>p. build_principal_node p caller) (filter (\<lambda>p. p \<noteq> ''*'') (map fst ends)) \<and>
     map (\<lambda>n. value_get n ''id'') nodes = map (\<lambda>p. Some (JString p)) (filter (\<lambda>p. p \<noteq> ''*'') (map fst ends)) \<and>
     (\<forall>v\<in>set (policy_statements_of policy). length (granted_ends v) \<le> 50 \<and>
        (\<forall>st p. v = JObject st \<and> statement_grants st \<and> p \<in> set (stated_principals st) \<longrightarrow>
           p \<in> fst ` set (granted_ends v) \<or> ''*'' \<in> fst ` set (granted_ends v))))"
proof -
  obtain policy where p: "pj doc = Inr policy"
    and s: "stmts = (case Option.bind (value_get policy ''Statement'') as_array of
        Some sts \<Rightarrow> List.map_filter parse_native_statement sts | None \<Rightarrow> [])"
    using assms by (auto simp: parse_native_policy_def res_iffs)
  have stmts: "stmts = List.map_filter parse_native_statement (policy_statements_of policy)"
    unfolding s policy_statements_of_def value_get_def
    by (auto simp: List.map_filter_simps as_array_Some_iff split: json.split option.split bind_split)
  let ?ends = "concat (map granted_ends (policy_statements_of policy))"
  have "map (\<lambda>(f, p, props). (f, p, edge_marks props)) (fst (build_access_edges arn stmts caller)) =
      map (\<lambda>(p, marks). (arn, p, marks))
        (concat (map (\<lambda>stmt. map (\<lambda>(p, props). (p, edge_marks props)) (statement_ends stmt)) stmts))"
    by (simp add: build_access_edges_def map_concat comp_def case_prod_unfold)
  also have "concat (map (\<lambda>stmt. map (\<lambda>(p, props). (p, edge_marks props)) (statement_ends stmt)) stmts) = ?ends"
    unfolding stmts by (rule map_filter_concat) (simp_all add: statement_ends_granted statement_not_granted)
  finally have edges: "map (\<lambda>(f, p, props). (f, p, edge_marks props)) (fst (build_access_edges arn stmts caller)) =
      map (\<lambda>(p, marks). (arn, p, marks)) ?ends" .
  have "concat (map native_principals stmts) =
      concat (map (\<lambda>v. filter (\<lambda>p. p \<noteq> ''*'') (map fst (granted_ends v))) (policy_statements_of policy))"
    unfolding stmts by (rule map_filter_concat) (simp_all add: statement_ends_granted statement_not_granted)
  from arg_cong [OF this, of "map (\<lambda>p. build_principal_node p caller)"]
  have nodes: "snd (build_access_edges arn stmts caller) =
      map (\<lambda>p. build_principal_node p caller) (filter (\<lambda>p. p \<noteq> ''*'') (map fst ?ends))"
    by (simp add: build_access_edges_def filter_concat map_concat comp_def)
  show ?thesis
    using edges nodes granted_ends_cover p
    by (intro exI [of _ policy]) (simp add: Let_def case_prod_unfold comp_def build_principal_node_id)
qed

text \<open>Two statements, one of which names 51 principals.\<close>

definition sample_policy_parser :: json_parser where
  "sample_policy_parser s = Inr (JObject [(''Statement'', JArray
     [JObject [(''Action'', JString ''s3:GetObject''), (''Effect'', JString ''Allow''),
        (''Principal'', JObject [(''AWS'', JString ''alice'')])],
      JObject [(''Action'', JArray [JString ''s3:*'']),
        (''Principal'', JArray (map JString (replicate 51 ''bob'')))]])])"

theorem access_edges_cover_principals_witness:
  "\<exists>stmts. parse_native_policy sample_policy_parser ''doc'' = Inr stmts \<and>
     (let (edges, nodes) = build_access_edges ''arn:bucket'' stmts ''1'' in
      map (fst \<circ> snd) edges = ''alice'' # replicate 49 ''bob'' @ [''*''] \<and> length nodes = 50)"
proof -
  let ?r = "parse_native_policy sample_policy_parser ''doc''"
  obtain stmts where r: "?r = Inr stmts" by (simp add: parse_native_policy_def sample_policy_parser_def)
  obtain policy where p: "sample_policy_parser ''doc'' = Inr policy"
    and e: "map (\<lambda>(f, p, props). (f, p, edge_marks props)) (fst (build_access_edges ''arn:bucket'' stmts ''1'')) =
        map (\<lambda>(p, marks). (''arn:bucket'', p, marks)) (concat (map granted_ends (policy_statements_of policy)))"
      "snd (build_access_edges ''arn:bucket'' stmts ''1'') = map (\<lambda>p. build_principal_node p ''1'')
        (filter (\<lambda>p. p \<noteq> ''*'') (map fst (concat (map granted_ends (policy_statements_of policy)))))"
    using access_edges_cover_principals [OF r, of "''arn:bucket''" "''1''"] by (auto simp: Let_def case_prod_unfold)
  have listed: "listed (JArray (replicate n (JString s))) = replicate n s" "listed (JString s) = [s]" for n s
    by (induction n) (simp_all add: listed_def)
  have "concat (map granted_ends (policy_statements_of policy)) =
      (''alice'', []) # map (\<lambda>p. (p, [])) (replicate 49 ''bob'') @ [(''*'', [''cap_exceeded''])]"
    using p unfolding sample_policy_parser_def sum.inject
    by (elim ssubst [OF sym]) (simp add: policy_statements_of_def granted_ends_def statement_grants_def obj_get_def
        stated_principals_def listed Let_def)
  note ends = this
  from arg_cong [OF e(1), of "map (fst \<circ> snd)"]
  have "map (fst \<circ> snd) (fst (build_access_edges ''arn:bucket'' stmts ''1'')) =
      map fst (concat (map granted_ends (policy_statements_of policy)))"
    by (simp only: map_map comp_def case_prod_unfold fst_conv snd_conv)
  then show ?thesis using r e(2) unfolding ends by (intro exI [of _ stmts]) (simp add: Let_def case_prod_unfold)
qed

text \<open>The conditions of a resource policy never reach the graph. The statements that write the access edges,
  with the properties the loader keeps, are the same whatever condition keys the policy had: a grant restricted
  to an organisation is written as an unrestricted one.\<close>

theorem access_edges_lose_conditions:
  "map (edge_props_sql pr graph label []) (fst (build_access_edges arn stmts caller)) =
   map (edge_props_sql pr graph label []) (fst (build_access_edges arn (map without_conditions stmts) caller))"
proof -
  have "map (edge_props_sql pr graph label []) (map (\<lambda>(p, props). (arn, p, props)) (statement_ends stmt)) =
      map (edge_props_sql pr graph label []) (map (\<lambda>(p, props). (arn, p, props)) (statement_ends (without_conditions stmt)))"
    for stmt
    using statement_ends_unconditioned [of pr graph label arn stmt] by (simp add: comp_def case_prod_unfold)
  then show ?thesis by (simp add: build_access_edges_def map_concat comp_def)
qed

end
