(* ===== verification/Ingest_Enrichers.thy ===== *)
theory Ingest_Enrichers
  imports Ingest_Policies
begin

section \<open>The IAM and KMS enrichers\<close>

text \<open>
  \<open>activable-ingest/src/native/iam.rs\<close> and \<open>native/kms.rs\<close>: the trust edges of roles and the policy edges of
  keys. What AWS answers is a parameter: the pages of a listing, the answer of each call, or an error. URL
  decoding, the JSON parser, the hash of an ARN and the order of a hash set are parameters too.
\<close>

subsection \<open>Trust policies\<close>

record iam_role =
  role_arn :: string
  role_trust :: "string option"

record trust_edges =
  te_edges :: "(string \<times> string) list"
  te_oidc_nodes :: "json list"
  te_oidc_edges :: "(string \<times> string) list"

definition no_trust_edges :: trust_edges where
  "no_trust_edges = \<lparr>te_edges = [], te_oidc_nodes = [], te_oidc_edges = []\<rparr>"

definition join_trust_edges :: "trust_edges list \<Rightarrow> trust_edges" where
  "join_trust_edges ts =
     \<lparr>te_edges = concat (map te_edges ts), te_oidc_nodes = concat (map te_oidc_nodes ts),
      te_oidc_edges = concat (map te_oidc_edges ts)\<rparr>"

text \<open>What follows the first occurrence of a text.\<close>

fun find_after :: "string \<Rightarrow> string \<Rightarrow> string option" where
  "find_after pat s =
     (case strip_prefix s pat of
        Some rest \<Rightarrow> Some rest
      | None \<Rightarrow> (case s of [] \<Rightarrow> None | c # cs \<Rightarrow> find_after pat cs))"

declare find_after.simps [simp del]

definition extract_oidc_provider_name :: "string \<Rightarrow> string option" where
  "extract_oidc_provider_name arn =
     (case find_after '':oidc-provider/'' arn of
        Some part \<Rightarrow> if part \<noteq> [] then Some part else None
      | None \<Rightarrow> None)"

definition condition_value :: "json \<Rightarrow> string option" where
  "condition_value v =
     (case v of
        JString s \<Rightarrow> if s \<noteq> ''*'' then Some s else None
      | JArray (x # _) \<Rightarrow> (case as_str x of Some s \<Rightarrow> if s \<noteq> ''*'' then Some s else None | None \<Rightarrow> None)
      | _ \<Rightarrow> None)"

definition oidc_condition_step :: "string \<times> string \<Rightarrow> string \<times> json \<Rightarrow> string \<times> string" where
  "oidc_condition_step as kv =
     (case as of (aud, sub) \<Rightarrow>
      if ends_with (fst kv) '':aud'' then (case condition_value (snd kv) of Some s \<Rightarrow> (s, sub) | None \<Rightarrow> (aud, sub))
      else if ends_with (fst kv) '':sub'' then (case condition_value (snd kv) of Some s \<Rightarrow> (aud, s) | None \<Rightarrow> (aud, sub))
      else (aud, sub))"

definition extract_oidc_conditions :: "json \<Rightarrow> string \<times> string" where
  "extract_oidc_conditions stmt =
     (case Option.bind (value_get stmt ''Condition'') as_object of
        None \<Rightarrow> ([], [])
      | Some ops \<Rightarrow>
          foldl oidc_condition_step ([], [])
            (concat (map (\<lambda>(_, m). case as_object m of Some kvs \<Rightarrow> kvs | None \<Rightarrow> []) ops)))"

definition named_principals :: "json \<Rightarrow> string \<Rightarrow> string list" where
  "named_principals prin k =
     (case value_get prin k of Some v \<Rightarrow> extract_string_or_array v | None \<Rightarrow> [])"

definition federated_node :: "string \<Rightarrow> json \<Rightarrow> string \<Rightarrow> json option" where
  "federated_node account_id stmt federated_arn =
     (if str_contains federated_arn '':oidc-provider/'' then
        map_option (\<lambda>provider_name.
          case extract_oidc_conditions stmt of (aud, sub) \<Rightarrow>
          json_obj [(''id'', JString federated_arn), (''provider_name'', JString provider_name),
            (''account_id'', JString account_id), (''aud'', JString aud), (''sub'', JString sub)])
          (extract_oidc_provider_name federated_arn)
      else None)"

definition statement_trust_edges :: "string \<Rightarrow> string \<Rightarrow> json \<Rightarrow> trust_edges" where
  "statement_trust_edges account_id arn stmt =
     (case value_get stmt ''Principal'' of
        None \<Rightarrow> no_trust_edges
      | Some prin \<Rightarrow>
          let federated = filter (\<lambda>f. federated_node account_id stmt f \<noteq> None) (named_principals prin ''Federated'')
          in \<lparr>te_edges = map (\<lambda>p. (p, arn)) (named_principals prin ''AWS'' @ named_principals prin ''Service''),
              te_oidc_nodes = map (\<lambda>f. the (federated_node account_id stmt f)) federated,
              te_oidc_edges = map (\<lambda>f. (account_id, f)) federated\<rparr>)"

text \<open>The statements of a role's trust policy; none when there is no document, or it cannot be decoded or parsed.\<close>

definition trust_statements :: "(string \<Rightarrow> string + string) \<Rightarrow> json_parser \<Rightarrow> iam_role \<Rightarrow> json list" where
  "trust_statements urldecode pj role =
     (if role_arn role = [] then []
      else case role_trust role of
          None \<Rightarrow> []
        | Some policy_doc \<Rightarrow>
            (case urldecode policy_doc of
               Inl _ \<Rightarrow> []
             | Inr decoded \<Rightarrow>
                 (case pj decoded of
                    Inl _ \<Rightarrow> []
                  | Inr policy \<Rightarrow>
                      (case Option.bind (value_get policy ''Statement'') as_array of Some sts \<Rightarrow> sts | None \<Rightarrow> []))))"

definition role_trust_edges ::
  "(string \<Rightarrow> string + string) \<Rightarrow> json_parser \<Rightarrow> string \<Rightarrow> iam_role \<Rightarrow> trust_edges" where
  "role_trust_edges urldecode pj account_id role =
     join_trust_edges (map (statement_trust_edges account_id (role_arn role)) (trust_statements urldecode pj role))"

definition source_node :: "string \<Rightarrow> json" where
  "source_node source =
     json_obj [(''id'', JString source), (''name'', JString source),
       (''principal_type'', JString (if str_contains source ''.amazonaws.com'' then ''Service''
          else if source = ''*'' then ''Wildcard'' else ''External''))]"

text \<open>The loop over the sources of the edges, with those already written.\<close>

fun ensure_sources :: "(json \<Rightarrow> nat loading) \<Rightarrow> (string \<times> string) list \<Rightarrow> string list \<Rightarrow> unit ingesting" where
  "ensure_sources load [] seen = ingest_return ()"
| "ensure_sources load ((source, target) # edges) seen =
     (if source \<in> set seen then ensure_sources load edges seen
      else ingest_bind (ignore_result (load (source_node source))) (\<lambda>_. ensure_sources load edges (source # seen)))"

definition caller_account :: "string + string option \<Rightarrow> string ingesting" where
  "caller_account identity =
     ingest_bind (ingest_of identity (\<lambda>e. AwsSdk (''Failed to get caller identity: '' @ e))) (\<lambda>acc.
     case acc of
       None \<Rightarrow> ingest_fail (AwsSdk ''No account ID in identity'')
     | Some account_id \<Rightarrow> ingest_return account_id)"

definition load_unless_empty :: "'a list \<Rightarrow> nat loading \<Rightarrow> nat ingesting" where
  "load_unless_empty xs m = (if xs = [] then ingest_return 0 else from_graph m)"

definition edges_unless_empty :: "'a list \<Rightarrow> edge_load_outcome loading \<Rightarrow> nat ingesting" where
  "edges_unless_empty xs m =
     (if xs = [] then ingest_return 0 else ingest_bind (from_graph m) (\<lambda>out. ingest_return (created out)))"

definition iam_enrich ::
  "server \<Rightarrow> printers \<Rightarrow> (string + unit) \<Rightarrow> string \<Rightarrow> (string \<Rightarrow> string + string) \<Rightarrow> json_parser
     \<Rightarrow> string + string option \<Rightarrow> (string + iam_role list) list \<Rightarrow> enrichment_stats ingesting" where
  "iam_enrich srv pr pool graph urldecode pj identity pages =
     ingest_bind (caller_account identity) (\<lambda>account_id.
     ingest_bind (ingest_of (traverse (\<lambda>p. p) pages) (\<lambda>e. AwsSdk (''Failed to list IAM roles: '' @ e))) (\<lambda>roles.
     let t = join_trust_edges (map (role_trust_edges urldecode pj account_id) (concat roles));
         account_node = json_obj [(''id'', JString account_id), (''name'', JString account_id), (''account_id'', JString account_id)]
     in
     ingest_bind (ensure_sources (\<lambda>node. load_nodes srv pr pool graph ''Principal'' [node] 1) (te_edges t) []) (\<lambda>_.
     ingest_bind (ignore_result (load_nodes srv pr pool graph ''Account'' [account_node] 1)) (\<lambda>_.
     ingest_bind (load_unless_empty (te_oidc_nodes t)
       (load_nodes srv pr pool graph ''OidcProvider'' (te_oidc_nodes t) 100)) (\<lambda>_.
     ingest_bind (edges_unless_empty (te_oidc_edges t)
       (load_edges srv pool graph ''HasOidcProvider'' (te_oidc_edges t) 100 False)) (\<lambda>n.
     ingest_bind (edges_unless_empty (te_edges t)
       (load_edges srv pool graph ''CanAssume'' (te_edges t) 100 False)) (\<lambda>m.
     ingest_return \<lparr>stats_service = ''iam'', edges_created = n + m\<rparr>)))))))"

subsection \<open>Key policies\<close>

record kms_metadata =
  km_arn :: "string option"
  km_key_state :: "string option"
  km_key_usage :: "string option"

record kms_aws =
  kms_pages :: "(string + string option list) list"
  describe_key :: "string \<Rightarrow> string + kms_metadata option"
  get_key_policy :: "string \<Rightarrow> string + string option"

record kms_batch =
  kb_key_nodes :: "json list"
  kb_policy_nodes :: "json list"
  kb_key_policy_edges :: "(string \<times> string) list"
  kb_access_edges :: "(string \<times> string \<times> json) list"
  kb_grantable_edges :: "(string \<times> string \<times> json) list"
  kb_principals :: "string list"

text \<open>The key ids of the pages before the first that failed.\<close>

fun listed_keys :: "(string + string option list) list \<Rightarrow> string list" where
  "listed_keys [] = []"
| "listed_keys (Inl e # pages) = []"
| "listed_keys (Inr keys # pages) = List.map_filter (\<lambda>k. k) keys @ listed_keys pages"

definition allows_create_grant :: "parsed_statement \<Rightarrow> bool" where
  "allows_create_grant stmt =
     list_ex (\<lambda>a. a = ''kms:CreateGrant'' \<or> a = ''kms:*'' \<or> a = ''*'') (ps_actions stmt)"

text \<open>The policy of a key: its node, and the edges of its statements.\<close>

definition key_policy_batch ::
  "json_parser \<Rightarrow> (string \<Rightarrow> string) \<Rightarrow> string \<Rightarrow> string \<Rightarrow> string option \<Rightarrow> kms_batch \<Rightarrow> kms_batch" where
  "key_policy_batch pj sha256 key_id key_arn policy b =
     (case policy of
        None \<Rightarrow> b
      | Some policy_doc \<Rightarrow>
          let policy_id = ''sha256:'' @ sha256 key_arn @ '':key-policy'';
              stmts = (case parse_native_policy pj policy_doc of Inr sts \<Rightarrow> sts | Inl _ \<Rightarrow> []);
              grants = filter allows_create_grant stmts
          in b\<lparr>kb_policy_nodes := [json_obj [(''id'', JString policy_id), (''name'', JString (key_id @ ''/key-policy'')),
                 (''source'', JString ''kms''), (''document'', JString policy_doc)]],
               kb_key_policy_edges := [(key_arn, policy_id)],
               kb_access_edges := concat (map (\<lambda>st. map (\<lambda>(p, props). (key_arn, p, props)) (statement_ends st)) stmts),
               kb_grantable_edges := concat (map (\<lambda>st. map (\<lambda>(p, props). (p, key_arn, props)) (statement_ends st)) grants),
               kb_principals := concat (map native_principals stmts) @ concat (map native_principals grants)\<rparr>)"

definition empty_batch :: kms_batch where
  "empty_batch = \<lparr>kb_key_nodes = [], kb_policy_nodes = [], kb_key_policy_edges = [], kb_access_edges = [],
     kb_grantable_edges = [], kb_principals = []\<rparr>"

definition key_batch ::
  "json_parser \<Rightarrow> (string \<Rightarrow> string) \<Rightarrow> kms_aws \<Rightarrow> string \<Rightarrow> string \<Rightarrow> string \<Rightarrow> kms_batch" where
  "key_batch pj sha256 aws region account_id key_id =
     (case describe_key aws key_id of
        Inl _ \<Rightarrow> empty_batch
      | Inr None \<Rightarrow> empty_batch
      | Inr (Some meta) \<Rightarrow>
          let key_arn = (case km_arn meta of Some a \<Rightarrow> a | None \<Rightarrow> []);
              key_state = (case km_key_state meta of Some s \<Rightarrow> s | None \<Rightarrow> ''Unknown'');
              key_usage = (case km_key_usage meta of Some u \<Rightarrow> u | None \<Rightarrow> ''ENCRYPT_DECRYPT'');
              b = empty_batch\<lparr>kb_key_nodes := [json_obj [(''id'', JString key_arn), (''key_id'', JString key_id),
                (''region'', JString region), (''account_id'', JString account_id),
                (''key_usage'', JString key_usage), (''key_state'', JString key_state)]]\<rparr>
          in (case get_key_policy aws key_id of
                Inl _ \<Rightarrow> b
              | Inr policy \<Rightarrow> key_policy_batch pj sha256 key_id key_arn policy b))"

definition join_batches :: "kms_batch list \<Rightarrow> kms_batch" where
  "join_batches bs =
     \<lparr>kb_key_nodes = concat (map kb_key_nodes bs), kb_policy_nodes = concat (map kb_policy_nodes bs),
      kb_key_policy_edges = concat (map kb_key_policy_edges bs), kb_access_edges = concat (map kb_access_edges bs),
      kb_grantable_edges = concat (map kb_grantable_edges bs), kb_principals = concat (map kb_principals bs)\<rparr>"

definition kms_enrich ::
  "server \<Rightarrow> printers \<Rightarrow> (string + unit) \<Rightarrow> string \<Rightarrow> json_parser \<Rightarrow> (string \<Rightarrow> string) \<Rightarrow> (string list \<Rightarrow> string list)
     \<Rightarrow> kms_aws \<Rightarrow> string + string option \<Rightarrow> string option \<Rightarrow> enrichment_stats ingesting" where
  "kms_enrich srv pr pool graph pj sha256 iter aws identity configured_region =
     ingest_bind (ensure_wildcard_principal srv pr pool graph) (\<lambda>_.
     ingest_bind (caller_account identity) (\<lambda>account_id.
     let region = (case configured_region of Some r \<Rightarrow> r | None \<Rightarrow> ''us-east-1'');
         b = join_batches (map (key_batch pj sha256 aws region account_id) (listed_keys (kms_pages aws)));
         principal_nodes = map (\<lambda>p. build_principal_node p account_id) (iter (remdups (kb_principals b)))
     in
     ingest_bind (load_unless_empty (kb_key_nodes b) (load_nodes srv pr pool graph ''KmsKey'' (kb_key_nodes b) 100)) (\<lambda>_.
     ingest_bind (load_unless_empty (kb_policy_nodes b) (load_nodes srv pr pool graph ''Policy'' (kb_policy_nodes b) 100)) (\<lambda>_.
     ingest_bind (load_unless_empty principal_nodes (load_nodes srv pr pool graph ''Principal'' principal_nodes 100)) (\<lambda>_.
     ingest_bind (edges_unless_empty (kb_key_policy_edges b)
       (load_edges srv pool graph ''HasKeyPolicy'' (kb_key_policy_edges b) 100 False)) (\<lambda>k.
     ingest_bind (edges_unless_empty (kb_access_edges b)
       (load_edges_with_props srv pr pool graph ''AllowsAccessFrom'' (kb_access_edges b) 100 False)) (\<lambda>m.
     ingest_bind (edges_unless_empty (kb_grantable_edges b)
       (load_edges_with_props srv pr pool graph ''KmsGrantable'' (kb_grantable_edges b) 100 False)) (\<lambda>n.
     ingest_return \<lparr>stats_service = ''kms'', edges_created = k + m + n\<rparr>))))))))"

subsection \<open>Lemmas\<close>

lemma named_principals_iff:
  "p \<in> set (named_principals prin k) \<longleftrightarrow>
     (\<exists>v. value_get prin k = Some v \<and> (v = JString p \<or> (\<exists>arr. v = JArray arr \<and> JString p \<in> set arr)))"
  by (cases "value_get prin k") (simp_all add: named_principals_def set_extract_string_or_array)

lemma statement_trust_iff:
  "(p, t) \<in> set (te_edges (statement_trust_edges account_id arn stmt)) \<longleftrightarrow>
     t = arn \<and> (\<exists>prin. value_get stmt ''Principal'' = Some prin \<and>
       (p \<in> set (named_principals prin ''AWS'') \<or> p \<in> set (named_principals prin ''Service'')))"
  by (auto simp: statement_trust_edges_def no_trust_edges_def Let_def split: option.split)

lemma statement_ends_principals:
  "fst ` set (statement_ends stmt) \<subseteq> insert WILDCARD_PRINCIPAL_ID (set (native_principals stmt))"
  by (auto simp: statement_ends_def native_principals_def)

definition edges_have_ends :: "kms_batch \<Rightarrow> bool" where
  "edges_have_ends b \<longleftrightarrow>
     (\<lambda>(k, p, _). p) ` set (kb_access_edges b) \<subseteq> insert WILDCARD_PRINCIPAL_ID (set (kb_principals b)) \<and>
     (\<lambda>(p, k, _). p) ` set (kb_grantable_edges b) \<subseteq> insert WILDCARD_PRINCIPAL_ID (set (kb_principals b)) \<and>
     (\<lambda>(p, k, _). (k, p)) ` set (kb_grantable_edges b) \<subseteq> (\<lambda>(k, p, _). (k, p)) ` set (kb_access_edges b)"

lemma edges_have_ends_empty: "edges_have_ends (empty_batch\<lparr>kb_key_nodes := ns\<rparr>)" "edges_have_ends empty_batch"
  by (simp_all add: edges_have_ends_def empty_batch_def)

lemma edge_images:
  "(\<lambda>(k, p, _). p) ` (\<lambda>(p, props). (arn, p, props)) ` X = fst ` X"
  "(\<lambda>(p, k, _). p) ` (\<lambda>(p, props). (p, arn, props)) ` X = fst ` X"
  "(\<lambda>(k, p, _). (k, p)) ` (\<lambda>(p, props). (arn, p, props)) ` X = Pair arn ` fst ` X"
  "(\<lambda>(p, k, _). (k, p)) ` (\<lambda>(p, props). (p, arn, props)) ` X = Pair arn ` fst ` X"
  by (auto simp: image_comp comp_def case_prod_unfold)

lemma edges_have_ends_policy: "edges_have_ends b \<Longrightarrow> edges_have_ends (key_policy_batch pj sha256 key_id arn policy b)"
proof (cases policy)
  case (Some doc)
  let ?stmts = "case parse_native_policy pj doc of Inr sts \<Rightarrow> sts | Inl _ \<Rightarrow> []"
  let ?grants = "filter allows_create_grant ?stmts"
  let ?b = "key_policy_batch pj sha256 key_id arn policy b"
  have b: "set (kb_access_edges ?b) = (\<Union>st\<in>set ?stmts. (\<lambda>(p, props). (arn, p, props)) ` set (statement_ends st))"
    "set (kb_grantable_edges ?b) = (\<Union>st\<in>set ?grants. (\<lambda>(p, props). (p, arn, props)) ` set (statement_ends st))"
    and p: "(\<Union>st\<in>set ?stmts. set (native_principals st)) \<subseteq> set (kb_principals ?b)"
    unfolding Some key_policy_batch_def option.case Let_def by simp_all
  have ends: "(\<Union>st\<in>set ?stmts. fst ` set (statement_ends st)) \<subseteq> insert WILDCARD_PRINCIPAL_ID (set (kb_principals ?b))"
  proof (rule UN_least)
    fix st assume "st \<in> set ?stmts"
    then have "set (native_principals st) \<subseteq> set (kb_principals ?b)" using p by blast
    then show "fst ` set (statement_ends st) \<subseteq> insert WILDCARD_PRINCIPAL_ID (set (kb_principals ?b))"
      using statement_ends_principals [of st] by blast
  qed
  have g: "set ?grants \<subseteq> set ?stmts" by (rule filter_is_subset)
  show ?thesis
    unfolding edges_have_ends_def b image_UN edge_images
    by (intro conjI ends subset_trans [OF UN_mono [OF g subset_refl] ends] UN_mono [OF g subset_refl])
qed (simp add: key_policy_batch_def)

lemma insert_Un_mono: "A \<subseteq> insert w P \<Longrightarrow> B \<subseteq> insert w Q \<Longrightarrow> A \<union> B \<subseteq> insert w (P \<union> Q)"
  by blast

lemma edges_have_ends_join: "list_all edges_have_ends bs \<Longrightarrow> edges_have_ends (join_batches bs)"
proof (induction bs)
  case (Cons b bs)
  then have "edges_have_ends b" "edges_have_ends (join_batches bs)" by simp_all
  then show ?case
    unfolding edges_have_ends_def join_batches_def kms_batch.select_convs list.map concat.simps set_append image_Un
    by (elim conjE) (intro conjI insert_Un_mono Un_mono; assumption)
qed (simp add: edges_have_ends_def join_batches_def)

subsection \<open>Properties\<close>


text \<open>What the key enricher collects, whatever keys and policies AWS answers with. Every edge ends in a
  principal whose node is written before it, or in the wildcard sentinel; and every principal that may create
  grants on a key also has an access edge from it.\<close>

theorem kms_edges_have_endpoints:
  "let b = join_batches (map (key_batch pj sha256 aws region account_id) (listed_keys pages)) in
     (\<lambda>(k, p, _). p) ` set (kb_access_edges b) \<subseteq> insert WILDCARD_PRINCIPAL_ID (set (kb_principals b)) \<and>
     (\<lambda>(p, k, _). p) ` set (kb_grantable_edges b) \<subseteq> insert WILDCARD_PRINCIPAL_ID (set (kb_principals b)) \<and>
     (\<lambda>(p, k, _). (k, p)) ` set (kb_grantable_edges b) \<subseteq> (\<lambda>(k, p, _). (k, p)) ` set (kb_access_edges b)"
proof -
  have "edges_have_ends (key_batch pj sha256 aws region account_id key_id)" for key_id
    by (simp add: key_batch_def Let_def edges_have_ends_empty edges_have_ends_policy split: sum.split option.split)
  then have "edges_have_ends (join_batches (map (key_batch pj sha256 aws region account_id) (listed_keys pages)))"
    by (intro edges_have_ends_join) (simp add: list_all_iff)
  then show ?thesis unfolding edges_have_ends_def Let_def .
qed

text \<open>A failed listing of the roles writes nothing at all; a caller whose account is unknown has still written the
  sentinel when it asks for keys.\<close>

lemma iam_listing_failure:
  assumes "identity = Inr (Some account_id)" and "traverse (\<lambda>p. p) pages = Inl e"
  shows "iam_enrich srv pr pool graph urldecode pj identity pages sent =
    (sent, Inl (IngestFailed (AwsSdk (''Failed to list IAM roles: '' @ e))))"
  using assms
  by (simp add: iam_enrich_def caller_account_def ingest_of_def ingest_bind_def ingest_return_def ingest_fail_def)

end
