(* ===== verification/Ingest_Permissions.thy ===== *)
theory Ingest_Permissions
  imports Ingest_Enrichers Graph_Client Resource_Policy "HOL-Library.AList"
begin

section \<open>Materialised permissions\<close>

text \<open>
  \<open>activable-ingest/src/native/permissions.rs\<close>: the permission edges of a principal, computed from its policies
  as they are stored in the graph: the pairs its inline and managed policies allow, and of these the pairs its
  permission boundary allows as well. A hash map is an association list with distinct keys, \<open>iter\<close> the order in
  which it is traversed; the hash of a permission is a parameter.
\<close>

record principal_policies =
  pp_principal_id :: string
  pp_inline :: json
  pp_managed :: json
  pp_boundary :: "json option"

record permissions_enricher =
  skip_deny :: bool
  warn_on_conditions :: bool

definition permissions_enricher_new :: permissions_enricher where
  "permissions_enricher_new = \<lparr>skip_deny = True, warn_on_conditions = True\<rparr>"

text \<open>The columns of a row: a missing id skips the row; a missing column, or the text \<open>null\<close>, is an empty list of
  policies or no boundary.\<close>

definition policies_column :: "string option \<Rightarrow> json" where
  "policies_column col =
     (case col of Some s \<Rightarrow> if trim s \<noteq> ''null'' then JString s else JArray [] | None \<Rightarrow> JArray [])"

definition boundary_column :: "string option \<Rightarrow> json option" where
  "boundary_column col =
     (case col of Some s \<Rightarrow> if trim s \<noteq> ''null'' then Some (JString s) else None | None \<Rightarrow> None)"

definition principal_of_row ::
  "string option \<times> string option \<times> string option \<times> string option \<Rightarrow> principal_policies option" where
  "principal_of_row row =
     (case row of (id_opt, inline_opt, managed_opt, boundary_opt) \<Rightarrow>
      map_option (\<lambda>s. \<lparr>pp_principal_id = trim s, pp_inline = policies_column inline_opt,
        pp_managed = policies_column managed_opt, pp_boundary = boundary_column boundary_opt\<rparr>) id_opt)"

subsection \<open>Extraction\<close>

text \<open>Policies may be stored as a text that holds them.\<close>

definition unwrap_policies :: "json_parser \<Rightarrow> json \<Rightarrow> json option" where
  "unwrap_policies pj v =
     (case v of
        JString s \<Rightarrow> (case pj s of Inr parsed \<Rightarrow> Some parsed | Inl _ \<Rightarrow> None)
      | JNull \<Rightarrow> None
      | w \<Rightarrow> Some w)"

definition document_statements :: "json_parser \<Rightarrow> json \<Rightarrow> json list" where
  "document_statements pj policy =
     (case policy of
        JObject obj \<Rightarrow>
          (case obj_get obj ''document'' of
             Some (JString doc_str) \<Rightarrow>
               (case pj doc_str of
                  Inr doc \<Rightarrow> (case Option.bind (value_get doc ''Statement'') as_array of Some sts \<Rightarrow> sts | None \<Rightarrow> [])
                | Inl _ \<Rightarrow> [])
           | _ \<Rightarrow> [])
      | _ \<Rightarrow> [])"

definition strings_field :: "json \<Rightarrow> string \<Rightarrow> string list" where
  "strings_field stmt k = (case value_get stmt k of Some v \<Rightarrow> extract_string_or_array v | None \<Rightarrow> [])"

definition granted_by :: "json \<Rightarrow> (string \<times> string) list" where
  "granted_by stmt = List.product (strings_field stmt ''Action'') (strings_field stmt ''Resource'')"

definition effect_of :: "json \<Rightarrow> string option" where
  "effect_of stmt = Option.bind (value_get stmt ''Effect'') as_str"

text \<open>The loop over the statements, with the pairs so far and the counts of skipped Deny statements and of
  conditions.\<close>

fun extract_statements ::
  "bool \<Rightarrow> json list \<Rightarrow> (string \<times> string) list \<Rightarrow> nat \<times> nat \<Rightarrow> (string \<times> string) list \<times> nat \<times> nat" where
  "extract_statements skip [] results counts = (results, counts)"
| "extract_statements skip (stmt # stmts) results (skipped_deny, skipped_conditions) =
     (let deny = (effect_of stmt = Some ''Deny'');
          skipped_deny' = (if deny then skipped_deny + 1 else skipped_deny)
      in if deny \<and> skip then extract_statements skip stmts results (skipped_deny', skipped_conditions)
         else extract_statements skip stmts (results @ granted_by stmt)
           (skipped_deny', if value_get stmt ''Condition'' \<noteq> None then skipped_conditions + 1 else skipped_conditions))"

definition parse_and_extract_permissions ::
  "json_parser \<Rightarrow> bool \<Rightarrow> json \<Rightarrow> nat \<times> nat \<Rightarrow> (string \<times> string) list option \<times> nat \<times> nat" where
  "parse_and_extract_permissions pj skip policies_value counts =
     (case unwrap_policies pj policies_value of
        None \<Rightarrow> (None, counts)
      | Some policies \<Rightarrow>
          let stmts = (case policies of JArray ps \<Rightarrow> concat (map (document_statements pj) ps) | _ \<Rightarrow> []) in
          case extract_statements skip stmts [] counts of
            (results, counts') \<Rightarrow> (if results = [] then None else Some results, counts'))"

definition only_allow_statements :: "json list \<Rightarrow> (string \<times> string) list" where
  "only_allow_statements stmts =
     concat (map (\<lambda>stmt. case effect_of stmt of
         Some e \<Rightarrow> if e \<noteq> ''Allow'' then [] else granted_by stmt
       | None \<Rightarrow> granted_by stmt) stmts)"

definition parse_and_extract_permissions_only_allow :: "json_parser \<Rightarrow> json \<Rightarrow> (string \<times> string) list" where
  "parse_and_extract_permissions_only_allow pj policies_value =
     remdups (only_allow_statements
       (case unwrap_policies pj policies_value of
          None \<Rightarrow> []
        | Some (JObject boundary_obj) \<Rightarrow> document_statements pj (JObject boundary_obj)
        | Some (JArray policies_arr) \<Rightarrow> concat (map (document_statements pj) policies_arr)
        | Some _ \<Rightarrow> []))"

subsection \<open>One principal\<close>

definition insert_permissions ::
  "string \<Rightarrow> (string \<times> string) list option \<Rightarrow> ((string \<times> string) \<times> string) list \<Rightarrow> ((string \<times> string) \<times> string) list" where
  "insert_permissions source extracted m =
     (case extracted of None \<Rightarrow> m | Some ps \<Rightarrow> foldl (\<lambda>m p. AList.update p source m) m ps)"

definition apply_boundary ::
  "json_parser \<Rightarrow> json option \<Rightarrow> ((string \<times> string) \<times> string) list \<Rightarrow> ((string \<times> string) \<times> string) list" where
  "apply_boundary pj boundary m =
     (case boundary of
        None \<Rightarrow> m
      | Some boundary_value \<Rightarrow>
          let boundary_permissions = parse_and_extract_permissions_only_allow pj boundary_value in
          if boundary_permissions = [] then []
          else map (\<lambda>(k, _). (k, ''boundary-survived'')) (filter (\<lambda>(k, _). k \<in> set boundary_permissions) m))"

definition materialised_permissions ::
  "json_parser \<Rightarrow> permissions_enricher \<Rightarrow> principal_policies \<Rightarrow> nat \<times> nat \<Rightarrow> ((string \<times> string) \<times> string) list \<times> nat \<times> nat" where
  "materialised_permissions pj self pp counts =
     (case parse_and_extract_permissions pj (skip_deny self) (pp_inline pp) counts of (inline_tuple, counts1) \<Rightarrow>
      case parse_and_extract_permissions pj (skip_deny self) (pp_managed pp) counts1 of (managed_tuple, counts2) \<Rightarrow>
      (apply_boundary pj (pp_boundary pp)
         (insert_permissions ''managed'' managed_tuple (insert_permissions ''inline'' inline_tuple [])), counts2))"

definition permission_key_text :: "string \<times> string \<Rightarrow> string" where
  "permission_key_text p = fst p @ ''|'' @ snd p"

definition sha256_perm_id :: "(string \<Rightarrow> string) \<Rightarrow> string \<times> string \<Rightarrow> string" where
  "sha256_perm_id sha256 p = ''perm:'' @ sha256 (permission_key_text p)"

definition permission_node :: "(string \<Rightarrow> string) \<Rightarrow> string \<times> string \<Rightarrow> json" where
  "permission_node sha256 p =
     json_obj [(''id'', JString (sha256_perm_id sha256 p)), (''action'', JString (fst p)), (''resource'', JString (snd p))]"

definition permission_edge :: "(string \<Rightarrow> string) \<Rightarrow> string \<Rightarrow> (string \<times> string) \<times> string \<Rightarrow> string \<times> string \<times> json" where
  "permission_edge sha256 principal_id entry =
     (principal_id, sha256_perm_id sha256 (fst entry),
      json_obj [(''action'', JString (fst (fst entry))), (''resource'', JString (snd (fst entry))),
        (''source'', JString (snd entry))])"

text \<open>\<open>entry(key).or_insert_with(node)\<close>\<close>

definition insert_node :: "(string \<Rightarrow> string) \<Rightarrow> (string \<times> json) list \<Rightarrow> string \<times> string \<Rightarrow> (string \<times> json) list" where
  "insert_node sha256 nodes p =
     (if map_of nodes (permission_key_text p) \<noteq> None then nodes
      else nodes @ [(permission_key_text p, permission_node sha256 p)])"

fun collect_permissions ::
  "json_parser \<Rightarrow> (string \<Rightarrow> string) \<Rightarrow> (((string \<times> string) \<times> string) list \<Rightarrow> ((string \<times> string) \<times> string) list)
     \<Rightarrow> permissions_enricher \<Rightarrow> principal_policies list \<Rightarrow> nat \<times> nat \<Rightarrow> (string \<times> json) list
     \<Rightarrow> (string \<times> string \<times> json) list \<Rightarrow> (string \<times> json) list \<times> (string \<times> string \<times> json) list" where
  "collect_permissions pj sha256 iter self [] counts nodes edges = (nodes, edges)"
| "collect_permissions pj sha256 iter self (pp # pps) counts nodes edges =
     (case materialised_permissions pj self pp counts of (m, counts') \<Rightarrow>
      let entries = iter m in
      collect_permissions pj sha256 iter self pps counts'
        (foldl (insert_node sha256) nodes (map fst entries))
        (edges @ map (permission_edge sha256 (pp_principal_id pp)) entries))"

subsection \<open>The enricher\<close>

text \<open>\<open>rows\<close> is the answer to the query for the principals; the statement is on the connection that was set up for it.\<close>

definition principals_cypher :: string where
  "principals_cypher =
     [CHR 0x0A] @ ''        MATCH (n:Principal)'' @ [CHR 0x0A] @
     ''        WHERE n.inline_policies IS NOT NULL OR n.managed_policies IS NOT NULL'' @ [CHR 0x0A] @
     ''        RETURN n.id, n.inline_policies, n.managed_policies, n.permissions_boundary'' @ [CHR 0x0A] @ ''    ''"

definition principals_sql :: "string \<Rightarrow> string" where
  "principals_sql graph =
     ''SELECT id::text, inline::text, managed::text, boundary::text FROM ag_catalog.cypher('' @ quoted graph @
     '', $$'' @ principals_cypher @ ''$$) AS (id agtype, inline agtype, managed agtype, boundary agtype)''"

definition send :: "server \<Rightarrow> string \<Rightarrow> string \<Rightarrow> nat ingesting" where
  "send srv what sql sent =
     (case srv sent sql of
        Inl e \<Rightarrow> (sent @ [sql], Inl (IngestFailed (GraphFailure (what @ e))))
      | Inr n \<Rightarrow> (sent @ [sql], Inr n))"

definition fetch_principals_with_policies ::
  "server \<Rightarrow> (string + unit) \<Rightarrow> string
     \<Rightarrow> (string list \<Rightarrow> (string option \<times> string option \<times> string option \<times> string option) list)
     \<Rightarrow> principal_policies list ingesting" where
  "fetch_principals_with_policies srv pool graph rows =
     ingest_bind (ingest_of pool (\<lambda>e. GraphFailure (''Failed to get connection: '' @ e))) (\<lambda>_.
     ingest_bind (send srv ''Failed to initialize AGE: '' age_setup) (\<lambda>_.
     ingest_bind (send srv ''Failed to query principals with policies: '' (principals_sql graph)) (\<lambda>_ sent.
     (sent, Inr (List.map_filter principal_of_row (rows sent))))))"

definition permissions_enrich ::
  "server \<Rightarrow> printers \<Rightarrow> (string + unit) \<Rightarrow> string \<Rightarrow> json_parser \<Rightarrow> (string \<Rightarrow> string)
     \<Rightarrow> (((string \<times> string) \<times> string) list \<Rightarrow> ((string \<times> string) \<times> string) list) \<Rightarrow> (json list \<Rightarrow> json list)
     \<Rightarrow> (string list \<Rightarrow> (string option \<times> string option \<times> string option \<times> string option) list)
     \<Rightarrow> permissions_enricher \<Rightarrow> enrichment_stats ingesting" where
  "permissions_enrich srv pr pool graph pj sha256 iter iter_nodes rows self =
     ingest_bind (fetch_principals_with_policies srv pool graph rows) (\<lambda>principals.
     if principals = [] then ingest_return \<lparr>stats_service = ''permissions'', edges_created = 0\<rparr>
     else
       case collect_permissions pj sha256 iter self principals (0, 0) [] [] of (nodes, edges) \<Rightarrow>
       let perm_values = iter_nodes (map snd nodes) in
       ingest_bind (load_unless_empty nodes (load_nodes srv pr pool graph ''Permission'' perm_values 100)) (\<lambda>_.
       ingest_bind (edges_unless_empty edges
         (load_edges_with_props_identifying srv pr pool graph ''HasEffectivePermission'' edges 100 False
           [''action'', ''resource''])) (\<lambda>n.
       ingest_return \<lparr>stats_service = ''permissions'', edges_created = n\<rparr>)))"

subsection \<open>What is materialised\<close>

text \<open>The statements stored in a list of policies, and the pairs a set of statements grants.\<close>

definition stored_statements :: "json_parser \<Rightarrow> json \<Rightarrow> json list" where
  "stored_statements pj v =
     (case unwrap_policies pj v of Some (JArray ps) \<Rightarrow> concat (map (document_statements pj) ps) | _ \<Rightarrow> [])"

definition boundary_statements :: "json_parser \<Rightarrow> json \<Rightarrow> json list" where
  "boundary_statements pj v =
     (case unwrap_policies pj v of
        Some (JObject obj) \<Rightarrow> document_statements pj (JObject obj)
      | Some (JArray ps) \<Rightarrow> concat (map (document_statements pj) ps)
      | _ \<Rightarrow> [])"

definition grants :: "json \<Rightarrow> string \<times> string \<Rightarrow> bool" where
  "grants stmt p \<longleftrightarrow> fst p \<in> set (strings_field stmt ''Action'') \<and> snd p \<in> set (strings_field stmt ''Resource'')"

lemma set_granted_by [simp]: "set (granted_by stmt) = {p. grants stmt p}"
  by (auto simp: granted_by_def grants_def)

definition extracted_pairs :: "'a list option \<Rightarrow> 'a list" where
  "extracted_pairs ps = (case ps of Some qs \<Rightarrow> qs | None \<Rightarrow> [])"

lemma extract_statements_pairs:
  "fst (extract_statements skip sts acc c) =
     acc @ concat (map (\<lambda>st. if skip \<and> effect_of st = Some ''Deny'' then [] else granted_by st) sts)"
proof (induction sts arbitrary: acc c)
  case (Cons st sts)
  show ?case
    using Cons.IH by (cases c; cases skip) (simp_all add: Let_def)
qed (cases c; simp)

lemma parse_and_extract_permissions_pairs:
  "set (extracted_pairs (fst (parse_and_extract_permissions pj skip v c))) =
     {p. \<exists>st. st \<in> set (stored_statements pj v) \<and> \<not> (skip \<and> effect_of st = Some ''Deny'') \<and> grants st p}"
proof -
  have pairs: "set (fst (extract_statements skip sts [] c)) =
      {p. \<exists>st. st \<in> set sts \<and> \<not> (skip \<and> effect_of st = Some ''Deny'') \<and> grants st p}" for sts
    by (auto simp: extract_statements_pairs split: if_splits)
  show ?thesis
  proof (cases "unwrap_policies pj v")
    case None
    thus ?thesis
      by (simp add: parse_and_extract_permissions_def stored_statements_def extracted_pairs_def)
  next
    case (Some w)
    define sts where "sts = (case w of JArray ps \<Rightarrow> concat (map (document_statements pj) ps) | _ \<Rightarrow> [])"
    have "fst (parse_and_extract_permissions pj skip v c) =
        (if fst (extract_statements skip sts [] c) = [] then None else Some (fst (extract_statements skip sts [] c)))"
      by (simp add: parse_and_extract_permissions_def Some sts_def Let_def split_beta)
    moreover have "stored_statements pj v = sts"
      by (simp add: stored_statements_def Some sts_def)
    ultimately show ?thesis
      using pairs [of sts] by (cases "fst (extract_statements skip sts [] c) = []") (auto simp: extracted_pairs_def)
  qed
qed

lemma set_only_allow:
  "set (parse_and_extract_permissions_only_allow pj v) =
     {p. \<exists>st. st \<in> set (boundary_statements pj v) \<and> (effect_of st = None \<or> effect_of st = Some ''Allow'') \<and> grants st p}"
proof -
  have *: "set (only_allow_statements sts) =
      {p. \<exists>st. st \<in> set sts \<and> (effect_of st = None \<or> effect_of st = Some ''Allow'') \<and> grants st p}" for sts
    by (auto simp: only_allow_statements_def split: option.splits if_splits)
  show ?thesis
    by (simp add: parse_and_extract_permissions_only_allow_def boundary_statements_def *
        split: option.splits json.splits)
qed

lemma foldl_update_map_of:
  "map_of (foldl (\<lambda>m p. AList.update p src m) m ps) p = (if p \<in> set ps then Some src else map_of m p)"
  by (induction ps arbitrary: m) (auto simp: update_conv)

lemma map_of_insert_permissions:
  "map_of (insert_permissions src ps m) p =
     (if p \<in> set (extracted_pairs ps) then Some src else map_of m p)"
  by (cases ps) (simp_all add: insert_permissions_def foldl_update_map_of extracted_pairs_def)

lemma map_of_apply_boundary:
  "map_of (apply_boundary pj b m) p =
     (case b of
        None \<Rightarrow> map_of m p
      | Some v \<Rightarrow> if p \<in> set (parse_and_extract_permissions_only_allow pj v) \<and> map_of m p \<noteq> None
                 then Some ''boundary-survived'' else None)"
proof -
  have "map_of (map (\<lambda>(k, _). (k, s)) (filter (\<lambda>(k, _). k \<in> A) m)) p =
      (if p \<in> A \<and> map_of m p \<noteq> None then Some s else None)" for A and s :: string
    by (induction m) (auto)
  thus ?thesis
    by (auto simp: apply_boundary_def Let_def split: option.splits)
qed

definition allows_pair :: "json_parser \<Rightarrow> json \<Rightarrow> string \<times> string \<Rightarrow> bool" where
  "allows_pair pj v p \<longleftrightarrow>
     (\<exists>st. st \<in> set (stored_statements pj v) \<and> effect_of st \<noteq> Some ''Deny'' \<and> grants st p)"

definition bounds_pair :: "json_parser \<Rightarrow> json \<Rightarrow> string \<times> string \<Rightarrow> bool" where
  "bounds_pair pj v p \<longleftrightarrow>
     (\<exists>st. st \<in> set (boundary_statements pj v) \<and> (effect_of st = None \<or> effect_of st = Some ''Allow'') \<and> grants st p)"

text \<open>
  C28: the permissions materialised for a principal, and the source each is given: the pairs of actions and
  resources written in a statement of its inline or managed policies that is not a Deny, and, with a permission
  boundary, of these the pairs that are written, in the same letters, in a statement of the boundary. A pair that
  both kinds of policy hold is recorded as managed, and every pair that a boundary keeps as a survivor.
\<close>

theorem materialised_permissions_exact:
  "map_of (fst (materialised_permissions pj permissions_enricher_new pp c)) p =
     (let held = (if allows_pair pj (pp_managed pp) p then Some ''managed''
                  else if allows_pair pj (pp_inline pp) p then Some ''inline'' else None)
      in case pp_boundary pp of
           None \<Rightarrow> held
         | Some b \<Rightarrow> if bounds_pair pj b p \<and> held \<noteq> None then Some ''boundary-survived'' else None)"
proof -
  obtain inl c1 where i: "parse_and_extract_permissions pj True (pp_inline pp) c = (inl, c1)"
    by (rule prod.exhaust)
  obtain man c2 where m: "parse_and_extract_permissions pj True (pp_managed pp) c1 = (man, c2)"
    by (rule prod.exhaust)
  have in_i: "p \<in> set (extracted_pairs inl) \<longleftrightarrow> allows_pair pj (pp_inline pp) p"
    using parse_and_extract_permissions_pairs [of pj True "pp_inline pp" c] by (simp add: i allows_pair_def)
  have in_m: "p \<in> set (extracted_pairs man) \<longleftrightarrow> allows_pair pj (pp_managed pp) p"
    using parse_and_extract_permissions_pairs [of pj True "pp_managed pp" c1] by (simp add: m allows_pair_def)
  have in_b: "p \<in> set (parse_and_extract_permissions_only_allow pj b) \<longleftrightarrow> bounds_pair pj b p" for b
    by (simp add: set_only_allow bounds_pair_def)
  show ?thesis
    by (simp add: materialised_permissions_def permissions_enricher_new_def i m map_of_apply_boundary
        map_of_insert_permissions in_i in_m in_b Let_def split: option.splits)
qed

text \<open>A boundary that allows everything keeps only the pair of stars: the pairs are compared as texts, not as
  patterns.\<close>

lemma wildcard_boundary_keeps_stars_only:
  assumes "boundary_statements pj b = [json_obj [(''Effect'', JString ''Allow''), (''Action'', JString ''*''), (''Resource'', JString ''*'')]]"
  shows "bounds_pair pj b p \<longleftrightarrow> p = (''*'', ''*'')"
    and "boundary_allows [\<lparr>sid = None, effect = Allow, actions = [ActionPattern ''*''], not_actions = [],
      resources = [ResourcePattern ''*''], not_resources = [], conditions = []\<rparr>] act res"
proof -
  show "bounds_pair pj b p \<longleftrightarrow> p = (''*'', ''*'')"
    by (cases p) (simp add: bounds_pair_def assms effect_of_def grants_def strings_field_def extract_string_or_array_def
        json_obj_def value_get_def obj_get_def)
  show "boundary_allows [\<lparr>sid = None, effect = Allow, actions = [ActionPattern ''*''], not_actions = [],
      resources = [ResourcePattern ''*''], not_resources = [], conditions = []\<rparr>] act res"
    by (simp add: boundary_allows_def stmt_action_match_def stmt_resource_match_def glob_any
        action_matches_glob resource_matches_glob to_lowercase_def lower_char_def)
qed

subsection \<open>Nodes and edges\<close>

definition node_ids :: "(string \<times> json) list \<Rightarrow> json set" where
  "node_ids nodes = (\<lambda>(_, v). the (value_get v ''id'')) ` set nodes"

definition edge_ends :: "(string \<times> string \<times> json) list \<Rightarrow> json set" where
  "edge_ends edges = (\<lambda>(_, t, _). JString t) ` set edges"

definition nodes_ok :: "(string \<Rightarrow> string) \<Rightarrow> (string \<times> json) list \<Rightarrow> bool" where
  "nodes_ok sha256 nodes \<longleftrightarrow>
     distinct (map fst nodes) \<and>
     (\<forall>k v. (k, v) \<in> set nodes \<longrightarrow> (\<exists>p. k = permission_key_text p \<and> v = permission_node sha256 p))"

lemma node_id_of: "value_get (permission_node sha256 p) ''id'' = Some (JString (sha256_perm_id sha256 p))"
  by (simp add: permission_node_def json_obj_def value_get_def obj_get_def)

lemma insert_node_ok:
  assumes "nodes_ok sha256 nodes"
  shows "nodes_ok sha256 (insert_node sha256 nodes p)"
    and "node_ids (insert_node sha256 nodes p) = insert (JString (sha256_perm_id sha256 p)) (node_ids nodes)"
proof -
  show "nodes_ok sha256 (insert_node sha256 nodes p)"
    using assms unfolding nodes_ok_def insert_node_def by (auto simp: map_of_eq_None_iff simp del: split_paired_Ex)
  show "node_ids (insert_node sha256 nodes p) = insert (JString (sha256_perm_id sha256 p)) (node_ids nodes)"
  proof (cases "map_of nodes (permission_key_text p)")
    case None
    thus ?thesis
      by (simp add: insert_node_def node_ids_def node_id_of)
  next
    case (Some v)
    then obtain q where v: "(permission_key_text p, v) \<in> set nodes" "permission_key_text p = permission_key_text q"
        "v = permission_node sha256 q"
      using assms by (meson map_of_SomeD nodes_ok_def)
    hence "JString (sha256_perm_id sha256 p) \<in> node_ids nodes"
      by (force simp: node_ids_def node_id_of sha256_perm_id_def)
    thus ?thesis
      using Some by (auto simp: insert_node_def)
  qed
qed

lemma insert_nodes_ok:
  assumes "nodes_ok sha256 nodes"
  shows "nodes_ok sha256 (foldl (insert_node sha256) nodes ps) \<and>
    node_ids (foldl (insert_node sha256) nodes ps) =
      (\<lambda>p. JString (sha256_perm_id sha256 p)) ` set ps \<union> node_ids nodes"
  using assms by (induction ps arbitrary: nodes) (auto simp: insert_node_ok)

lemma edge_ends_of:
  "edge_ends (edges @ map (permission_edge sha256 a) es) =
     (\<lambda>p. JString (sha256_perm_id sha256 p)) ` set (map fst es) \<union> edge_ends edges"
  by (simp add: edge_ends_def permission_edge_def image_Un image_image split_beta Un_commute)

lemma collect_permissions_ok:
  assumes "nodes_ok sha256 nodes" "node_ids nodes = edge_ends edges"
  shows "case collect_permissions pj sha256 iter self pps c nodes edges of (nodes', edges') \<Rightarrow>
    nodes_ok sha256 nodes' \<and> node_ids nodes' = edge_ends edges'"
  using assms
proof (induction pps arbitrary: c nodes edges)
  case (Cons pp pps)
  obtain m c' where m: "materialised_permissions pj self pp c = (m, c')"
    by (rule prod.exhaust)
  show ?case
    unfolding collect_permissions.simps m prod.case Let_def
    by (rule Cons.IH) (simp_all add: insert_nodes_ok Cons.prems edge_ends_of)
qed simp

text \<open>Whatever the policies and the order in which the hash maps are traversed, the permission nodes that are loaded
  are those the permission edges end at, no more and no fewer, each under a key of its own: no edge is dropped for a
  missing end, and no permission node is left without a principal that holds it.
\<close>

theorem permission_edges_have_nodes:
  "case collect_permissions pj sha256 iter self pps c [] [] of (nodes, edges) \<Rightarrow>
     distinct (map fst nodes) \<and>
     (\<lambda>(_, v). the (value_get v ''id'')) ` set nodes = (\<lambda>(_, t, _). JString t) ` set edges"
  using collect_permissions_ok [of sha256 "[]" "[]" pj iter self pps c]
  by (simp add: nodes_ok_def node_ids_def edge_ends_def split_beta)

end
