(* ===== verification/Ingest_Services.thy ===== *)
theory Ingest_Services
  imports Ingest_Enrichers "HOL-Library.AList"
begin

section \<open>The EC2, S3, Secrets Manager and Lambda enrichers\<close>

text \<open>
  \<open>activable-ingest/src/native/ec2.rs\<close>, \<open>s3.rs\<close>, \<open>secretsmanager.rs\<close> and \<open>lambda.rs\<close>: the nodes and edges built from
  what AWS answers. Its pages and the answer of each call are parameters, as are the JSON parser, the hash of an ARN
  and the order in which the hash map of principal nodes is traversed (\<open>iter\<close>).
\<close>

text \<open>The items of the pages before the first that failed: the loops that log an error and stop.\<close>

fun pages_before_error :: "(string + 'a list) list \<Rightarrow> 'a list" where
  "pages_before_error [] = []"
| "pages_before_error (Inl e # pages) = []"
| "pages_before_error (Inr items # pages) = items @ pages_before_error pages"

subsection \<open>EC2\<close>

record ec2_instance =
  instance_id :: "string option"
  security_groups :: "string option list"

definition instance_edges :: "ec2_instance \<Rightarrow> (string \<times> string) list" where
  "instance_edges inst =
     (case instance_id inst of
        None \<Rightarrow> []
      | Some i \<Rightarrow> map (\<lambda>sg. (i, sg)) (List.map_filter (\<lambda>g. g) (security_groups inst)))"

text \<open>A page is a list of reservations, each a list of instances; a page that fails ends the run.\<close>

definition ec2_enrich ::
  "server \<Rightarrow> (string + unit) \<Rightarrow> string \<Rightarrow> (string + ec2_instance list list) list \<Rightarrow> enrichment_stats ingesting" where
  "ec2_enrich srv pool graph pages =
     ingest_bind (ingest_of (traverse (\<lambda>p. p) pages) (\<lambda>e. AwsSdk (''Failed to describe EC2 instances: '' @ e))) (\<lambda>ps.
     let edges = concat (map instance_edges (concat (concat ps))) in
     ingest_bind (edges_unless_empty edges (load_edges srv pool graph ''HasSecurityGroup'' edges 100 False)) (\<lambda>n.
     ingest_return \<lparr>stats_service = ''ec2'', edges_created = n\<rparr>))"

subsection \<open>S3\<close>

record s3_aws =
  list_buckets :: "string + string option list"
  get_bucket_location :: "string \<Rightarrow> string + string option"
  get_bucket_policy :: "string \<Rightarrow> string + string option"

record s3_batch =
  sb_bucket_nodes :: "json list"
  sb_policy_nodes :: "json list"
  sb_policy_edges :: "(string \<times> string) list"
  sb_access_edges :: "(string \<times> string \<times> json) list"

definition bucket_arn :: "string \<Rightarrow> string" where
  "bucket_arn name = ''arn:aws:s3:::'' @ name"

definition bucket_region :: "string + string option \<Rightarrow> string" where
  "bucket_region location =
     (case location of Inr (Some r) \<Rightarrow> r | Inr None \<Rightarrow> ''us-east-1'' | Inl _ \<Rightarrow> ''us-east-1'')"

definition bucket_node :: "string \<Rightarrow> string \<Rightarrow> string \<Rightarrow> json" where
  "bucket_node name region account_id =
     json_obj [(''id'', JString (bucket_arn name)), (''name'', JString name), (''region'', JString region),
       (''account_id'', JString account_id)]"

text \<open>The loop over the statements is written out a second time in \<open>s3.rs\<close>, without the nodes of the principals.\<close>

fun s3_statement_edges :: "string \<Rightarrow> parsed_statement list \<Rightarrow> (string \<times> string \<times> json) list \<Rightarrow> (string \<times> string \<times> json) list" where
  "s3_statement_edges arn [] edges = edges"
| "s3_statement_edges arn (stmt # stmts) edges =
     (let keys = (''condition_keys'', JArray (map JString (ps_condition_keys stmt)));
          edges' =
            (if ps_wildcard stmt
             then edges @ [(arn, WILDCARD_PRINCIPAL_ID, json_obj [(''wildcard_principal'', JBool True), keys])]
             else if length (ps_principals stmt) > 50
             then foldl (\<lambda>es p. es @ [(arn, p, json_obj [keys])]) edges (take 49 (ps_principals stmt)) @
                 [(arn, WILDCARD_PRINCIPAL_ID, json_obj [(''cap_exceeded'', JBool True), keys])]
             else foldl (\<lambda>es p. es @ [(arn, p, json_obj [keys])]) edges (ps_principals stmt))
      in s3_statement_edges arn stmts edges')"

definition bucket_policy_id :: "(string \<Rightarrow> string) \<Rightarrow> string \<Rightarrow> string" where
  "bucket_policy_id sha256 arn = ''sha256:'' @ sha256 arn @ '':bucket-policy''"

definition bucket_step ::
  "json_parser \<Rightarrow> (string \<Rightarrow> string) \<Rightarrow> s3_aws \<Rightarrow> string \<Rightarrow> s3_batch \<Rightarrow> string option \<Rightarrow> s3_batch" where
  "bucket_step pj sha256 aws account_id b bucket =
     (case bucket of
        None \<Rightarrow> b
      | Some name \<Rightarrow>
          let arn = bucket_arn name;
              b1 = b\<lparr>sb_bucket_nodes := sb_bucket_nodes b @
                [bucket_node name (bucket_region (get_bucket_location aws name)) account_id]\<rparr>
          in case get_bucket_policy aws name of
               Inr (Some policy_doc) \<Rightarrow>
                 let policy_id = bucket_policy_id sha256 arn;
                     b2 = b1\<lparr>sb_policy_nodes := sb_policy_nodes b1 @
                         [json_obj [(''id'', JString policy_id), (''name'', JString (name @ ''/bucket-policy'')),
                            (''source'', JString ''bucket''), (''document'', JString policy_doc)]],
                       sb_policy_edges := sb_policy_edges b1 @ [(arn, policy_id)]\<rparr>
                 in (case parse_native_policy pj policy_doc of
                       Inr stmts \<Rightarrow> b2\<lparr>sb_access_edges := s3_statement_edges arn stmts (sb_access_edges b2)\<rparr>
                     | Inl _ \<Rightarrow> b2)
             | Inr None \<Rightarrow> b1
             | Inl _ \<Rightarrow> b1)"

definition s3_enrich ::
  "server \<Rightarrow> printers \<Rightarrow> (string + unit) \<Rightarrow> string \<Rightarrow> json_parser \<Rightarrow> (string \<Rightarrow> string) \<Rightarrow> s3_aws
     \<Rightarrow> string + string option \<Rightarrow> enrichment_stats ingesting" where
  "s3_enrich srv pr pool graph pj sha256 aws identity =
     ingest_bind (ensure_wildcard_principal srv pr pool graph) (\<lambda>_.
     ingest_bind (caller_account identity) (\<lambda>account_id.
     ingest_bind (ingest_of (list_buckets aws) (\<lambda>e. AwsSdk (''Failed to list S3 buckets: '' @ e))) (\<lambda>buckets.
     let b = foldl (bucket_step pj sha256 aws account_id)
           \<lparr>sb_bucket_nodes = [], sb_policy_nodes = [], sb_policy_edges = [], sb_access_edges = []\<rparr> buckets
     in
     ingest_bind (load_unless_empty (sb_bucket_nodes b) (load_nodes srv pr pool graph ''Bucket'' (sb_bucket_nodes b) 100)) (\<lambda>_.
     ingest_bind (load_unless_empty (sb_policy_nodes b) (load_nodes srv pr pool graph ''Policy'' (sb_policy_nodes b) 100)) (\<lambda>_.
     ingest_bind (edges_unless_empty (sb_policy_edges b)
       (load_edges srv pool graph ''HasBucketPolicy'' (sb_policy_edges b) 100 False)) (\<lambda>m.
     ingest_bind (edges_unless_empty (sb_access_edges b)
       (load_edges_with_props srv pr pool graph ''AllowsAccessFrom'' (sb_access_edges b) 100 False)) (\<lambda>n.
     ingest_return \<lparr>stats_service = ''s3'', edges_created = m + n\<rparr>)))))))"

subsection \<open>Secrets Manager\<close>

definition classify_secret_kms :: "string option \<Rightarrow> string \<Rightarrow> string \<Rightarrow> string" where
  "classify_secret_kms kms_key_id account_id region =
     (case kms_key_id of
        None \<Rightarrow> AWS_MANAGED_KEY_ID
      | Some kid \<Rightarrow>
          if kid = [] then AWS_MANAGED_KEY_ID
          else if kid = ''aws/secretsmanager'' \<or> starts_with kid ''alias/aws/'' then AWS_MANAGED_KEY_ID
          else if starts_with kid ''arn:'' then kid
          else if starts_with kid ''alias/'' then kid
          else ''arn:aws:kms:'' @ region @ '':'' @ account_id @ '':key/'' @ kid)"

record secret_entry =
  secret_arn :: "string option"
  secret_name :: "string option"
  secret_kms_key_id :: "string option"
  secret_rotation :: "bool option"

record access_batch =
  ab_principals :: "(string \<times> json) list"
  ab_access_edges :: "(string \<times> string \<times> json) list"

text \<open>The hash map of principal nodes: a node replaces one of the same id.\<close>

definition insert_principal :: "(string \<times> json) list \<Rightarrow> json \<Rightarrow> (string \<times> json) list" where
  "insert_principal m node =
     AList.update (case Option.bind (value_get node ''id'') as_str of Some i \<Rightarrow> i | None \<Rightarrow> []) node m"

definition add_access :: "json_parser \<Rightarrow> string \<Rightarrow> string \<Rightarrow> string + string option \<Rightarrow> access_batch \<Rightarrow> access_batch" where
  "add_access pj account_id arn policy b =
     (case policy of
        Inr (Some policy_doc) \<Rightarrow>
          (case parse_native_policy pj policy_doc of
             Inr stmts \<Rightarrow>
               (case build_access_edges arn stmts account_id of (edges, p_nodes) \<Rightarrow>
                b\<lparr>ab_principals := foldl insert_principal (ab_principals b) p_nodes,
                  ab_access_edges := ab_access_edges b @ edges\<rparr>)
           | Inl _ \<Rightarrow> b)
      | Inr None \<Rightarrow> b
      | Inl _ \<Rightarrow> b)"

definition secret_node :: "string \<Rightarrow> string \<Rightarrow> string \<Rightarrow> secret_entry \<Rightarrow> json" where
  "secret_node arn account_id region s =
     json_obj [(''id'', JString arn), (''name'', JString (case secret_name s of Some n \<Rightarrow> n | None \<Rightarrow> [])),
       (''account_id'', JString account_id), (''region'', JString region),
       (''kms_key_id'', case secret_kms_key_id s of Some k \<Rightarrow> JString k | None \<Rightarrow> JNull),
       (''rotation_enabled'', JBool (secret_rotation s = Some True))]"

definition secret_step ::
  "json_parser \<Rightarrow> (string \<Rightarrow> string + string option) \<Rightarrow> string \<Rightarrow> string
     \<Rightarrow> json list \<times> (string \<times> string) list \<times> access_batch \<Rightarrow> secret_entry
     \<Rightarrow> json list \<times> (string \<times> string) list \<times> access_batch" where
  "secret_step pj get_policy account_id region acc s =
     (case acc of (nodes, encrypted_by, b) \<Rightarrow>
      case secret_arn s of
        None \<Rightarrow> acc
      | Some arn \<Rightarrow>
          (nodes @ [secret_node arn account_id region s],
           encrypted_by @ [(arn, classify_secret_kms (secret_kms_key_id s) account_id region)],
           add_access pj account_id arn (get_policy arn) b))"

definition no_access :: access_batch where
  "no_access = \<lparr>ab_principals = [], ab_access_edges = []\<rparr>"

definition secretsmanager_enrich ::
  "server \<Rightarrow> printers \<Rightarrow> (string + unit) \<Rightarrow> string \<Rightarrow> json_parser \<Rightarrow> (json list \<Rightarrow> json list)
     \<Rightarrow> (string + secret_entry list) list \<Rightarrow> (string \<Rightarrow> string + string option)
     \<Rightarrow> string + string option \<Rightarrow> string option \<Rightarrow> enrichment_stats ingesting" where
  "secretsmanager_enrich srv pr pool graph pj iter pages get_policy identity configured_region =
     ingest_bind (ensure_wildcard_principal srv pr pool graph) (\<lambda>_.
     ingest_bind (ensure_aws_managed_key srv pr pool graph) (\<lambda>_.
     ingest_bind (caller_account identity) (\<lambda>account_id.
     let region = (case configured_region of Some r \<Rightarrow> r | None \<Rightarrow> ''us-east-1'') in
     case foldl (secret_step pj get_policy account_id region) ([], [], no_access) (pages_before_error pages) of
       (secret_nodes, encrypted_by, b) \<Rightarrow>
     let principal_nodes = iter (map snd (ab_principals b)) in
     ingest_bind (load_unless_empty secret_nodes (load_nodes srv pr pool graph ''Secret'' secret_nodes 100)) (\<lambda>_.
     ingest_bind (load_unless_empty principal_nodes (load_nodes srv pr pool graph ''Principal'' principal_nodes 100)) (\<lambda>_.
     ingest_bind (edges_unless_empty encrypted_by (load_edges srv pool graph ''EncryptedBy'' encrypted_by 100 False)) (\<lambda>m.
     ingest_bind (edges_unless_empty (ab_access_edges b)
       (load_edges_with_props srv pr pool graph ''AllowsAccessFrom'' (ab_access_edges b) 100 False)) (\<lambda>n.
     ingest_return \<lparr>stats_service = ''secretsmanager'', edges_created = m + n\<rparr>)))))))"

subsection \<open>Lambda\<close>

definition function_step ::
  "json_parser \<Rightarrow> (string \<Rightarrow> string + string option) \<Rightarrow> string \<Rightarrow> access_batch \<Rightarrow> string option \<Rightarrow> access_batch" where
  "function_step pj get_policy account_id b func_arn =
     (case func_arn of
        None \<Rightarrow> b
      | Some arn \<Rightarrow> add_access pj account_id arn (get_policy arn) b)"

definition lambda_enrich ::
  "server \<Rightarrow> printers \<Rightarrow> (string + unit) \<Rightarrow> string \<Rightarrow> json_parser \<Rightarrow> (json list \<Rightarrow> json list)
     \<Rightarrow> (string + string option list) list \<Rightarrow> (string \<Rightarrow> string + string option)
     \<Rightarrow> string + string option \<Rightarrow> enrichment_stats ingesting" where
  "lambda_enrich srv pr pool graph pj iter pages get_policy identity =
     ingest_bind (ensure_wildcard_principal srv pr pool graph) (\<lambda>_.
     ingest_bind (caller_account identity) (\<lambda>account_id.
     let b = foldl (function_step pj get_policy account_id) no_access (pages_before_error pages);
         principal_nodes = iter (map snd (ab_principals b))
     in
     ingest_bind (load_unless_empty principal_nodes (load_nodes srv pr pool graph ''Principal'' principal_nodes 100)) (\<lambda>_.
     ingest_bind (edges_unless_empty (ab_access_edges b)
       (load_edges_with_props srv pr pool graph ''AllowsAccessFrom'' (ab_access_edges b) 100 False)) (\<lambda>n.
     ingest_return \<lparr>stats_service = ''lambda'', edges_created = n\<rparr>))))"

subsection \<open>Lemmas\<close>

lemma foldl_snoc: "foldl (\<lambda>es p. es @ [f p]) es ps = es @ map f ps"
  by (induction ps arbitrary: es) simp_all

lemma s3_statement_edges_acc:
  "s3_statement_edges arn stmts edges = edges @ concat (map (\<lambda>st. map (\<lambda>(p, props). (arn, p, props)) (statement_ends st)) stmts)"
  by (induction stmts arbitrary: edges)
    (simp_all add: Let_def foldl_snoc statement_ends_def capped_principals_def condition_props_def comp_def)

text \<open>The loop that S3 has of its own builds the edges of the builder the other enrichers share, in the same order
  and with the same properties and cap; it builds none of the principal nodes that go with them.
\<close>

theorem s3_edges_are_shared_edges:
  "s3_statement_edges arn stmts edges = edges @ fst (build_access_edges arn stmts account_id)"
  by (simp add: s3_statement_edges_acc build_access_edges_def)

lemma principal_node_id:
  "Option.bind (value_get (build_principal_node p account_id) ''id'') as_str = Some p"
  by (simp add: build_principal_node_def Let_def json_obj_def value_get_def obj_get_def as_str_def)

definition principals_ok :: "string \<Rightarrow> (string \<times> json) list \<Rightarrow> bool" where
  "principals_ok account_id m \<longleftrightarrow>
     distinct (map fst m) \<and> (\<forall>p v. (p, v) \<in> set m \<longrightarrow> v = build_principal_node p account_id)"

lemma insert_principal_ok:
  assumes "principals_ok account_id m"
  shows "principals_ok account_id (insert_principal m (build_principal_node p account_id))"
    and "fst ` set (insert_principal m (build_principal_node p account_id)) = insert p (fst ` set m)"
proof -
  let ?m = "AList.update p (build_principal_node p account_id) m"
  have m': "insert_principal m (build_principal_node p account_id) = ?m"
    by (simp add: insert_principal_def principal_node_id)
  have d: "distinct (map fst ?m)"
    using assms by (simp add: principals_ok_def distinct_update)
  have "v = build_principal_node q account_id" if "(q, v) \<in> set ?m" for q v
  proof -
    have "map_of ?m q = Some v"
      using d that by (rule map_of_is_SomeI)
    thus ?thesis
      using assms by (auto simp: update_conv principals_ok_def dest: map_of_SomeD split: if_split_asm)
  qed
  thus "principals_ok account_id (insert_principal m (build_principal_node p account_id))"
    using d by (simp add: principals_ok_def m')
  show "fst ` set (insert_principal m (build_principal_node p account_id)) = insert p (fst ` set m)"
    by (simp add: m' dom_update)
qed

lemma insert_principals_ok:
  assumes "principals_ok account_id m"
  shows "principals_ok account_id (foldl insert_principal m (map (\<lambda>p. build_principal_node p account_id) ps)) \<and>
    fst ` set (foldl insert_principal m (map (\<lambda>p. build_principal_node p account_id) ps)) = set ps \<union> fst ` set m"
  using assms by (induction ps arbitrary: m) (auto simp: insert_principal_ok)

text \<open>What the access edges of a run satisfy: each ends at the sentinel or at a principal that has its node.\<close>

definition access_ends :: "access_batch \<Rightarrow> string set" where
  "access_ends b = (\<lambda>(_, t, _). t) ` set (ab_access_edges b)"

definition access_ok :: "string \<Rightarrow> access_batch \<Rightarrow> bool" where
  "access_ok account_id b \<longleftrightarrow>
     principals_ok account_id (ab_principals b) \<and>
     access_ends b \<subseteq> insert WILDCARD_PRINCIPAL_ID (fst ` set (ab_principals b))"

lemma built_ends:
  "(\<lambda>(_, t, _). t) ` set (fst (build_access_edges arn stmts account_id)) \<subseteq>
     insert WILDCARD_PRINCIPAL_ID (set (concat (map native_principals stmts)))"
  using statement_ends_principals by (fastforce simp: build_access_edges_def)

lemma built_nodes:
  "snd (build_access_edges arn stmts account_id) =
     map (\<lambda>p. build_principal_node p account_id) (concat (map native_principals stmts))"
  by (simp add: build_access_edges_def map_concat comp_def)

lemma add_access_ok:
  assumes "access_ok account_id b"
  shows "access_ok account_id (add_access pj account_id arn policy b)"
proof -
  have "access_ok account_id
      (b\<lparr>ab_principals := foldl insert_principal (ab_principals b) (snd (build_access_edges arn stmts account_id)),
         ab_access_edges := ab_access_edges b @ fst (build_access_edges arn stmts account_id)\<rparr>)" for stmts
    using assms insert_principals_ok [of account_id "ab_principals b" "concat (map native_principals stmts)"]
      built_ends [of arn stmts account_id]
    by (auto simp: access_ok_def access_ends_def built_nodes image_Un)
  with assms show ?thesis
    by (simp add: add_access_def split_beta split: option.split sum.split)
qed

lemma no_access_ok: "access_ok account_id no_access"
  by (simp add: access_ok_def principals_ok_def no_access_def access_ends_def)

lemma function_steps_ok:
  "access_ok account_id b \<Longrightarrow> access_ok account_id (foldl (function_step pj get_policy account_id) b fs)"
  by (induction fs arbitrary: b) (simp_all add: function_step_def add_access_ok split: option.split)

lemma secret_steps_ok:
  assumes "access_ok account_id b"
  shows "case foldl (secret_step pj get_policy account_id region) (nodes, enc, b) ss of
    (nodes', enc', b') \<Rightarrow> access_ok account_id b' \<and>
      nodes' = nodes @ concat (map (\<lambda>s. case secret_arn s of Some a \<Rightarrow> [secret_node a account_id region s] | None \<Rightarrow> []) ss) \<and>
      enc' = enc @ concat (map (\<lambda>s. case secret_arn s of
        Some a \<Rightarrow> [(a, classify_secret_kms (secret_kms_key_id s) account_id region)] | None \<Rightarrow> []) ss)"
  using assms
proof (induction ss arbitrary: nodes enc b)
  case (Cons s ss)
  show ?case
    using Cons.IH [OF Cons.prems] Cons.IH [OF add_access_ok [OF Cons.prems]]
    by (cases "secret_arn s") (simp_all add: secret_step_def split_beta)
qed simp

text \<open>In a run of the Secrets Manager or the Lambda enricher, whatever the answers of AWS and in whatever order the
  policies come, every access edge ends at the wildcard sentinel or at a principal whose node is in the map of nodes
  to be loaded, built from its ARN and held once; and each secret that has an ARN is loaded with one edge to its key.
\<close>

theorem service_edges_have_nodes:
  "let lam = foldl (function_step pj get_policy account_id) no_access fs;
       (nodes, encrypted_by, sec) = foldl (secret_step pj get_policy account_id region) ([], [], no_access) ss
   in map fst encrypted_by = List.map_filter secret_arn ss \<and> length nodes = length encrypted_by \<and>
      list_all (\<lambda>b. distinct (map fst (ab_principals b)) \<and>
         snd ` set (ab_principals b) = (\<lambda>p. build_principal_node p account_id) ` fst ` set (ab_principals b) \<and>
         (\<lambda>(_, t, _). t) ` set (ab_access_edges b) \<subseteq> insert WILDCARD_PRINCIPAL_ID (fst ` set (ab_principals b)))
        [lam, sec]"
proof -
  have ok: "distinct (map fst (ab_principals b)) \<and>
      snd ` set (ab_principals b) = (\<lambda>p. build_principal_node p account_id) ` fst ` set (ab_principals b) \<and>
      (\<lambda>(_, t, _). t) ` set (ab_access_edges b) \<subseteq> insert WILDCARD_PRINCIPAL_ID (fst ` set (ab_principals b))"
    if "access_ok account_id b" for b
    using that unfolding access_ok_def access_ends_def principals_ok_def by (force simp: image_image)
  have lens: "length (concat (map (\<lambda>s. case secret_arn s of Some a \<Rightarrow> [f s a] | None \<Rightarrow> []) ss)) =
      length (concat (map (\<lambda>s. case secret_arn s of Some a \<Rightarrow> [g s a] | None \<Rightarrow> []) ss))"
    for f :: "secret_entry \<Rightarrow> string \<Rightarrow> json" and g :: "secret_entry \<Rightarrow> string \<Rightarrow> string \<times> string"
    by (induction ss) (auto split: option.split)
  have arns: "map fst (concat (map (\<lambda>s. case secret_arn s of Some a \<Rightarrow> [(a, h s)] | None \<Rightarrow> []) ss)) =
      List.map_filter secret_arn ss" for h :: "secret_entry \<Rightarrow> string"
    by (induction ss) (auto simp: List.map_filter_simps split: option.split)
  show ?thesis
    using function_steps_ok [OF no_access_ok, of account_id pj get_policy fs]
      secret_steps_ok [OF no_access_ok, where pj = pj and get_policy = get_policy and account_id = account_id
        and region = region and nodes = "[]" and enc = "[]" and ss = ss] ok lens arns
    by (simp add: Let_def split_beta)
qed

text \<open>When a secret is encrypted by the key that AWS manages, and what happens to the bare id of a key: its ARN is
  always one of the standard partition, also in a region of another.\<close>

lemma classify_secret_kms_managed:
  "classify_secret_kms k account_id region = AWS_MANAGED_KEY_ID \<longleftrightarrow>
     k = None \<or> k = Some [] \<or> k = Some ''aws/secretsmanager'' \<or> (\<exists>r. k = Some (''alias/aws/'' @ r))"
proof (cases k)
  case (Some kid)
  have "\<not> starts_with AWS_MANAGED_KEY_ID ''arn:''" "\<not> starts_with AWS_MANAGED_KEY_ID ''alias/''"
    by (simp_all add: AWS_MANAGED_KEY_ID_def starts_with_def)
  then have "starts_with kid ''arn:'' \<Longrightarrow> kid \<noteq> AWS_MANAGED_KEY_ID" "starts_with kid ''alias/'' \<Longrightarrow> kid \<noteq> AWS_MANAGED_KEY_ID"
    by blast+
  moreover have "''arn:aws:kms:'' @ xs \<noteq> AWS_MANAGED_KEY_ID" for xs
    by (simp add: AWS_MANAGED_KEY_ID_def)
  ultimately show ?thesis
    by (auto simp: Some classify_secret_kms_def starts_with_iff prefix_def)
qed (simp add: classify_secret_kms_def)

lemma bare_key_in_standard_partition:
  "classify_secret_kms (Some ''1234'') account_id ''us-gov-west-1'' =
     ''arn:aws:kms:us-gov-west-1:'' @ account_id @ '':key/1234''"
  by (simp add: classify_secret_kms_def starts_with_def)

end
