(* ===== verification/Ingest_Fetch.thy ===== *)
theory Ingest_Fetch
  imports Ingest_Services
begin

section \<open>Fetching resources\<close>

text \<open>
  \<open>activable-ingest/src/resource_registry.rs\<close>, \<open>config.rs\<close>, \<open>cloud_control.rs\<close> and \<open>native_fallback.rs\<close>: the
  resource types, and the nodes written for the resources of each, listed by the Cloud Control API or by the SDK of
  the service. What AWS answers is a parameter: \<open>list_resources\<close> the page for a token, and for the SDKs the pages of
  each listing. A \<open>{:?}\<close> text of an SDK value is the text itself.
\<close>

subsection \<open>Registry and configuration\<close>

record fallback_config =
  fb_sdk :: string
  fb_operation :: string

record resource_type_config =
  rt_type_name :: string
  rt_label :: string
  rt_regional :: bool
  rt_fallback :: "fallback_config option"

definition resource_type :: "string \<Rightarrow> string \<Rightarrow> bool \<Rightarrow> string \<Rightarrow> string \<Rightarrow> resource_type_config" where
  "resource_type type_name label regional sdk operation =
     \<lparr>rt_type_name = type_name, rt_label = label, rt_regional = regional,
      rt_fallback = Some \<lparr>fb_sdk = sdk, fb_operation = operation\<rparr>\<rparr>"

text \<open>The embedded \<open>resource_types.yaml\<close>, as it parses.\<close>

definition resource_types :: "resource_type_config list" where
  "resource_types =
     [resource_type ''AWS::IAM::User'' ''Principal'' False ''iam'' ''ListUsers'',
      resource_type ''AWS::IAM::Role'' ''Principal'' False ''iam'' ''ListRoles'',
      resource_type ''AWS::IAM::Group'' ''IamGroup'' False ''iam'' ''ListGroups'',
      resource_type ''AWS::IAM::Policy'' ''Permission'' False ''iam'' ''ListPolicies'',
      resource_type ''AWS::S3::Bucket'' ''Resource'' False ''s3'' ''ListBuckets'',
      resource_type ''AWS::STS::CallerIdentity'' ''Account'' False ''sts'' ''GetCallerIdentity'',
      resource_type ''AWS::EC2::Instance'' ''Resource'' True ''ec2'' ''DescribeInstances'',
      resource_type ''AWS::EC2::SecurityGroup'' ''SecurityGroup'' True ''ec2'' ''DescribeSecurityGroups'',
      resource_type ''AWS::EC2::VPC'' ''Vpc'' True ''ec2'' ''DescribeVpcs'',
      resource_type ''AWS::Lambda::Function'' ''Resource'' True ''lambda'' ''ListFunctions'']"

record ingest_config =
  ic_graph_name :: string
  ic_concurrency_limit :: nat
  ic_batch_size :: nat

text \<open>\<open>env\<close> is the environment, \<open>parse_usize\<close> the integer parser.\<close>

definition ingest_config_from_env :: "(string \<Rightarrow> string option) \<Rightarrow> (string \<Rightarrow> nat option) \<Rightarrow> ingest_config" where
  "ingest_config_from_env env parse_usize =
     \<lparr>ic_graph_name = (case env ''ACTIVABLE_GRAPH_NAME'' of Some g \<Rightarrow> g | None \<Rightarrow> ''cloud''),
      ic_concurrency_limit =
        (case Option.bind (env ''ACTIVABLE_INGEST_CONCURRENCY'') parse_usize of Some n \<Rightarrow> n | None \<Rightarrow> 10),
      ic_batch_size =
        (case Option.bind (env ''ACTIVABLE_INGEST_BATCH_SIZE'') parse_usize of Some n \<Rightarrow> n | None \<Rightarrow> 100)\<rparr>"

record ingest_stats =
  is_type_name :: string
  is_label :: string
  is_nodes :: nat

definition stats_of :: "string \<Rightarrow> string \<Rightarrow> nat \<Rightarrow> ingest_stats" where
  "stats_of type_name label n = \<lparr>is_type_name = type_name, is_label = label, is_nodes = n\<rparr>"

subsection \<open>Listings\<close>

text \<open>The loop over the pages of a listing: a page that fails ends the run, after the pages before it were written.\<close>

fun ingest_pages :: "(string \<Rightarrow> ingest_error) \<Rightarrow> ('a \<Rightarrow> nat ingesting) \<Rightarrow> (string + 'a) list \<Rightarrow> nat \<Rightarrow> nat ingesting" where
  "ingest_pages err f [] count = ingest_return count"
| "ingest_pages err f (Inl e # pages) count = ingest_fail (err e)"
| "ingest_pages err f (Inr page # pages) count = ingest_bind (f page) (\<lambda>n. ingest_pages err f pages (count + n))"

fun ingest_each :: "('a \<Rightarrow> nat ingesting) \<Rightarrow> 'a list \<Rightarrow> nat \<Rightarrow> nat ingesting" where
  "ingest_each f [] count = ingest_return count"
| "ingest_each f (x # xs) count = ingest_bind (f x) (\<lambda>n. ingest_each f xs (count + n))"

subsection \<open>Cloud Control\<close>

record resource_description =
  rd_identifier :: "string option"
  rd_properties :: "string option"

record ccapi_page =
  cp_descriptions :: "resource_description list"
  cp_next_token :: "string option"

text \<open>\<open>obj.insert(k, v)\<close> on an object, whose keys are sorted.\<close>

definition obj_insert :: "string \<Rightarrow> json \<Rightarrow> (string \<times> json) list \<Rightarrow> (string \<times> json) list" where
  "obj_insert k v kvs = sort_key fst (AList.update k v kvs)"

definition ccapi_node :: "json_parser \<Rightarrow> resource_description \<Rightarrow> json option" where
  "ccapi_node pj desc =
     (let identifier = (case rd_identifier desc of Some i \<Rightarrow> i | None \<Rightarrow> []) in
      if identifier = [] then None
      else
        let properties = (case rd_properties desc of
              Some p \<Rightarrow> (case pj p of Inr v \<Rightarrow> v | Inl _ \<Rightarrow> JObject [])
            | None \<Rightarrow> JObject [])
        in case properties of
             JObject obj \<Rightarrow> Some (JObject (obj_insert ''id'' (JString identifier) obj))
           | _ \<Rightarrow> Some (json_obj [(''id'', JString identifier)]))"

definition ccapi_nodes :: "json_parser \<Rightarrow> resource_description list \<Rightarrow> json list" where
  "ccapi_nodes pj = List.map_filter (ccapi_node pj)"

text \<open>The loop over the pages, which ends only when a page is empty, has no next token, or fails.\<close>

partial_function (option) ccapi_loop ::
  "(string option \<Rightarrow> string + ccapi_page) \<Rightarrow> (json list \<Rightarrow> nat loading) \<Rightarrow> json_parser \<Rightarrow> string \<Rightarrow> string option \<Rightarrow> nat
     \<Rightarrow> string list \<Rightarrow> (string list \<times> (ingest_failure + nat)) option" where
  "ccapi_loop list_resources load pj type_name token count sent =
     (case list_resources token of
        Inl e \<Rightarrow> Some (ingest_fail (CloudControl type_name e) sent)
      | Inr page \<Rightarrow>
          if cp_descriptions page = [] then Some (sent, Inr count)
          else
            let nodes = ccapi_nodes pj (cp_descriptions page) in
            case load_unless_empty nodes (load nodes) sent of (sent', r) \<Rightarrow>
            (case r of
               Inl e \<Rightarrow> Some (sent', Inl e)
             | Inr written \<Rightarrow>
                 (case cp_next_token page of
                    None \<Rightarrow> Some (sent', Inr (count + written))
                  | Some t \<Rightarrow> ccapi_loop list_resources load pj type_name (Some t) (count + written) sent')))"

definition fetch_via_ccapi ::
  "server \<Rightarrow> printers \<Rightarrow> (string + unit) \<Rightarrow> string \<Rightarrow> json_parser
     \<Rightarrow> (string \<Rightarrow> string option \<Rightarrow> string + ccapi_page) \<Rightarrow> resource_type_config
     \<Rightarrow> string list \<Rightarrow> (string list \<times> (ingest_failure + ingest_stats)) option" where
  "fetch_via_ccapi srv pr pool graph pj list_resources rt sent =
     map_option (\<lambda>(sent', r). (sent', map_sum id (stats_of (rt_type_name rt) (rt_label rt)) r))
       (ccapi_loop (list_resources (rt_type_name rt)) (\<lambda>nodes. load_nodes srv pr pool graph (rt_label rt) nodes 100)
          pj (rt_type_name rt) None 0 sent)"

subsection \<open>IAM\<close>

record attached_policy =
  at_policy_arn :: "string option"
  at_policy_name :: "string option"

text \<open>\<open>get_policy\<close> answers the policy if there is one, with its default version if it has one; \<open>get_version\<close> the
  version if there is one, with its document if it has one.\<close>

record policy_aws =
  get_policy :: "string \<Rightarrow> string + string option option"
  get_policy_version :: "string \<Rightarrow> string \<Rightarrow> string + string option option"
  urldecode :: "string \<Rightarrow> string + string"

definition decode_document :: "policy_aws \<Rightarrow> string \<Rightarrow> string" where
  "decode_document aws raw = (case urldecode aws raw of Inr doc \<Rightarrow> doc | Inl _ \<Rightarrow> raw)"

text \<open>The default version of a policy with its decoded document.\<close>

definition default_document :: "policy_aws \<Rightarrow> string \<Rightarrow> (string \<times> string) option" where
  "default_document aws arn =
     (case get_policy aws arn of
        Inr (Some (Some version_id)) \<Rightarrow>
          (case get_policy_version aws arn version_id of
             Inr (Some doc) \<Rightarrow> Some (version_id, decode_document aws (case doc of Some d \<Rightarrow> d | None \<Rightarrow> []))
           | _ \<Rightarrow> None)
      | _ \<Rightarrow> None)"

definition managed_policy :: "policy_aws \<Rightarrow> attached_policy \<Rightarrow> json option" where
  "managed_policy aws ap =
     (case at_policy_arn ap of
        None \<Rightarrow> None
      | Some arn \<Rightarrow>
          map_option (\<lambda>(version_id, doc).
            json_obj [(''arn'', JString arn), (''name'', JString (case at_policy_name ap of Some n \<Rightarrow> n | None \<Rightarrow> [])),
              (''version_id'', JString version_id), (''document'', JString doc)])
            (default_document aws arn))"

definition managed_policies :: "policy_aws \<Rightarrow> string + attached_policy list \<Rightarrow> json list" where
  "managed_policies aws attached =
     (case attached of Inr aps \<Rightarrow> List.map_filter (managed_policy aws) aps | Inl _ \<Rightarrow> [])"

text \<open>The boundary of a user or role: none, or one that may lack its ARN.\<close>

definition boundary_policy :: "policy_aws \<Rightarrow> string option option \<Rightarrow> json option" where
  "boundary_policy aws boundary =
     (case boundary of
        None \<Rightarrow> None
      | Some arn_opt \<Rightarrow>
          let boundary_arn = (case arn_opt of Some a \<Rightarrow> a | None \<Rightarrow> []) in
          if boundary_arn = [] then None
          else map_option (\<lambda>(version_id, doc).
            json_obj [(''arn'', JString boundary_arn), (''document'', JString doc), (''version_id'', JString version_id)])
            (default_document aws boundary_arn))"

definition opt_value :: "json option \<Rightarrow> json" where
  "opt_value v = (case v of Some j \<Rightarrow> j | None \<Rightarrow> JNull)"

record iam_user =
  iu_arn :: string
  iu_name :: string
  iu_id :: string
  iu_path :: string
  iu_boundary :: "string option option"

definition user_node :: "policy_aws \<Rightarrow> (string \<Rightarrow> string + attached_policy list) \<Rightarrow> iam_user \<Rightarrow> json" where
  "user_node aws attached u =
     json_obj [(''id'', JString (iu_arn u)), (''name'', JString (iu_name u)), (''user_id'', JString (iu_id u)),
       (''path'', JString (iu_path u)), (''principal_type'', JString ''User''),
       (''managed_policies'', JArray (managed_policies aws (attached (iu_name u)))),
       (''permissions_boundary'', opt_value (boundary_policy aws (iu_boundary u)))]"

record fetched_role =
  fr_arn :: string
  fr_name :: string
  fr_id :: string
  fr_path :: string
  fr_trust :: "string option"
  fr_boundary :: "string option option"

text \<open>The policies written into a role: \<open>list_role_policies\<close> their names, \<open>get_role_policy\<close> the document of one.\<close>

definition inline_policies ::
  "policy_aws \<Rightarrow> (string \<Rightarrow> string + string list) \<Rightarrow> (string \<Rightarrow> string \<Rightarrow> string + string) \<Rightarrow> string \<Rightarrow> json list" where
  "inline_policies aws list_role_policies get_role_policy role_name =
     (case list_role_policies role_name of
        Inl _ \<Rightarrow> []
      | Inr names \<Rightarrow>
          List.map_filter (\<lambda>policy_name.
            case get_role_policy role_name policy_name of
              Inl _ \<Rightarrow> None
            | Inr doc_raw \<Rightarrow>
                Some (json_obj [(''name'', JString policy_name), (''document'', JString (decode_document aws doc_raw))]))
            names)"

definition role_node ::
  "policy_aws \<Rightarrow> (string \<Rightarrow> string + string list) \<Rightarrow> (string \<Rightarrow> string \<Rightarrow> string + string)
     \<Rightarrow> (string \<Rightarrow> string + attached_policy list) \<Rightarrow> fetched_role \<Rightarrow> json" where
  "role_node aws list_role_policies get_role_policy attached r =
     json_obj [(''id'', JString (fr_arn r)), (''name'', JString (fr_name r)), (''role_id'', JString (fr_id r)),
       (''path'', JString (fr_path r)), (''principal_type'', JString ''Role''),
       (''assume_role_policy_document'',
          JString (decode_document aws (case fr_trust r of Some t \<Rightarrow> t | None \<Rightarrow> []))),
       (''inline_policies'', JArray (inline_policies aws list_role_policies get_role_policy (fr_name r))),
       (''managed_policies'', JArray (managed_policies aws (attached (fr_name r)))),
       (''permissions_boundary'', opt_value (boundary_policy aws (fr_boundary r)))]"

record iam_group =
  ig_arn :: string
  ig_name :: string
  ig_id :: string
  ig_path :: string

definition group_node :: "iam_group \<Rightarrow> json" where
  "group_node g = json_obj [(''id'', JString (ig_arn g)), (''name'', JString (ig_name g)), (''group_id'', JString (ig_id g)),
     (''path'', JString (ig_path g))]"

record iam_policy =
  ip_arn :: "string option"
  ip_name :: "string option"
  ip_id :: "string option"
  ip_path :: "string option"

definition policy_node :: "iam_policy \<Rightarrow> json" where
  "policy_node p = json_obj [(''id'', opt_json (ip_arn p)), (''name'', opt_json (ip_name p)),
     (''policy_id'', opt_json (ip_id p)), (''path'', opt_json (ip_path p))]"

subsection \<open>The other services\<close>

definition fallback_bucket_node :: "string option \<Rightarrow> json" where
  "fallback_bucket_node name = json_obj [(''id'', opt_json name), (''name'', opt_json name)]"

record fetched_instance =
  fi_id :: "string option"
  fi_type :: "string option"
  fi_state :: "string option"

definition instance_node :: "fetched_instance \<Rightarrow> json" where
  "instance_node i = json_obj [(''id'', opt_json (fi_id i)), (''instance_id'', opt_json (fi_id i)),
     (''instance_type'', opt_json (fi_type i)), (''state'', opt_json (fi_state i))]"

record fetched_group =
  fg_id :: "string option"
  fg_name :: "string option"
  fg_vpc_id :: "string option"

definition security_group_node :: "fetched_group \<Rightarrow> json" where
  "security_group_node g = json_obj [(''id'', opt_json (fg_id g)), (''group_id'', opt_json (fg_id g)),
     (''group_name'', opt_json (fg_name g)), (''vpc_id'', opt_json (fg_vpc_id g))]"

record fetched_vpc =
  fv_id :: "string option"
  fv_cidr :: "string option"

definition vpc_node :: "fetched_vpc \<Rightarrow> json" where
  "vpc_node v = json_obj [(''id'', opt_json (fv_id v)), (''vpc_id'', opt_json (fv_id v)), (''cidr'', opt_json (fv_cidr v))]"

record fetched_function =
  ff_arn :: "string option"
  ff_name :: "string option"
  ff_runtime :: "string option"

definition function_node :: "fetched_function \<Rightarrow> json" where
  "function_node f = json_obj [(''id'', opt_json (ff_arn f)), (''function_name'', opt_json (ff_name f)),
     (''function_arn'', opt_json (ff_arn f)), (''runtime'', opt_json (ff_runtime f))]"

definition identity_node :: "string option \<times> string option \<Rightarrow> json" where
  "identity_node ident =
     (let account_id = (case fst ident of Some a \<Rightarrow> a | None \<Rightarrow> ''unknown'');
          arn = (case snd ident of Some a \<Rightarrow> a | None \<Rightarrow> ''unknown'')
      in json_obj [(''id'', JString account_id), (''account_id'', JString account_id), (''arn'', JString arn)])"

subsection \<open>The fallback\<close>

record native_aws =
  aws_policies :: policy_aws
  list_users :: "(string + iam_user list) list"
  list_attached_user_policies :: "string \<Rightarrow> string + attached_policy list"
  list_roles :: "(string + fetched_role list) list"
  list_role_policies :: "string \<Rightarrow> string + string list"
  get_role_policy :: "string \<Rightarrow> string \<Rightarrow> string + string"
  list_attached_role_policies :: "string \<Rightarrow> string + attached_policy list"
  list_groups :: "(string + iam_group list) list"
  list_local_policies :: "(string + iam_policy list) list"
  fallback_buckets :: "string + string option list"
  describe_instances :: "(string + fetched_instance list list) list"
  describe_security_groups :: "(string + fetched_group list) list"
  describe_vpcs :: "(string + fetched_vpc list) list"
  list_functions :: "(string + fetched_function list) list"
  caller_identity :: "string + string option \<times> string option"

type_synonym node_loader = "string \<Rightarrow> json list \<Rightarrow> nat loading"

definition load_page :: "node_loader \<Rightarrow> string \<Rightarrow> json list \<Rightarrow> nat ingesting" where
  "load_page load label nodes = load_unless_empty nodes (load label nodes)"

definition counted :: "string \<Rightarrow> string \<Rightarrow> nat ingesting \<Rightarrow> ingest_stats ingesting" where
  "counted type_name label m = ingest_bind m (\<lambda>n. ingest_return (stats_of type_name label n))"

definition fetch_iam_users :: "native_aws \<Rightarrow> node_loader \<Rightarrow> ingest_stats ingesting" where
  "fetch_iam_users aws load =
     counted ''AWS::IAM::User'' ''Principal''
       (ingest_pages AwsSdk (\<lambda>users. ingest_each (\<lambda>u.
          from_graph (load ''Principal'' [user_node (aws_policies aws) (list_attached_user_policies aws) u])) users 0)
          (list_users aws) 0)"

definition fetch_iam_roles :: "native_aws \<Rightarrow> node_loader \<Rightarrow> ingest_stats ingesting" where
  "fetch_iam_roles aws load =
     counted ''AWS::IAM::Role'' ''Principal''
       (ingest_pages AwsSdk (\<lambda>roles. ingest_each (\<lambda>r.
          from_graph (load ''Principal'' [role_node (aws_policies aws) (list_role_policies aws) (get_role_policy aws)
            (list_attached_role_policies aws) r])) roles 0)
          (list_roles aws) 0)"

definition fetch_iam_groups :: "native_aws \<Rightarrow> node_loader \<Rightarrow> ingest_stats ingesting" where
  "fetch_iam_groups aws load =
     counted ''AWS::IAM::Group'' ''IamGroup''
       (ingest_pages AwsSdk (\<lambda>gs. load_page load ''IamGroup'' (map group_node gs)) (list_groups aws) 0)"

definition fetch_iam_policies :: "native_aws \<Rightarrow> node_loader \<Rightarrow> ingest_stats ingesting" where
  "fetch_iam_policies aws load =
     counted ''AWS::IAM::Policy'' ''Permission''
       (ingest_pages AwsSdk (\<lambda>ps. load_page load ''Permission'' (map policy_node ps)) (list_local_policies aws) 0)"

definition fetch_s3_buckets :: "native_aws \<Rightarrow> node_loader \<Rightarrow> ingest_stats ingesting" where
  "fetch_s3_buckets aws load =
     ingest_bind (ingest_of (fallback_buckets aws) AwsSdk) (\<lambda>buckets.
     counted ''AWS::S3::Bucket'' ''Resource'' (load_page load ''Resource'' (map fallback_bucket_node buckets)))"

definition fetch_ec2_instances :: "native_aws \<Rightarrow> node_loader \<Rightarrow> ingest_stats ingesting" where
  "fetch_ec2_instances aws load =
     counted ''AWS::EC2::Instance'' ''Resource''
       (ingest_pages AwsSdk (\<lambda>reservations. load_page load ''Resource'' (map instance_node (concat reservations)))
          (describe_instances aws) 0)"

definition fetch_ec2_security_groups :: "native_aws \<Rightarrow> node_loader \<Rightarrow> ingest_stats ingesting" where
  "fetch_ec2_security_groups aws load =
     counted ''AWS::EC2::SecurityGroup'' ''SecurityGroup''
       (ingest_pages AwsSdk (\<lambda>gs. load_page load ''SecurityGroup'' (map security_group_node gs))
          (describe_security_groups aws) 0)"

definition fetch_ec2_vpcs :: "native_aws \<Rightarrow> node_loader \<Rightarrow> ingest_stats ingesting" where
  "fetch_ec2_vpcs aws load =
     counted ''AWS::EC2::VPC'' ''Vpc'' (ingest_pages AwsSdk (\<lambda>vs. load_page load ''Vpc'' (map vpc_node vs)) (describe_vpcs aws) 0)"

definition fetch_lambda_functions :: "native_aws \<Rightarrow> node_loader \<Rightarrow> ingest_stats ingesting" where
  "fetch_lambda_functions aws load =
     counted ''AWS::Lambda::Function'' ''Resource''
       (ingest_pages AwsSdk (\<lambda>fs. load_page load ''Resource'' (map function_node fs)) (list_functions aws) 0)"

definition fetch_sts_identity :: "native_aws \<Rightarrow> node_loader \<Rightarrow> ingest_stats ingesting" where
  "fetch_sts_identity aws load =
     ingest_bind (ingest_of (caller_identity aws) AwsSdk) (\<lambda>ident.
     counted ''AWS::STS::CallerIdentity'' ''Account'' (load_page load ''Account'' [identity_node ident]))"

definition native_operation :: "string \<Rightarrow> string \<Rightarrow> (native_aws \<Rightarrow> node_loader \<Rightarrow> ingest_stats ingesting) option" where
  "native_operation sdk op =
     (if sdk = ''iam'' \<and> op = ''ListUsers'' then Some fetch_iam_users
      else if sdk = ''iam'' \<and> op = ''ListRoles'' then Some fetch_iam_roles
      else if sdk = ''iam'' \<and> op = ''ListGroups'' then Some fetch_iam_groups
      else if sdk = ''iam'' \<and> op = ''ListPolicies'' then Some fetch_iam_policies
      else if sdk = ''s3'' \<and> op = ''ListBuckets'' then Some fetch_s3_buckets
      else if sdk = ''ec2'' \<and> op = ''DescribeInstances'' then Some fetch_ec2_instances
      else if sdk = ''ec2'' \<and> op = ''DescribeSecurityGroups'' then Some fetch_ec2_security_groups
      else if sdk = ''ec2'' \<and> op = ''DescribeVpcs'' then Some fetch_ec2_vpcs
      else if sdk = ''lambda'' \<and> op = ''ListFunctions'' then Some fetch_lambda_functions
      else if sdk = ''sts'' \<and> op = ''GetCallerIdentity'' then Some fetch_sts_identity
      else None)"

definition fetch_via_native_sdk :: "native_aws \<Rightarrow> node_loader \<Rightarrow> resource_type_config \<Rightarrow> ingest_stats ingesting" where
  "fetch_via_native_sdk aws load rt =
     (case rt_fallback rt of
        None \<Rightarrow> ingest_return (stats_of (rt_type_name rt) (rt_label rt) 0)
      | Some fallback \<Rightarrow>
          (case native_operation (fb_sdk fallback) (fb_operation fallback) of
             Some fetch \<Rightarrow> fetch aws load
           | None \<Rightarrow> ingest_return (stats_of (rt_type_name rt) (rt_label rt) 0)))"

text \<open>The loader that the fallback is called with.\<close>

definition graph_loader :: "server \<Rightarrow> printers \<Rightarrow> (string + unit) \<Rightarrow> string \<Rightarrow> node_loader" where
  "graph_loader srv pr pool graph label nodes = load_nodes srv pr pool graph label nodes 100"

subsection \<open>Lemmas\<close>

lemma ingest_result:
  "ingest_bind m f sent = (sent', Inr y) \<longleftrightarrow> (\<exists>s x. m sent = (s, Inr x) \<and> f x s = (sent', Inr y))"
  by (auto simp: ingest_bind_def split: prod.split sum.split)

lemma counted_result:
  "counted t l m sent = (sent', Inr st) \<longleftrightarrow> (\<exists>n. m sent = (sent', Inr n) \<and> st = stats_of t l n)"
  by (auto simp: counted_def ingest_result ingest_return_def)

text \<open>Every resource type of the registry has a fallback that the dispatch implements, and what the fallback reports
  is the type's own name and label: the registry and the ten functions, which each repeat both, agree.
\<close>

theorem registry_fallbacks_agree:
  "list_all (\<lambda>rt. (\<exists>fetch. Option.bind (rt_fallback rt) (\<lambda>fb. native_operation (fb_sdk fb) (fb_operation fb)) = Some fetch) \<and>
     {st. \<exists>aws load sent sent'. fetch_via_native_sdk aws load rt sent = (sent', Inr st)} \<subseteq>
       {stats_of (rt_type_name rt) (rt_label rt) n | n. True}) resource_types"
  by (simp add: resource_types_def resource_type_def fetch_via_native_sdk_def native_operation_def)
    (auto simp: fetch_iam_users_def fetch_iam_roles_def fetch_iam_groups_def fetch_iam_policies_def fetch_s3_buckets_def
      fetch_ec2_instances_def fetch_ec2_security_groups_def fetch_ec2_vpcs_def fetch_lambda_functions_def
      fetch_sts_identity_def counted_result ingest_result)

text \<open>The pages a listing answers when its tokens are followed: up to the first that fails, that has no next token, or
  that is empty, whatever token the empty page carries.\<close>

inductive token_chain ::
  "(string option \<Rightarrow> string + ccapi_page) \<Rightarrow> string option \<Rightarrow> (string + resource_description list) list \<Rightarrow> bool" for lr where
  chain_failed: "lr token = Inl e \<Longrightarrow> token_chain lr token [Inl e]"
| chain_empty: "lr token = Inr page \<Longrightarrow> cp_descriptions page = [] \<Longrightarrow> token_chain lr token []"
| chain_last: "lr token = Inr page \<Longrightarrow> cp_descriptions page \<noteq> [] \<Longrightarrow> cp_next_token page = None \<Longrightarrow>
    token_chain lr token [Inr (cp_descriptions page)]"
| chain_next: "lr token = Inr page \<Longrightarrow> cp_descriptions page \<noteq> [] \<Longrightarrow> cp_next_token page = Some t \<Longrightarrow>
    token_chain lr (Some t) pages \<Longrightarrow> token_chain lr token (Inr (cp_descriptions page) # pages)"

text \<open>
  C31: the Cloud Control loop returns whenever the tokens of the listing come to an end, and what it does is the plain
  loop over the pages: each page's identified resources are loaded in order, a failure of a page or of a load ends the
  run after what was written before it, and the count is that of the nodes written.
\<close>

theorem ccapi_loop_returns:
  assumes "token_chain lr token pages"
  shows "ccapi_loop lr load pj type_name token count sent =
    Some (ingest_pages (CloudControl type_name)
      (\<lambda>ds. load_unless_empty (ccapi_nodes pj ds) (load (ccapi_nodes pj ds))) pages count sent)"
  using assms
proof (induction arbitrary: count sent rule: token_chain.induct)
  case (chain_next token page t pages)
  show ?case
    by (subst ccapi_loop.simps)
      (simp add: chain_next Let_def ingest_bind_def split: prod.split sum.split)
qed (subst ccapi_loop.simps, simp add: Let_def ingest_bind_def ingest_fail_def ingest_return_def split: prod.split sum.split)+

definition demo_listing :: "string option \<Rightarrow> string + ccapi_page" where
  "demo_listing token =
     (if token = None then Inr \<lparr>cp_descriptions = [\<lparr>rd_identifier = Some ''a'', rd_properties = None\<rparr>], cp_next_token = Some ''t''\<rparr>
      else if token = Some ''t'' then Inr \<lparr>cp_descriptions = [\<lparr>rd_identifier = Some ''b'', rd_properties = None\<rparr>], cp_next_token = None\<rparr>
      else Inl ''no such token'')"

lemma demo_chain:
  "token_chain demo_listing None
     [Inr [\<lparr>rd_identifier = Some ''a'', rd_properties = None\<rparr>], Inr [\<lparr>rd_identifier = Some ''b'', rd_properties = None\<rparr>]]"
proof -
  have "token_chain demo_listing (Some ''t'') [Inr [\<lparr>rd_identifier = Some ''b'', rd_properties = None\<rparr>]]"
    using chain_last [of demo_listing "Some ''t''"] by (simp add: demo_listing_def)
  moreover have "demo_listing None =
      Inr \<lparr>cp_descriptions = [\<lparr>rd_identifier = Some ''a'', rd_properties = None\<rparr>], cp_next_token = Some ''t''\<rparr>"
    by (simp add: demo_listing_def)
  ultimately show ?thesis
    using chain_next by fastforce
qed

theorem ccapi_loop_returns_witness:
  "ccapi_loop demo_listing (\<lambda>nodes sent. (sent @ [''load''], Inr (length nodes))) (\<lambda>_. Inl ''none'') ''T'' None 0 [] =
     Some ([''load'', ''load''], Inr 2)"
  using ccapi_loop_returns [OF demo_chain, of "\<lambda>nodes sent. (sent @ [''load''], Inr (length nodes))" "\<lambda>_. Inl ''none''" "''T''" 0 "[]"]
  by (simp add: ccapi_nodes_def ccapi_node_def List.map_filter_simps load_unless_empty_def from_graph_def ingest_bind_def
      ingest_return_def Let_def)

text \<open>Resources after an empty page are never fetched, although the page has a token for more.\<close>

lemma empty_page_ends_listing:
  assumes "lr token = Inr \<lparr>cp_descriptions = [], cp_next_token = Some t\<rparr>"
  shows "ccapi_loop lr load pj type_name token count sent = Some (sent, Inr count)"
  by (subst ccapi_loop.simps) (simp add: assms)

text \<open>A listing whose pages never come to an end is never left.\<close>

lemma endless_listing_diverges:
  assumes "\<And>token. \<exists>page t. lr token = Inr page \<and> cp_descriptions page \<noteq> [] \<and> cp_next_token page = Some t"
    and "\<And>nodes sent. \<exists>sent' n. load nodes sent = (sent', Inr n)"
  shows "ccapi_loop lr load pj type_name token count sent = None"
proof -
  have never: "\<not> (lr' = lr \<and> load' = load)" if "ccapi_loop lr' load' pj' tn' token' count' sent' = Some r'"
    for lr' load' pj' tn' token' count' sent' r'
  proof (rule ccapi_loop.raw_induct [where P = "\<lambda>lr' load' pj' tn' token' count' sent' r'. \<not> (lr' = lr \<and> load' = load)", OF _ that])
    fix f lr' load' pj' tn' token' count' sent' r'
    assume IH: "\<And>lr' load' pj' tn' token' count' sent' r'. f lr' load' pj' tn' token' count' sent' = Some r' \<Longrightarrow> \<not> (lr' = lr \<and> load' = load)"
      and step: "(case lr' token' of
        Inl e \<Rightarrow> Some (ingest_fail (CloudControl tn' e) sent')
      | Inr page \<Rightarrow>
          if cp_descriptions page = [] then Some (sent', Inr count')
          else
            let nodes = ccapi_nodes pj' (cp_descriptions page) in
            case load_unless_empty nodes (load' nodes) sent' of (s, r) \<Rightarrow>
            (case r of
               Inl e \<Rightarrow> Some (s, Inl e)
             | Inr written \<Rightarrow>
                 (case cp_next_token page of
                    None \<Rightarrow> Some (s, Inr (count' + written))
                  | Some t \<Rightarrow> f lr' load' pj' tn' (Some t) (count' + written) s))) = Some r'"
    obtain page t where page: "lr token' = Inr page" "cp_descriptions page \<noteq> []" "cp_next_token page = Some t"
      using assms(1) by blast
    obtain s n where written: "load_unless_empty (ccapi_nodes pj' (cp_descriptions page)) (load (ccapi_nodes pj' (cp_descriptions page))) sent' = (s, Inr n)"
      using assms(2) [of "ccapi_nodes pj' (cp_descriptions page)" sent']
      by (cases "ccapi_nodes pj' (cp_descriptions page) = []")
        (auto simp: load_unless_empty_def ingest_return_def from_graph_def)
    have "f lr load pj' tn' (Some t) (count' + n) s = Some r'" if "lr' = lr" "load' = load"
      using step that page written by (simp add: Let_def)
    then show "\<not> (lr' = lr \<and> load' = load)"
      using IH by blast
  qed
  thus ?thesis
    using never by (metis not_Some_eq)
qed

end
