(* ===== verification/Ingest_Relationships.thy ===== *)
theory Ingest_Relationships
  imports Ingest_Fetch Graph_Client
begin

section \<open>Relationship rules\<close>

text \<open>
  \<open>activable-ingest/src/relationship.rs\<close> with the rules of \<open>config/relationships.yaml\<close>: after the nodes are
  written, each rule joins two labels by a pair of properties. The text in the first column of the rows that a query
  answers is the parameter \<open>rows\<close>. A class of characters is that of ASCII.
\<close>

subsection \<open>Rules\<close>

record relationship_rule =
  rule_name :: string
  from_label :: string
  to_label :: string
  rule_edge_type :: string
  from_property :: string
  to_property :: string

record relationship_stats =
  rs_rule_name :: string
  rs_edges_created :: nat
  rs_skipped_rules :: "string list"

definition relationships :: "relationship_rule list" where
  "relationships =
     [\<lparr>rule_name = ''lambda-execution-role'', from_label = ''Resource'', to_label = ''Principal'',
        rule_edge_type = ''AssumedBy'', from_property = ''role_arn'', to_property = ''id''\<rparr>,
      \<lparr>rule_name = ''instance-vpc'', from_label = ''Resource'', to_label = ''Vpc'',
        rule_edge_type = ''InVpc'', from_property = ''vpc_id'', to_property = ''id''\<rparr>,
      \<lparr>rule_name = ''instance-security-group'', from_label = ''Resource'', to_label = ''SecurityGroup'',
        rule_edge_type = ''HasSecurityGroup'', from_property = ''security_group_id'', to_property = ''id''\<rparr>,
      \<lparr>rule_name = ''permission-acts-on-secret'', from_label = ''Permission'', to_label = ''Secret'',
        rule_edge_type = ''ActsOn'', from_property = ''resource'', to_property = ''id''\<rparr>]"

subsection \<open>Applying a rule\<close>

definition validate_property_name :: "string \<Rightarrow> ingest_error + unit" where
  "validate_property_name name =
     (if name = [] then Inl (ConfigError ''property name cannot be empty'')
      else if \<not> list_all (\<lambda>c. is_ascii_alphanumeric c \<or> c = CHR ''_'') name
      then Inl (ConfigError (''property name '' @ quoted name @
             '' contains invalid characters (only alphanumeric + underscore allowed)''))
      else Inr ())"

definition relationship_cypher :: "relationship_rule \<Rightarrow> string" where
  "relationship_cypher rule =
     ''MATCH (f:'' @ from_label rule @ '' ), (t:'' @ to_label rule @ '' ) WHERE f.'' @ from_property rule @
     '' = t.'' @ to_property rule @ '' MERGE (f)-[:'' @ rule_edge_type rule @ '']->(t) RETURN count(*)::text as edge_count''"

definition build_relationship_cypher :: "string \<Rightarrow> relationship_rule \<Rightarrow> string" where
  "build_relationship_cypher graph rule =
     ''SELECT * FROM cypher('' @ quoted graph @ '', $$'' @ relationship_cypher rule @ ''$$) AS (edge_count text)''"

text \<open>\<open>str::parse::<u32>()\<close>: an optional plus sign, then decimal digits, below \<open>2 ^ 32\<close>.\<close>

definition parse_u32 :: "string \<Rightarrow> nat option" where
  "parse_u32 s =
     (let digits = (case s of c # rest \<Rightarrow> if c = CHR ''+'' then rest else s | [] \<Rightarrow> s) in
      if digits \<noteq> [] \<and> list_all is_ascii_digit digits \<and> read_nat digits < 2 ^ 32
      then Some (read_nat digits) else None)"

definition validate_rule :: "relationship_rule \<Rightarrow> ingest_error + unit" where
  "validate_rule rule =
     res_bind (validate_property_name (from_property rule)) (\<lambda>_.
     res_bind (validate_property_name (to_property rule)) (\<lambda>_.
     res_bind (validate_property_name (rule_edge_type rule)) (\<lambda>_.
     res_bind (validate_property_name (from_label rule)) (\<lambda>_.
     validate_property_name (to_label rule)))))"

text \<open>The count in the first row.\<close>

definition row_count :: "json_parser \<Rightarrow> (string + string) list \<Rightarrow> nat ingesting" where
  "row_count pj rows =
     (case rows of
        [] \<Rightarrow> ingest_return 0
      | Inl e # _ \<Rightarrow> ingest_fail (GraphFailure (''failed to read count column: '' @ e))
      | Inr raw # _ \<Rightarrow>
          (case parse_agtype_scalar pj ''u32'' parse_u32 raw of
             None \<Rightarrow> (\<lambda>sent. (sent, Inl IngestPanic))
           | Some (Inl e) \<Rightarrow> ingest_fail (GraphFailure (''failed to parse relationship count: '' @ display_graph_error e))
           | Some (Inr n) \<Rightarrow> ingest_return n))"

definition graph_statement :: "server \<Rightarrow> string \<Rightarrow> string \<Rightarrow> nat ingesting" where
  "graph_statement srv what sql sent =
     (sent @ [sql], map_err (\<lambda>e. IngestFailed (GraphFailure (what @ e))) (srv sent sql))"

definition apply_single_rule ::
  "server \<Rightarrow> json_parser \<Rightarrow> (string list \<Rightarrow> (string + string) list) \<Rightarrow> string \<Rightarrow> relationship_rule \<Rightarrow> nat ingesting" where
  "apply_single_rule srv pj rows graph rule =
     (case validate_rule rule of
        Inl e \<Rightarrow> ingest_fail e
      | Inr _ \<Rightarrow>
          ingest_bind (graph_statement srv ''relationship query failed: '' (build_relationship_cypher graph rule)) (\<lambda>_ sent.
          row_count pj (rows sent) sent))"

text \<open>The loop over the rules: a rule that fails is recorded and the next is tried.\<close>

fun apply_rules ::
  "server \<Rightarrow> json_parser \<Rightarrow> (string list \<Rightarrow> (string + string) list) \<Rightarrow> string \<Rightarrow> relationship_rule list
     \<Rightarrow> relationship_stats list \<Rightarrow> relationship_stats list ingesting" where
  "apply_rules srv pj rows graph [] stats sent = (sent, Inr stats)"
| "apply_rules srv pj rows graph (rule # rules) stats sent =
     (case apply_single_rule srv pj rows graph rule sent of
        (sent', Inr count) \<Rightarrow>
          apply_rules srv pj rows graph rules
            (stats @ [\<lparr>rs_rule_name = rule_name rule, rs_edges_created = count, rs_skipped_rules = []\<rparr>]) sent'
      | (sent', Inl (IngestFailed e)) \<Rightarrow>
          apply_rules srv pj rows graph rules
            (stats @ [\<lparr>rs_rule_name = rule_name rule, rs_edges_created = 0,
               rs_skipped_rules = [rule_name rule @ '': '' @ display_ingest_error e]\<rparr>]) sent'
      | (sent', Inl IngestPanic) \<Rightarrow> (sent', Inl IngestPanic))"

definition apply_relationships ::
  "server \<Rightarrow> (string + unit) \<Rightarrow> json_parser \<Rightarrow> (string list \<Rightarrow> (string + string) list) \<Rightarrow> string
     \<Rightarrow> relationship_stats list ingesting" where
  "apply_relationships srv pool pj rows graph =
     ingest_bind (ingest_of pool (\<lambda>e. GraphFailure (''pool error: '' @ e))) (\<lambda>_.
     ingest_bind (graph_statement srv ''AGE init error: '' age_setup) (\<lambda>_.
     apply_rules srv pj rows graph relationships []))"

subsection \<open>Lemmas\<close>

definition name_char :: "char \<Rightarrow> bool" where
  "name_char c \<longleftrightarrow> is_ascii_alphanumeric c \<or> c = CHR ''_''"

lemma validate_property_name_iff:
  "validate_property_name name = Inr u \<longleftrightarrow> name \<noteq> [] \<and> list_all name_char name"
  by (cases u) (simp add: validate_property_name_def name_char_def [abs_def])

lemma validate_rule_iff:
  "validate_rule rule = Inr u \<longleftrightarrow>
     list_all (\<lambda>name. name \<noteq> [] \<and> list_all name_char name)
       [from_property rule, to_property rule, rule_edge_type rule, from_label rule, to_label rule]"
  by (auto simp: validate_rule_def res_iffs validate_property_name_iff)

lemma apply_rules_stats:
  assumes "apply_rules srv pj rows graph rules stats sent = (sent', Inr out)"
  shows "\<exists>more. out = stats @ more \<and> map rs_rule_name more = map rule_name rules \<and>
    (\<forall>st \<in> set more. rs_skipped_rules st \<noteq> [] \<longrightarrow> rs_edges_created st = 0) \<and>
    prefix sent sent' \<and> length sent' \<le> length sent + length rules"
  using assms
proof (induction rules arbitrary: stats sent)
  case (Cons rule rules)
  obtain s r where r: "apply_single_rule srv pj rows graph rule sent = (s, r)"
    by (rule prod.exhaust)
  have row: "fst (row_count pj rs t) = t" for rs t
    by (simp add: row_count_def ingest_return_def ingest_fail_def split: list.split sum.split option.split)
  have s: "s = sent \<or> (\<exists>sql. s = sent @ [sql])"
    using r row by (auto simp: apply_single_rule_def ingest_fail_def ingest_bind_def graph_statement_def map_err_def
        split: sum.splits prod.splits) (metis fst_conv)+
  obtain st where st: "apply_rules srv pj rows graph rules (stats @ [st]) s = (sent', Inr out)"
    "rs_rule_name st = rule_name rule" "rs_skipped_rules st \<noteq> [] \<longrightarrow> rs_edges_created st = 0"
    using Cons.prems r by (auto split: sum.splits ingest_failure.splits)
  obtain more where more: "out = (stats @ [st]) @ more" "map rs_rule_name more = map rule_name rules"
    "\<forall>st \<in> set more. rs_skipped_rules st \<noteq> [] \<longrightarrow> rs_edges_created st = 0"
    "prefix s sent'" "length sent' \<le> length s + length rules"
    using Cons.IH [OF st(1)] by blast
  have "prefix sent sent'" "length sent' \<le> length sent + length (rule # rules)"
    using s more(4,5) by (auto intro: prefix_order.trans [of _ s])
  then show ?case
    using more st by (intro exI [of _ "st # more"]) auto
qed auto

lemma name_char_safe: "list_all name_char name \<Longrightarrow> set name \<inter> {CHR 0x27, CHR 0x5C, CHR ''$'', CHR 0x22} = {}"
  by (auto simp: list_all_iff name_char_def is_ascii_alphanumeric_def is_ascii_alphabetic_def is_ascii_digit_def)

lemma valid_rule_safe:
  assumes "validate_rule rule = Inr u"
  shows "set (relationship_cypher rule) \<inter> {CHR 0x27, CHR 0x5C, CHR ''$'', CHR 0x22} = {}"
  using assms by (simp add: validate_rule_iff relationship_cypher_def name_char_safe Int_Un_distrib2)

text \<open>
  C32: what one rule sends. It sends nothing, or exactly its own query; and then the Cypher text of the query, the
  part between the dollar quotes, holds no quote, backslash or dollar sign, whatever the rule's labels, properties and
  edge type are: no rule can end the quoting it stands in.
\<close>

theorem rule_queries_are_safe:
  "fst (apply_single_rule srv pj rows graph rule sent) = sent \<or>
   fst (apply_single_rule srv pj rows graph rule sent) = sent @ [build_relationship_cypher graph rule] \<and>
   set (relationship_cypher rule) \<inter> {CHR 0x27, CHR 0x5C, CHR ''$'', CHR 0x22} = {}"
proof (cases "validate_rule rule")
  case (Inr u)
  have row: "fst (row_count pj rs t) = t" for rs t
    by (simp add: row_count_def ingest_return_def ingest_fail_def split: list.split sum.split option.split)
  show ?thesis
    using valid_rule_safe [OF Inr]
    by (simp add: Inr apply_single_rule_def ingest_bind_def graph_statement_def row split: sum.split prod.split)
qed (simp add: apply_single_rule_def ingest_fail_def)

text \<open>The rules are tried one after the other, whatever fails: unless the connection fails or a panic ends the run,
  there is one entry of statistics for each rule, in order, a rule that failed has created no edge, and at most one
  statement was sent for each after the one that sets the connection up.
\<close>

theorem every_rule_is_tried:
  "case apply_relationships srv pool pj rows graph sent of
     (sent', Inr stats) \<Rightarrow>
       map rs_rule_name stats = map rule_name relationships \<and>
       sum_list (map rs_edges_created (filter (\<lambda>st. rs_skipped_rules st \<noteq> []) stats)) = 0 \<and>
       prefix (sent @ [age_setup]) sent' \<and> length sent' \<le> length sent + 1 + length relationships
   | (sent', Inl e) \<Rightarrow> True"
proof (cases "pool = Inr () \<and> (\<exists>n. srv sent age_setup = Inr n)")
  case True
  obtain s r where r: "apply_rules srv pj rows graph relationships [] (sent @ [age_setup]) = (s, r)"
    by (rule prod.exhaust)
  have run: "apply_relationships srv pool pj rows graph sent = (s, r)"
    using True r by (auto simp: apply_relationships_def ingest_bind_def ingest_of_def ingest_return_def graph_statement_def)
  show ?thesis
  proof (cases r)
    case (Inr out)
    then show ?thesis
      using run apply_rules_stats [of srv pj rows graph relationships "[]" "sent @ [age_setup]" s out] r
      by (fastforce simp: sum_list_eq_0_iff)
  qed (simp add: run)
next
  case False
  then show ?thesis
    by (cases pool; cases "srv sent age_setup")
      (auto simp: apply_relationships_def ingest_bind_def ingest_of_def ingest_return_def ingest_fail_def graph_statement_def)
qed

text \<open>Three of the four rules start at Resource nodes, and no Resource node that the native fallback writes (a
  bucket, an instance, a function, whatever the answers of AWS) has the property the rule joins by: on the fallback
  these rules never create an edge.
\<close>

theorem fallback_resources_lack_rule_properties:
  "map rule_name (filter (\<lambda>rule. from_label rule = ''Resource'') relationships) =
     [''lambda-execution-role'', ''instance-vpc'', ''instance-security-group''] \<and>
   list_all (\<lambda>rule. value_get (fallback_bucket_node b) (from_property rule) = None \<and>
     value_get (instance_node i) (from_property rule) = None \<and>
     value_get (function_node f) (from_property rule) = None)
     (filter (\<lambda>rule. from_label rule = ''Resource'') relationships)"
  by (simp add: relationships_def fallback_bucket_node_def instance_node_def function_node_def value_get_def obj_get_def
      json_obj_def)

end
