(* ===== verification/Ingest_Account.thy ===== *)
theory Ingest_Account
  imports Ingest_Relationships Ingest_Permissions Scheduler
begin

section \<open>Ingesting an account\<close>

text \<open>
  \<open>activable-ingest/src/executor.rs\<close> and \<open>handler.rs\<close>: the three phases of an account's ingestion, and the handler
  that the scheduler calls for a job of type \<open>account_ingest\<close>. The tasks of the first phase write through connections
  and transactions of their own: they are run one after the other, in any order (\<open>order\<close>). \<open>None\<close> is a run that does
  not return: a listing without end, or tasks that wait for a semaphore without permits. A panic in a task is caught
  by its join handle, with the text \<open>panic_text\<close>; elsewhere it ends the run.
\<close>

subsection \<open>One resource type\<close>

record ingest_run_stats =
  per_type :: "(string \<times> nat) list"
  total_nodes :: nat
  total_edges :: nat
  dropped_edges :: "nat option"
  skipped_rules :: "string list"
  duration_secs :: nat
  run_errors :: "string list"

type_synonym type_outcome = "(string \<times> ingest_error) + ingest_stats"
type_synonym type_fetcher = "resource_type_config \<Rightarrow> string list \<Rightarrow> (string list \<times> (ingest_failure + ingest_stats)) option"

definition task_panic :: "string \<Rightarrow> type_outcome" where
  "task_panic panic_text = Inl (''task_panic'', AwsSdk panic_text)"

text \<open>Cloud Control first, then the fallback if that was empty or failed.\<close>

definition fetch_resource_type ::
  "type_fetcher \<Rightarrow> (resource_type_config \<Rightarrow> ingest_stats ingesting) \<Rightarrow> string \<Rightarrow> resource_type_config
     \<Rightarrow> string list \<Rightarrow> (string list \<times> type_outcome) option" where
  "fetch_resource_type ccapi native panic_text rt sent =
     (case ccapi rt sent of
        None \<Rightarrow> None
      | Some (sent1, Inl IngestPanic) \<Rightarrow> Some (sent1, task_panic panic_text)
      | Some (sent1, Inr stats) \<Rightarrow>
          if is_nodes stats > 0 then Some (sent1, Inr stats)
          else Some (case native rt sent1 of
              (sent2, Inr native_stats) \<Rightarrow> (sent2, Inr (if is_nodes native_stats > 0 then native_stats else stats))
            | (sent2, Inl (IngestFailed e)) \<Rightarrow> (sent2, Inr stats)
            | (sent2, Inl IngestPanic) \<Rightarrow> (sent2, task_panic panic_text))
      | Some (sent1, Inl (IngestFailed e)) \<Rightarrow>
          Some (case native rt sent1 of
              (sent2, Inr stats) \<Rightarrow> (sent2, Inr stats)
            | (sent2, Inl (IngestFailed e2)) \<Rightarrow> (sent2, Inl (rt_type_name rt, e2))
            | (sent2, Inl IngestPanic) \<Rightarrow> (sent2, task_panic panic_text)))"

fun run_tasks ::
  "(resource_type_config \<Rightarrow> string list \<Rightarrow> (string list \<times> type_outcome) option) \<Rightarrow> resource_type_config list
     \<Rightarrow> ingest_stats list \<Rightarrow> (string \<times> ingest_error) list \<Rightarrow> string list
     \<Rightarrow> (string list \<times> ingest_stats list \<times> (string \<times> ingest_error) list) option" where
  "run_tasks task [] stats errors sent = Some (sent, stats, errors)"
| "run_tasks task (rt # rts) stats errors sent =
     (case task rt sent of
        None \<Rightarrow> None
      | Some (sent', Inr st) \<Rightarrow> run_tasks task rts (stats @ [st]) errors sent'
      | Some (sent', Inl e) \<Rightarrow> run_tasks task rts stats (errors @ [e]) sent')"

subsection \<open>The enrichers\<close>

fun run_enrichers ::
  "(string \<times> enrichment_stats ingesting) list \<Rightarrow> enrichment_stats list \<Rightarrow> (string \<times> ingest_error) list
     \<Rightarrow> (enrichment_stats list \<times> (string \<times> ingest_error) list) ingesting" where
  "run_enrichers [] stats errors sent = (sent, Inr (stats, errors))"
| "run_enrichers ((service, enrich) # es) stats errors sent =
     (case enrich sent of
        (sent', Inr st) \<Rightarrow> run_enrichers es (stats @ [st]) errors sent'
      | (sent', Inl (IngestFailed e)) \<Rightarrow> run_enrichers es stats (errors @ [(service, e)]) sent'
      | (sent', Inl IngestPanic) \<Rightarrow> (sent', Inl IngestPanic))"

text \<open>What the run is given: the graph, the answers of AWS, the hashes and parsers, and the orders of traversal.\<close>

record ingest_env =
  env_srv :: server
  env_printers :: printers
  env_pool :: "string + unit"
  env_graph :: string
  env_pj :: json_parser
  env_sha256 :: "string \<Rightarrow> string"
  env_panic_text :: string
  env_ccapi :: "string \<Rightarrow> string option \<Rightarrow> string + ccapi_page"
  env_native :: native_aws
  env_identity :: "string + string option"
  env_region :: "string option"
  env_trust_roles :: "(string + iam_role list) list"
  env_instances :: "(string + ec2_instance list list) list"
  env_s3 :: s3_aws
  env_kms :: kms_aws
  env_secrets :: "(string + secret_entry list) list"
  env_secret_policy :: "string \<Rightarrow> string + string option"
  env_functions :: "(string + string option list) list"
  env_function_policy :: "string \<Rightarrow> string + string option"
  env_principal_rows :: "string list \<Rightarrow> (string option \<times> string option \<times> string option \<times> string option) list"
  env_rule_rows :: "string list \<Rightarrow> (string + string) list"
  env_node_order :: "json list \<Rightarrow> json list"
  env_name_order :: "string list \<Rightarrow> string list"
  env_permission_order :: "((string \<times> string) \<times> string) list \<Rightarrow> ((string \<times> string) \<times> string) list"
  env_task_order :: "resource_type_config list \<Rightarrow> resource_type_config list"
  env_duration :: nat

definition enrichers :: "ingest_env \<Rightarrow> (string \<times> enrichment_stats ingesting) list" where
  "enrichers env =
     (let srv = env_srv env; pr = env_printers env; pool = env_pool env; graph = env_graph env; pj = env_pj env;
          sha = env_sha256 env; identity = env_identity env in
      [(''iam'', iam_enrich srv pr pool graph (urldecode (aws_policies (env_native env))) pj identity (env_trust_roles env)),
       (''permissions'', permissions_enrich srv pr pool graph pj sha (env_permission_order env) (env_node_order env)
          (env_principal_rows env) permissions_enricher_new),
       (''ec2'', ec2_enrich srv pool graph (env_instances env)),
       (''s3'', s3_enrich srv pr pool graph pj sha (env_s3 env) identity),
       (''kms'', kms_enrich srv pr pool graph pj sha (env_name_order env) (env_kms env) identity (env_region env)),
       (''secretsmanager'', secretsmanager_enrich srv pr pool graph pj (env_node_order env) (env_secrets env)
          (env_secret_policy env) identity (env_region env)),
       (''lambda'', lambda_enrich srv pr pool graph pj (env_node_order env) (env_functions env) (env_function_policy env)
          identity)])"

subsection \<open>The run\<close>

definition aggregate ::
  "nat \<Rightarrow> ingest_stats list \<Rightarrow> (string \<times> ingest_error) list \<Rightarrow> enrichment_stats list \<Rightarrow> (string \<times> ingest_error) list
     \<Rightarrow> relationship_stats list \<Rightarrow> (string \<times> ingest_error) list \<Rightarrow> ingest_run_stats" where
  "aggregate duration stats errors enrichment_stats enrichment_errors relationship_stats relationship_errors =
     \<lparr>per_type = map (\<lambda>s. (is_type_name s, is_nodes s)) stats,
      total_nodes = sum_list (map is_nodes stats),
      total_edges = sum_list (map edges_created enrichment_stats) + sum_list (map rs_edges_created relationship_stats),
      dropped_edges = None,
      skipped_rules = concat (map rs_skipped_rules relationship_stats),
      duration_secs = duration,
      run_errors =
        map (\<lambda>(type_name, e). type_name @ '': '' @ display_ingest_error e) errors @
        map (\<lambda>(service, e). ''enrichment '' @ service @ '': '' @ display_ingest_error e) enrichment_errors @
        map (\<lambda>(rule, e). ''relationship '' @ rule @ '': '' @ display_ingest_error e) relationship_errors\<rparr>"

definition resource_task :: "ingest_env \<Rightarrow> resource_type_config \<Rightarrow> string list \<Rightarrow> (string list \<times> type_outcome) option" where
  "resource_task env =
     fetch_resource_type
       (fetch_via_ccapi (env_srv env) (env_printers env) (env_pool env) (env_graph env) (env_pj env) (env_ccapi env))
       (fetch_via_native_sdk (env_native env) (graph_loader (env_srv env) (env_printers env) (env_pool env) (env_graph env)))
       (env_panic_text env)"

definition relationship_phase ::
  "ingest_env \<Rightarrow> (relationship_stats list \<times> (string \<times> ingest_error) list) ingesting" where
  "relationship_phase env sent =
     (case apply_relationships (env_srv env) (env_pool env) (env_pj env) (env_rule_rows env) (env_graph env) sent of
        (sent', Inr rel_stats) \<Rightarrow> (sent', Inr (rel_stats, []))
      | (sent', Inl (IngestFailed e)) \<Rightarrow> (sent', Inr ([], [(''relationships'', e)]))
      | (sent', Inl IngestPanic) \<Rightarrow> (sent', Inl IngestPanic))"

definition ingest_account ::
  "ingest_env \<Rightarrow> resource_type_config list \<Rightarrow> nat \<Rightarrow> string list
     \<Rightarrow> (string list \<times> (ingest_failure + ingest_run_stats)) option" where
  "ingest_account env registry concurrency_limit sent =
     (if concurrency_limit = 0 \<and> registry \<noteq> [] then None
      else
      case run_tasks (resource_task env) (env_task_order env registry) [] [] sent of
        None \<Rightarrow> None
      | Some (sent1, stats, errors) \<Rightarrow>
          Some (ingest_bind (run_enrichers (enrichers env) [] []) (\<lambda>(enrichment_stats, enrichment_errors).
            ingest_bind (relationship_phase env) (\<lambda>(relationship_stats, relationship_errors).
            ingest_return (aggregate (env_duration env) stats errors enrichment_stats enrichment_errors
              relationship_stats relationship_errors))) sent1))"

subsection \<open>The handler\<close>

record account_ingest_payload =
  pl_account_id :: string
  pl_provider :: string
  pl_regions :: "string list"

definition strings_of_array :: "json \<Rightarrow> string list option" where
  "strings_of_array v =
     (case v of
        JArray xs \<Rightarrow> (if list_all (\<lambda>x. as_str x \<noteq> None) xs then Some (List.map_filter as_str xs) else None)
      | _ \<Rightarrow> None)"

definition default_field :: "(json \<Rightarrow> 'a option) \<Rightarrow> 'a \<Rightarrow> json option \<Rightarrow> 'a option" where
  "default_field dec dflt m = (case m of None \<Rightarrow> Some dflt | Some v \<Rightarrow> dec v)"

text \<open>The derived deserializer: a structure is read from an object, by name, or from an array, by position.\<close>

definition payload_fields :: "json option \<Rightarrow> json option \<Rightarrow> json option \<Rightarrow> account_ingest_payload option" where
  "payload_fields a p r =
     Option.bind (Option.bind a as_str) (\<lambda>acc.
     Option.bind (default_field as_str [] p) (\<lambda>provider.
     Option.bind (default_field strings_of_array [] r) (\<lambda>regions.
     Some \<lparr>pl_account_id = acc, pl_provider = provider, pl_regions = regions\<rparr>)))"

definition payload_of_value :: "json \<Rightarrow> account_ingest_payload option" where
  "payload_of_value v =
     (case v of
        JObject obj \<Rightarrow> payload_fields (obj_get obj ''account_id'') (obj_get obj ''provider'') (obj_get obj ''regions'')
      | JArray [a] \<Rightarrow> payload_fields (Some a) None None
      | JArray [a, p] \<Rightarrow> payload_fields (Some a) (Some p) None
      | JArray [a, p, r] \<Rightarrow> payload_fields (Some a) (Some p) (Some r)
      | _ \<Rightarrow> None)"

definition validate_account_id :: "string \<Rightarrow> job_error + unit" where
  "validate_account_id acc =
     (if length acc = 12 \<and> list_all is_ascii_digit acc then Inr ()
      else Inl \<lparr>retryable = False,
        err_message = ''Invalid account_id '' @ quoted acc @ '': must be 12 digits''\<rparr>)"

text \<open>\<open>debug_error\<close> is the \<open>{:?}\<close> text of an error.\<close>

definition map_ingest_error :: "(ingest_error \<Rightarrow> string) \<Rightarrow> ingest_error \<Rightarrow> job_error" where
  "map_ingest_error debug_error e =
     (let unclassified = \<lparr>retryable = True, err_message = ''Unclassified error (retryable): '' @ debug_error e\<rparr> in
      case e of
        AwsSdk msg \<Rightarrow>
          if str_contains msg ''timeout'' then \<lparr>retryable = True, err_message = ''AWS timeout (retryable): '' @ msg\<rparr>
          else if str_contains msg ''throttling'' then \<lparr>retryable = True, err_message = ''AWS throttling (retryable): '' @ msg\<rparr>
          else if str_contains msg ''ServiceException''
            then \<lparr>retryable = True, err_message = ''AWS service error (retryable): '' @ msg\<rparr>
          else if str_contains msg ''connection'' then \<lparr>retryable = True, err_message = ''Connection error (retryable): '' @ msg\<rparr>
          else unclassified
      | GraphFailure msg \<Rightarrow>
          if str_contains msg ''pool'' \<or> str_contains msg ''timeout'' \<or> str_contains msg ''connection''
          then \<lparr>retryable = True, err_message = ''Graph transient error (retryable): '' @ msg\<rparr>
          else if str_contains msg ''syntax'' \<or> str_contains msg ''Cypher'' \<or> str_contains msg ''type mismatch'' \<or>
            str_contains msg ''parse''
          then \<lparr>retryable = False, err_message = ''Graph permanent error (non-retryable): '' @ msg\<rparr>
          else \<lparr>retryable = True, err_message = ''Graph error (retryable, unknown origin): '' @ msg\<rparr>
      | ConfigError msg \<Rightarrow> \<lparr>retryable = False, err_message = ''Config error: '' @ msg\<rparr>
      | YamlParse msg \<Rightarrow> \<lparr>retryable = False, err_message = ''YAML parse error: '' @ msg\<rparr>
      | CloudControl type_name message \<Rightarrow>
          \<lparr>retryable = True, err_message = ''CloudControl error for '' @ type_name @ '': '' @ message\<rparr>
      | RegistryNotLoaded \<Rightarrow> unclassified
      | IoError _ \<Rightarrow> unclassified)"

definition nat_json :: "nat \<Rightarrow> json" where
  "nat_json n = JNumber (PosInt n)"

definition run_stats_to_json :: "ingest_run_stats \<Rightarrow> json" where
  "run_stats_to_json st =
     json_obj [(''per_type'', JArray (map (\<lambda>(t, n). JArray [JString t, nat_json n]) (per_type st))),
       (''total_nodes'', nat_json (total_nodes st)), (''total_edges'', nat_json (total_edges st)),
       (''dropped_edges'', case dropped_edges st of Some n \<Rightarrow> nat_json n | None \<Rightarrow> JNull),
       (''skipped_rules'', JArray (map JString (skipped_rules st))),
       (''duration_secs'', nat_json (duration_secs st)),
       (''errors'', JArray (map JString (run_errors st)))]"

record account_ingest_handler =
  h_registry :: "resource_type_config list"
  h_concurrency_limit :: nat

definition account_ingest_handler_new :: account_ingest_handler where
  "account_ingest_handler_new = \<lparr>h_registry = resource_types, h_concurrency_limit = 10\<rparr>"

text \<open>\<open>env\<close> maps the account to the run's environment, since the account is the access key of the AWS configuration.
  The texts of the deserializer's errors are the parameter \<open>serde_error\<close>.\<close>

definition handle ::
  "(json \<Rightarrow> string) \<Rightarrow> (ingest_error \<Rightarrow> string) \<Rightarrow> (string \<Rightarrow> ingest_env) \<Rightarrow> account_ingest_handler \<Rightarrow> json \<Rightarrow> string list
     \<Rightarrow> (string list \<times> handler_outcome) option" where
  "handle serde_error debug_error env self pl sent =
     (case payload_of_value pl of
        None \<Rightarrow> Some (sent, HandlerErr \<lparr>retryable = False, err_message = ''Malformed payload: '' @ serde_error pl\<rparr>)
      | Some account_payload \<Rightarrow>
          (case validate_account_id (pl_account_id account_payload) of
             Inl e \<Rightarrow> Some (sent, HandlerErr e)
           | Inr _ \<Rightarrow>
               map_option (\<lambda>(sent', r). (sent',
                 case r of
                   Inr stats \<Rightarrow> HandlerOk (run_stats_to_json stats)
                 | Inl (IngestFailed e) \<Rightarrow> HandlerErr (map_ingest_error debug_error e)
                 | Inl IngestPanic \<Rightarrow> Panicked))
                 (ingest_account (env (pl_account_id account_payload)) (h_registry self) (h_concurrency_limit self) sent)))"

subsection \<open>Lemmas\<close>

lemma run_tasks_accounts:
  assumes "run_tasks task rts stats errors sent = Some (sent', stats', errors')"
  shows "length stats' + length errors' = length stats + length errors + length rts"
  using assms by (induction rts arbitrary: stats errors sent) (auto split: option.splits sum.splits)

lemma run_enrichers_accounts:
  assumes "run_enrichers es stats errors sent = (sent', Inr (stats', errors'))"
  shows "\<exists>more. errors' = errors @ more \<and> subseq (map fst more) (map fst es) \<and>
    length stats' + length more = length stats + length es"
  using assms
proof (induction es arbitrary: stats errors sent)
  case (Cons e es)
  obtain service enrich where e: "e = (service, enrich)"
    by (cases e)
  show ?case
  proof (cases "enrich sent")
    case (Pair s r)
    show ?thesis
    proof (cases r)
      case (Inr st)
      then show ?thesis
        using Cons.IH [of "stats @ [st]" errors s] Cons.prems Pair e by fastforce
    next
      case (Inl f)
      then obtain err where f: "f = IngestFailed err"
        using Cons.prems Pair e by (cases f) auto
      obtain more where "errors' = (errors @ [(service, err)]) @ more" "subseq (map fst more) (map fst es)"
        "length stats' + length more = length stats + length es"
        using Cons.IH [of stats "errors @ [(service, err)]" s] Cons.prems Pair e Inl f by auto
      then show ?thesis
        using e by (intro exI [of _ "(service, err) # more"]) simp
    qed
  qed
qed simp

lemma run_enrichers_never_fails: "run_enrichers es stats errors sent \<noteq> (sent', Inl (IngestFailed e))"
  by (induction es arbitrary: stats errors sent) (auto split: prod.splits sum.splits ingest_failure.splits)

lemma ingest_account_never_fails: "ingest_account env registry n sent \<noteq> Some (sent', Inl (IngestFailed e))"
  using run_enrichers_never_fails
  by (auto simp: ingest_account_def ingest_bind_def ingest_return_def relationship_phase_def
      split: option.splits prod.splits sum.splits ingest_failure.splits if_splits)

lemma handle_never_retryable:
  assumes "handle serde_error debug_error env self pl sent = Some (sent', HandlerErr e)"
  shows "\<not> retryable e"
proof (cases "payload_of_value pl")
  case (Some p)
  show ?thesis
  proof (cases "validate_account_id (pl_account_id p)")
    case (Inr u)
    then obtain r where "ingest_account (env (pl_account_id p)) (h_registry self) (h_concurrency_limit self) sent = Some (sent', r)"
      "HandlerErr e = (case r of Inr stats \<Rightarrow> HandlerOk (run_stats_to_json stats)
         | Inl (IngestFailed e) \<Rightarrow> HandlerErr (map_ingest_error debug_error e) | Inl IngestPanic \<Rightarrow> Panicked)"
      using assms Some by (auto simp: handle_def)
    then show ?thesis
      using ingest_account_never_fails by (cases r) (auto split: ingest_failure.splits)
  qed (use assms Some in \<open>auto simp: handle_def validate_account_id_def split: if_splits\<close>)
qed (use assms in \<open>auto simp: handle_def\<close>)

lemma finish_keeps_pending:
  assumes "\<And>e. outcome = HandlerErr e \<Longrightarrow> \<not> retryable e"
  shows "set (filter (\<lambda>row. status row = ''pending'') (finish_job tbl now base r jid (Some outcome))) \<subseteq>
    set (filter (\<lambda>row. status row = ''pending'') tbl)"
proof -
  have no_retry: "status (fail_update now d m False row) \<noteq> ''pending''" if "status row = ''running''" for d m row
    using that by (simp add: fail_update_def)
  have failed: "fail tbl now base r jid m False = Inr (j, tbl') \<Longrightarrow>
      set (filter (\<lambda>row. status row = ''pending'') tbl') \<subseteq> set (filter (\<lambda>row. status row = ''pending'') tbl)" for m j tbl'
    using no_retry by (auto simp: fail_def Let_def res_iffs update_where_def split: option.splits if_splits)
  have completed: "complete tbl now jid out = Inr (j, tbl') \<Longrightarrow>
      set (filter (\<lambda>row. status row = ''pending'') tbl') \<subseteq> set (filter (\<lambda>row. status row = ''pending'') tbl)" for out j tbl'
    by (auto simp: complete_def complete_update_def res_iffs update_where_def split: option.splits if_splits)
  show ?thesis
    using assms failed completed
    by (cases outcome) (fastforce simp: finish_job_def Let_def split: sum.splits)+
qed

text \<open>
  C30: whatever AWS, the graph and the payload are, a job that the ingest handler has run is never queued again: what
  the scheduler does with the handler's outcome makes no row pending. A run that could fetch nothing at all, every call
  timing out, is completed like one that fetched everything; the attempts of the job and the classification of errors
  into retryable ones have no effect.
\<close>

theorem ingest_jobs_are_never_retried:
  "case handle serde_error debug_error env self pl sent of
     None \<Rightarrow> True
   | Some (sent', outcome) \<Rightarrow>
       set (filter (\<lambda>row. status row = ''pending'') (finish_job tbl now base r jid (Some outcome))) \<subseteq>
       set (filter (\<lambda>row. status row = ''pending'') tbl) \<and>
       {e. outcome = HandlerErr e} \<subseteq> {e. \<not> retryable e}"
proof (cases "handle serde_error debug_error env self pl sent")
  case (Some so)
  obtain s outcome where so: "so = (s, outcome)"
    by (cases so)
  have *: "\<not> retryable e" if "outcome = HandlerErr e" for e
    using Some so that handle_never_retryable by blast
  then show ?thesis
    using finish_keeps_pending [of outcome tbl now base r jid] by (auto simp: Some so)
qed simp

lemma ingest_account_result:
  assumes "ingest_account env registry n sent = Some (sent', Inr st)"
  obtains d stats errors enr_stats enr_errors rel_stats rel_errors
  where "st = aggregate d stats errors enr_stats enr_errors rel_stats rel_errors"
    and "length stats + length errors = length (env_task_order env registry)"
    and "subseq (map fst enr_errors) [''iam'', ''permissions'', ''ec2'', ''s3'', ''kms'', ''secretsmanager'', ''lambda'']"
    and "length enr_stats + length enr_errors = 7"
proof -
  obtain s1 stats errors where tasks: "run_tasks (resource_task env) (env_task_order env registry) [] [] sent = Some (s1, stats, errors)"
    and rest: "ingest_bind (run_enrichers (enrichers env) [] []) (\<lambda>(enrichment_stats, enrichment_errors).
            ingest_bind (relationship_phase env) (\<lambda>(relationship_stats, relationship_errors).
            ingest_return (aggregate (env_duration env) stats errors enrichment_stats enrichment_errors
              relationship_stats relationship_errors))) s1 = (sent', Inr st)"
    using assms by (auto simp: ingest_account_def split: if_splits option.splits)
  obtain s2 enr_stats enr_errors where enr: "run_enrichers (enrichers env) [] [] s1 = (s2, Inr (enr_stats, enr_errors))"
    and rest2: "ingest_bind (relationship_phase env) (\<lambda>(relationship_stats, relationship_errors).
            ingest_return (aggregate (env_duration env) stats errors enr_stats enr_errors
              relationship_stats relationship_errors)) s2 = (sent', Inr st)"
    using rest by (auto simp: ingest_result)
  obtain rel_stats rel_errors where
    st: "st = aggregate (env_duration env) stats errors enr_stats enr_errors rel_stats rel_errors"
    using rest2 by (auto simp: ingest_result ingest_return_def)
  have names: "map fst (enrichers env) = [''iam'', ''permissions'', ''ec2'', ''s3'', ''kms'', ''secretsmanager'', ''lambda'']"
    by (simp add: enrichers_def Let_def)
  have "subseq (map fst enr_errors) (map fst (enrichers env))" "length enr_stats + length enr_errors = 7"
    using run_enrichers_accounts [OF enr] arg_cong [OF names, of length] by auto
  then show thesis
    using that st run_tasks_accounts [OF tasks] by (simp add: names)
qed

text \<open>The statistics of a run account for everything it tried. Each resource type is in the list of types with its
  number of nodes or has its line among the errors, each of the seven enrichers has its edges in the total or its line
  among the errors, and the totals are the sums of what was reported.
\<close>

theorem run_accounts_for_everything:
  "case ingest_account env registry n sent of
     Some (sent', Inr st) \<Rightarrow>
       \<exists>errors (enr_stats :: enrichment_stats list) enr_errors (rel_stats :: relationship_stats list) rel_errors.
         run_errors st = map (\<lambda>(t, e). t @ '': '' @ display_ingest_error e) errors @
           map (\<lambda>(s, e). ''enrichment '' @ s @ '': '' @ display_ingest_error e) enr_errors @
           map (\<lambda>(s, e). ''relationship '' @ s @ '': '' @ display_ingest_error e) rel_errors \<and>
         length (per_type st) + length errors = length (env_task_order env registry) \<and>
         length enr_stats + length enr_errors = 7 \<and>
         subseq (map fst enr_errors) [''iam'', ''permissions'', ''ec2'', ''s3'', ''kms'', ''secretsmanager'', ''lambda''] \<and>
         total_nodes st = sum_list (map snd (per_type st)) \<and>
         total_edges st = sum_list (map edges_created enr_stats) + sum_list (map rs_edges_created rel_stats)
   | _ \<Rightarrow> True"
proof (cases "\<exists>sent' st. ingest_account env registry n sent = Some (sent', Inr st)")
  case True
  then obtain sent' st where run: "ingest_account env registry n sent = Some (sent', Inr st)"
    by blast
  obtain d stats errors enr_stats enr_errors rel_stats rel_errors where
      st: "st = aggregate d stats errors enr_stats enr_errors rel_stats rel_errors"
      and types: "length stats + length errors = length (env_task_order env registry)"
      and enr: "subseq (map fst enr_errors) [''iam'', ''permissions'', ''ec2'', ''s3'', ''kms'', ''secretsmanager'', ''lambda'']"
        "length enr_stats + length enr_errors = 7"
    by (rule ingest_account_result [OF run])
  have sums: "total_nodes st = sum_list (map snd (per_type st))"
    by (simp add: st aggregate_def comp_def)
  have "\<exists>errors (enr_stats :: enrichment_stats list) enr_errors (rel_stats :: relationship_stats list) rel_errors.
         run_errors st = map (\<lambda>(t, e). t @ '': '' @ display_ingest_error e) errors @
           map (\<lambda>(s, e). ''enrichment '' @ s @ '': '' @ display_ingest_error e) enr_errors @
           map (\<lambda>(s, e). ''relationship '' @ s @ '': '' @ display_ingest_error e) rel_errors \<and>
         length (per_type st) + length errors = length (env_task_order env registry) \<and>
         length enr_stats + length enr_errors = 7 \<and>
         subseq (map fst enr_errors) [''iam'', ''permissions'', ''ec2'', ''s3'', ''kms'', ''secretsmanager'', ''lambda''] \<and>
         total_nodes st = sum_list (map snd (per_type st)) \<and>
         total_edges st = sum_list (map edges_created enr_stats) + sum_list (map rs_edges_created rel_stats)"
    unfolding sums unfolding st aggregate_def ingest_run_stats.select_convs length_map
    by (rule exI [where x = errors], rule exI [where x = enr_stats], rule exI [where x = enr_errors],
        rule exI [where x = rel_stats], rule exI [where x = rel_errors]) (intro conjI refl types enr)
  then show ?thesis
    by (simp only: run option.case prod.case sum.case)
next
  case False
  then show ?thesis
    by (auto split: option.split sum.split)
qed

text \<open>Which errors the classification calls permanent.\<close>

lemma map_ingest_error_permanent:
  "\<not> retryable (map_ingest_error debug_error e) \<longleftrightarrow>
     (\<exists>m. e = ConfigError m \<or> e = YamlParse m \<or>
       e = GraphFailure m \<and> list_all (\<lambda>t. \<not> str_contains m t) [''pool'', ''timeout'', ''connection''] \<and>
       list_ex (str_contains m) [''syntax'', ''Cypher'', ''type mismatch'', ''parse''])"
  by (cases e) (simp_all add: map_ingest_error_def Let_def)

end
