(* ===== verification/Graph_Queries.thy ===== *)
theory Graph_Queries
  imports Graph_Client Graph_Loader
begin

section \<open>The queries of the graph client\<close>

text \<open>
  The asynchronous methods of \<open>GraphClient\<close> in \<open>activable-graph/src/client.rs\<close>, each of them whole: it takes
  a connection, sets it up, builds its query, sends it and decodes the rows. The database is the record \<open>pg\<close>
  of what the pool, the set-up statement and a query answer, and of the driver's error for a column that
  cannot be read as the type asked for; columns are texts, as every query casts them. A stream of results is
  the list of them.
\<close>

record pg =
  pool_get :: "string + unit"
  pg_batch :: "string \<Rightarrow> string + unit"
  pg_query :: "string \<Rightarrow> string + string option list list"
  column_error :: "nat \<Rightarrow> string"

subsection \<open>Rows\<close>

definition on_connection :: "pg \<Rightarrow> graph_error + 'a \<Rightarrow> graph_error + 'a" where
  "on_connection db body =
     res_bind (map_err PoolError (pool_get db)) (\<lambda>_.
     res_bind (map_err QueryError (pg_batch db age_setup)) (\<lambda>_. body))"

definition query_rows :: "pg \<Rightarrow> graph_error + string \<Rightarrow> graph_error + string option list list" where
  "query_rows db built =
     on_connection db (res_bind built (\<lambda>sql. map_err QueryError (pg_query db sql)))"

text \<open>\<open>row.try_get(i)\<close>: as \<open>Option<String>\<close> only an index out of range is an error, as \<open>String\<close> a NULL is one too.\<close>

definition get_column :: "pg \<Rightarrow> string option list \<Rightarrow> nat \<Rightarrow> string + string option" where
  "get_column db row i = (if i < length row then Inr (row ! i) else Inl (column_error db i))"

definition get_text :: "pg \<Rightarrow> string option list \<Rightarrow> nat \<Rightarrow> graph_error + string" where
  "get_text db row i =
     map_err graph_error.ParseError (res_bind (get_column db row i) (ok_or (column_error db i)))"

text \<open>The two text columns of a row, as they are and with the quotes of agtype taken off.\<close>

definition node_columns_of :: "pg \<Rightarrow> string option list \<Rightarrow> graph_error + string \<times> string" where
  "node_columns_of db row =
     res_bind (get_text db row 0) (\<lambda>raw_id. res_bind (get_text db row 1) (\<lambda>raw_label. Inr (raw_id, raw_label)))"

definition stripped_ref :: "pg \<Rightarrow> string option list \<Rightarrow> graph_error + node_ref" where
  "stripped_ref db row = res_bind (node_columns_of db row) (\<lambda>(i, l). Inr (row_ref i l))"

subsection \<open>Numbers\<close>

text \<open>\<open>str::parse::<u32>\<close> with the texts of its errors.\<close>

fun u32_digits :: "string \<Rightarrow> nat \<Rightarrow> string + nat" where
  "u32_digits [] n = Inr n"
| "u32_digits (c # cs) n =
     (if \<not> is_ascii_digit c then Inl ''invalid digit found in string''
      else if 10 * n + digit_value c < 2 ^ 32 then u32_digits cs (10 * n + digit_value c)
      else Inl ''number too large to fit in target type'')"

definition parse_u32 :: "string \<Rightarrow> string + nat" where
  "parse_u32 s =
     (if s = [] then Inl ''cannot parse integer from empty string''
      else if s = ''+'' then Inl ''invalid digit found in string''
      else u32_digits (if starts_with s ''+'' then tl s else s) 0)"

subsection \<open>The methods\<close>

definition client_find_by_id :: "pg \<Rightarrow> string \<Rightarrow> string \<Rightarrow> node_id \<Rightarrow> graph_error + node_ref option" where
  "client_find_by_id db graph label i =
     res_bind (query_rows db (find_by_id graph label i)) (\<lambda>rows.
     case rows of
       [] \<Rightarrow> Inr None
     | row # _ \<Rightarrow> res_bind (get_text db row 0) (\<lambda>raw.
         Inr (Some \<lparr>ref_id = strip_agtype raw, ref_label = label\<rparr>)))"

definition client_walk_edges ::
  "pg \<Rightarrow> string \<Rightarrow> node_id \<Rightarrow> string list \<Rightarrow> direction \<Rightarrow> 8 word \<Rightarrow> graph_error + node_ref list" where
  "client_walk_edges db graph start edge_types d result_limit =
     res_bind (query_rows db (walk_edges graph start edge_types d result_limit)) (traverse (stripped_ref db))"

text \<open>The rows of paths are not parsed: no path is ever returned.\<close>

definition client_path_finder ::
  "pg \<Rightarrow> string \<Rightarrow> node_id \<Rightarrow> node_id \<Rightarrow> string list \<Rightarrow> 8 word \<Rightarrow> graph_error + graph_path list" where
  "client_path_finder db graph start end_id edge_pattern max_hops =
     res_bind (query_rows db (path_finder graph start end_id edge_pattern max_hops)) (\<lambda>rows. Inr [])"

definition client_shortest_path_length ::
  "pg \<Rightarrow> string \<Rightarrow> node_id \<Rightarrow> node_id \<Rightarrow> 8 word \<Rightarrow> graph_error + nat option" where
  "client_shortest_path_length db graph start end_id max_hops =
     res_bind (query_rows db (shortest_path_length graph start end_id max_hops)) (\<lambda>rows.
     case rows of
       [] \<Rightarrow> Inr None
     | row # _ \<Rightarrow> res_bind (get_text db row 0) (\<lambda>length_str.
         map_err (\<lambda>e. graph_error.ParseError (''Failed to parse path length: '' @ e))
           (res_bind (parse_u32 length_str) (\<lambda>n. Inr (Some n)))))"

definition client_blast_radius ::
  "pg \<Rightarrow> string \<Rightarrow> node_id \<Rightarrow> string list \<Rightarrow> 8 word \<Rightarrow> graph_error + node_ref list" where
  "client_blast_radius db graph node edge_types max_hops =
     res_bind (query_rows db (blast_radius graph node edge_types max_hops)) (traverse (stripped_ref db))"

record subgraph_result =
  sg_center :: node_ref
  sg_nodes :: "node_ref list"

definition unwrap_or :: "'a \<Rightarrow> 'a option \<Rightarrow> 'a" where
  "unwrap_or d m = (case m of Some x \<Rightarrow> x | None \<Rightarrow> d)"

definition subgraph_ref :: "pg \<Rightarrow> string option list \<Rightarrow> graph_error + node_ref" where
  "subgraph_ref db row =
     res_bind (node_columns_of db row) (\<lambda>(i, labels).
     Inr \<lparr>ref_id = i, ref_label = unwrap_or ''Unknown'' (extract_first_label labels)\<rparr>)"

definition client_subgraph :: "pg \<Rightarrow> string \<Rightarrow> node_id \<Rightarrow> 8 word \<Rightarrow> graph_error + subgraph_result" where
  "client_subgraph db graph center radius =
     res_bind (query_rows db (subgraph graph center radius)) (\<lambda>rows.
     res_bind (traverse (subgraph_ref db) rows) (\<lambda>nodes.
     Inr \<lparr>sg_center = \<lparr>ref_id = center, ref_label = ''Unknown''\<rparr>, sg_nodes = nodes\<rparr>))"

text \<open>The rows of a raw query: a NULL row is skipped, one that is not JSON is an error.\<close>

fun cypher_values :: "json_parser \<Rightarrow> pg \<Rightarrow> string option list list \<Rightarrow> graph_error + json list" where
  "cypher_values pj db [] = Inr []"
| "cypher_values pj db (row # rows) =
     res_bind (map_err graph_error.ParseError (get_column db row 0)) (\<lambda>c.
     case c of
       None \<Rightarrow> cypher_values pj db rows
     | Some s \<Rightarrow>
         res_bind (map_err (\<lambda>e. graph_error.ParseError (''Failed to parse agtype: '' @ e)) (pj s)) (\<lambda>v.
         res_bind (cypher_values pj db rows) (\<lambda>vs. Inr (v # vs))))"

definition client_cypher :: "json_parser \<Rightarrow> pg \<Rightarrow> string \<Rightarrow> string \<Rightarrow> graph_error + json list" where
  "client_cypher pj db graph cypher =
     res_bind (query_rows db (Inr (raw_cypher_sql graph cypher))) (cypher_values pj db)"

definition multi_column_row ::
  "json_parser \<Rightarrow> pg \<Rightarrow> nat \<Rightarrow> string option list \<Rightarrow> graph_error + json list" where
  "multi_column_row pj db column_count row =
     res_bind (traverse (\<lambda>i. map_err
         (\<lambda>e. graph_error.ParseError (''Failed to read column '' @ show_nat i @ '': '' @ e)) (get_column db row i))
       [0..<column_count]) (\<lambda>cs.
     Inr (decode_columns pj cs))"

definition client_cypher_multi_column ::
  "json_parser \<Rightarrow> pg \<Rightarrow> string \<Rightarrow> string \<Rightarrow> nat \<Rightarrow> graph_error + json list list" where
  "client_cypher_multi_column pj db graph cypher column_count =
     res_bind (query_rows db (Inr (multi_column_sql graph cypher column_count)))
       (traverse (multi_column_row pj db column_count))"

definition hydrate_internal :: "json_parser \<Rightarrow> pg \<Rightarrow> string \<Rightarrow> node_ref \<Rightarrow> graph_error + node_ref \<times> json" where
  "hydrate_internal pj db graph r =
     res_bind (query_rows db (Inr (hydrate_sql graph (ref_id r)))) (\<lambda>rows.
     case rows of
       [] \<Rightarrow> Inl NodeNotFound
     | row # _ \<Rightarrow> res_bind (get_text db row 0) (\<lambda>s.
         res_bind (map_err (\<lambda>e. graph_error.ParseError (''Failed to parse node properties: '' @ e)) (pj s)) (\<lambda>v.
         Inr (r, v))))"

text \<open>The builder of a hydration, whose choice of fields is dropped.\<close>

record hydration_query =
  hq_node_ref :: node_ref
  hq_fields :: "string list option"

definition hydrate :: "node_ref \<Rightarrow> hydration_query" where
  "hydrate r = \<lparr>hq_node_ref = r, hq_fields = None\<rparr>"

definition hydration_fields :: "string list \<Rightarrow> hydration_query \<Rightarrow> hydration_query" where
  "hydration_fields keys q = q\<lparr>hq_fields := Some keys\<rparr>"

definition hydration_execute :: "json_parser \<Rightarrow> pg \<Rightarrow> string \<Rightarrow> hydration_query \<Rightarrow> graph_error + node_ref \<times> json" where
  "hydration_execute pj db graph q = hydrate_internal pj db graph (hq_node_ref q)"

subsection \<open>Lemmas\<close>

lemma hydration_fields_dropped:
  "hydration_execute pj db graph (hydration_fields keys (hydrate r)) = hydration_execute pj db graph (hydrate r)"
  by (simp add: hydration_execute_def hydration_fields_def hydrate_def)

lemma query_rows_Inr_iff:
  "query_rows db built = Inr rows \<longleftrightarrow>
     pool_get db = Inr () \<and> pg_batch db age_setup = Inr () \<and> (\<exists>sql. built = Inr sql \<and> pg_query db sql = Inr rows)"
  by (auto simp: query_rows_def on_connection_def res_iffs)

lemma get_text_Inr_iff: "get_text db row i = Inr s \<longleftrightarrow> i < length row \<and> row ! i = Some s"
  by (auto simp: get_text_def get_column_def res_iffs)

lemma traverse_columns:
  "length row = n \<Longrightarrow> traverse (\<lambda>i. map_err (g i) (get_column db row i)) [k..<n] = Inr (drop k row)"
proof (induction "n - k" arbitrary: k)
  case (Suc m)
  then show ?case
    by (simp add: upt_conv_Cons get_column_def Cons_nth_drop_Suc)
qed simp

lemma multi_column_row_exact:
  "length row = n \<Longrightarrow> multi_column_row pj db n row = Inr (decode_columns pj row)"
  unfolding multi_column_row_def by (subst traverse_columns) simp_all

lemma foldl_digits_grow: "n \<le> foldl (\<lambda>n c. 10 * n + digit_value c) n ds"
proof (induction ds arbitrary: n)
  case (Cons c ds)
  show ?case using Cons [of "10 * n + digit_value c"] by simp
qed simp

lemma u32_digits_Inr:
  "list_all is_ascii_digit ds \<Longrightarrow> foldl (\<lambda>n c. 10 * n + digit_value c) n ds < 2 ^ 32 \<Longrightarrow>
     u32_digits ds n = Inr (foldl (\<lambda>n c. 10 * n + digit_value c) n ds)"
proof (induction ds arbitrary: n)
  case (Cons c ds)
  then show ?case using foldl_digits_grow [of "10 * n + digit_value c" ds] by simp
qed simp

text \<open>A number the database prints is read back.\<close>

lemma parse_u32_show_nat: "n < 2 ^ 32 \<Longrightarrow> parse_u32 (show_nat n) = Inr n"
proof -
  assume n: "n < 2 ^ 32"
  have d: "list_all is_ascii_digit (show_nat n)" using show_nat_digits by (simp add: list_all_iff)
  obtain c cs where c: "show_nat n = c # cs" by (cases "show_nat n") (metis One_nat_def show_nat.simps snoc_eq_iff_butlast list.distinct(1))+
  then have "c \<noteq> CHR ''+''" using d by (auto simp: is_ascii_digit_def)
  moreover have "u32_digits (c # cs) 0 = Inr n"
    using u32_digits_Inr [OF d, of 0] n read_show_nat [of n] unfolding read_nat_def c by (simp only:)
  ultimately show ?thesis by (simp add: parse_u32_def c starts_with_def del: u32_digits.simps)
qed

end
