(* ===== verification/Gql_Types.thy ===== *)
theory Gql_Types
  imports Graph_Queries Risk_Batch
begin

section \<open>The types and errors of the GraphQL interface\<close>

text \<open>
  \<open>activable-graphql/src/types/mod.rs\<close>, \<open>types/risk.rs\<close> and \<open>error.rs\<close>: the objects the resolvers return and
  the conversions into them. An \<open>async_graphql::Error\<close> is its message and, for graph errors, its code. \<open>i32\<close>
  values are 32-bit words read as signed.
\<close>

subsection \<open>Errors\<close>

record gql_error =
  ge_message :: string
  ge_code :: "string option"

definition gql_error_new :: "string \<Rightarrow> gql_error" where
  "gql_error_new msg = \<lparr>ge_message = msg, ge_code = None\<rparr>"

definition map_graph_error :: "graph_error \<Rightarrow> gql_error" where
  "map_graph_error e =
     (case e of
        NodeNotFound \<Rightarrow> \<lparr>ge_message = ''Resource not found'', ge_code = Some ''NOT_FOUND''\<rparr>
      | PoolExhausted \<Rightarrow> \<lparr>ge_message = ''Service temporarily unavailable'', ge_code = Some ''POOL_EXHAUSTED''\<rparr>
      | UnsafeParameter s \<Rightarrow> \<lparr>ge_message = ''Invalid parameter'', ge_code = Some ''INVALID_PARAMETER''\<rparr>
      | PoolError s \<Rightarrow> \<lparr>ge_message = ''Internal server error'', ge_code = Some ''INTERNAL_ERROR''\<rparr>
      | QueryError s \<Rightarrow> \<lparr>ge_message = ''Internal server error'', ge_code = Some ''INTERNAL_ERROR''\<rparr>
      | graph_error.ParseError s \<Rightarrow> \<lparr>ge_message = ''Internal server error'', ge_code = Some ''INTERNAL_ERROR''\<rparr>)"

subsection \<open>Nodes and paths\<close>

record gql_node_ref =
  gn_id :: string
  gn_label :: string

definition gql_node_ref_from :: "node_ref \<Rightarrow> gql_node_ref" where
  "gql_node_ref_from n = \<lparr>gn_id = ref_id n, gn_label = ref_label n\<rparr>"

record gql_node =
  gnode_id :: string
  gnode_label :: string
  gnode_properties :: "string option"

record gql_edge =
  ged_from :: string
  ged_to :: string
  ged_type :: string
  ged_properties :: "string option"

record gql_path =
  gp_nodes :: "gql_node_ref list"
  gp_edges :: "gql_edge list"
  gp_length :: "32 word"

definition path_edge :: "gql_node_ref list \<Rightarrow> nat \<times> string \<Rightarrow> gql_edge option" where
  "path_edge refs ie =
     (case ie of (i, etype) \<Rightarrow>
        if i < length refs \<and> i + 1 < length refs
        then Some \<lparr>ged_from = gn_id (refs ! i), ged_to = gn_id (refs ! (i + 1)), ged_type = etype,
                   ged_properties = None\<rparr>
        else None)"

definition gql_path_from :: "graph_path \<Rightarrow> gql_path" where
  "gql_path_from p =
     (let refs = map gql_node_ref_from (path_nodes p) in
      \<lparr>gp_nodes = refs,
       gp_edges = List.map_filter (path_edge refs) (enumerate 0 (path_edge_labels p)),
       gp_length = (if refs = [] then 0 else of_nat (length refs - 1))\<rparr>)"

record gql_subgraph =
  gs_center :: gql_node_ref
  gs_nodes :: "gql_node_ref list"

definition gql_subgraph_from :: "subgraph_result \<Rightarrow> gql_subgraph" where
  "gql_subgraph_from sg =
     \<lparr>gs_center = gql_node_ref_from (sg_center sg), gs_nodes = map gql_node_ref_from (sg_nodes sg)\<rparr>"

subsection \<open>Risk\<close>

datatype gql_severity = GqlCritical | GqlHigh | GqlMedium | GqlLow | GqlInfo

definition gql_severity_from :: "risk_severity \<Rightarrow> gql_severity" where
  "gql_severity_from s =
     (case s of
        RiskCritical \<Rightarrow> GqlCritical | RiskHigh \<Rightarrow> GqlHigh | RiskMedium \<Rightarrow> GqlMedium
      | RiskLow \<Rightarrow> GqlLow | RiskInfo \<Rightarrow> GqlInfo)"

record gql_signal_contribution =
  gsc_name :: string
  gsc_raw_value :: f64
  gsc_normalized :: real
  gsc_weight :: real
  gsc_contribution :: real

definition gql_signal_from :: "signal_contribution \<Rightarrow> gql_signal_contribution" where
  "gql_signal_from s =
     \<lparr>gsc_name = sc_name s, gsc_raw_value = sc_raw_value s, gsc_normalized = sc_normalized s,
      gsc_weight = sc_weight s, gsc_contribution = sc_contribution s\<rparr>"

record gql_matched_rule =
  gmr_rule_id :: string
  gmr_rule_name :: string
  gmr_category :: string
  gmr_severity_tier :: "32 word"
  gmr_boost :: real
  gmr_matched_permissions :: "string list"

definition gql_matched_rule_from :: "matched_rule \<Rightarrow> gql_matched_rule" where
  "gql_matched_rule_from r =
     \<lparr>gmr_rule_id = mr_rule_id r, gmr_rule_name = mr_rule_name r, gmr_category = mr_category r,
      gmr_severity_tier = ucast (mr_tier r), gmr_boost = mr_boost r,
      gmr_matched_permissions = mr_permissions r\<rparr>"

record gql_risk_assessment =
  gra_principal_id :: string
  gra_score :: real
  gra_severity :: gql_severity
  gra_signals :: "gql_signal_contribution list"
  gra_matched_rules :: "gql_matched_rule list"
  gra_rule_boost :: real
  gra_signal_total :: real
  gra_computed_at :: string

definition gql_risk_assessment_from :: "risk_assessment \<Rightarrow> gql_risk_assessment" where
  "gql_risk_assessment_from a =
     \<lparr>gra_principal_id = ra_principal_id a, gra_score = ra_score a,
      gra_severity = gql_severity_from (ra_severity a),
      gra_signals = map gql_signal_from (ra_contributions a),
      gra_matched_rules = map gql_matched_rule_from (ra_matched_rules a),
      gra_rule_boost = ra_rule_boost a, gra_signal_total = ra_signal_total a,
      gra_computed_at = ra_computed_at a\<rparr>"

subsection \<open>Lemmas\<close>

lemma gql_severity_from_inj: "gql_severity_from s = gql_severity_from t \<longleftrightarrow> s = t"
  by (cases s; cases t) (simp_all add: gql_severity_from_def)

text \<open>A tier is a byte, so it keeps its value as a signed 32-bit integer.\<close>

lemma tier_keeps_value: "sint (gmr_severity_tier (gql_matched_rule_from r)) = uint (mr_tier r)"
proof -
  have "uint (mr_tier r) < 256" using uint_bounded [of "mr_tier r"] by simp
  moreover from this have "signed_take_bit 31 (uint (mr_tier r)) = uint (mr_tier r)"
    by (intro signed_take_bit_int_eq_self) (simp_all add: order_trans [OF _ uint_ge_0])
  ultimately show ?thesis
    by (simp add: gql_matched_rule_from_def sint_uint unsigned_ucast_eq take_bit_int_eq_self)
qed

end
