(* ===== verification/Gql_Traversal.thy ===== *)
theory Gql_Traversal
  imports Gql_Types
begin

section \<open>The traversal resolvers\<close>

text \<open>
  \<open>resolvers/traversal.rs\<close>, \<open>node.rs\<close>, \<open>path.rs\<close> and \<open>subgraph.rs\<close> of \<open>activable-graphql\<close>, over the methods of the
  graph client. \<open>i32\<close> arguments are 32-bit words read as signed; \<open>as u8\<close> keeps their low eight bits.
\<close>

subsection \<open>The resolvers\<close>

definition upper_char :: "char \<Rightarrow> char" where
  "upper_char c = (if 97 \<le> (of_char c :: nat) \<and> (of_char c :: nat) \<le> 122
     then char_of (of_char c - 32 :: nat) else c)"

definition MAX_EDGE_TYPES :: nat where
  "MAX_EDGE_TYPES = 10"

definition MAX_DEPTH :: int where
  "MAX_DEPTH = 10"

definition MAX_WALK_RESULTS :: int where
  "MAX_WALK_RESULTS = 10"

definition parse_direction :: "string \<Rightarrow> gql_error + direction" where
  "parse_direction d =
     (let s = map upper_char d in
      if s = ''OUTGOING'' then Inr Outgoing
      else if s = ''INCOMING'' then Inr Incoming
      else if s = ''BOTH'' then Inr Both
      else Inl (gql_error_new ''Invalid direction''))"

definition resolve_walk_edges ::
  "pg \<Rightarrow> string \<Rightarrow> string \<Rightarrow> string list \<Rightarrow> string \<Rightarrow> 32 word \<Rightarrow> gql_error + gql_node_ref list" where
  "resolve_walk_edges db graph start edge_types d max_results =
     (if MAX_EDGE_TYPES < length edge_types
      then Inl (gql_error_new (''Too many edge types (max '' @ show_nat MAX_EDGE_TYPES @ '')''))
      else if \<not> (0 \<le> sint max_results \<and> sint max_results \<le> MAX_WALK_RESULTS)
      then Inl (gql_error_new (''Limit must be 0-'' @ show_int MAX_WALK_RESULTS))
      else res_bind (parse_direction d) (\<lambda>dir.
        res_bind (map_err map_graph_error
            (client_walk_edges db graph start edge_types dir (ucast max_results))) (\<lambda>refs.
        Inr (map gql_node_ref_from refs))))"

definition resolve_blast_radius :: "pg \<Rightarrow> string \<Rightarrow> string \<Rightarrow> 32 word \<Rightarrow> gql_error + gql_node_ref list" where
  "resolve_blast_radius db graph node depth =
     (if \<not> (0 \<le> sint depth \<and> sint depth \<le> MAX_DEPTH)
      then Inl (gql_error_new (''Depth must be 0-'' @ show_int MAX_DEPTH))
      else res_bind (map_err map_graph_error (client_blast_radius db graph node [] (ucast depth))) (\<lambda>refs.
        Inr (map gql_node_ref_from refs)))"

definition resolve_find_node :: "pg \<Rightarrow> string \<Rightarrow> string \<Rightarrow> string \<Rightarrow> gql_error + gql_node option" where
  "resolve_find_node db graph label i =
     res_bind (map_err map_graph_error (client_find_by_id db graph label i)) (\<lambda>result.
     Inr (map_option (\<lambda>nr.
       \<lparr>gnode_id = ref_id nr, gnode_label = ref_label nr, gnode_properties = None\<rparr>) result))"

definition resolve_path_finder ::
  "pg \<Rightarrow> string \<Rightarrow> string \<Rightarrow> string \<Rightarrow> string list \<Rightarrow> 32 word \<Rightarrow> gql_error + gql_path list" where
  "resolve_path_finder db graph start end_id edge_pattern max_hops =
     res_bind (map_err map_graph_error
         (client_path_finder db graph start end_id edge_pattern (ucast max_hops))) (\<lambda>paths.
     Inr (map gql_path_from paths))"

definition resolve_subgraph :: "pg \<Rightarrow> string \<Rightarrow> string \<Rightarrow> 32 word \<Rightarrow> gql_error + gql_subgraph" where
  "resolve_subgraph db graph center radius =
     res_bind (map_err map_graph_error (client_subgraph db graph center (ucast radius))) (\<lambda>sg.
     Inr (gql_subgraph_from sg))"

subsection \<open>Lemmas\<close>

text \<open>A checked argument keeps its value when it is cut to a byte.\<close>

lemma small_ucast:
  fixes w :: "32 word"
  assumes "0 \<le> sint w" and "sint w \<le> 10"
  shows "uint (ucast w :: 8 word) = sint w"
proof -
  have "uint (ucast w :: 8 word) = take_bit 8 (uint w)" by (simp add: unsigned_ucast_eq)
  also have "\<dots> = take_bit 8 (sint w)" by (simp add: sint_uint take_bit_signed_take_bit)
  also have "\<dots> = sint w" using assms by (simp add: take_bit_int_eq_self)
  finally show ?thesis .
qed

lemma traverse_map: "(\<And>x. x \<in> set xs \<Longrightarrow> f (g x) = Inr (h x)) \<Longrightarrow> traverse f (map g xs) = Inr (map h xs)"
  by (induction xs) auto

text \<open>The text rendering of a string by the database: between double quotes.\<close>

definition agtype_text :: "string \<Rightarrow> string" where
  "agtype_text s = double_quote # s @ [double_quote]"

definition agtype_row :: "string \<times> string \<Rightarrow> string option list" where
  "agtype_row il = [Some (agtype_text (fst il)), Some (agtype_text (snd il))]"

lemma strip_agtype_text:
  assumes "s \<noteq> []" and "hd s \<noteq> double_quote" and "last s \<noteq> double_quote"
  shows "strip_agtype (agtype_text s) = s"
proof -
  have "trim (agtype_text s) = agtype_text s"
    by (simp add: trim_def trim_by_def agtype_text_def is_ascii_whitespace_def double_quote_def)
  moreover have "trim_by (\<lambda>c. c = double_quote) (agtype_text s) = s"
    unfolding agtype_text_def using assms by (intro trim_by_around) simp_all
  ultimately show ?thesis by (simp add: strip_agtype_def)
qed

lemma node_columns_of_row: "node_columns_of db (agtype_row il) = Inr (agtype_text (fst il), agtype_text (snd il))"
  by (simp add: node_columns_of_def get_text_def get_column_def agtype_row_def)

text \<open>What a neighbour query may hold: an id that does not begin or end with a quote, and a label.\<close>

definition plain_ref :: "string \<times> string \<Rightarrow> bool" where
  "plain_ref il \<longleftrightarrow> fst il \<noteq> [] \<and> hd (fst il) \<noteq> double_quote \<and> last (fst il) \<noteq> double_quote \<and>
     validate_label (snd il) = Inr (snd il)"

lemma label_of_agtype_text:
  assumes "validate_label l = Inr l"
  shows "extract_first_label (agtype_text l) = Some l" and "strip_agtype (agtype_text l) = l"
proof -
  have ok: "l \<noteq> []" "list_all label_char_ok l" using assms by (simp_all add: validate_label_Inr_iff)
  have c: "label_char_ok c \<Longrightarrow> c \<noteq> double_quote \<and> c \<noteq> CHR '',''" for c
    by (auto simp: label_char_ok_def is_ascii_alphanumeric_def is_ascii_alphabetic_def is_ascii_digit_def
        double_quote_def)
  have l: "double_quote \<notin> set l" "CHR '','' \<notin> set l" using ok(2) c by (auto simp: list_all_iff)
  then have ends: "hd l \<noteq> double_quote" "last l \<noteq> double_quote"
    using ok(1) by (auto dest: hd_in_set last_in_set)
  then show "strip_agtype (agtype_text l) = l" by (intro strip_agtype_text [OF ok(1)])
  have "trim_by (\<lambda>c. c = CHR ''['' \<or> c = CHR '']'' \<or> c = CHR '' '') (agtype_text l) = agtype_text l"
    by (simp add: trim_by_def agtype_text_def double_quote_def)
  moreover have "split_on CHR '','' (agtype_text l) = [agtype_text l]"
    using l by (intro split_on_literal) (simp add: agtype_text_def double_quote_def)
  moreover have "trim_by (\<lambda>c. c = double_quote) (agtype_text l) = l"
    unfolding agtype_text_def using ok(1) ends by (intro trim_by_around) auto
  moreover have "agtype_text l \<noteq> []" by (simp add: agtype_text_def)
  ultimately show "extract_first_label (agtype_text l) = Some l"
    using ok(1) by (simp add: extract_first_label_def Let_def)
qed

lemma stripped_refs:
  "list_all plain_ref ils \<Longrightarrow>
     traverse (stripped_ref db) (map agtype_row ils) = Inr (map (\<lambda>(i, l). \<lparr>ref_id = i, ref_label = l\<rparr>) ils)"
  by (intro traverse_map)
     (auto simp: stripped_ref_def node_columns_of_row row_ref_def plain_ref_def list_all_iff strip_agtype_text
        label_of_agtype_text(2))

lemma subgraph_refs:
  "list_all plain_ref ils \<Longrightarrow>
     traverse (subgraph_ref db) (map agtype_row ils) =
       Inr (map (\<lambda>(i, l). \<lparr>ref_id = agtype_text i, ref_label = l\<rparr>) ils)"
  by (intro traverse_map)
     (auto simp: subgraph_ref_def node_columns_of_row plain_ref_def list_all_iff unwrap_or_def
        label_of_agtype_text(1))

subsection \<open>Properties\<close>

text \<open>The resolvers for the neighbours of a node disagree on ids. On the rows of a database that renders
  strings between double quotes, the blast radius returns the ids of the neighbours, the subgraph returns them
  with their quotes, so that none of them can be looked up again; the labels are the same.\<close>

theorem subgraph_ids_keep_quotes:
  assumes "pool_get db = Inr ()" and "pg_batch db age_setup = Inr ()"
    and "\<And>sql. pg_query db sql = Inr (map agtype_row ils)"
    and "list_all plain_ref ils" and "0 \<le> sint depth" and "sint depth \<le> 10"
  shows "resolve_blast_radius db graph i depth = Inr (map (\<lambda>(i, l). \<lparr>gn_id = i, gn_label = l\<rparr>) ils) \<and>
    resolve_subgraph db graph i depth =
      Inr \<lparr>gs_center = \<lparr>gn_id = i, gn_label = ''Unknown''\<rparr>,
           gs_nodes = map (\<lambda>(i, l). \<lparr>gn_id = agtype_text i, gn_label = l\<rparr>) ils\<rparr>"
proof
  have rows: "query_rows db (Inr sql) = Inr (map agtype_row ils)" for sql
    using assms(1-3) by (simp add: query_rows_Inr_iff)
  show "resolve_blast_radius db graph i depth = Inr (map (\<lambda>(i, l). \<lparr>gn_id = i, gn_label = l\<rparr>) ils)"
    using assms(5,6) rows stripped_refs [OF assms(4), of db]
    by (simp add: resolve_blast_radius_def MAX_DEPTH_def client_blast_radius_def blast_radius_def vle_pattern_def
        gql_node_ref_from_def split_def comp_def)
  show "resolve_subgraph db graph i depth =
      Inr \<lparr>gs_center = \<lparr>gn_id = i, gn_label = ''Unknown''\<rparr>,
           gs_nodes = map (\<lambda>(i, l). \<lparr>gn_id = agtype_text i, gn_label = l\<rparr>) ils\<rparr>"
    using rows subgraph_refs [OF assms(4), of db]
    by (simp add: resolve_subgraph_def client_subgraph_def subgraph_def gql_subgraph_from_def
        gql_node_ref_from_def split_def comp_def)
qed

definition sample_db :: pg where
  "sample_db = \<lparr>pool_get = Inr (), pg_batch = \<lambda>_. Inr (),
     pg_query = \<lambda>_. Inr (map agtype_row [(''arn:b'', ''Bucket'')]), column_error = \<lambda>_. []\<rparr>"

theorem subgraph_ids_keep_quotes_witness:
  "resolve_subgraph sample_db ''g'' ''arn:a'' 1 =
     Inr \<lparr>gs_center = \<lparr>gn_id = ''arn:a'', gn_label = ''Unknown''\<rparr>,
          gs_nodes = [\<lparr>gn_id = agtype_text ''arn:b'', gn_label = ''Bucket''\<rparr>]\<rparr>"
proof -
  have "list_all plain_ref [(''arn:b'', ''Bucket'')]"
    by (simp add: plain_ref_def double_quote_def validate_label_def label_char_ok_def
        is_ascii_alphanumeric_def is_ascii_alphabetic_def)
  then show ?thesis
    using subgraph_ids_keep_quotes [of sample_db "[(''arn:b'', ''Bucket'')]" 1 "''g''" "''arn:a''"]
    by (simp add: sample_db_def)
qed

text \<open>C40: only two of the traversal resolvers bound their argument. The limit of a walk and the depth of a blast
  radius are accepted exactly from 0 to 10 and sent as they are; the hop counts of a path search and of a
  subgraph are cut to a byte, so 257 asks for one hop and minus one for 255. And whatever the database
  answers, a path search returns no path.\<close>

theorem unchecked_hops_wrap:
  "(if 0 \<le> sint n \<and> sint n \<le> 10
    then uint (ucast n :: 8 word) = sint n \<and>
      resolve_blast_radius db graph i n =
        map_sum map_graph_error (map gql_node_ref_from) (client_blast_radius db graph i [] (ucast n))
    else resolve_blast_radius db graph i n = Inl (gql_error_new ''Depth must be 0-10'') \<and>
      (length ts \<le> 10 \<longleftrightarrow> resolve_walk_edges db graph i ts d n = Inl (gql_error_new ''Limit must be 0-10''))) \<and>
   resolve_subgraph db graph i (n + 256) = resolve_subgraph db graph i n \<and>
   resolve_path_finder db graph i j ts (n + 256) = resolve_path_finder db graph i j ts n \<and>
   resolve_path_finder db graph i j ts n \<in> {Inr []} \<union> range Inl"
proof (intro conjI)
  have cut: "(ucast (n + 256) :: 8 word) = ucast n"
  proof (rule word_uint_eqI)
    show "uint (ucast (n + 256) :: 8 word) = uint (ucast n :: 8 word)"
      by (simp add: unsigned_ucast_eq uint_word_ariths take_bit_eq_mod mod_mod_cancel)
  qed
  show "resolve_subgraph db graph i (n + 256) = resolve_subgraph db graph i n"
    by (simp add: resolve_subgraph_def cut)
  show "resolve_path_finder db graph i j ts (n + 256) = resolve_path_finder db graph i j ts n"
    by (simp add: resolve_path_finder_def cut)
  show "resolve_path_finder db graph i j ts n \<in> {Inr []} \<union> range Inl"
    by (auto simp: resolve_path_finder_def client_path_finder_def res_bind_def map_err_def split: sum.splits)
  have ten: "show_int 10 = ''10''" by code_simp
  show "if 0 \<le> sint n \<and> sint n \<le> 10
    then uint (ucast n :: 8 word) = sint n \<and>
      resolve_blast_radius db graph i n =
        map_sum map_graph_error (map gql_node_ref_from) (client_blast_radius db graph i [] (ucast n))
    else resolve_blast_radius db graph i n = Inl (gql_error_new ''Depth must be 0-10'') \<and>
      (length ts \<le> 10 \<longleftrightarrow> resolve_walk_edges db graph i ts d n = Inl (gql_error_new ''Limit must be 0-10''))"
    by (auto simp: small_ucast resolve_blast_radius_def resolve_walk_edges_def MAX_DEPTH_def MAX_WALK_RESULTS_def
        MAX_EDGE_TYPES_def ten gql_error_new_def res_bind_def map_err_def split: sum.splits)
qed

end
