(* ===== verification/Gql_Policy_Risks.thy ===== *)
theory Gql_Policy_Risks
  imports Gql_Types Resource_Policy "HOL-Library.AList"
begin

section \<open>The resolvers for policy risks\<close>

text \<open>
  \<open>resolvers/policy_helpers.rs\<close>, \<open>resource_policy_risks.rs\<close>, \<open>key_management_risks.rs\<close> and \<open>federation_risks.rs\<close>
  of \<open>activable-graphql\<close>: the risk of a bucket or key policy, of the grants on a key, and of the OIDC providers of
  an account. The parser and printer of JSON are the parameters \<open>pj\<close> and \<open>print\<close>; \<open>iter\<close> is the order in which a
  hash map is traversed. Counts are 32-bit words; scores are exact reals.
\<close>

subsection \<open>Shared helpers\<close>

definition policy_value_to_json :: "(json \<Rightarrow> string) \<Rightarrow> json \<Rightarrow> string option" where
  "policy_value_to_json print v =
     (case v of
        JString s \<Rightarrow> Some s
      | JObject kvs \<Rightarrow> Some (print v)
      | JArray xs \<Rightarrow> Some (print v)
      | _ \<Rightarrow> None)"

definition extract_account_id_from_arn :: "string \<Rightarrow> string option" where
  "extract_account_id_from_arn principal_arn =
     (let parts = split_on CHR '':'' principal_arn in
      if 5 \<le> length parts then
        let account = parts ! 4 in
        if account \<noteq> [] \<and> account \<noteq> ''*'' \<and> length account = 12 then Some account else None
      else None)"

text \<open>A line of a query text begins with a line feed and eleven spaces.\<close>

definition query_line :: "string \<Rightarrow> string" where
  "query_line s = CHR 0x0A # replicate 11 CHR '' '' @ s"

text \<open>The strings of an array column.\<close>

definition string_items :: "json \<Rightarrow> string list" where
  "string_items v = (case as_array v of Some arr \<Rightarrow> List.map_filter as_str arr | None \<Rightarrow> [])"

subsection \<open>Statements of a resource policy\<close>

record gql_resource_policy_statement =
  rs_effect :: string
  rs_principal :: string
  rs_condition_keys :: "string list"
  rs_trust_boundary :: bool

record gql_cross_account_access =
  ca_destination_account_id :: string
  ca_principal_count :: "32 word"
  ca_severity :: gql_severity

record gql_resource_policy_risks =
  rr_resource_arn :: string
  rr_resource_type :: string
  rr_policy :: "gql_resource_policy_statement list"
  rr_cross_account_access :: "gql_cross_account_access list"
  rr_risk_score :: real
  rr_severity :: gql_severity
  rr_evaluator_version :: string

definition evaluate_trust_boundary :: "string \<Rightarrow> string list \<Rightarrow> bool" where
  "evaluate_trust_boundary prin condition_keys =
     (if condition_keys \<noteq> [] then False
      else if CHR ''*'' \<in> set prin \<or> prin = ''*'' then False
      else
        let parts = split_on CHR '':'' prin in
        if length parts < 6 then False
        else
          let acct = parts ! 4; resource_part = parts ! 5 in
          length acct = 12 \<and> list_all is_ascii_digit acct \<and> starts_with resource_part ''role/'')"

text \<open>The principal of a statement: a string, or the string under \<open>AWS\<close>; anything else, and no principal at all,
  is the star.\<close>

definition principal_text :: "json \<Rightarrow> string" where
  "principal_text stmt =
     unwrap_or ''*'' (Option.bind (value_get stmt ''Principal'') (\<lambda>v.
       case v of
         JString s \<Rightarrow> Some s
       | JObject obj \<Rightarrow> Option.bind (obj_get obj ''AWS'') as_str
       | _ \<Rightarrow> None))"

definition inner_condition_keys :: "json \<Rightarrow> string list" where
  "inner_condition_keys stmt =
     (case Option.bind (value_get stmt ''Condition'') as_object of
        Some condition_obj \<Rightarrow> concat (map (map fst) (List.map_filter as_object (map snd condition_obj)))
      | None \<Rightarrow> [])"

definition parse_resource_statement :: "json \<Rightarrow> gql_resource_policy_statement option" where
  "parse_resource_statement stmt =
     (case Option.bind (value_get stmt ''Effect'') as_str of
        None \<Rightarrow> None
      | Some eff \<Rightarrow>
          let prin = principal_text stmt; keys = inner_condition_keys stmt in
          Some \<lparr>rs_effect = eff, rs_principal = prin, rs_condition_keys = keys,
                rs_trust_boundary = evaluate_trust_boundary prin keys\<rparr>)"

definition statement_items :: "json \<Rightarrow> json list" where
  "statement_items v = (case Option.bind (value_get v ''Statement'') as_array of Some arr \<Rightarrow> arr | None \<Rightarrow> [])"

definition parse_resource_policy_gql ::
  "json_parser \<Rightarrow> string \<Rightarrow> gql_error + gql_resource_policy_statement list" where
  "parse_resource_policy_gql pj policy_json =
     res_bind (map_err (\<lambda>_. gql_error_new ''Invalid policy JSON'') (pj policy_json)) (\<lambda>parsed.
     Inr (List.map_filter parse_resource_statement (statement_items parsed)))"

subsection \<open>Cross-account access\<close>

definition extract_account_from_principal :: "string \<Rightarrow> string option" where
  "extract_account_from_principal prin =
     (let parts = split_on CHR '':'' prin in
      if 5 \<le> length parts then
        let account = parts ! 4 in if account \<noteq> [] \<and> account \<noteq> ''*'' then Some account else None
      else None)"

type_synonym account_map = "(string \<times> 32 word \<times> gql_severity) list"

definition count_statement :: "gql_resource_policy_statement \<Rightarrow> account_map \<Rightarrow> account_map" where
  "count_statement stmt m =
     (if rs_effect stmt = ''Allow'' then
        case extract_account_from_principal (rs_principal stmt) of
          None \<Rightarrow> m
        | Some acct \<Rightarrow>
            let sev = (if CHR ''*'' \<in> set (rs_principal stmt) then GqlHigh else GqlMedium) in
            AList.update acct
              (case map_of m acct of
                 Some (n, s) \<Rightarrow> (n + 1, if sev = GqlHigh then GqlHigh else s)
               | None \<Rightarrow> (1, sev)) m
      else m)"

definition count_consumer :: "string \<Rightarrow> account_map \<Rightarrow> account_map" where
  "count_consumer acct m =
     AList.update acct
       (case map_of m acct of Some (n, s) \<Rightarrow> (n + 1, s) | None \<Rightarrow> (1, GqlMedium)) m"

definition account_counts :: "gql_resource_policy_statement list \<Rightarrow> string list \<Rightarrow> account_map" where
  "account_counts stmts consuming_accounts = fold count_consumer consuming_accounts (fold count_statement stmts [])"

definition extract_cross_account_access ::
  "(account_map \<Rightarrow> account_map) \<Rightarrow> gql_resource_policy_statement list \<Rightarrow> string list
     \<Rightarrow> gql_cross_account_access list" where
  "extract_cross_account_access iter stmts consuming_accounts =
     map (\<lambda>(acct, n, sev).
       \<lparr>ca_destination_account_id = acct, ca_principal_count = n, ca_severity = sev\<rparr>)
       (iter (account_counts stmts consuming_accounts))"

subsection \<open>The score\<close>

definition compute_resource_policy_score :: "gql_resource_policy_statement list \<Rightarrow> bool \<Rightarrow> real" where
  "compute_resource_policy_score stmts has_cross_account =
     (let wildcard_count = length (filter (\<lambda>s. CHR ''*'' \<in> set (rs_principal s) \<or> rs_principal s = ''*'') stmts);
          boundary_violations = length (filter (\<lambda>s. rs_effect s = ''Allow'' \<and> \<not> rs_trust_boundary s) stmts);
          base_score =
            (case (0 < wildcard_count, 0 < boundary_violations, has_cross_account) of
               (True, _, _) \<Rightarrow> 85 / 100
             | (False, True, True) \<Rightarrow> 70 / 100
             | (False, True, False) \<Rightarrow> 45 / 100
             | (False, False, _) \<Rightarrow> 20 / 100)
      in clamp base_score 0 1)"

definition score_to_severity :: "real \<Rightarrow> gql_severity" where
  "score_to_severity s =
     (if 80 / 100 \<le> s then GqlCritical
      else if 60 / 100 \<le> s then GqlHigh
      else if 40 / 100 \<le> s then GqlMedium
      else if 20 / 100 \<le> s then GqlLow
      else GqlInfo)"

definition build_resource_policy_risks ::
  "json_parser \<Rightarrow> (account_map \<Rightarrow> account_map) \<Rightarrow> string \<Rightarrow> string \<Rightarrow> string option \<Rightarrow> string list
     \<Rightarrow> gql_error + gql_resource_policy_risks option" where
  "build_resource_policy_risks pj iter resource_arn resource_type policy_doc consuming_accounts =
     res_bind
       (case policy_doc of
          Some doc \<Rightarrow> res_bind (parse_resource_policy_gql pj doc) (\<lambda>parsed_stmts.
            Inr (parsed_stmts, extract_cross_account_access iter parsed_stmts consuming_accounts))
        | None \<Rightarrow> Inr ([], []))
       (\<lambda>(stmts, cross_account).
          let risk_score = compute_resource_policy_score stmts (cross_account \<noteq> []) in
          Inr (Some \<lparr>rr_resource_arn = resource_arn, rr_resource_type = resource_type, rr_policy = stmts,
                     rr_cross_account_access = cross_account, rr_risk_score = risk_score,
                     rr_severity = score_to_severity risk_score, rr_evaluator_version = ''v1''\<rparr>))"

subsection \<open>Buckets and keys\<close>

definition bucket_policy_cypher :: "string \<Rightarrow> string" where
  "bucket_policy_cypher bucket_name =
     ''MATCH (b:Bucket)'' @
     query_line (''WHERE b.name = '' @ quoted (escape_cypher bucket_name)) @
     query_line ''OPTIONAL MATCH (b)-[:HasBucketPolicy]->(p:Policy)'' @
     query_line ''OPTIONAL MATCH (b)-[:AllowsAccessFrom]->(consumer:Principal)'' @
     query_line ''RETURN b.id, p.document, collect(DISTINCT consumer.id)''"

definition key_policy_cypher :: "string \<Rightarrow> string" where
  "key_policy_cypher key_id =
     ''MATCH (k:KmsKey)'' @
     query_line (''WHERE k.id = '' @ quoted (escape_cypher key_id) @ '' OR k.key_id = '' @ quoted (escape_cypher key_id)) @
     query_line ''OPTIONAL MATCH (k)-[:HasKeyPolicy]->(p:Policy)'' @
     query_line ''OPTIONAL MATCH (k)-[:AllowsAccessFrom]->(user:Principal)'' @
     query_line ''RETURN k.id, p.document, collect(DISTINCT user.id)''"

text \<open>What the two queries do with their answer: the first row is read, the arn falls back to one built from the
  argument.\<close>

definition analyse_policy_rows ::
  "json_parser \<Rightarrow> (json \<Rightarrow> string) \<Rightarrow> (account_map \<Rightarrow> account_map) \<Rightarrow> string \<Rightarrow> string \<Rightarrow> json list list
     \<Rightarrow> gql_error + gql_resource_policy_risks option" where
  "analyse_policy_rows pj print iter default_arn resource_type rows =
     (case rows of
        [] \<Rightarrow> Inr None
      | first # _ \<Rightarrow>
          if length first < 3 then Inl (gql_error_new ''Invalid query result structure'')
          else build_resource_policy_risks pj iter (unwrap_or default_arn (as_str (first ! 0))) resource_type
            (policy_value_to_json print (first ! 1))
            (List.map_filter extract_account_id_from_arn (string_items (first ! 2))))"

definition query_bucket_policy ::
  "json_parser \<Rightarrow> (json \<Rightarrow> string) \<Rightarrow> (account_map \<Rightarrow> account_map) \<Rightarrow> pg \<Rightarrow> string \<Rightarrow> string
     \<Rightarrow> gql_error + gql_resource_policy_risks option" where
  "query_bucket_policy pj print iter db graph bucket_name =
     res_bind (map_err (\<lambda>_. gql_error_new ''Failed to query bucket policy'')
         (client_cypher_multi_column pj db graph (bucket_policy_cypher bucket_name) 3))
       (analyse_policy_rows pj print iter (''arn:aws:s3:::'' @ bucket_name) ''bucket'')"

definition query_key_policy ::
  "json_parser \<Rightarrow> (json \<Rightarrow> string) \<Rightarrow> (account_map \<Rightarrow> account_map) \<Rightarrow> pg \<Rightarrow> string \<Rightarrow> string
     \<Rightarrow> gql_error + gql_resource_policy_risks option" where
  "query_key_policy pj print iter db graph key_id =
     res_bind (map_err (\<lambda>_. gql_error_new ''Failed to query key policy'')
         (client_cypher_multi_column pj db graph (key_policy_cypher key_id) 3))
       (analyse_policy_rows pj print iter (''arn:aws:kms:us-east-1:000000000000:key/'' @ key_id) ''kmsKey'')"

definition resource_policy_risks ::
  "json_parser \<Rightarrow> (json \<Rightarrow> string) \<Rightarrow> (account_map \<Rightarrow> account_map) \<Rightarrow> pg \<Rightarrow> string \<Rightarrow> string option \<Rightarrow> string option
     \<Rightarrow> gql_error + gql_resource_policy_risks option" where
  "resource_policy_risks pj print iter db graph bucket_name key_id =
     (case (bucket_name, key_id) of
        (Some bucket, None) \<Rightarrow> query_bucket_policy pj print iter db graph bucket
      | (None, Some key) \<Rightarrow> query_key_policy pj print iter db graph key
      | (None, None) \<Rightarrow> Inl (gql_error_new ''Either bucketName or keyId must be provided'')
      | (Some _, Some _) \<Rightarrow> Inl (gql_error_new ''Provide only one of bucketName or keyId''))"

subsection \<open>Grants on a key\<close>

record gql_key_policy_statement =
  ks_effect :: string
  ks_principals :: "string list"
  ks_actions :: "string list"
  ks_condition_keys :: "string list"

record gql_key_policy =
  kp_statements :: "gql_key_policy_statement list"
  kp_policy_arn :: "string option"

record gql_create_grant_risk =
  cg_grantable :: bool
  cg_granting_principals :: "string list"
  cg_severity :: gql_severity
  cg_wildcard_principal :: bool

record gql_key_management_risks =
  km_key_arn :: string
  km_key_policy :: gql_key_policy
  km_create_grant_risk :: gql_create_grant_risk
  km_risk_score :: real
  km_severity :: gql_severity

text \<open>\<open>rsplit(c).next()\<close> is the last part, which is always there.\<close>

definition normalize_key_id :: "string \<Rightarrow> gql_error + string \<times> string" where
  "normalize_key_id key_id =
     (if starts_with key_id ''arn:aws:kms:'' then Inr (key_id, last (split_on CHR ''/'' key_id))
      else Inr (''arn:aws:kms:us-east-1:000000000000:key/'' @ key_id, key_id))"

text \<open>A string, or the strings of an array; an object has none.\<close>

definition strings_field_gql :: "json \<Rightarrow> string \<Rightarrow> string list" where
  "strings_field_gql stmt k =
     unwrap_or [] (Option.bind (value_get stmt k) (\<lambda>v.
       case v of
         JString s \<Rightarrow> Some [s]
       | JArray arr \<Rightarrow> Some (List.map_filter as_str arr)
       | _ \<Rightarrow> None))"

definition parse_policy_statement :: "json \<Rightarrow> gql_key_policy_statement option" where
  "parse_policy_statement stmt =
     (case Option.bind (value_get stmt ''Effect'') as_str of
        None \<Rightarrow> None
      | Some eff \<Rightarrow> Some
          \<lparr>ks_effect = eff, ks_principals = strings_field_gql stmt ''Principal'',
           ks_actions = strings_field_gql stmt ''Action'',
           ks_condition_keys =
             (case Option.bind (value_get stmt ''Condition'') as_object of Some obj \<Rightarrow> map fst obj | None \<Rightarrow> [])\<rparr>)"

definition parse_key_policy :: "json_parser \<Rightarrow> string \<Rightarrow> gql_error + gql_key_policy" where
  "parse_key_policy pj policy_json =
     res_bind (map_err (\<lambda>_. gql_error_new ''Invalid policy JSON'') (pj policy_json)) (\<lambda>parsed.
     Inr \<lparr>kp_statements = List.map_filter parse_policy_statement (statement_items parsed),
          kp_policy_arn = Option.bind (value_get parsed ''PolicyArn'') as_str\<rparr>)"

definition compute_grant_severity :: "bool \<Rightarrow> bool \<Rightarrow> bool \<Rightarrow> gql_severity" where
  "compute_grant_severity grantable wildcard across =
     (if \<not> grantable then GqlLow else if wildcard \<or> across then GqlHigh else GqlMedium)"

definition compute_key_risk_score :: "bool \<Rightarrow> bool \<Rightarrow> bool \<Rightarrow> real" where
  "compute_key_risk_score grantable wildcard across =
     (case (grantable, wildcard, across) of
        (False, _, _) \<Rightarrow> 0
      | (True, True, _) \<Rightarrow> 90 / 100
      | (True, False, True) \<Rightarrow> 80 / 100
      | (True, False, False) \<Rightarrow> 55 / 100)"

definition extract_key_account :: "string \<Rightarrow> string" where
  "extract_key_account key_arn =
     (let parts = split_on CHR '':'' key_arn in if 5 \<le> length parts then parts ! 4 else ''000000000000'')"

definition key_cypher :: "string \<Rightarrow> string \<Rightarrow> string" where
  "key_cypher key_arn key_uuid =
     ''MATCH (k:KmsKey)'' @
     query_line (''WHERE k.id = '' @ quoted (escape_cypher key_arn) @ '' OR k.key_id = '' @ quoted (escape_cypher key_uuid)) @
     query_line ''OPTIONAL MATCH (k)-[:HasKeyPolicy]->(p:Policy)'' @
     query_line ''OPTIONAL MATCH (granter:Principal)-[:KmsGrantable]->(k)'' @
     query_line ''RETURN k.id, p.document, collect(DISTINCT granter.id)''"

definition is_foreign :: "string \<Rightarrow> string \<Rightarrow> bool" where
  "is_foreign key_account p = (case extract_account_id_from_arn p of Some acct \<Rightarrow> acct \<noteq> key_account | None \<Rightarrow> False)"

definition analyse_key_rows ::
  "json_parser \<Rightarrow> (json \<Rightarrow> string) \<Rightarrow> string \<Rightarrow> json list list \<Rightarrow> gql_error + gql_key_management_risks" where
  "analyse_key_rows pj print key_arn rows =
     (case rows of
        [] \<Rightarrow> Inl (gql_error_new ''KMS key not found'')
      | first # _ \<Rightarrow>
          if length first < 3 then Inl (gql_error_new ''Invalid query result structure'')
          else
            let key_arn_val = unwrap_or key_arn (as_str (first ! 0));
                grantable_principals = string_items (first ! 2) in
            res_bind
              (case policy_value_to_json print (first ! 1) of
                 Some doc \<Rightarrow> parse_key_policy pj doc
               | None \<Rightarrow> Inr \<lparr>kp_statements = [], kp_policy_arn = None\<rparr>)
              (\<lambda>key_policy.
                 let grantable = (grantable_principals \<noteq> []);
                     wildcard = list_ex (\<lambda>p. CHR ''*'' \<in> set p \<or> p = ''*'') grantable_principals;
                     across = (grantable \<and> list_ex (is_foreign (extract_key_account key_arn_val)) grantable_principals);
                     sev = compute_grant_severity grantable wildcard across in
                 Inr \<lparr>km_key_arn = key_arn_val, km_key_policy = key_policy,
                      km_create_grant_risk =
                        \<lparr>cg_grantable = grantable, cg_granting_principals = grantable_principals,
                         cg_severity = sev, cg_wildcard_principal = wildcard\<rparr>,
                      km_risk_score = compute_key_risk_score grantable wildcard across, km_severity = sev\<rparr>))"

definition key_management_risks ::
  "json_parser \<Rightarrow> (json \<Rightarrow> string) \<Rightarrow> pg \<Rightarrow> string \<Rightarrow> string \<Rightarrow> gql_error + gql_key_management_risks" where
  "key_management_risks pj print db graph key_id =
     res_bind (normalize_key_id key_id) (\<lambda>(key_arn, key_uuid).
     res_bind (map_err (\<lambda>_. gql_error_new ''Failed to query KMS key'')
         (client_cypher_multi_column pj db graph (key_cypher key_arn key_uuid) 3))
       (analyse_key_rows pj print key_arn))"

subsection \<open>Federation\<close>

record gql_trust_policy_version =
  tv_version :: string
  tv_created_at :: string
  tv_condition :: "string option"

record gql_drift_analysis =
  dr_direction :: string
  dr_severity :: gql_severity
  dr_removed_condition_keys :: "string list"

record gql_oidc_provider =
  op_provider :: string
  op_trust_policy_versions :: "gql_trust_policy_version list"
  op_drift :: "gql_drift_analysis option"

record gql_federation_risks =
  fr_account_id :: string
  fr_oidc_providers :: "gql_oidc_provider list"
  fr_risk_score :: real
  fr_severity :: gql_severity
  fr_notice :: "string option"
  fr_trust_boundary :: bool

definition evaluate_oidc_weakness :: "string \<Rightarrow> string \<Rightarrow> bool" where
  "evaluate_oidc_weakness aud sub \<longleftrightarrow> aud = [] \<or> CHR ''*'' \<in> set aud \<or> sub = [] \<or> CHR ''*'' \<in> set sub"

definition NO_OIDC_NOTICE :: string where
  "NO_OIDC_NOTICE = ''No OIDC providers configured for this account.''"

definition oidc_cypher :: "string \<Rightarrow> string" where
  "oidc_cypher acct =
     ''MATCH (a:Account '' @ id_map acct @ '')-[:HasOidcProvider]->(p:OidcProvider)'' @
     query_line ''RETURN p.id, p.provider_name, p.aud, p.sub''"

text \<open>A row is a provider and whether its conditions are weak; short rows are skipped.\<close>

definition oidc_row :: "json list \<Rightarrow> (gql_oidc_provider \<times> bool) option" where
  "oidc_row row =
     (if length row < 4 then None
      else Some (\<lparr>op_provider = unwrap_or ''unknown'' (as_str (row ! 1)), op_trust_policy_versions = [],
                  op_drift = None\<rparr>,
        evaluate_oidc_weakness (unwrap_or [] (as_str (row ! 2))) (unwrap_or [] (as_str (row ! 3)))))"

definition federation_summary :: "string \<Rightarrow> json list list \<Rightarrow> gql_federation_risks" where
  "federation_summary acct rows =
     (let providers = List.map_filter oidc_row rows;
          has_weak_provider = list_ex snd providers;
          risk_score = (if has_weak_provider then 85 / 100 else 1 / 10) in
      \<lparr>fr_account_id = acct, fr_oidc_providers = map fst providers, fr_risk_score = risk_score,
       fr_severity = score_to_severity risk_score,
       fr_notice = (if providers = [] then Some NO_OIDC_NOTICE else None),
       fr_trust_boundary = (\<not> has_weak_provider \<and> providers \<noteq> [])\<rparr>)"

definition federation_risks :: "json_parser \<Rightarrow> pg \<Rightarrow> string \<Rightarrow> string \<Rightarrow> gql_error + gql_federation_risks" where
  "federation_risks pj db graph acct =
     (let checked = (case client_cypher_multi_column pj db graph ''MATCH (p:OidcProvider) RETURN count(p) as cnt LIMIT 1'' 1 of
          Inr rows \<Rightarrow> rows | Inl e \<Rightarrow> []) in
      if checked = [] then
        Inr \<lparr>fr_account_id = acct, fr_oidc_providers = [], fr_risk_score = 0, fr_severity = GqlInfo,
             fr_notice = Some NO_OIDC_NOTICE, fr_trust_boundary = False\<rparr>
      else
        res_bind (map_err (\<lambda>_. gql_error_new ''Failed to query OIDC providers'')
            (client_cypher_multi_column pj db graph (oidc_cypher acct) 4)) (\<lambda>rows.
        Inr (federation_summary acct rows)))"

subsection \<open>Lemmas\<close>

lemma map_filter_exists: "x \<in> set (List.map_filter f xs) \<longleftrightarrow> (\<exists>y\<in>set xs. f y = Some x)"
  by (induction xs) (auto simp: List.map_filter_simps split: option.splits)

text \<open>A statement names an account when it is an Allow whose principal holds it.\<close>

definition names_account :: "string \<Rightarrow> gql_resource_policy_statement \<Rightarrow> bool" where
  "names_account acct s \<longleftrightarrow> rs_effect s = ''Allow'' \<and> extract_account_from_principal (rs_principal s) = Some acct"

definition account_entry ::
  "gql_resource_policy_statement list \<Rightarrow> string list \<Rightarrow> string \<Rightarrow> (32 word \<times> gql_severity) option" where
  "account_entry stmts consumers acct =
     (let naming = filter (names_account acct) stmts; uses = filter (\<lambda>a. a = acct) consumers in
      if naming = [] \<and> uses = [] then None
      else Some (of_nat (length naming + length uses),
        if list_ex (\<lambda>s. CHR ''*'' \<in> set (rs_principal s)) naming then GqlHigh else GqlMedium))"

lemma map_of_count_statement:
  "map_of (count_statement s m) acct =
     (if names_account acct s then
        (let high = CHR ''*'' \<in> set (rs_principal s) in
         case map_of m acct of
           Some (n, sev) \<Rightarrow> Some (n + 1, if high then GqlHigh else sev)
         | None \<Rightarrow> Some (1, if high then GqlHigh else GqlMedium))
      else map_of m acct)"
  by (auto simp: count_statement_def names_account_def update_conv' Let_def split: option.splits)

lemma map_of_count_statements:
  "map_of (fold count_statement stmts []) acct = account_entry stmts [] acct"
proof (induction stmts rule: rev_induct)
  case Nil
  then show ?case by (simp add: account_entry_def)
next
  case (snoc s stmts)
  then show ?case
    by (auto simp: map_of_count_statement account_entry_def Let_def split: option.splits)
qed

lemma map_of_account_counts: "map_of (account_counts stmts consumers) acct = account_entry stmts consumers acct"
proof (induction consumers rule: rev_induct)
  case Nil
  then show ?case by (simp add: account_counts_def map_of_count_statements)
next
  case (snoc a consumers)
  have "map_of (account_counts stmts (consumers @ [a])) acct =
      (if a = acct then
         (case account_entry stmts consumers acct of
            Some (n, sev) \<Rightarrow> Some (n + 1, sev) | None \<Rightarrow> Some (1, GqlMedium))
       else account_entry stmts consumers acct)"
    using snoc by (simp add: account_counts_def count_consumer_def update_conv' split: option.split)
  also have "\<dots> = account_entry stmts (consumers @ [a]) acct"
    by (auto simp: account_entry_def Let_def)
  finally show ?case .
qed

lemma distinct_account_counts: "distinct (map fst (account_counts stmts consumers))"
proof -
  have "distinct (map fst (fold count_statement stmts m))" if "distinct (map fst m)" for m
    using that by (induction stmts arbitrary: m) (auto simp: count_statement_def distinct_update split: option.splits)
  moreover have "distinct (map fst (fold count_consumer consumers m))" if "distinct (map fst m)" for m
    using that by (induction consumers arbitrary: m) (auto simp: count_consumer_def distinct_update)
  ultimately show ?thesis by (simp add: account_counts_def)
qed

lemma compute_resource_policy_score_eq:
  "compute_resource_policy_score stmts across =
     (if list_ex (\<lambda>s. CHR ''*'' \<in> set (rs_principal s)) stmts then 85 / 100
      else if list_ex (\<lambda>s. rs_effect s = ''Allow'' \<and> \<not> rs_trust_boundary s) stmts
      then (if across then 70 / 100 else 45 / 100)
      else 20 / 100)"
proof -
  have star: "CHR ''*'' \<in> set p \<or> p = ''*'' \<longleftrightarrow> CHR ''*'' \<in> set p" for p :: string by auto
  have w: "(0 < length (filter (\<lambda>s. CHR ''*'' \<in> set (rs_principal s) \<or> rs_principal s = ''*'') stmts)) =
      list_ex (\<lambda>s. CHR ''*'' \<in> set (rs_principal s)) stmts"
    unfolding star by (auto simp: filter_empty_conv list_ex_iff)
  have b: "(0 < length (filter (\<lambda>s. rs_effect s = ''Allow'' \<and> \<not> rs_trust_boundary s) stmts)) =
      list_ex (\<lambda>s. rs_effect s = ''Allow'' \<and> \<not> rs_trust_boundary s) stmts"
    by (auto simp: filter_empty_conv list_ex_iff)
  show ?thesis unfolding compute_resource_policy_score_def Let_def w b by (simp add: clamp_def)
qed

text \<open>A statement that counts as a wildcard: no principal, one that is neither a string nor an object with a string
  under \<open>AWS\<close>, or a string with a star.\<close>

definition reads_as_wildcard :: "json \<Rightarrow> bool" where
  "reads_as_wildcard stmt \<longleftrightarrow>
     (case value_get stmt ''Principal'' of
        Some (JString s) \<Rightarrow> CHR ''*'' \<in> set s
      | Some (JObject obj) \<Rightarrow>
          (case obj_get obj ''AWS'' of Some (JString s) \<Rightarrow> CHR ''*'' \<in> set s | _ \<Rightarrow> True)
      | _ \<Rightarrow> True)"

lemma wildcard_principal_text: "CHR ''*'' \<in> set (principal_text stmt) \<longleftrightarrow> reads_as_wildcard stmt"
proof (cases "value_get stmt ''Principal''")
  case (Some v)
  have "CHR ''*'' \<in> set (unwrap_or ''*'' (as_str w)) \<longleftrightarrow> (case w of JString s \<Rightarrow> CHR ''*'' \<in> set s | _ \<Rightarrow> True)" for w
    by (cases w) (simp_all add: unwrap_or_def)
  then show ?thesis
    using Some
    by (cases v) (auto simp: principal_text_def reads_as_wildcard_def unwrap_or_def split: option.splits)
qed (simp add: principal_text_def reads_as_wildcard_def unwrap_or_def)

lemma parse_resource_statement_Some_iff:
  "parse_resource_statement stmt = Some s \<longleftrightarrow>
     (\<exists>eff. value_get stmt ''Effect'' = Some (JString eff) \<and>
       s = \<lparr>rs_effect = eff, rs_principal = principal_text stmt, rs_condition_keys = inner_condition_keys stmt,
            rs_trust_boundary = evaluate_trust_boundary (principal_text stmt) (inner_condition_keys stmt)\<rparr>)"
  by (auto simp: parse_resource_statement_def Let_def bind_eq_Some_conv json_iffs split: option.splits)

subsection \<open>Properties\<close>

definition has_effect :: "json \<Rightarrow> bool" where
  "has_effect st = (case value_get st ''Effect'' of Some (JString _) \<Rightarrow> True | _ \<Rightarrow> False)"

lemma has_effect_iff: "has_effect st \<longleftrightarrow> (\<exists>eff. value_get st ''Effect'' = Some (JString eff))"
  by (auto simp: has_effect_def split: option.splits json.splits)

lemma parsed_statement_wildcards:
  "list_ex (\<lambda>s. CHR ''*'' \<in> set (rs_principal s)) (List.map_filter parse_resource_statement sts) \<longleftrightarrow>
     list_ex reads_as_wildcard (filter has_effect sts)"
proof -
  have "list_ex (\<lambda>s. CHR ''*'' \<in> set (rs_principal s)) (List.map_filter parse_resource_statement sts) \<longleftrightarrow>
      (\<exists>st\<in>set sts. has_effect st \<and> CHR ''*'' \<in> set (principal_text st))"
    unfolding list_ex_iff Bex_def map_filter_exists parse_resource_statement_Some_iff has_effect_iff by fastforce
  then show ?thesis by (auto simp: wildcard_principal_text list_ex_iff)
qed

lemma parsed_statement_violations:
  "list_ex (\<lambda>s. rs_effect s = ''Allow'' \<and> \<not> rs_trust_boundary s) (List.map_filter parse_resource_statement sts) \<longleftrightarrow>
     list_ex (\<lambda>st. value_get st ''Effect'' = Some (JString ''Allow'') \<and>
       \<not> evaluate_trust_boundary (principal_text st) (inner_condition_keys st)) sts"
  unfolding list_ex_iff Bex_def map_filter_exists parse_resource_statement_Some_iff by fastforce


definition one_statement :: "json \<Rightarrow> json" where
  "one_statement prin = JObject [(''Statement'', JArray [JObject
     [(''Effect'', JString ''Allow''), (''Principal'', JObject [(''AWS'', prin)])]])]"

text \<open>A policy that grants to one role, written as a string and as an array of one string.\<close>

definition sample_policies :: "string \<Rightarrow> string + json" where
  "sample_policies tx =
     (if tx = ''string'' then Inr (one_statement (JString ''arn:aws:iam::123456789012:role/r''))
      else Inr (one_statement (JArray [JString ''arn:aws:iam::123456789012:role/r''])))"


text \<open>C38: the accounts a resource policy is shared with. Whatever order the hash map is traversed in, every account
  is listed once, exactly if an Allow statement's principal names it or a consumer is of it; its count is the
  number of both, modulo the width, and it is high exactly when a naming principal holds a star. The owner of the
  resource is not looked at: its own account is listed like any other.\<close>

theorem cross_account_access_exact:
  assumes "\<And>m. mset (iter m) = mset m"
  shows "distinct (map ca_destination_account_id (extract_cross_account_access iter stmts consumers)) \<and>
    set (extract_cross_account_access iter stmts consumers) =
      {a. account_entry stmts consumers (ca_destination_account_id a) = Some (ca_principal_count a, ca_severity a)}"
proof
  let ?m = "account_counts stmts consumers"
  have "mset (map fst (iter ?m)) = mset (map fst ?m)" using assms by simp
  then have m: "set (iter ?m) = set ?m" "distinct (map fst (iter ?m))"
    using mset_eq_setD [OF assms [of ?m]] mset_eq_imp_distinct_iff distinct_account_counts [of stmts consumers]
    by blast+
  show "distinct (map ca_destination_account_id (extract_cross_account_access iter stmts consumers))"
    using m(2) by (simp add: extract_cross_account_access_def split_def comp_def)
  have "a \<in> set (extract_cross_account_access iter stmts consumers) \<longleftrightarrow>
      (ca_destination_account_id a, ca_principal_count a, ca_severity a) \<in> set ?m"
    for a :: gql_cross_account_access
    by (cases a) (force simp: extract_cross_account_access_def m(1))
  then show "set (extract_cross_account_access iter stmts consumers) =
      {a. account_entry stmts consumers (ca_destination_account_id a) = Some (ca_principal_count a, ca_severity a)}"
    by (simp add: set_eq_iff map_of_eq_Some_iff [OF distinct_account_counts, symmetric] map_of_account_counts)
qed

theorem cross_account_access_exact_witness:
  "extract_cross_account_access rev
     [\<lparr>rs_effect = ''Allow'', rs_principal = ''arn:aws:iam::1:role/r'', rs_condition_keys = [], rs_trust_boundary = False\<rparr>]
     [''1''] = [\<lparr>ca_destination_account_id = ''1'', ca_principal_count = 2, ca_severity = GqlMedium\<rparr>] \<and>
   set (extract_cross_account_access rev [] [''1'']) =
     {a. account_entry [] [''1''] (ca_destination_account_id a) = Some (ca_principal_count a, ca_severity a)}"
proof
  show "set (extract_cross_account_access rev [] [''1'']) =
     {a. account_entry [] [''1''] (ca_destination_account_id a) = Some (ca_principal_count a, ca_severity a)}"
    using cross_account_access_exact [of rev "[]" "[''1'']"] by simp
qed code_simp

lemma compute_key_risk_score_eq:
  "compute_key_risk_score grantable wildcard across =
     (if \<not> grantable then 0 else if wildcard then 90 / 100 else if across then 80 / 100 else 55 / 100)"
  by (cases grantable; cases wildcard; cases across) (simp_all add: compute_key_risk_score_def)

lemma analyse_key_rows_Inr:
  assumes "analyse_key_rows pj print key_arn ([k, d, g] # rest) = Inr r"
  defines "ps \<equiv> set (string_items g)"
  shows "(km_risk_score r, km_severity r) =
    (if ps = {} then (0, GqlLow)
     else if (\<exists>p\<in>ps. CHR ''*'' \<in> set p) then (90 / 100, GqlHigh)
     else if (\<exists>p\<in>ps. is_foreign (extract_key_account (unwrap_or key_arn (as_str k))) p) then (80 / 100, GqlHigh)
     else (55 / 100, GqlMedium))"
proof -
  have star: "CHR ''*'' \<in> set p \<or> p = ''*'' \<longleftrightarrow> CHR ''*'' \<in> set p" for p :: string by auto
  show ?thesis
    using assms
    by (auto simp: analyse_key_rows_def Let_def res_bind_Inr_iff compute_key_risk_score_eq compute_grant_severity_def
        list_ex_iff star)
qed

text \<open>The risk of the grants on a key depends on the principals that may grant alone: two keys of one account, of
  which the second has at least the granting principals of the first, are scored in that order whatever their
  key policies say. The score is at most 0.9, nothing is at risk exactly without a granting principal, and the
  severity is high exactly from 0.8 on.\<close>

theorem key_risk_monotone:
  assumes "analyse_key_rows pj print key_arn ([k, d, g] # rest) = Inr r"
    and "analyse_key_rows pj print key_arn ([k, d', g'] # rest') = Inr r'"
    and "set (string_items g) \<subseteq> set (string_items g')"
  shows "km_risk_score r \<le> km_risk_score r' \<and> 0 \<le> km_risk_score r \<and> km_risk_score r' \<le> 90 / 100 \<and>
    (km_risk_score r = 0 \<longleftrightarrow> string_items g = []) \<and> (km_severity r = GqlHigh \<longleftrightarrow> 80 / 100 \<le> km_risk_score r)"
  using analyse_key_rows_Inr [OF assms(1)] analyse_key_rows_Inr [OF assms(2)] assms(3)
  by (auto split: if_splits)

theorem key_risk_monotone_witness:
  "\<exists>r r'. analyse_key_rows sample_policies (\<lambda>_. []) ''arn:aws:kms:r:123456789012:key/k''
       [[JNull, JString ''string'', JArray []]] = Inr r \<and>
     analyse_key_rows sample_policies (\<lambda>_. []) ''arn:aws:kms:r:123456789012:key/k''
       [[JNull, JNull, JArray [JString ''arn:aws:iam::210987654321:role/r'']]] = Inr r' \<and>
     km_risk_score r < km_risk_score r' \<and> km_severity r' = GqlHigh"
proof -
  let ?f = "\<lambda>d g. analyse_key_rows sample_policies (\<lambda>_. []) ''arn:aws:kms:r:123456789012:key/k'' [[JNull, d, g]]"
  let ?g = "JArray [JString ''arn:aws:iam::210987654321:role/r'']"
  have items: "string_items (JArray []) = []" "string_items ?g = [''arn:aws:iam::210987654321:role/r'']"
    by (simp_all add: string_items_def List.map_filter_simps)
  obtain r where r: "?f (JString ''string'') (JArray []) = Inr r"
    by (simp add: analyse_key_rows_def policy_value_to_json_def parse_key_policy_def sample_policies_def Let_def)
  obtain r' where r': "?f JNull ?g = Inr r'"
    by (simp add: analyse_key_rows_def policy_value_to_json_def Let_def)
  have sub: "set (string_items (JArray [])) \<subseteq> set (string_items ?g)" by (simp add: items)
  have "is_foreign (extract_key_account ''arn:aws:kms:r:123456789012:key/k'') ''arn:aws:iam::210987654321:role/r''"
    by code_simp
  then have "km_severity r' = GqlHigh"
    using analyse_key_rows_Inr [OF r'] by (auto simp: items unwrap_or_def split: if_splits)
  then have "80 / 100 \<le> km_risk_score r'" using key_risk_monotone [OF r' r'] by simp
  moreover have "km_risk_score r = 0" using key_risk_monotone [OF r r' sub] by (simp add: items)
  ultimately show ?thesis using r r' \<open>km_severity r' = GqlHigh\<close> by auto
qed

text \<open>A bare key id is looked up under the default account and region as well as by its id; a key of another
  partition given by its arn is taken for a bare id.\<close>

lemma foreign_partition_key_is_bare:
  "normalize_key_id (''arn:aws-cn:kms:'' @ s) =
     Inr (''arn:aws:kms:us-east-1:000000000000:key/'' @ ''arn:aws-cn:kms:'' @ s, ''arn:aws-cn:kms:'' @ s)"
  by (simp add: normalize_key_id_def starts_with_def)

text \<open>The count query answers a row whether or not there are providers, so the notice of a missing schema is
  given only when the query fails.\<close>

lemma federation_risks_after_check:
  assumes "client_cypher_multi_column pj db graph ''MATCH (p:OidcProvider) RETURN count(p) as cnt LIMIT 1'' 1 = Inr (row # rows)"
    and "client_cypher_multi_column pj db graph (oidc_cypher acct) 4 = Inr found"
  shows "federation_risks pj db graph acct = Inr (federation_summary acct found)"
  using assms by (simp add: federation_risks_def)

lemma federation_summary_levels:
  "fr_severity (federation_summary acct rows) =
     (if list_ex snd (List.map_filter oidc_row rows) then GqlCritical else GqlInfo) \<and>
   (fr_trust_boundary (federation_summary acct rows) \<longrightarrow> fr_severity (federation_summary acct rows) = GqlInfo)"
  by (simp add: federation_summary_def Let_def score_to_severity_def)

end
