(* ===== verification/Graph_Adapters.thy ===== *)
theory Graph_Adapters
  imports Gql_Types Ingest_Permissions
begin

section \<open>The graph services behind the risk scores\<close>

text \<open>
  \<open>activable-graphql/src/graph_client_adapter.rs\<close> and \<open>graph_adapter.rs\<close>: the two implementations of the trait
  \<open>GraphQueryService\<close>, the record \<open>graph_service\<close> of \<open>Risk_Batch\<close>. The production adapter turns each call into
  queries of the graph client, whose database may answer differently after each write; the one in memory keeps
  maps behind a lock, which no operation poisons. The locale \<open>assessment_store\<close> states what the users of a service
  rely on when they cache assessments.
\<close>

subsection \<open>The production adapter\<close>

definition adapter_reachable_count :: "pg \<Rightarrow> string \<Rightarrow> string \<Rightarrow> 8 word \<Rightarrow> string + nat" where
  "adapter_reachable_count db graph principal_id max_hops =
     res_bind (map_err (\<lambda>e. ''blast_radius query failed for principal_id='' @ quoted principal_id @ '': '' @ display_graph_error e)
         (client_blast_radius db graph principal_id [] max_hops)) (\<lambda>nodes. Inr (length nodes))"

definition cypher_admins :: string where
  "cypher_admins = ''MATCH (n:Principal) WHERE n.is_admin = true RETURN n.id''"

text \<open>The shortest of the paths to the admins; an admin whose query fails is passed over.\<close>

definition nearer :: "pg \<Rightarrow> string \<Rightarrow> string \<Rightarrow> 8 word \<Rightarrow> json \<Rightarrow> nat option \<Rightarrow> nat option" where
  "nearer db graph principal_id max_depth admin_result min_distance =
     (case as_str admin_result of
        None \<Rightarrow> min_distance
      | Some admin_id \<Rightarrow>
          (case client_shortest_path_length db graph principal_id admin_id max_depth of
             Inr (Some d) \<Rightarrow> Some (case min_distance of Some m \<Rightarrow> min m d | None \<Rightarrow> d)
           | Inr None \<Rightarrow> min_distance
           | Inl e \<Rightarrow> min_distance))"

definition adapter_shortest_path_to_admin ::
  "json_parser \<Rightarrow> pg \<Rightarrow> string \<Rightarrow> string \<Rightarrow> 8 word \<Rightarrow> string + nat option" where
  "adapter_shortest_path_to_admin pj db graph principal_id max_depth =
     res_bind (map_err (\<lambda>e. ''cypher query for admin nodes failed: '' @ display_graph_error e)
         (client_cypher pj db graph cypher_admins)) (\<lambda>admin_results.
     if admin_results = [] then Inr None
     else Inr (fold (nearer db graph principal_id max_depth) admin_results None))"

definition cypher_hops :: "string \<Rightarrow> string" where
  "cypher_hops principal_id =
     ''MATCH (start:Principal '' @ id_map principal_id @
     '')-[:CanAssume*1..10]->(target:Principal) WHERE start.account_id <> target.account_id RETURN count(DISTINCT target.account_id)''"

definition as_u64 :: "json \<Rightarrow> nat option" where
  "as_u64 v = (case v of JNumber (PosInt n) \<Rightarrow> Some n | _ \<Rightarrow> None)"

definition adapter_cross_account_hop_count :: "json_parser \<Rightarrow> pg \<Rightarrow> string \<Rightarrow> string \<Rightarrow> string + nat" where
  "adapter_cross_account_hop_count pj db graph principal_id =
     res_bind (map_err (\<lambda>e. ''cross_account_hop_count cypher query failed: '' @ display_graph_error e)
         (client_cypher pj db graph (cypher_hops principal_id))) (\<lambda>results.
     Inr (case results of
         first # _ \<Rightarrow> (case as_u64 first of Some n \<Rightarrow> n mod 2 ^ 32 | None \<Rightarrow> 0)
       | [] \<Rightarrow> 0))"

definition adapter_list_principal_ids :: "json_parser \<Rightarrow> pg \<Rightarrow> string \<Rightarrow> string + string list" where
  "adapter_list_principal_ids pj db graph =
     res_bind (map_err (\<lambda>e. ''list_principal_ids cypher query failed: '' @ display_graph_error e)
         (client_cypher pj db graph ''MATCH (n:Principal) RETURN n.id'')) (\<lambda>results.
     Inr (List.map_filter as_str results))"

definition cypher_permissions :: "string \<Rightarrow> string" where
  "cypher_permissions principal_id =
     ''MATCH (n:Principal '' @ id_map principal_id @
     '')-[r:HasEffectivePermission]->(m) RETURN r.action, r.resource''"

definition permission_of_row :: "json list \<Rightarrow> (string \<times> string) option" where
  "permission_of_row row =
     (if 2 \<le> length row then
        Option.bind (as_str (row ! 0)) (\<lambda>act. Option.bind (as_str (row ! 1)) (\<lambda>res. Some (act, res)))
      else None)"

definition adapter_get_effective_permissions ::
  "json_parser \<Rightarrow> pg \<Rightarrow> string \<Rightarrow> string \<Rightarrow> string + (string \<times> string) list" where
  "adapter_get_effective_permissions pj db graph principal_id =
     res_bind (map_err (\<lambda>e. ''get_effective_permissions cypher query failed: '' @ display_graph_error e)
         (client_cypher_multi_column pj db graph (cypher_permissions principal_id) 2)) (\<lambda>results.
     Inr (List.map_filter permission_of_row results))"

definition cypher_read :: "string \<Rightarrow> string" where
  "cypher_read principal_id = ''MATCH (n:Principal '' @ id_map principal_id @ '') RETURN n.risk_assessment_json''"

definition cached_text :: "json list \<Rightarrow> string option" where
  "cached_text results =
     (case results of
        JString json_str # _ \<Rightarrow> if json_str \<noteq> [] \<and> json_str \<noteq> ''null'' then Some json_str else None
      | _ \<Rightarrow> None)"

definition adapter_read_risk_assessment :: "json_parser \<Rightarrow> pg \<Rightarrow> string \<Rightarrow> string \<Rightarrow> string + string option" where
  "adapter_read_risk_assessment pj db graph principal_id =
     res_bind (map_err (\<lambda>e. ''read_risk_assessment cypher query failed: '' @ display_graph_error e)
         (client_cypher pj db graph (cypher_read principal_id))) (\<lambda>results.
     Inr (cached_text results))"

definition cypher_write :: "string \<Rightarrow> string \<Rightarrow> string" where
  "cypher_write principal_id assessment_json =
     ''MATCH (n:Principal '' @ id_map principal_id @ '') SET n.risk_assessment_json = '' @
     quoted (escape_cypher assessment_json)"

definition adapter_write_risk_assessment ::
  "json_parser \<Rightarrow> pg \<Rightarrow> string \<Rightarrow> string \<Rightarrow> string \<Rightarrow> string + unit" where
  "adapter_write_risk_assessment pj db graph principal_id assessment_json =
     res_bind (map_err (\<lambda>e. ''write_risk_assessment cypher query failed: '' @ display_graph_error e)
         (client_cypher pj db graph (cypher_write principal_id assessment_json))) (\<lambda>_. Inr ())"

definition adapter_service :: "json_parser \<Rightarrow> (written \<Rightarrow> pg) \<Rightarrow> string \<Rightarrow> graph_service" where
  "adapter_service pj db graph =
     \<lparr>reachable_count = \<lambda>w. adapter_reachable_count (db w) graph,
      shortest_path_to_admin = \<lambda>w. adapter_shortest_path_to_admin pj (db w) graph,
      cross_account_hop_count = \<lambda>w. adapter_cross_account_hop_count pj (db w) graph,
      list_principal_ids = \<lambda>w. adapter_list_principal_ids pj (db w) graph,
      get_effective_permissions = \<lambda>w. adapter_get_effective_permissions pj (db w) graph,
      read_risk_assessment = \<lambda>w. adapter_read_risk_assessment pj (db w) graph,
      write_risk_assessment = \<lambda>w. adapter_write_risk_assessment pj (db w) graph\<rparr>"

subsection \<open>The service in memory\<close>

record principal_store =
  ps_principal_ids :: "string list"
  ps_effective_permissions :: "string \<rightharpoonup> (string \<times> string) list"
  ps_risk_assessments :: "string \<rightharpoonup> string"
  ps_reachable_counts :: "string \<rightharpoonup> nat"
  ps_shortest_paths :: "string \<rightharpoonup> nat option"
  ps_cross_account_hops :: "string \<rightharpoonup> nat"

definition in_memory_new :: principal_store where
  "in_memory_new =
     \<lparr>ps_principal_ids = [], ps_effective_permissions = Map.empty, ps_risk_assessments = Map.empty,
      ps_reachable_counts = Map.empty, ps_shortest_paths = Map.empty, ps_cross_account_hops = Map.empty\<rparr>"

definition add_principal ::
  "string \<Rightarrow> (string \<times> string) list \<Rightarrow> nat \<Rightarrow> nat option \<Rightarrow> nat \<Rightarrow> principal_store \<Rightarrow> principal_store" where
  "add_principal principal_id permissions reachable shortest_path hops st =
     st\<lparr>ps_principal_ids :=
          (if principal_id \<in> set (ps_principal_ids st) then ps_principal_ids st
           else ps_principal_ids st @ [principal_id]),
        ps_effective_permissions := (ps_effective_permissions st)(principal_id \<mapsto> permissions),
        ps_reachable_counts := (ps_reachable_counts st)(principal_id \<mapsto> reachable),
        ps_shortest_paths := (ps_shortest_paths st)(principal_id \<mapsto> shortest_path),
        ps_cross_account_hops := (ps_cross_account_hops st)(principal_id \<mapsto> hops)\<rparr>"

definition memory_write :: "string \<times> string \<Rightarrow> principal_store \<Rightarrow> principal_store" where
  "memory_write pt st = st\<lparr>ps_risk_assessments := (ps_risk_assessments st)(fst pt \<mapsto> snd pt)\<rparr>"

text \<open>The store after the writes of a run.\<close>

definition after_writes :: "principal_store \<Rightarrow> written \<Rightarrow> principal_store" where
  "after_writes st w = fold memory_write w st"

definition memory_service :: "principal_store \<Rightarrow> graph_service" where
  "memory_service st =
     \<lparr>reachable_count = \<lambda>w pid _. Inr (unwrap_or 0 (ps_reachable_counts (after_writes st w) pid)),
      shortest_path_to_admin = \<lambda>w pid _. Inr (unwrap_or None (ps_shortest_paths (after_writes st w) pid)),
      cross_account_hop_count = \<lambda>w pid. Inr (unwrap_or 0 (ps_cross_account_hops (after_writes st w) pid)),
      list_principal_ids = \<lambda>w. Inr (ps_principal_ids (after_writes st w)),
      get_effective_permissions = \<lambda>w pid. Inr (unwrap_or [] (ps_effective_permissions (after_writes st w) pid)),
      read_risk_assessment = \<lambda>w pid. Inr (ps_risk_assessments (after_writes st w) pid),
      write_risk_assessment = \<lambda>w pid json. Inr ()\<rparr>"

subsection \<open>Caching assessments\<close>

text \<open>What the users of a cache of assessments rely on: an assessment is read back once it is written, and
  writing the one of a principal leaves the others.\<close>

locale assessment_store =
  fixes read :: "written \<Rightarrow> string \<Rightarrow> string option"
  assumes read_own: "read (w @ [(p, t)]) p = Some t"
    and read_other: "p \<noteq> q \<Longrightarrow> read (w @ [(p, t)]) q = read w q"
begin

lemma read_writes: "read (w @ ws) q = (case map_of (rev ws) q of Some t \<Rightarrow> Some t | None \<Rightarrow> read w q)"
proof (induction ws rule: rev_induct)
  case (snoc x ws)
  obtain p t where x: "x = (p, t)" by (cases x)
  show ?case
    using snoc read_own [of "w @ ws" p t] read_other [of p q "w @ ws" t] unfolding x by (cases "p = q") simp_all
qed simp

lemma read_once: "distinct (map fst ws) \<Longrightarrow> (q, t) \<in> set ws \<Longrightarrow> read (w @ ws) q = Some t"
  by (simp add: read_writes map_of_eq_Some_iff rev_map [symmetric])

lemma read_untouched: "q \<notin> fst ` set ws \<Longrightarrow> read (w @ ws) q = read w q"
proof -
  assume "q \<notin> fst ` set ws"
  then have "map_of (rev ws) q = None" by (simp add: map_of_eq_None_iff)
  then show ?thesis by (simp add: read_writes)
qed

end

interpretation memory: assessment_store "\<lambda>w. ps_risk_assessments (after_writes st w)" for st
  by unfold_locales (simp_all add: after_writes_def memory_write_def)

text \<open>The writes of a run change the assessments only.\<close>

lemma after_writes_fields:
  "ps_principal_ids (after_writes st w) = ps_principal_ids st"
  "ps_effective_permissions (after_writes st w) = ps_effective_permissions st"
  unfolding after_writes_def by (induction w rule: rev_induct) (simp_all add: memory_write_def)

lemma score_all_writes:
  "score_all print rules graph config now ids w as es = (w', as', es') \<Longrightarrow>
   \<exists>new. as' = as @ new \<and> subseq (map ra_principal_id new) ids \<and>
     w' = w @ map (\<lambda>a. (ra_principal_id a, case print a of Some t \<Rightarrow> t | None \<Rightarrow> [])) new"
proof (induction ids arbitrary: w as es)
  case (Cons pid ids)
  have skip: ?case if f: "score_all print rules graph config now ids w as es2 = (w', as', es')" for es2
  proof -
    obtain new where n: "as' = as @ new" "subseq (map ra_principal_id new) ids"
      "w' = w @ map (\<lambda>a. (ra_principal_id a, case print a of Some t \<Rightarrow> t | None \<Rightarrow> [])) new"
      using Cons.IH [OF f] by blast
    then have "subseq (map ra_principal_id new) (pid # ids)" by (intro list_emb_Cons)
    then show ?thesis using n by blast
  qed
  show ?case
  proof (cases "get_effective_permissions graph w pid")
    case (Inl e)
    then show ?thesis using Cons.prems by (intro skip) simp
  next
    case (Inr pairs)
    show ?thesis
    proof (cases "score_single_principal pid (permissions_of pairs) rules graph w config now")
      case (Inl e)
      then show ?thesis using Cons.prems Inr by (intro skip) simp
    next
      case s: (Inr a)
      let ?json = "case print a of Some t \<Rightarrow> t | None \<Rightarrow> []"
      obtain es2 where "score_all print rules graph config now ids (w @ [(pid, ?json)]) (as @ [a]) es2 = (w', as', es')"
        using Cons.prems Inr s by (auto simp: Let_def)
      then obtain new where "as' = (as @ [a]) @ new" "subseq (map ra_principal_id new) ids"
        "w' = (w @ [(pid, ?json)]) @ map (\<lambda>a. (ra_principal_id a, case print a of Some t \<Rightarrow> t | None \<Rightarrow> [])) new"
        using Cons.IH by blast
      then show ?thesis using scored_principal_id [OF s] by (intro exI [of _ "a # new"]) simp
    qed
  qed
qed simp

text \<open>Principals added to an empty store are listed once.\<close>

lemma distinct_add_principal:
  "distinct (ps_principal_ids st) \<Longrightarrow> distinct (ps_principal_ids (add_principal pid perms r s h st))"
  by (simp add: add_principal_def)

lemma batch_writes:
  assumes "list_principal_ids graph w = Inr ids" and "distinct ids"
    and "batch_score_all print rules graph config now w = (w', r)"
  shows "\<exists>ws. w' = w @ ws \<and> distinct (map fst ws) \<and>
    ws = map (\<lambda>a. (ra_principal_id a, case print a of Some t \<Rightarrow> t | None \<Rightarrow> [])) (bs_assessments r)"
proof -
  obtain as es where s: "score_all print rules graph config now ids w [] [] = (w', as, es)" "bs_assessments r = as"
    using assms(1,3) by (auto simp: batch_score_all_def split: prod.splits)
  obtain new where n: "as = new" "subseq (map ra_principal_id new) ids"
    "w' = w @ map (\<lambda>a. (ra_principal_id a, case print a of Some t \<Rightarrow> t | None \<Rightarrow> [])) new"
    using score_all_writes [OF s(1)] by auto
  have "distinct (map ra_principal_id new)" using n(2) assms(2) by (auto simp: subseq_conv_nths)
  then show ?thesis using n s(2) by (simp add: comp_def)
qed

lemma memory_reads_scored:
  assumes "distinct (ps_principal_ids st)"
    and "batch_score_all print rules (memory_service st) config now [] = (w', r)"
    and "a \<in> set (bs_assessments r)" and "print a = Some t"
  shows "read_risk_assessment (memory_service st) w' (ra_principal_id a) = Inr (Some t)"
proof -
  have ids: "list_principal_ids (memory_service st) [] = Inr (ps_principal_ids st)"
    by (simp add: memory_service_def after_writes_fields)
  obtain ws where w: "w' = ws" "distinct (map fst ws)"
    "ws = map (\<lambda>a. (ra_principal_id a, case print a of Some t \<Rightarrow> t | None \<Rightarrow> [])) (bs_assessments r)"
    using batch_writes [OF ids assms(1,2)] by auto
  have "(ra_principal_id a, t) \<in> set ws" unfolding w(3) using assms(3,4) by force
  from memory.read_once [where st = st and w = "[]", OF w(2) this] show ?thesis by (simp add: memory_service_def w(1))
qed

subsection \<open>The texts of the queries\<close>

text \<open>The queries of the adapter hold the principal, and the assessment that is written, as literals.\<close>

lemma cypher_hops_body: "reads_literals lx \<Longrightarrow> body_holds lx (cypher_hops i) [i]"
  unfolding cypher_hops_def by (intro body_holds_id body_holds_inert) (simp_all add: single_quote_def)

lemma cypher_permissions_body: "reads_literals lx \<Longrightarrow> body_holds lx (cypher_permissions i) [i]"
  unfolding cypher_permissions_def by (intro body_holds_id body_holds_inert) (simp_all add: single_quote_def)

lemma cypher_read_body: "reads_literals lx \<Longrightarrow> body_holds lx (cypher_read i) [i]"
  unfolding cypher_read_def by (intro body_holds_id body_holds_inert) (simp_all add: single_quote_def)

lemma body_holds_quoted:
  assumes "reads_literals lx" and "inert pre" and "body_holds lx post ss"
  shows "body_holds lx (pre @ quoted (escape_cypher s) @ post) (s # ss)"
proof -
  have "has_literals lx (pre @ quoted (escape_cypher s) @ post) (s # ss)"
    using assms by (intro has_literals_quoted lex_escape_cypher) (simp_all add: inert_def body_holds_def)
  moreover have "dollar_pair (pre @ quoted (escape_cypher s) @ post) \<longleftrightarrow> dollar_pair s \<or> dollar_pair post"
  proof -
    have e: "pre @ quoted (escape_cypher s) @ post = pre @ [single_quote] @ escape_cypher s @ single_quote # post"
      by (simp add: quoted_def single_quote_def)
    have free: "CHR ''$'' \<notin> set pre" "CHR ''$'' \<notin> set [single_quote]"
      using assms by (simp_all add: inert_def single_quote_def)
    show ?thesis
      unfolding e dollar_pair_prefix [OF free(1)] dollar_pair_prefix [OF free(2)]
      using dollar_pair_between [of single_quote "escape_cypher s" post] dollar_pair_prefix [OF free(2), of post]
      by (simp add: dollar_pair_escape single_quote_def)
  qed
  ultimately show ?thesis using assms(3) by (auto simp: body_holds_def)
qed

lemma body_holds_text:
  "reads_literals lx \<Longrightarrow> inert pre \<Longrightarrow> inert post \<Longrightarrow>
     body_holds lx (pre @ quoted (escape_cypher s) @ post) [s]"
  by (intro body_holds_quoted body_holds_inert)

lemma cypher_write_body:
  assumes "reads_literals lx"
  shows "body_holds lx (cypher_write i t) [i, t]"
proof -
  have "body_holds lx (CHR ''}'' # '') SET n.risk_assessment_json = '' @ quoted (escape_cypher t)) [t]"
    using body_holds_text [OF assms, of "''}) SET n.risk_assessment_json = ''" "[]" t] by (simp add: single_quote_def)
  then show ?thesis
    unfolding cypher_write_def using assms by (intro body_holds_id) (simp_all add: single_quote_def)
qed

subsection \<open>What the two readers of ids assume\<close>

lemma cypher_values_rendered:
  "cypher_values pj db (map (\<lambda>i. [Some (render i)]) ids) = Inr vs \<Longrightarrow>
     list_all2 (\<lambda>i v. pj (render i) = Inr v) ids vs"
  by (induction ids arbitrary: vs) (auto simp: get_column_def res_iffs)

lemma length_map_filter_le: "length (List.map_filter f xs) \<le> length xs"
  by (induction xs) (simp_all add: List.map_filter_simps split: option.split)

lemma map_filter_same_length:
  "List.map_filter f vs = ys \<Longrightarrow> length ys = length vs \<Longrightarrow> list_all2 (\<lambda>v y. f v = Some y) vs ys"
proof (induction vs arbitrary: ys)
  case (Cons v vs)
  then show ?case
    using length_map_filter_le [of f vs] by (auto simp: List.map_filter_simps split: option.splits)
qed (simp add: List.map_filter_simps)

definition enricher_ids :: "(string \<Rightarrow> string) \<Rightarrow> (string \<Rightarrow> string option) \<Rightarrow> string list \<Rightarrow> string list" where
  "enricher_ids render policies ids =
     map pp_principal_id (List.map_filter principal_of_row
       (map (\<lambda>i. (Some (render i), policies i, policies i, policies i)) ids))"

lemma enricher_ids_eq: "enricher_ids render policies ids = map (\<lambda>i. trim (render i)) ids"
  by (induction ids) (simp_all add: enricher_ids_def principal_of_row_def List.map_filter_simps)

subsection \<open>Properties\<close>

text \<open>C39: the risk service and the permissions enricher cannot both read the ids of the principals. Both select
  them from the database cast to text; the first parses the text as JSON, the second trims it. Whatever text the
  cast renders an id as, with a parser that accepts a string only between double quotes, one of the two does not
  get the ids back.\<close>

theorem clients_disagree_on_text_casts:
  assumes "\<And>c i. pj c = Inr (JString i) \<Longrightarrow> starts_with (trim c) [double_quote]"
    and "pool_get db = Inr ()" and "pg_batch db age_setup = Inr ()"
    and "\<And>sql. pg_query db sql = Inr (map (\<lambda>i. [Some (render i)]) ids)"
    and "ids \<noteq> []" and "list_all (\<lambda>i. \<not> starts_with i [double_quote]) ids"
  shows "\<not> (adapter_list_principal_ids pj db graph = Inr ids \<and> enricher_ids render policies ids = ids)"
proof
  assume both: "adapter_list_principal_ids pj db graph = Inr ids \<and> enricher_ids render policies ids = ids"
  have rows: "query_rows db (Inr sql) = Inr (map (\<lambda>i. [Some (render i)]) ids)" for sql
    using assms(2-4) by (simp add: query_rows_Inr_iff)
  obtain vs where vs: "cypher_values pj db (map (\<lambda>i. [Some (render i)]) ids) = Inr vs" "List.map_filter as_str vs = ids"
    using both by (auto simp: adapter_list_principal_ids_def client_cypher_def rows res_iffs)
  have parsed: "list_all2 (\<lambda>i v. pj (render i) = Inr v) ids vs" using cypher_values_rendered [OF vs(1)] .
  have strings: "list_all2 (\<lambda>v i. as_str v = Some i) vs ids"
    using map_filter_same_length [OF vs(2)] list_all2_lengthD [OF parsed] by simp
  obtain i js where ids: "ids = i # js" using assms(5) by (cases ids) auto
  have "pj (render i) = Inr (JString i)" using parsed strings unfolding ids by (auto simp: list_all2_Cons1 json_iffs)
  then have "starts_with (trim (render i)) [double_quote]" by (rule assms(1))
  moreover have "trim (render i) = i" using both unfolding enricher_ids_eq ids by simp
  ultimately show False using assms(6) unfolding ids by simp
qed

text \<open>A parser of strings between double quotes.\<close>

definition quoted_parser :: "string \<Rightarrow> string + json" where
  "quoted_parser c =
     (if between double_quote double_quote (trim c) \<and> 2 \<le> length (trim c)
      then Inr (JString (take (length (trim c) - 2) (drop 1 (trim c)))) else Inl ''expected value'')"

definition rendering_db :: "(string \<Rightarrow> string) \<Rightarrow> string list \<Rightarrow> pg" where
  "rendering_db render ids = \<lparr>pool_get = Inr (), pg_batch = \<lambda>_. Inr (),
     pg_query = \<lambda>_. Inr (map (\<lambda>i. [Some (render i)]) ids), column_error = \<lambda>_. []\<rparr>"

theorem clients_disagree_on_text_casts_witness:
  "adapter_list_principal_ids quoted_parser (rendering_db (\<lambda>s. double_quote # s @ [double_quote]) [''alice'']) ''g''
     = Inr [''alice''] \<and>
   enricher_ids (\<lambda>s. double_quote # s @ [double_quote]) (\<lambda>_. None) [''alice''] \<noteq> [''alice'']"
proof -
  let ?db = "rendering_db (\<lambda>s. double_quote # s @ [double_quote]) [''alice'']"
  have "adapter_list_principal_ids quoted_parser ?db ''g'' = Inr [''alice'']" by code_simp
  moreover have "starts_with (trim c) [double_quote]" if "quoted_parser c = Inr (JString i)" for c i
    using that by (simp add: quoted_parser_def between_def split: if_splits)
  ultimately show ?thesis
    using clients_disagree_on_text_casts [of quoted_parser ?db "\<lambda>s. double_quote # s @ [double_quote]" "[''alice'']" "''g''" "\<lambda>_. None"]
    by (simp add: rendering_db_def starts_with_def double_quote_def)
qed

text \<open>What the production adapter reads back from the cache it writes. The assessment is written between the
  quotes of a literal, from which a Cypher lexer reads exactly the principal and the text; it is read back exactly
  when the database answers a text that parses to a JSON string other than the empty one and \<open>null\<close>. A database
  that answers the stored text itself, a JSON object, makes every read miss, and one that answers something that
  is no JSON makes it fail.\<close>

theorem cached_assessment_reads:
  assumes "reads_literals lx" and "pool_get db = Inr ()" and "pg_batch db age_setup = Inr ()"
    and "pg_query db (raw_cypher_sql graph (cypher_read i)) = Inr [[c]]"
  shows "body_holds lx (cypher_write i t) [i, t] \<and>
    (adapter_read_risk_assessment pj db graph i = Inr (Some t) \<longleftrightarrow>
       (\<exists>tx. c = Some tx \<and> pj tx = Inr (JString t)) \<and> t \<noteq> [] \<and> t \<noteq> ''null'') \<and>
    ((\<exists>e. adapter_read_risk_assessment pj db graph i = Inl e) \<longleftrightarrow> (\<exists>tx e. c = Some tx \<and> pj tx = Inl e)) \<and>
    (c = Some t \<longrightarrow> pj t = Inr (JObject kvs) \<longrightarrow> adapter_read_risk_assessment pj db graph i = Inr None)"
proof -
  have read: "adapter_read_risk_assessment pj db graph i =
      res_bind (map_err (\<lambda>e. ''read_risk_assessment cypher query failed: '' @ display_graph_error e)
        (cypher_values pj db [[c]])) (\<lambda>results. Inr (cached_text results))"
    using assms(2-4) by (simp add: adapter_read_risk_assessment_def client_cypher_def query_rows_def on_connection_def)
  show ?thesis
  proof (intro conjI)
    show "body_holds lx (cypher_write i t) [i, t]" by (rule cypher_write_body [OF assms(1)])
    show "adapter_read_risk_assessment pj db graph i = Inr (Some t) \<longleftrightarrow>
       (\<exists>tx. c = Some tx \<and> pj tx = Inr (JString t)) \<and> t \<noteq> [] \<and> t \<noteq> ''null''"
      unfolding read by (cases c) (auto simp: get_column_def res_iffs cached_text_def split: json.splits if_splits)
    show "(\<exists>e. adapter_read_risk_assessment pj db graph i = Inl e) \<longleftrightarrow> (\<exists>tx e. c = Some tx \<and> pj tx = Inl e)"
      unfolding read by (cases c; cases "pj (the c)") (auto simp: get_column_def)
    show "c = Some t \<longrightarrow> pj t = Inr (JObject kvs) \<longrightarrow> adapter_read_risk_assessment pj db graph i = Inr None"
      unfolding read by (simp add: get_column_def cached_text_def)
  qed
qed

theorem cached_assessment_reads_witness:
  "adapter_read_risk_assessment quoted_parser (rendering_db (\<lambda>s. double_quote # s @ [double_quote]) [''doc'']) ''g'' ''alice''
     = Inr (Some ''doc'')"
proof -
  have "quoted_parser (double_quote # ''doc'' @ [double_quote]) = Inr (JString ''doc'')" by code_simp
  then show ?thesis
    using cached_assessment_reads [OF read_literal_law, of "rendering_db (\<lambda>s. double_quote # s @ [double_quote]) [''doc'']"
        "''g''" "''alice''" "Some (double_quote # ''doc'' @ [double_quote])" "''doc''" quoted_parser "[]"]
    by (simp add: rendering_db_def)
qed

end
