(* ===== verification/Gql_Risk.thy ===== *)
theory Gql_Risk
  imports Graph_Adapters Gql_Policy_Risks
begin

section \<open>The resolvers for risk scores\<close>

text \<open>
  \<open>resolvers/risk.rs\<close> and \<open>account_risks.rs\<close> of \<open>activable-graphql\<close>. A resolver that caches an assessment returns
  what has been written to the graph service with its answer, as in \<open>Risk_Batch\<close>. The printer and parser of
  assessments and the clock are parameters, and so are the bundled rules, which are loaded when they parse (a
  bundle that does not parse panics).
\<close>

type_synonym assessment_printer = "risk_assessment \<Rightarrow> string option"
type_synonym assessment_parser = "string \<Rightarrow> risk_assessment option"

text \<open>\<open>as usize\<close> of an \<open>i32\<close>: the sign is extended to 64 bits.\<close>

definition as_usize :: "32 word \<Rightarrow> nat" where
  "as_usize n = unat (scast n :: 64 word)"

subsection \<open>One principal\<close>

definition compute_and_return ::
  "assessment_printer \<Rightarrow> escalation_rule list \<Rightarrow> graph_service \<Rightarrow> risk_config \<Rightarrow> string \<Rightarrow> string \<Rightarrow> written
     \<Rightarrow> written \<times> (gql_error + gql_risk_assessment)" where
  "compute_and_return print rules graph config now principal_id w =
     (case get_effective_permissions graph w principal_id of
        Inl e \<Rightarrow> (w, Inl (gql_error_new ''Failed to retrieve principal permissions''))
      | Inr perm_pairs \<Rightarrow>
          let effective_perms = permissions_of perm_pairs in
          if effective_perms = [] then (w, Inl (gql_error_new ''Principal not found or has no permissions''))
          else
            case score_single_principal principal_id effective_perms rules graph w config now of
              Inl e \<Rightarrow> (w, Inl (gql_error_new ''Failed to compute risk score''))
            | Inr assessment \<Rightarrow>
                (case print assessment of Some json \<Rightarrow> w @ [(principal_id, json)] | None \<Rightarrow> w,
                 Inr (gql_risk_assessment_from assessment)))"

definition risk_score ::
  "assessment_parser \<Rightarrow> assessment_printer \<Rightarrow> escalation_rule list \<Rightarrow> graph_service \<Rightarrow> risk_config \<Rightarrow> string \<Rightarrow> string
     \<Rightarrow> written \<Rightarrow> written \<times> (gql_error + gql_risk_assessment)" where
  "risk_score parse print rules graph config now principal_id w =
     (case read_risk_assessment graph w principal_id of
        Inl e \<Rightarrow> (w, Inl (gql_error_new ''Failed to read risk assessment''))
      | Inr cached_json \<Rightarrow>
          case Option.bind cached_json parse of
            Some assessment \<Rightarrow> (w, Inr (gql_risk_assessment_from assessment))
          | None \<Rightarrow> compute_and_return print rules graph config now principal_id w)"

definition refresh_risk_score ::
  "assessment_printer \<Rightarrow> escalation_rule list \<Rightarrow> graph_service \<Rightarrow> risk_config \<Rightarrow> string \<Rightarrow> string \<Rightarrow> written
     \<Rightarrow> written \<times> (gql_error + gql_risk_assessment)" where
  "refresh_risk_score print rules graph config now principal_id w =
     compute_and_return print rules graph config now principal_id w"

subsection \<open>Findings\<close>

definition min_score_of :: "risk_config \<Rightarrow> gql_severity option \<Rightarrow> real" where
  "min_score_of config min_severity =
     (case unwrap_or GqlMedium min_severity of
        GqlCritical \<Rightarrow> th_critical (thresholds config)
      | GqlHigh \<Rightarrow> th_high (thresholds config)
      | GqlMedium \<Rightarrow> th_medium (thresholds config)
      | GqlLow \<Rightarrow> th_low (thresholds config)
      | GqlInfo \<Rightarrow> 0)"

fun collect_findings ::
  "(string \<Rightarrow> gql_risk_assessment option) \<Rightarrow> nat \<Rightarrow> string list \<Rightarrow> gql_risk_assessment list
     \<Rightarrow> gql_risk_assessment list" where
  "collect_findings finding max_results [] results = results"
| "collect_findings finding max_results (pid # pids) results =
     (let results' = (case finding pid of Some a \<Rightarrow> results @ [a] | None \<Rightarrow> results) in
      if max_results \<le> length results' then results' else collect_findings finding max_results pids results')"

text \<open>The cached assessment of a principal, if it can be read and is severe enough.\<close>

definition cached_finding ::
  "assessment_parser \<Rightarrow> graph_service \<Rightarrow> written \<Rightarrow> real \<Rightarrow> string \<Rightarrow> gql_risk_assessment option" where
  "cached_finding parse graph w min_score pid =
     (case read_risk_assessment graph w pid of
        Inr (Some json) \<Rightarrow>
          (case parse json of
             Some assessment \<Rightarrow>
               if min_score \<le> ra_score assessment then Some (gql_risk_assessment_from assessment) else None
           | None \<Rightarrow> None)
      | _ \<Rightarrow> None)"

definition findings_limit :: "32 word option \<Rightarrow> nat" where
  "findings_limit limit_arg = (let n = unwrap_or 100 limit_arg in as_usize (if sint n \<le> 1000 then n else 1000))"

definition findings ::
  "assessment_parser \<Rightarrow> graph_service \<Rightarrow> risk_config \<Rightarrow> gql_severity option \<Rightarrow> 32 word option \<Rightarrow> written
     \<Rightarrow> gql_error + gql_risk_assessment list" where
  "findings parse graph config min_severity limit_arg w =
     res_bind (map_err (\<lambda>_. gql_error_new ''Failed to list principals'') (list_principal_ids graph w)) (\<lambda>principal_ids.
     Inr (sort_key (\<lambda>a. - gra_score a)
       (collect_findings (cached_finding parse graph w (min_score_of config min_severity)) (findings_limit limit_arg)
          principal_ids [])))"

subsection \<open>Accounts\<close>

record gql_severity_value =
  sv_severity :: gql_severity
  sv_score :: real
  sv_matched_rule_ids :: "string list"

record gql_account_signal_summary =
  cf_escalation :: "gql_severity_value option"
  oidc_drift :: "gql_severity_value option"
  s3_boundary :: "gql_severity_value option"
  kms_grant :: "gql_severity_value option"

record gql_principal_risk =
  pr_principal_id :: string
  pr_score :: real
  pr_severity :: gql_severity
  pr_matched_rules :: "gql_matched_rule list"

record gql_account_risks =
  ac_account_id :: string
  ac_all_signals :: gql_account_signal_summary
  ac_cascade_risk_score :: real
  ac_cascade_severity :: gql_severity
  ac_computed_at :: string
  ac_top_principals :: "gql_principal_risk list"

definition categorize_rule :: "string \<Rightarrow> string" where
  "categorize_rule rule_id_or_category =
     (let l = to_lowercase rule_id_or_category in
      if str_contains l ''cf-passrole'' \<or> str_contains l ''lambda'' \<or> str_contains l ''iam-update-trust'' \<or>
         starts_with l ''iam-'' then ''cf_escalation''
      else if str_contains l ''drift'' then ''oidc_drift''
      else if str_contains l ''s3-org-id'' \<or> starts_with l ''s3-'' then ''s3_boundary''
      else if str_contains l ''kms-grant'' \<or> starts_with l ''kms-'' then ''kms_grant''
      else [])"

definition find_rule_ids_by_category :: "gql_principal_risk list \<Rightarrow> string \<Rightarrow> string list" where
  "find_rule_ids_by_category principal_risks target_category =
     sort (remdups (filter (\<lambda>i. categorize_rule i = target_category)
       (concat (map (\<lambda>p. map gmr_rule_id (pr_matched_rules p)) principal_risks))))"

definition score_to_severity_config :: "real \<Rightarrow> risk_config \<Rightarrow> gql_severity" where
  "score_to_severity_config score config =
     (if th_critical (thresholds config) \<le> score then GqlCritical
      else if th_high (thresholds config) \<le> score then GqlHigh
      else if th_medium (thresholds config) \<le> score then GqlMedium
      else if th_low (thresholds config) \<le> score then GqlLow
      else GqlInfo)"

text \<open>The scores of a category, in the order they were pushed.\<close>

definition push_score :: "string \<Rightarrow> real \<Rightarrow> (string \<times> real list) list \<Rightarrow> (string \<times> real list) list" where
  "push_score category s scores =
     AList.update category (unwrap_or [] (map_of scores category) @ [s]) scores"

definition bucket_scores :: "risk_assessment \<Rightarrow> (string \<times> real list) list \<Rightarrow> (string \<times> real list) list" where
  "bucket_scores a scores =
     fold (\<lambda>m sc. let category = categorize_rule (mr_rule_id m) in
         if category \<noteq> [] then push_score category (ra_score a) sc else sc)
       (ra_matched_rules a) scores"

definition principal_risk_of :: "string \<Rightarrow> risk_assessment \<Rightarrow> gql_principal_risk" where
  "principal_risk_of pid a =
     \<lparr>pr_principal_id = pid, pr_score = ra_score a, pr_severity = gql_severity_from (ra_severity a),
      pr_matched_rules = map gql_matched_rule_from (ra_matched_rules a)\<rparr>"

text \<open>The assessment of a principal, if it has permissions and can be scored.\<close>

definition assess ::
  "escalation_rule list \<Rightarrow> graph_service \<Rightarrow> written \<Rightarrow> risk_config \<Rightarrow> string \<Rightarrow> string \<Rightarrow> risk_assessment option" where
  "assess rules graph w config now pid =
     (case get_effective_permissions graph w pid of
        Inl e \<Rightarrow> None
      | Inr perm_pairs \<Rightarrow>
          let effective_perms = permissions_of perm_pairs in
          if effective_perms = [] then None
          else case score_single_principal pid effective_perms rules graph w config now of
              Inr a \<Rightarrow> Some a | Inl e \<Rightarrow> None)"

definition account_step ::
  "(string \<Rightarrow> risk_assessment option) \<Rightarrow> string \<Rightarrow> gql_principal_risk list \<times> (string \<times> real list) list
     \<Rightarrow> gql_principal_risk list \<times> (string \<times> real list) list" where
  "account_step assessed pid acc =
     (case (assessed pid, acc) of
        (None, _) \<Rightarrow> acc
      | (Some a, (risks, scores)) \<Rightarrow> (risks @ [principal_risk_of pid a], bucket_scores a scores))"

definition category_max :: "(string \<times> real list) list \<Rightarrow> string \<Rightarrow> real option" where
  "category_max scores category =
     (case map_of scores category of
        Some (s # ss) \<Rightarrow> Some (fold max ss s)
      | _ \<Rightarrow> None)"

definition severity_value ::
  "risk_config \<Rightarrow> gql_principal_risk list \<Rightarrow> (string \<times> real list) list \<Rightarrow> string \<Rightarrow> gql_severity_value option" where
  "severity_value config risks scores category =
     map_option (\<lambda>score.
       \<lparr>sv_severity = score_to_severity_config score config, sv_score = score,
        sv_matched_rule_ids = find_rule_ids_by_category risks category\<rparr>) (category_max scores category)"

definition CATEGORIES :: "string list" where
  "CATEGORIES = [''cf_escalation'', ''oidc_drift'', ''s3_boundary'', ''kms_grant'']"

definition account_summary ::
  "(string \<Rightarrow> risk_assessment option) \<Rightarrow> risk_config \<Rightarrow> string \<Rightarrow> string \<Rightarrow> string list \<Rightarrow> gql_account_risks" where
  "account_summary assessed config computed_at acct principal_ids =
     (let (risks, scores) = fold (account_step assessed) principal_ids ([], []);
          signal = severity_value config risks scores;
          sub_scores = map (\<lambda>c. unwrap_or 0 (category_max scores c)) CATEGORIES;
          cascade = harmonic_mean (map Finite sub_scores)
      in \<lparr>ac_account_id = acct,
          ac_all_signals = \<lparr>cf_escalation = signal ''cf_escalation'', oidc_drift = signal ''oidc_drift'',
            s3_boundary = signal ''s3_boundary'', kms_grant = signal ''kms_grant''\<rparr>,
          ac_cascade_risk_score = cascade, ac_cascade_severity = score_to_severity_config cascade config,
          ac_computed_at = computed_at,
          ac_top_principals = take 10 (sort_key (\<lambda>p. - pr_score p) risks)\<rparr>)"

definition account_cypher :: "string \<Rightarrow> string" where
  "account_cypher acct =
     ''MATCH (a:Account '' @ id_map acct @ '')'' @
     query_line ''OPTIONAL MATCH (a)-[:HasPrincipal]->(p:Principal)'' @
     query_line ''RETURN DISTINCT p.id''"

text \<open>The account stands in this query as it is, without escaping.\<close>

definition account_fallback_cypher :: "string \<Rightarrow> string" where
  "account_fallback_cypher acct =
     ''MATCH (p:Principal)'' @
     query_line (''    WHERE p.id STARTS WITH '' @ quoted (''arn:aws:iam::'' @ acct @ '':'')) @
     query_line ''    RETURN DISTINCT p.id''"

definition first_strings :: "json list list \<Rightarrow> string list" where
  "first_strings rows = List.map_filter (\<lambda>row. case row of v # _ \<Rightarrow> as_str v | [] \<Rightarrow> None) rows"

definition account_principals :: "json_parser \<Rightarrow> pg \<Rightarrow> string \<Rightarrow> string \<Rightarrow> gql_error + string list" where
  "account_principals pj db graph acct =
     res_bind (map_err (\<lambda>_. gql_error_new ''Failed to query principals'')
         (client_cypher_multi_column pj db graph (account_cypher acct) 1)) (\<lambda>rows.
     let principal_ids = first_strings rows in
     Inr (if principal_ids = [] then
            first_strings (case client_cypher_multi_column pj db graph (account_fallback_cypher acct) 1 of
                Inr rows \<Rightarrow> rows | Inl e \<Rightarrow> [])
          else principal_ids))"

definition account_risks ::
  "json_parser \<Rightarrow> pg \<Rightarrow> string \<Rightarrow> graph_service \<Rightarrow> written \<Rightarrow> escalation_rule list \<Rightarrow> risk_config \<Rightarrow> string \<Rightarrow> string
     \<Rightarrow> string \<Rightarrow> gql_error + gql_account_risks" where
  "account_risks pj db graph_name graph w rules config now computed_at acct =
     res_bind (account_principals pj db graph_name acct) (\<lambda>principal_ids.
     if principal_ids = [] then Inl (gql_error_new ''Account not found or has no principals'')
     else Inr (account_summary (assess rules graph w config now) config computed_at acct principal_ids))"

text \<open>The field resolver, whose limit defaults to 10.\<close>

definition top_principals :: "gql_account_risks \<Rightarrow> 32 word \<Rightarrow> gql_principal_risk list" where
  "top_principals r limit_arg = take (as_usize limit_arg) (ac_top_principals r)"

subsection \<open>Lemmas\<close>

lemma score_to_severity_config_eq: "score_to_severity_config s config = gql_severity_from (severity_from s (thresholds config))"
  by (simp add: score_to_severity_config_def severity_from_def gql_severity_from_def)

text \<open>The unsigned reading of a limit.\<close>

lemma uint_of_i32: "uint (scast n :: 64 word) = sint n mod 2 ^ 64" for n :: "32 word"
  unfolding scast_eq uint_word_of_int_eq take_bit_eq_mod by simp

lemma as_usize_nonneg: "0 \<le> sint n \<Longrightarrow> as_usize n = nat (sint n)"
proof -
  assume "0 \<le> sint n"
  then have "sint n mod 2 ^ 64 = sint n" using sint_lt [of n] by (intro mod_pos_pos_trivial) simp_all
  then show ?thesis unfolding as_usize_def unat_eq_nat_uint uint_of_i32 by (simp only:)
qed

lemma as_usize_negative: "sint n < 0 \<Longrightarrow> 2 ^ 63 \<le> as_usize n"
proof -
  assume n: "sint n < 0"
  have "sint n mod 2 ^ 64 = (sint n + 2 ^ 64) mod 2 ^ 64" by (simp only: mod_add_self2)
  also have "\<dots> = sint n + 2 ^ 64" using n sint_ge [of n] by (intro mod_pos_pos_trivial) simp_all
  finally have "(2 :: int) ^ 63 \<le> sint n mod 2 ^ 64" using sint_ge [of n] by simp
  then show ?thesis unfolding as_usize_def unat_eq_nat_uint uint_of_i32 by (simp add: nat_le_iff le_nat_iff)
qed

text \<open>The loop of \<open>findings\<close>.\<close>

lemma collect_findings_le:
  "length results < n \<Longrightarrow>
     collect_findings finding n pids results = take n (results @ List.map_filter finding pids)"
proof (induction pids arbitrary: results)
  case (Cons pid pids)
  show ?case
  proof (cases "finding pid")
    case None
    then show ?thesis using Cons by (simp add: List.map_filter_simps)
  next
    case (Some a)
    have full: "n - length results = 1" if "\<not> length results + 1 < n" using Cons.prems that by simp
    show ?thesis
      using Cons.IH [of "results @ [a]"] Cons.prems Some full
      by (cases "length results + 1 < n") (simp_all add: List.map_filter_simps Let_def)
  qed
qed (simp add: List.map_filter_simps)

lemma collect_findings_zero:
  "collect_findings finding 0 pids [] = List.map_filter finding (take 1 pids)"
  by (cases pids) (simp_all add: List.map_filter_simps split: option.split)

text \<open>The loop of \<open>account_risks\<close>.\<close>

lemma account_step_fold:
  "fold (account_step assessed) pids (risks, scores) =
     (risks @ List.map_filter (\<lambda>pid. map_option (principal_risk_of pid) (assessed pid)) pids,
      fold bucket_scores (List.map_filter assessed pids) scores)"
  by (induction pids arbitrary: risks scores)
     (simp_all add: List.map_filter_simps account_step_def split: option.split)

text \<open>The scores of the assessments that matched a rule of the category, once for each rule.\<close>

definition category_scores_of :: "string \<Rightarrow> risk_assessment \<Rightarrow> real list" where
  "category_scores_of category a =
     map (\<lambda>m. ra_score a) (filter (\<lambda>m. categorize_rule (mr_rule_id m) = category) (ra_matched_rules a))"

lemma map_of_push_score:
  "map_of (push_score c s scores) d = (if d = c then Some (unwrap_or [] (map_of scores c) @ [s]) else map_of scores d)"
  by (simp add: push_score_def update_conv')

lemma bucket_scores_entry:
  assumes "category \<noteq> []"
  shows "unwrap_or [] (map_of (bucket_scores a scores) category) =
    unwrap_or [] (map_of scores category) @ category_scores_of category a"
proof -
  have "unwrap_or [] (map_of (fold (\<lambda>m sc. let category = categorize_rule (mr_rule_id m) in
         if category \<noteq> [] then push_score category (ra_score a) sc else sc) ms scores) category) =
      unwrap_or [] (map_of scores category) @
        map (\<lambda>m. ra_score a) (filter (\<lambda>m. categorize_rule (mr_rule_id m) = category) ms)" for ms scores
    using assms
    by (induction ms arbitrary: scores) (auto simp: Let_def map_of_push_score unwrap_or_def)
  then show ?thesis by (simp add: bucket_scores_def category_scores_of_def)
qed

lemma bucket_scores_entries:
  assumes "category \<noteq> []"
  shows "unwrap_or [] (map_of (fold bucket_scores as scores) category) =
    unwrap_or [] (map_of scores category) @ concat (map (category_scores_of category) as)"
  by (induction as arbitrary: scores) (simp_all add: bucket_scores_entry [OF assms])

lemma fold_max_Max: "fold max ss (s :: real) = Max (set (s # ss))"
  by (metis Max.set_eq_fold)

lemma category_max_entry:
  "category_max scores category =
     (case unwrap_or [] (map_of scores category) of [] \<Rightarrow> None | ss \<Rightarrow> Some (Max (set ss)))"
  by (auto simp: category_max_def unwrap_or_def fold_max_Max split: option.split list.split)

text \<open>The assessments whose matched rules are in a category.\<close>

definition in_category :: "string \<Rightarrow> risk_assessment \<Rightarrow> bool" where
  "in_category category a \<longleftrightarrow> list_ex (\<lambda>m. categorize_rule (mr_rule_id m) = category) (ra_matched_rules a)"

lemma set_category_scores:
  "set (concat (map (category_scores_of category) as)) = ra_score ` {a \<in> set as. in_category category a}"
  by (auto simp: category_scores_of_def in_category_def list_ex_iff)

lemma category_max_exact:
  assumes "category \<noteq> []"
  shows "category_max (fold bucket_scores as []) category =
    (if list_ex (in_category category) as then Some (Max (ra_score ` {a \<in> set as. in_category category a})) else None)"
proof -
  have "unwrap_or [] (map_of (fold bucket_scores as []) category) = concat (map (category_scores_of category) as)"
    (is "?e = ?c")
    using bucket_scores_entries [OF assms, of as "[]"] by (simp add: unwrap_or_def)
  moreover have "?c = [] \<longleftrightarrow> \<not> list_ex (in_category category) as"
  proof -
    have "?c = [] \<longleftrightarrow> set ?c = {}" by (simp only: set_empty)
    then show ?thesis unfolding set_category_scores by (auto simp: list_ex_iff)
  qed
  ultimately show ?thesis
    unfolding category_max_entry list.case_eq_if using set_category_scores [of category as] by simp
qed

lemma category_max_unless:
  "category \<noteq> [] \<Longrightarrow> \<not> list_ex (in_category category) as \<Longrightarrow> category_max (fold bucket_scores as []) category = None"
  by (simp add: category_max_exact)

text \<open>The rule ids of a category: those of the matched rules, sorted and without duplicates.\<close>

lemma find_rule_ids_exact:
  "sorted_wrt (<) (find_rule_ids_by_category risks category) \<and>
   set (find_rule_ids_by_category risks category) =
     {i. categorize_rule i = category \<and> (\<exists>p\<in>set risks. i \<in> gmr_rule_id ` set (pr_matched_rules p))}"
  by (auto simp: find_rule_ids_by_category_def strict_sorted_iff)

lemma map_filter_set: "set (List.map_filter f xs) = {y. \<exists>x\<in>set xs. f x = Some y}"
  by (auto simp: map_filter_exists)

text \<open>The parts of a finding.\<close>

lemma map_filter_cached:
  "List.map_filter (cached_finding parse graph w bar) pids =
     map gql_risk_assessment_from (filter (\<lambda>a. bar \<le> ra_score a)
       (List.map_filter (\<lambda>pid. case read_risk_assessment graph w pid of Inr (Some t) \<Rightarrow> parse t | _ \<Rightarrow> None) pids))"
  by (induction pids)
     (auto simp: List.map_filter_simps cached_finding_def split: sum.split option.split)

lemma min_mod_word:
  fixes n :: "32 word"
  shows "sint n < 0 \<Longrightarrow> 2 ^ 63 \<le> nat (min (sint n) 1000 mod 2 ^ 64)"
    and "0 \<le> sint n \<Longrightarrow> nat (min (sint n) 1000 mod 2 ^ 64) = nat (min (sint n) 1000)"
proof -
  assume n: "sint n < 0"
  have "sint n mod 2 ^ 64 = (sint n + 2 ^ 64) mod 2 ^ 64" by (simp only: mod_add_self2)
  also have "\<dots> = sint n + 2 ^ 64" using n sint_ge [of n] by (intro mod_pos_pos_trivial) simp_all
  finally show "2 ^ 63 \<le> nat (min (sint n) 1000 mod 2 ^ 64)"
    using n sint_ge [of n] by (simp add: min_def le_nat_iff)
next
  assume "0 \<le> sint n"
  then have "min (sint n) 1000 mod 2 ^ 64 = min (sint n) 1000" by (intro mod_pos_pos_trivial) simp_all
  then show "nat (min (sint n) 1000 mod 2 ^ 64) = nat (min (sint n) 1000)" by (simp only:)
qed

lemma findings_limit_eq:
  "findings_limit limit_arg = nat (min (case limit_arg of None \<Rightarrow> 100 | Some l \<Rightarrow> sint l) 1000 mod 2 ^ 64) \<and>
   (findings_limit limit_arg = 0 \<longleftrightarrow> (case limit_arg of None \<Rightarrow> 100 | Some l \<Rightarrow> sint l) = 0)"
proof -
  let ?n = "unwrap_or 100 limit_arg"
  have n: "(case limit_arg of None \<Rightarrow> 100 | Some l \<Rightarrow> sint l) = sint ?n"
    by (cases limit_arg) (simp_all add: unwrap_or_def)
  have lim: "findings_limit limit_arg = nat (min (sint ?n) 1000 mod 2 ^ 64)"
  proof -
    have "as_usize m = nat (sint m mod 2 ^ 64)" for m :: "32 word"
      unfolding as_usize_def unat_eq_nat_uint uint_of_i32 ..
    then show ?thesis unfolding findings_limit_def Let_def by (simp add: min_def)
  qed
  moreover have "nat (min (sint ?n) 1000 mod 2 ^ 64) = 0 \<longleftrightarrow> sint ?n = 0"
    using min_mod_word [of ?n] by (cases "sint ?n < 0") (auto simp: min_def split: if_splits)
  ultimately show ?thesis unfolding n by simp
qed

subsection \<open>Properties\<close>

text \<open>The same over the service in memory. Once a batch run has scored a principal and its assessment can be
  read back, the resolver returns that assessment, whatever principal is ingested again
  afterwards with whatever permissions, and it writes nothing; refreshing computes the score from the permissions
  the principal has now and writes it after the old one.\<close>

theorem memory_returns_stale_scores:
  assumes "distinct (ps_principal_ids st)"
    and "batch_score_all print rules (memory_service st) config now [] = (w, r)"
    and "a \<in> set (bs_assessments r)" and "print a = Some t" and "parse t = Some a"
  shows "risk_score parse print rules' (memory_service (add_principal q perms n d h st)) config' now' (ra_principal_id a) w
      = (w, Inr (gql_risk_assessment_from a)) \<and>
    (perms \<noteq> [] \<longrightarrow> (\<exists>a' new. refresh_risk_score print rules' (memory_service (add_principal q perms n d h st)) config' now' q w
        = (w @ new, Inr (gql_risk_assessment_from a')) \<and>
      score_single_principal q (permissions_of perms) rules' (memory_service (add_principal q perms n d h st)) w config' now'
        = Inr a'))"
proof
  let ?st = "add_principal q perms n d h st"
  have nil: "after_writes s [] = s" for s by (simp add: after_writes_def)
  have base: "ps_risk_assessments (after_writes s w) p =
      (case map_of (rev w) p of Some t \<Rightarrow> Some t | None \<Rightarrow> ps_risk_assessments s p)" for s p
    using memory.read_writes [where st = s and w = "[]" and ws = w and q = p] by (simp add: nil split: option.split)
  have read: "ps_risk_assessments (after_writes ?st w) p = ps_risk_assessments (after_writes st w) p" for p
    unfolding base by (simp add: add_principal_def split: option.split)
  have "read_risk_assessment (memory_service ?st) w (ra_principal_id a) = Inr (Some t)"
    using memory_reads_scored [OF assms(1-4)] by (simp add: memory_service_def read)
  then show "risk_score parse print rules' (memory_service ?st) config' now' (ra_principal_id a) w
      = (w, Inr (gql_risk_assessment_from a))"
    by (simp add: risk_score_def assms(5))
  have perms: "get_effective_permissions (memory_service ?st) w q = Inr perms"
    by (simp add: memory_service_def after_writes_fields add_principal_def unwrap_or_def)
  have "\<exists>a'. score_single_principal q (permissions_of perms) rules' (memory_service ?st) w config' now' = Inr a'"
    by (cases "unwrap_or None (ps_shortest_paths (after_writes ?st w) q)") (simp_all add: score_single_principal_def blast_radius_compute_def path_to_admin_compute_def cross_account_compute_def
        memory_service_def Let_def)
  then obtain a' where a': "score_single_principal q (permissions_of perms) rules' (memory_service ?st) w config' now' = Inr a'"
    by blast
  show "perms \<noteq> [] \<longrightarrow> (\<exists>a' new. refresh_risk_score print rules' (memory_service ?st) config' now' q w
        = (w @ new, Inr (gql_risk_assessment_from a')) \<and>
      score_single_principal q (permissions_of perms) rules' (memory_service ?st) w config' now' = Inr a')"
    using a' by (auto simp: refresh_risk_score_def compute_and_return_def perms permissions_of_def Let_def split: option.split)
qed

text \<open>The database answers the stored text of a principal's assessment: one row with one column, whose text
  is the JSON string.\<close>

definition answers_assessment :: "json_parser \<Rightarrow> pg \<Rightarrow> string \<Rightarrow> string \<Rightarrow> string \<Rightarrow> bool" where
  "answers_assessment pj db graph pid t \<longleftrightarrow>
     pool_get db = Inr () \<and> pg_batch db age_setup = Inr () \<and>
     (\<exists>tx. pg_query db (raw_cypher_sql graph (cypher_read pid)) = Inr [[Some tx]] \<and> pj tx = Inr (JString t))"

lemma adapter_reads_answer:
  "answers_assessment pj db graph pid t \<Longrightarrow> t \<noteq> [] \<Longrightarrow> t \<noteq> ''null'' \<Longrightarrow>
     adapter_read_risk_assessment pj db graph pid = Inr (Some t)"
  by (auto simp: answers_assessment_def adapter_read_risk_assessment_def client_cypher_def query_rows_def
      on_connection_def get_column_def cached_text_def)

lemma adapter_service_simps [simp]:
  "read_risk_assessment (adapter_service pj db graph) w pid = adapter_read_risk_assessment pj (db w) graph pid"
  "get_effective_permissions (adapter_service pj db graph) w pid = adapter_get_effective_permissions pj (db w) graph pid"
  by (simp_all add: adapter_service_def)

text \<open>What a computation writes and returns.\<close>

lemma compute_and_return_wrote:
  assumes "compute_and_return print rules graph config now pid w = (w @ [(pid, t)], Inr g)"
  shows "\<exists>perms a. get_effective_permissions graph w pid = Inr perms \<and>
    score_single_principal pid (permissions_of perms) rules graph w config now = Inr a \<and>
    print a = Some t \<and> g = gql_risk_assessment_from a"
  using assms by (auto simp: compute_and_return_def Let_def split: sum.splits option.splits if_splits)

lemma risk_score_wrote:
  "risk_score parse print rules graph config now pid w = (w @ [(pid, t)], r) \<Longrightarrow>
     compute_and_return print rules graph config now pid w = (w @ [(pid, t)], r)"
  by (auto simp: risk_score_def split: sum.splits option.splits)

text \<open>C35: a cached score is never too old. Say the resolver, or a refresh, over the service of the deployed
  system computed an assessment, returned it and sent its text to the database. As long as the
  database answers that text for the principal, the resolver returns that same assessment, computed from the
  permissions of that time, and writes nothing: whatever the database now answers to every other query, whatever
  was written since and whatever the rules, the configuration and the clock are now. A refresh
  returns the assessment of the permissions the database answers now. (The text is read back as the assessment
  it was printed from; it is neither empty nor \<open>null\<close>.)\<close>

theorem stale_scores_are_returned:
  assumes "risk_score parse print rules (adapter_service pj db graph) config now pid w = (w @ [(pid, t)], Inr g) \<or>
      refresh_risk_score print rules (adapter_service pj db graph) config now pid w = (w @ [(pid, t)], Inr g)"
    and "\<And>a. print a = Some t \<Longrightarrow> parse t = Some a" and "t \<noteq> []" and "t \<noteq> ''null''"
    and "answers_assessment pj (db' w') graph pid t"
  shows "risk_score parse print rules' (adapter_service pj db' graph) config' now' pid w' = (w', Inr g) \<and>
    (\<exists>perms a. adapter_get_effective_permissions pj (db w) graph pid = Inr perms \<and>
       score_single_principal pid (permissions_of perms) rules (adapter_service pj db graph) w config now = Inr a \<and>
       g = gql_risk_assessment_from a) \<and>
    (\<forall>perms' a'. adapter_get_effective_permissions pj (db' w') graph pid = Inr perms' \<and> perms' \<noteq> [] \<and>
       score_single_principal pid (permissions_of perms') rules' (adapter_service pj db' graph) w' config' now' = Inr a' \<longrightarrow>
       snd (refresh_risk_score print rules' (adapter_service pj db' graph) config' now' pid w') =
         Inr (gql_risk_assessment_from a'))"
proof (intro conjI)
  obtain perms a where a: "get_effective_permissions (adapter_service pj db graph) w pid = Inr perms"
    "score_single_principal pid (permissions_of perms) rules (adapter_service pj db graph) w config now = Inr a"
    "print a = Some t" "g = gql_risk_assessment_from a"
    using compute_and_return_wrote [of print rules "adapter_service pj db graph" config now pid w t g]
      assms(1) [unfolded refresh_risk_score_def] risk_score_wrote by metis
  show "risk_score parse print rules' (adapter_service pj db' graph) config' now' pid w' = (w', Inr g)"
    using adapter_reads_answer [OF assms(5,3,4)] assms(2) [OF a(3)] by (simp add: risk_score_def a(4))
  show "\<exists>perms a. adapter_get_effective_permissions pj (db w) graph pid = Inr perms \<and>
       score_single_principal pid (permissions_of perms) rules (adapter_service pj db graph) w config now = Inr a \<and>
       g = gql_risk_assessment_from a"
    using a by auto
  show "\<forall>perms' a'. adapter_get_effective_permissions pj (db' w') graph pid = Inr perms' \<and> perms' \<noteq> [] \<and>
       score_single_principal pid (permissions_of perms') rules' (adapter_service pj db' graph) w' config' now' = Inr a' \<longrightarrow>
       snd (refresh_risk_score print rules' (adapter_service pj db' graph) config' now' pid w') =
         Inr (gql_risk_assessment_from a')"
    by (auto simp: refresh_risk_score_def compute_and_return_def permissions_of_def Let_def)
qed

text \<open>A database that knows one principal with one permission, and a later one in which the principal holds
  another permission and its assessment is stored.\<close>

definition permissions_sql :: string where
  "permissions_sql = multi_column_sql ''g'' (cypher_permissions ''alice'') 2"

definition risk_parser :: json_parser where
  "risk_parser s = (if s = ''stored'' then Inr (JString ''doc'') else Inl ''no JSON'')"

definition early_db :: "written \<Rightarrow> pg" where
  "early_db w = \<lparr>pool_get = Inr (), pg_batch = \<lambda>_. Inr (),
     pg_query = (\<lambda>sql. if sql = permissions_sql then Inr [[Some ''s3:GetObject'', Some ''*'']] else Inr []),
     column_error = \<lambda>_. []\<rparr>"

definition later_db :: "written \<Rightarrow> pg" where
  "later_db w = \<lparr>pool_get = Inr (), pg_batch = \<lambda>_. Inr (),
     pg_query = (\<lambda>sql. if sql = permissions_sql then Inr [[Some ''*'', Some ''*'']]
       else if sql = raw_cypher_sql ''g'' (cypher_read ''alice'') then Inr [[Some ''stored'']] else Inr []),
     column_error = \<lambda>_. []\<rparr>"

lemma early_signals:
  "adapter_read_risk_assessment risk_parser (early_db w) ''g'' ''alice'' = Inr None"
  "adapter_get_effective_permissions risk_parser (early_db w) ''g'' ''alice'' = Inr [(''s3:GetObject'', ''*'')]"
  "\<exists>a. score_single_principal ''alice'' perms rules (adapter_service risk_parser early_db ''g'') w config now = Inr a"
proof -
  have other: "raw_cypher_sql ''g'' c \<noteq> permissions_sql" for c
    by (simp add: raw_cypher_sql_def permissions_sql_def multi_column_sql_def cypher_call_def upt_conv_Cons show_nat.simps)
  then have none: "client_cypher risk_parser (early_db w) ''g'' c = Inr []" for c
    by (simp add: client_cypher_def query_rows_def on_connection_def early_db_def)
  show "adapter_read_risk_assessment risk_parser (early_db w) ''g'' ''alice'' = Inr None"
    by (simp add: adapter_read_risk_assessment_def none cached_text_def)
  show "adapter_get_effective_permissions risk_parser (early_db w) ''g'' ''alice'' = Inr [(''s3:GetObject'', ''*'')]"
    by (simp add: adapter_get_effective_permissions_def client_cypher_multi_column_def query_rows_def on_connection_def
        early_db_def permissions_sql_def [symmetric] multi_column_row_def get_column_def decode_columns_def risk_parser_def
        upt_conv_Cons permission_of_row_def List.map_filter_simps)
  have "node_columns ''g'' body \<noteq> permissions_sql" for body
    by (simp add: node_columns_def permissions_sql_def multi_column_sql_def cypher_call_def upt_conv_Cons show_nat.simps)
  then have "client_blast_radius (early_db w) ''g'' ''alice'' [] 6 = Inr []"
    by (simp add: client_blast_radius_def query_rows_def on_connection_def early_db_def blast_radius_def vle_pattern_def)
  then have "adapter_reachable_count (early_db w) ''g'' ''alice'' 6 = Inr 0"
    by (simp add: adapter_reachable_count_def)
  then show "\<exists>a. score_single_principal ''alice'' perms rules (adapter_service risk_parser early_db ''g'') w config now = Inr a"
    by (simp add: score_single_principal_def blast_radius_compute_def path_to_admin_compute_def cross_account_compute_def
        adapter_service_def adapter_shortest_path_to_admin_def adapter_cross_account_hop_count_def none Let_def)
qed

theorem stale_scores_are_returned_witness:
  "\<exists>a. risk_score (\<lambda>_. Some a) (\<lambda>b. if b = a then Some ''doc'' else None) [] (adapter_service risk_parser early_db ''g'')
       risk_config_default ''now'' ''alice'' [] = ([(''alice'', ''doc'')], Inr (gql_risk_assessment_from a)) \<and>
     risk_score (\<lambda>_. Some a) (\<lambda>b. if b = a then Some ''doc'' else None) [] (adapter_service risk_parser later_db ''g'')
       risk_config_default ''later'' ''alice'' [(''alice'', ''doc'')] =
       ([(''alice'', ''doc'')], Inr (gql_risk_assessment_from a)) \<and>
     adapter_get_effective_permissions risk_parser (later_db [(''alice'', ''doc'')]) ''g'' ''alice'' = Inr [(''*'', ''*'')]"
proof -
  obtain a where a: "score_single_principal ''alice'' (permissions_of [(''s3:GetObject'', ''*'')]) []
      (adapter_service risk_parser early_db ''g'') [] risk_config_default ''now'' = Inr a"
    using early_signals(3) by blast
  let ?print = "\<lambda>b. if b = a then Some ''doc'' else None"
  have first: "risk_score (\<lambda>_. Some a) ?print [] (adapter_service risk_parser early_db ''g'') risk_config_default ''now'' ''alice'' [] =
      ([] @ [(''alice'', ''doc'')], Inr (gql_risk_assessment_from a))"
    using a by (simp add: risk_score_def compute_and_return_def early_signals(1,2) Let_def) (simp add: permissions_of_def)
  have other: "raw_cypher_sql ''g'' c \<noteq> permissions_sql" for c
    by (simp add: raw_cypher_sql_def permissions_sql_def multi_column_sql_def cypher_call_def upt_conv_Cons show_nat.simps)
  have reparsed: "Some a = Some b" if "?print b = Some ''doc''" for b
    using that by (simp split: if_splits)
  have answers: "answers_assessment risk_parser (later_db w) ''g'' ''alice'' ''doc''" for w
    using other by (simp add: answers_assessment_def later_db_def risk_parser_def)
  from stale_scores_are_returned [where db' = later_db and w' = "[(''alice'', ''doc'')]" and rules' = "[]" and
      config' = risk_config_default and now' = "''later''", OF disjI1 [OF first] reparsed _ _ answers, THEN conjunct1]
  have "risk_score (\<lambda>_. Some a) ?print [] (adapter_service risk_parser later_db ''g'')
       risk_config_default ''later'' ''alice'' [(''alice'', ''doc'')] =
       ([(''alice'', ''doc'')], Inr (gql_risk_assessment_from a))"
    by simp
  moreover have "adapter_get_effective_permissions risk_parser (later_db [(''alice'', ''doc'')]) ''g'' ''alice'' = Inr [(''*'', ''*'')]"
    by (simp add: adapter_get_effective_permissions_def client_cypher_multi_column_def query_rows_def on_connection_def
        later_db_def permissions_sql_def [symmetric] multi_column_row_def get_column_def decode_columns_def risk_parser_def
        upt_conv_Cons permission_of_row_def List.map_filter_simps)
  ultimately show ?thesis using first by (intro exI [of _ a]) simp
qed

text \<open>C36: which findings are listed. They are the first so many of the cached assessments, in the order the
  principals are listed, whose score reaches the threshold of the requested severity (Medium when none is
  requested, any score for Info), cut off before they are sorted by score: a worse principal listed later is left
  out. A principal whose assessment cannot be read or does not parse is passed over. The limit is 100 unless
  given and at most 1000; a limit of zero
  still looks at the first principal, and a negative limit, read as an unsigned one, does not limit at all.\<close>

theorem findings_exact:
  "findings parse graph config sev limit_arg w =
     map_sum (\<lambda>_. gql_error_new ''Failed to list principals'') (\<lambda>ids.
       let n = (case limit_arg of None \<Rightarrow> 100 | Some l \<Rightarrow> sint l);
           limit = nat (min n 1000 mod 2 ^ 64);
           bar = (case sev of
               Some GqlCritical \<Rightarrow> th_critical (thresholds config)
             | Some GqlHigh \<Rightarrow> th_high (thresholds config)
             | Some GqlMedium \<Rightarrow> th_medium (thresholds config)
             | Some GqlLow \<Rightarrow> th_low (thresholds config)
             | Some GqlInfo \<Rightarrow> 0
             | None \<Rightarrow> th_medium (thresholds config));
           cached = (\<lambda>pid. case read_risk_assessment graph w pid of Inr (Some t) \<Rightarrow> parse t | _ \<Rightarrow> None);
           severe = (\<lambda>pids. map gql_risk_assessment_from
             (filter (\<lambda>a. bar \<le> ra_score a) (List.map_filter cached pids)))
       in sort_key (\<lambda>a. - gra_score a) (if n = 0 then severe (take 1 ids) else take limit (severe ids)))
       (list_principal_ids graph w) \<and>
   (if sint l < 0 then 2 ^ 63 \<le> nat (min (sint l) 1000 mod 2 ^ 64)
    else nat (min (sint l) 1000 mod 2 ^ 64) = nat (min (sint l) 1000))" for l :: "32 word"
proof (rule conjI)
  let ?n = "case limit_arg of None \<Rightarrow> 100 | Some l \<Rightarrow> sint l"
  let ?bar = "case sev of Some GqlCritical \<Rightarrow> th_critical (thresholds config) | Some GqlHigh \<Rightarrow> th_high (thresholds config)
    | Some GqlMedium \<Rightarrow> th_medium (thresholds config) | Some GqlLow \<Rightarrow> th_low (thresholds config)
    | Some GqlInfo \<Rightarrow> 0 | None \<Rightarrow> th_medium (thresholds config)"
  let ?cached = "\<lambda>pid. case read_risk_assessment graph w pid of Inr (Some t) \<Rightarrow> parse t | _ \<Rightarrow> None"
  have bar: "min_score_of config sev = ?bar"
    by (simp add: min_score_of_def unwrap_or_def split: option.split gql_severity.split)
  have found: "List.map_filter (cached_finding parse graph w (min_score_of config sev)) pids =
      map gql_risk_assessment_from (filter (\<lambda>a. ?bar \<le> ra_score a) (List.map_filter ?cached pids))" for pids
    unfolding bar by (rule map_filter_cached)
  have limit: "findings_limit limit_arg = nat (min ?n 1000 mod 2 ^ 64)" and zero: "findings_limit limit_arg = 0 \<longleftrightarrow> ?n = 0"
    using findings_limit_eq [of limit_arg] by blast+
  show "findings parse graph config sev limit_arg w =
     map_sum (\<lambda>_. gql_error_new ''Failed to list principals'') (\<lambda>ids.
       let n = ?n; limit = nat (min n 1000 mod 2 ^ 64); bar = ?bar; cached = ?cached;
           severe = (\<lambda>pids. map gql_risk_assessment_from (filter (\<lambda>a. bar \<le> ra_score a) (List.map_filter cached pids)))
       in sort_key (\<lambda>a. - gra_score a) (if n = 0 then severe (take 1 ids) else take limit (severe ids)))
       (list_principal_ids graph w)"
    unfolding Let_def limit [symmetric] zero [symmetric] found [symmetric]
    using collect_findings_le [of "[]" "findings_limit limit_arg"]
    by (cases "list_principal_ids graph w") (simp_all add: findings_def collect_findings_zero)
  show "if sint l < 0 then 2 ^ 63 \<le> nat (min (sint l) 1000 mod 2 ^ 64)
    else nat (min (sint l) 1000 mod 2 ^ 64) = nat (min (sint l) 1000)"
    using min_mod_word [of l] by (simp only: not_less split: if_split) blast
qed

text \<open>C33: the signals of an account. Each of the four is present exactly when a scored principal of the account
  matched a rule of the category; its score is the highest of those principals', its severity that of the score,
  and its rules are the matched ones of the category, sorted. The cascade score is the harmonic mean of the
  four, an absent one counting as zero; and the listed principals are the ten that score highest, all when there
  are fewer.\<close>

theorem account_signals_exact:
  "\<exists>as rest. as = List.map_filter assessed ids \<and>
     (let r = account_summary assessed config now acct ids; sig = ac_all_signals r;
          best = (\<lambda>c. Max (ra_score ` {a \<in> set as. in_category c a})) in
      map (\<lambda>s. s sig) [cf_escalation, oidc_drift, s3_boundary, kms_grant] =
        map (\<lambda>c. if list_ex (in_category c) as
           then Some \<lparr>sv_severity = gql_severity_from (severity_from (best c) (thresholds config)), sv_score = best c,
             sv_matched_rule_ids = sorted_list_of_set {mr_rule_id m |m. categorize_rule (mr_rule_id m) = c \<and>
               (\<exists>a\<in>set as. m \<in> set (ra_matched_rules a))}\<rparr>
           else None) CATEGORIES \<and>
      ac_cascade_risk_score r =
        harmonic_mean (map (\<lambda>c. Finite (if list_ex (in_category c) as then best c else 0)) CATEGORIES) \<and>
      mset (map pr_score (ac_top_principals r @ rest)) = mset (map ra_score as) \<and>
      sorted_wrt (\<lambda>p q. pr_score q \<le> pr_score p) (ac_top_principals r @ rest) \<and>
      (length (ac_top_principals r) = 10 \<or> rest = [] \<and> length (ac_top_principals r) < 10))"
proof -
  let ?as = "List.map_filter assessed ids"
  let ?risks = "List.map_filter (\<lambda>pid. map_option (principal_risk_of pid) (assessed pid)) ids"
  let ?sorted = "sort_key (\<lambda>p. - pr_score p) ?risks"
  let ?r = "account_summary assessed config now acct ids"
  have fold: "fold (account_step assessed) ids ([], []) = (?risks, fold bucket_scores ?as [])"
    by (simp add: account_step_fold)
  have ids: "find_rule_ids_by_category ?risks c = sorted_list_of_set {mr_rule_id m |m. categorize_rule (mr_rule_id m) = c \<and>
      (\<exists>a\<in>set ?as. m \<in> set (ra_matched_rules a))}" for c
  proof -
    have "concat (map (\<lambda>p. map gmr_rule_id (pr_matched_rules p)) ?risks) =
        concat (map (\<lambda>a. map mr_rule_id (ra_matched_rules a)) ?as)"
      by (induction ids)
         (simp_all add: List.map_filter_simps principal_risk_of_def gql_matched_rule_from_def comp_def split: option.split)
    then have "set (filter (\<lambda>i. categorize_rule i = c) (concat (map (\<lambda>p. map gmr_rule_id (pr_matched_rules p)) ?risks))) =
        {mr_rule_id m |m. categorize_rule (mr_rule_id m) = c \<and> (\<exists>a\<in>set ?as. m \<in> set (ra_matched_rules a))}"
      by auto
    then show ?thesis
      unfolding find_rule_ids_by_category_def sorted_list_of_set_sort_remdups [symmetric] by simp
  qed
  have cats: "c \<noteq> []" if "c \<in> set CATEGORIES" for c using that by (auto simp: CATEGORIES_def)
  have sorted: "sorted_wrt (\<lambda>p q. pr_score q \<le> pr_score p) ?sorted"
    using sorted_sort_key [of "\<lambda>p. - pr_score p" ?risks] by (simp add: sorted_map)
  have scores: "map pr_score ?risks = map ra_score ?as"
    by (induction ids) (simp_all add: List.map_filter_simps principal_risk_of_def split: option.split)
  have "mset (map pr_score ?sorted) = mset (map ra_score ?as)"
    using arg_cong [OF scores, of mset] by simp
  then have ms: "mset (map pr_score (take 10 ?sorted @ drop 10 ?sorted)) = mset (map ra_score ?as)" by simp
  have top: "ac_top_principals ?r = take 10 ?sorted" by (simp add: account_summary_def fold Let_def)
  have sig: "severity_value config ?risks (fold bucket_scores ?as []) c =
      (if list_ex (in_category c) ?as
       then Some \<lparr>sv_severity = gql_severity_from (severity_from (Max (ra_score ` {a \<in> set ?as. in_category c a})) (thresholds config)),
         sv_score = Max (ra_score ` {a \<in> set ?as. in_category c a}),
         sv_matched_rule_ids = sorted_list_of_set {mr_rule_id m |m. categorize_rule (mr_rule_id m) = c \<and>
           (\<exists>a\<in>set ?as. m \<in> set (ra_matched_rules a))}\<rparr>
       else None)" if "c \<in> set CATEGORIES" for c
    using category_max_exact [OF cats [OF that], of ?as]
    by (simp add: severity_value_def ids score_to_severity_config_eq)
  have sigs: "map (\<lambda>s. s (ac_all_signals ?r)) [cf_escalation, oidc_drift, s3_boundary, kms_grant] =
      map (severity_value config ?risks (fold bucket_scores ?as [])) CATEGORIES"
    by (simp add: account_summary_def fold Let_def CATEGORIES_def)
  have subs: "map (\<lambda>c. unwrap_or 0 (category_max (fold bucket_scores ?as []) c)) CATEGORIES =
      map (\<lambda>c. if list_ex (in_category c) ?as then Max (ra_score ` {a \<in> set ?as. in_category c a}) else 0) CATEGORIES"
    by (intro map_cong refl) (simp add: category_max_exact cats unwrap_or_def)
  have cascade: "ac_cascade_risk_score ?r = harmonic_mean (map Finite
      (map (\<lambda>c. unwrap_or 0 (category_max (fold bucket_scores ?as []) c)) CATEGORIES))"
    by (simp add: account_summary_def fold Let_def)
  show ?thesis
    unfolding Let_def sigs top cascade subs
    by (intro exI [of _ ?as] exI [of _ "drop 10 ?sorted"] conjI refl map_cong sig ms)
       (use sorted in \<open>auto simp: comp_def\<close>)
qed

definition sample_store :: principal_store where
  "sample_store = add_principal ''alice'' [(''s3:GetObject'', ''*'')] 0 None 0 in_memory_new"

theorem memory_returns_stale_scores_witness:
  "\<exists>a w. ra_principal_id a = ''alice'' \<and>
     risk_score (\<lambda>_. Some a) (\<lambda>_. Some ''doc'') []
       (memory_service (add_principal ''alice'' [(''*'', ''*'')] 0 None 0 sample_store)) risk_config_default ''later'' ''alice'' w
     = (w, Inr (gql_risk_assessment_from a))"
proof -
  let ?g = "memory_service sample_store"
  obtain a where a: "score_single_principal ''alice'' (permissions_of [(''s3:GetObject'', ''*'')]) [] ?g [] risk_config_default ''now'' = Inr a"
    by (simp add: score_single_principal_def blast_radius_compute_def path_to_admin_compute_def cross_account_compute_def
        memory_service_def after_writes_def sample_store_def add_principal_def unwrap_or_def Let_def)
  have ids: "ps_principal_ids sample_store = [''alice'']"
    by (simp add: sample_store_def add_principal_def in_memory_new_def)
  have "get_effective_permissions ?g [] ''alice'' = Inr [(''s3:GetObject'', ''*'')]" "list_principal_ids ?g [] = Inr [''alice'']"
    by (simp_all add: memory_service_def after_writes_fields ids) (simp add: sample_store_def add_principal_def unwrap_or_def)
  then have batch: "batch_score_all (\<lambda>_. Some ''doc'') [] ?g risk_config_default ''now'' [] =
      ([(''alice'', ''doc'')], \<lparr>bs_assessments = [a], total_principals = 1, scored_count = 1, skipped_stale = 0, bs_errors = []\<rparr>)"
    using a by (simp add: batch_score_all_def memory_service_def)
  have "ra_principal_id a = ''alice''" using scored_principal_id [OF a] .
  then show ?thesis
    using memory_returns_stale_scores [OF _ batch, of a "''doc''" "\<lambda>_. Some a" "[]" "''alice''" "[(''*'', ''*'')]" 0 None 0 risk_config_default "''later''"]
    by (auto simp: ids)
qed

text \<open>The resolvers put their arguments into literals, with one exception. In the queries of the adapter and of
  the policy, federation and account resolvers the literals are exactly the arguments, whatever characters they
  hold; in the query that looks for the principals of an account by prefix the account stands unescaped, and its
  first quote ends the literal.\<close>

theorem resolver_queries_carry_arguments:
  assumes "reads_literals lx"
  shows "body_holds lx (cypher_hops i) [i] \<and> body_holds lx (cypher_permissions i) [i] \<and>
    body_holds lx (cypher_read i) [i] \<and> body_holds lx (cypher_write i t) [i, t] \<and>
    body_holds lx (bucket_policy_cypher i) [i] \<and> body_holds lx (key_policy_cypher i) [i, i] \<and>
    body_holds lx (key_cypher i t) [i, t] \<and> body_holds lx (oidc_cypher i) [i] \<and>
    body_holds lx (account_cypher i) [i] \<and>
    (single_quote \<notin> set a \<and> backslash \<notin> set a \<longrightarrow>
      (\<exists>pre post rest. account_fallback_cypher (a @ single_quote # b) = pre @ single_quote # post \<and> single_quote \<notin> set pre \<and>
         lx post = Some (''arn:aws:iam::'' @ a, b @ rest)))"
proof (intro conjI)
  have line: "inert (query_line s) \<longleftrightarrow> inert s" for s
    by (simp add: query_line_def single_quote_def inert_def)
  show "body_holds lx (bucket_policy_cypher i) [i]"
  proof -
    have "bucket_policy_cypher i = (''MATCH (b:Bucket)'' @ query_line ''WHERE b.name = '') @ quoted (escape_cypher i) @
        (query_line ''OPTIONAL MATCH (b)-[:HasBucketPolicy]->(p:Policy)'' @
         query_line ''OPTIONAL MATCH (b)-[:AllowsAccessFrom]->(consumer:Principal)'' @
         query_line ''RETURN b.id, p.document, collect(DISTINCT consumer.id)'')"
      by (simp add: bucket_policy_cypher_def query_line_def)
    then show ?thesis using assms by (simp only:) (intro body_holds_text, simp_all add: line single_quote_def)
  qed
  show "body_holds lx (key_policy_cypher i) [i, i]" and "body_holds lx (key_cypher i t) [i, t]"
  proof -
    have two: "body_holds lx ((''MATCH (k:KmsKey)'' @ query_line ''WHERE k.id = '') @ quoted (escape_cypher i) @
        '' OR k.key_id = '' @ quoted (escape_cypher u) @ post) [i, u]" if "inert post" for u post
      using assms that by (intro body_holds_quoted body_holds_inert) (simp_all add: line single_quote_def)
    have "key_policy_cypher i = (''MATCH (k:KmsKey)'' @ query_line ''WHERE k.id = '') @ quoted (escape_cypher i) @
        '' OR k.key_id = '' @ quoted (escape_cypher i) @
        (query_line ''OPTIONAL MATCH (k)-[:HasKeyPolicy]->(p:Policy)'' @
         query_line ''OPTIONAL MATCH (k)-[:AllowsAccessFrom]->(user:Principal)'' @
         query_line ''RETURN k.id, p.document, collect(DISTINCT user.id)'')"
      by (simp add: key_policy_cypher_def query_line_def)
    then show "body_holds lx (key_policy_cypher i) [i, i]"
      by (simp only:) (intro two, simp add: line single_quote_def)
    have "key_cypher i t = (''MATCH (k:KmsKey)'' @ query_line ''WHERE k.id = '') @ quoted (escape_cypher i) @
        '' OR k.key_id = '' @ quoted (escape_cypher t) @
        (query_line ''OPTIONAL MATCH (k)-[:HasKeyPolicy]->(p:Policy)'' @
         query_line ''OPTIONAL MATCH (granter:Principal)-[:KmsGrantable]->(k)'' @
         query_line ''RETURN k.id, p.document, collect(DISTINCT granter.id)'')"
      by (simp add: key_cypher_def query_line_def)
    then show "body_holds lx (key_cypher i t) [i, t]"
      by (simp only:) (intro two, simp add: line single_quote_def)
  qed
  have spaces: "inert (replicate n CHR '' '')" for n by (simp add: inert_def single_quote_def)
  show "body_holds lx (oidc_cypher i) [i]"
    unfolding oidc_cypher_def using assms
    by (intro body_holds_id body_holds_inert) (simp_all add: spaces single_quote_def query_line_def)
  show "body_holds lx (account_cypher i) [i]"
    unfolding account_cypher_def using assms
    by (intro body_holds_id body_holds_inert) (simp_all add: spaces single_quote_def query_line_def)
  show "single_quote \<notin> set a \<and> backslash \<notin> set a \<longrightarrow>
      (\<exists>pre post rest. account_fallback_cypher (a @ single_quote # b) = pre @ single_quote # post \<and> single_quote \<notin> set pre \<and>
         lx post = Some (''arn:aws:iam::'' @ a, b @ rest))"
  proof
    assume a: "single_quote \<notin> set a \<and> backslash \<notin> set a"
    let ?pre = "''MATCH (p:Principal)'' @ query_line ''    WHERE p.id STARTS WITH ''"
    let ?rest = "'':'' @ [single_quote] @ query_line ''    RETURN DISTINCT p.id''"
    have "single_quote \<notin> set (''arn:aws:iam::'' @ a)" "backslash \<notin> set (''arn:aws:iam::'' @ a)"
      using a by (simp_all add: single_quote_def backslash_def)
    from lex_plain [OF assms this, of "b @ ?rest"]
    have "lx ((''arn:aws:iam::'' @ a) @ single_quote # b @ ?rest) = Some (''arn:aws:iam::'' @ a, b @ ?rest)" .
    moreover have "account_fallback_cypher (a @ single_quote # b) =
        ?pre @ single_quote # ((''arn:aws:iam::'' @ a) @ single_quote # b @ ?rest)"
      by (simp add: account_fallback_cypher_def query_line_def quoted_def single_quote_def)
    moreover have "single_quote \<notin> set ?pre" by (simp add: query_line_def single_quote_def)
    ultimately show "\<exists>pre post rest. account_fallback_cypher (a @ single_quote # b) = pre @ single_quote # post \<and>
        single_quote \<notin> set pre \<and> lx post = Some (''arn:aws:iam::'' @ a, b @ rest)" by blast
  qed
qed (simp_all add: assms cypher_hops_body cypher_permissions_body cypher_read_body cypher_write_body)

theorem resolver_queries_carry_arguments_witness:
  "has_literals read_literal (cypher_write [single_quote] ''{}'') [[single_quote], ''{}''] \<and>
   (\<exists>pre post rest. account_fallback_cypher (''1'' @ single_quote # '' RETURN 1'') = pre @ single_quote # post \<and>
      read_literal post = Some (''arn:aws:iam::1'', '' RETURN 1'' @ rest))"
  using resolver_queries_carry_arguments [OF read_literal_law, of "[single_quote]" "''{}''" "''1''" "'' RETURN 1''"]
  by (auto simp: body_holds_def single_quote_def backslash_def)

end
