(* ===== verification/Gql_Ingest.thy ===== *)
theory Gql_Ingest
  imports Ingest_Account Gql_Types
begin

section \<open>The ingestion resolvers\<close>

text \<open>
  \<open>resolvers/ingest.rs\<close> of \<open>activable-graphql\<close>: \<open>triggerIngest\<close>, which queues a job for each account, and the queries
  that read the table of jobs. The statements of a trigger are separate transactions: \<open>others\<close> is what other
  sessions do to the table before the statement for an account. \<open>show_uuid\<close> and \<open>show_time\<close> are the text casts of the
  database, \<open>new_id\<close> is the id it generates for an account's row, \<open>env_accounts\<close> the value of the environment
  variable \<open>INGEST_ACCOUNT_IDS\<close>.
\<close>

subsection \<open>Triggering\<close>

definition display_scheduler_error :: "(uuid \<Rightarrow> string) \<Rightarrow> scheduler_error \<Rightarrow> string" where
  "display_scheduler_error show_uuid e =
     (case e of
        scheduler_error.PoolError s \<Rightarrow> ''pool error: '' @ s
      | DatabaseError s \<Rightarrow> ''database error: '' @ s
      | RowParseError s \<Rightarrow> ''failed to parse row: '' @ s
      | NotFound i \<Rightarrow> ''job not found: '' @ show_uuid i
      | SchemaInitError s \<Rightarrow> ''schema initialization failed: '' @ s)"

definition validate_requested_account :: "string \<Rightarrow> gql_error + unit" where
  "validate_requested_account acct =
     (if length acct = 12 \<and> list_all is_ascii_digit acct then Inr ()
      else Inl (gql_error_new (''Invalid account_id '' @ quoted acct @ '': must be 12 digits'')))"

definition get_default_account_ids :: "string option \<Rightarrow> string list" where
  "get_default_account_ids env_accounts =
     List.map_filter (\<lambda>s. let trimmed = trim s in if trimmed = [] then None else Some trimmed)
       (split_on CHR '','' (unwrap_or [] env_accounts))"

definition ingest_payload :: "string \<Rightarrow> string list \<Rightarrow> string \<Rightarrow> json" where
  "ingest_payload provider regions acct =
     JObject [(''account_id'', JString acct), (''provider'', JString provider),
       (''regions'', JArray (map JString regions))]"

definition enqueue_account ::
  "(string \<Rightarrow> time) \<Rightarrow> (string \<Rightarrow> uuid) \<Rightarrow> string \<Rightarrow> string list \<Rightarrow> job_table \<Rightarrow> string
     \<Rightarrow> scheduler_error + uuid option \<times> job_table" where
  "enqueue_account now new_id provider regions tbl acct =
     enqueue tbl (now acct) (new_id acct) ''account_ingest'' (ingest_payload provider regions acct) (Some acct) 1 3"

fun enqueue_accounts ::
  "(uuid \<Rightarrow> string) \<Rightarrow> (string \<Rightarrow> job_table \<Rightarrow> job_table) \<Rightarrow> (string \<Rightarrow> time) \<Rightarrow> (string \<Rightarrow> uuid) \<Rightarrow> string \<Rightarrow> string list
     \<Rightarrow> string list \<Rightarrow> job_table \<Rightarrow> string list \<Rightarrow> job_table \<times> (gql_error + string list)" where
  "enqueue_accounts show_uuid others now new_id provider regions [] tbl job_ids = (tbl, Inr job_ids)"
| "enqueue_accounts show_uuid others now new_id provider regions (acct # accts) tbl job_ids =
     (case enqueue_account now new_id provider regions (others acct tbl) acct of
        Inl e \<Rightarrow> (others acct tbl, Inl (gql_error_new
          (''Failed to enqueue job for account '' @ acct @ '': '' @ display_scheduler_error show_uuid e)))
      | Inr (r, tbl') \<Rightarrow>
          enqueue_accounts show_uuid others now new_id provider regions accts tbl'
            (case r of Some jid \<Rightarrow> job_ids @ [show_uuid jid] | None \<Rightarrow> job_ids))"

definition requested_accounts :: "string option \<Rightarrow> string list option \<Rightarrow> gql_error + string list" where
  "requested_accounts env_accounts account_ids =
     (case account_ids of
        Some ids \<Rightarrow> Inr ids
      | None \<Rightarrow>
          let defaults = get_default_account_ids env_accounts in
          if defaults = [] then Inl (gql_error_new ''No account IDs provided and INGEST_ACCOUNT_IDS not configured'')
          else Inr defaults)"

definition trigger_ingest ::
  "(uuid \<Rightarrow> string) \<Rightarrow> (string \<Rightarrow> job_table \<Rightarrow> job_table) \<Rightarrow> (string \<Rightarrow> time) \<Rightarrow> (string \<Rightarrow> uuid) \<Rightarrow> string option
     \<Rightarrow> string \<Rightarrow> string list \<Rightarrow> string list option \<Rightarrow> job_table \<Rightarrow> job_table \<times> (gql_error + string list)" where
  "trigger_ingest show_uuid others now new_id env_accounts provider regions account_ids tbl =
     (case res_bind (requested_accounts env_accounts account_ids) (\<lambda>accounts.
          res_bind (traverse validate_requested_account accounts) (\<lambda>_. Inr accounts)) of
        Inl e \<Rightarrow> (tbl, Inl e)
      | Inr accounts \<Rightarrow> enqueue_accounts show_uuid others now new_id provider regions accounts tbl [])"

subsection \<open>Reading the table\<close>

record gql_ingest_stats =
  gis_total_nodes :: "32 word"
  gis_total_edges :: "32 word"
  gis_duration_secs :: int

record gql_ingest_service =
  gsv_name :: string
  gsv_status :: string
  gsv_node_count :: "32 word"
  gsv_edge_count :: "32 word"
  gsv_error :: "string option"

record gql_ingest_run =
  gir_id :: string
  gir_status :: string
  gir_created_at :: string
  gir_completed_at :: "string option"
  gir_worker_id :: "string option"
  gir_stats :: "gql_ingest_stats option"
  gir_error :: "string option"
  gir_started_at :: "string option"
  gir_services :: "gql_ingest_service list option"

definition status_of :: "string \<Rightarrow> string" where
  "status_of status_raw =
     (if status_raw = ''pending'' \<or> status_raw = ''running'' then ''RUNNING''
      else if status_raw = ''completed'' then ''COMPLETED''
      else if status_raw = ''failed'' then ''FAILED''
      else status_raw)"

definition int_field :: "json \<Rightarrow> string \<Rightarrow> int option" where
  "int_field v k = Option.bind (value_get v k) as_i64"

definition stats_of_result :: "json_parser \<Rightarrow> string option \<Rightarrow> gql_ingest_stats option" where
  "stats_of_result pj result_str =
     (case result_str of
        None \<Rightarrow> None
      | Some json_str \<Rightarrow>
          (case pj json_str of
             Inl e \<Rightarrow> None
           | Inr v \<Rightarrow>
               Option.bind (int_field v ''total_nodes'') (\<lambda>n.
               Option.bind (int_field v ''total_edges'') (\<lambda>m.
               Option.bind (int_field v ''duration_secs'') (\<lambda>d.
               Some \<lparr>gis_total_nodes = word_of_int n, gis_total_edges = word_of_int m, gis_duration_secs = d\<rparr>)))))"

record casts =
  show_uuid :: "uuid \<Rightarrow> string"
  show_time :: "time \<Rightarrow> string"
  show_jsonb :: "json \<Rightarrow> string"

definition run_of_row :: "json_parser \<Rightarrow> casts \<Rightarrow> job_row \<Rightarrow> gql_ingest_run" where
  "run_of_row pj c row =
     \<lparr>gir_id = show_uuid c (job_id row), gir_status = status_of (status row),
      gir_created_at = show_time c (created_at row), gir_completed_at = map_option (show_time c) (finished_at row),
      gir_worker_id = claimed_by row, gir_stats = stats_of_result pj (map_option (show_jsonb c) (job_result row)),
      gir_error = last_error row, gir_started_at = None, gir_services = None\<rparr>"

definition ingest_status :: "json_parser \<Rightarrow> casts \<Rightarrow> string \<Rightarrow> job_table \<Rightarrow> gql_ingest_run option" where
  "ingest_status pj c jid tbl =
     (case filter (\<lambda>row. show_uuid c (job_id row) = jid) tbl of
        [] \<Rightarrow> None
      | row # _ \<Rightarrow> Some (run_of_row pj c row))"

record gql_ingest_job_filter =
  jf_account_id :: "string option"
  jf_status :: "string option"

text \<open>\<open>WHERE p ORDER BY created_at DESC LIMIT 100\<close>\<close>

definition select_jobs :: "(job_row \<Rightarrow> bool) \<Rightarrow> job_table \<Rightarrow> job_table" where
  "select_jobs p tbl = take 100 (sort_key (\<lambda>row. - created_at row) (filter p tbl))"

definition ingest_jobs ::
  "json_parser \<Rightarrow> casts \<Rightarrow> gql_ingest_job_filter option \<Rightarrow> job_table \<Rightarrow> gql_ingest_run list" where
  "ingest_jobs pj c flt tbl =
     map (run_of_row pj c)
       (case map_option (\<lambda>f. (jf_account_id f, jf_status f)) flt of
          Some (Some a, Some s) \<Rightarrow>
            select_jobs (\<lambda>row. job_type row = ''account_ingest'' \<and> dedup_key row = Some a \<and> status row = s) tbl
        | Some (Some a, None) \<Rightarrow>
            select_jobs (\<lambda>row. job_type row = ''account_ingest'' \<and> dedup_key row = Some a) tbl
        | Some (None, Some s) \<Rightarrow>
            select_jobs (\<lambda>row. job_type row = ''account_ingest'' \<and> status row = s) tbl
        | _ \<Rightarrow> select_jobs (\<lambda>row. job_type row = ''account_ingest'') tbl)"

subsection \<open>Lemmas\<close>

lemma validate_requested_iff:
  "validate_requested_account a = Inr () \<longleftrightarrow> length a = 12 \<and> list_all is_ascii_digit a"
  by (simp add: validate_requested_account_def)

lemma traverse_validate_requested:
  "(\<exists>us. traverse validate_requested_account accounts = Inr us) \<longleftrightarrow>
     list_all (\<lambda>a. length a = 12 \<and> list_all is_ascii_digit a) accounts"
  by (induction accounts) (auto simp: res_iffs validate_requested_account_def)

text \<open>A trigger keeps the invariant of the table, so no account ever has two active jobs, whatever other sessions do
  between its statements.\<close>

lemma enqueue_accounts_table_ok:
  assumes "\<And>a t. table_ok t \<Longrightarrow> table_ok (others a t)"
  shows "table_ok tbl \<Longrightarrow> table_ok (fst (enqueue_accounts show_u others now new_id provider regions accounts tbl ids))"
proof (induction accounts arbitrary: tbl ids)
  case (Cons a accounts)
  have ok: "table_ok (others a tbl)" using assms Cons.prems .
  show ?case
  proof (cases "enqueue_account now new_id provider regions (others a tbl) a")
    case (Inl e)
    then show ?thesis using ok by simp
  next
    case (Inr q)
    obtain r tbl' where q: "q = (r, tbl')" by (cases q)
    have "table_ok tbl'"
      using enqueue_table_ok [OF ok _ Inr [unfolded enqueue_account_def q]] by (simp add: i32_max_def)
    then show ?thesis using Inr q Cons.IH by simp
  qed
qed simp

lemma trigger_table_ok:
  assumes "\<And>a t. table_ok t \<Longrightarrow> table_ok (others a t)" and "table_ok tbl"
  shows "table_ok (fst (trigger_ingest show_u others now new_id env_accounts provider regions account_ids tbl))"
  using assms enqueue_accounts_table_ok [OF assms(1)]
  by (simp add: trigger_ingest_def split: sum.split)

text \<open>The row a trigger inserts.\<close>

definition queued_row :: "(string \<Rightarrow> time) \<Rightarrow> (string \<Rightarrow> uuid) \<Rightarrow> string \<Rightarrow> string list \<Rightarrow> string \<Rightarrow> job_row" where
  "queued_row now new_id provider regions acct =
     \<lparr>job_id = new_id acct, job_type = ''account_ingest'', payload = ingest_payload provider regions acct,
      dedup_key = Some acct, status = ''pending'', attempts = 0, max_attempts = 3, priority = 1,
      created_at = now acct, claimed_by = None, claimed_at = None, started_at = None, finished_at = None,
      heartbeat_at = None, next_attempt_at = None, last_error = None, job_result = None, run_at = None\<rparr>"

abbreviation in_flight :: "job_table \<Rightarrow> string \<Rightarrow> bool" where
  "in_flight tbl a \<equiv> dedup_conflict tbl ''account_ingest'' (Some a)"

lemma active_keys_queued: "active_keys (map (queued_row now new_id provider regions) qs) = map (Pair ''account_ingest'') qs"
  by (induction qs) (simp_all add: queued_row_def active_row_def)

lemma distinct_count_list_le: "distinct xs \<Longrightarrow> count_list xs x \<le> 1"
  by (induction xs) auto

lemma active_count:
  "length (filter (\<lambda>row. active_row row \<and> job_type row = jt \<and> dedup_key row = Some k) tbl) =
     count_list (active_keys tbl) (jt, k)"
proof (induction tbl)
  case (Cons row tbl)
  then show ?case by (cases "dedup_key row") auto
qed simp

lemma in_flight_queued:
  "in_flight (tbl @ map (queued_row now new_id provider regions) qs) a \<longleftrightarrow> in_flight tbl a \<or> a \<in> set qs"
  by (auto simp: dedup_conflict_iff active_keys_queued)

lemma enqueue_accounts_exact:
  assumes "inj_on new_id (set accounts \<union> set qs)"
    and "new_id ` (set accounts \<union> set qs) \<inter> job_id ` set tbl = {}"
  shows "\<exists>new. subseq new accounts \<and> distinct new \<and> set new = {a \<in> set accounts. \<not> in_flight tbl a \<and> a \<notin> set qs} \<and>
    enqueue_accounts show_u (\<lambda>_ t. t) now new_id provider regions accounts
      (tbl @ map (queued_row now new_id provider regions) qs) ids =
    (tbl @ map (queued_row now new_id provider regions) (qs @ new), Inr (ids @ map (\<lambda>a. show_u (new_id a)) new))"
  using assms
proof (induction accounts arbitrary: qs ids)
  case Nil
  then show ?case by simp
next
  case (Cons a accounts)
  let ?rows = "map (queued_row now new_id provider regions)"
  have conflict: "in_flight (tbl @ ?rows qs) a \<longleftrightarrow> in_flight tbl a \<or> a \<in> set qs"
    by (rule in_flight_queued)
  show ?case
  proof (cases "in_flight tbl a \<or> a \<in> set qs")
    case True
    then have "enqueue_account now new_id provider regions (tbl @ ?rows qs) a = Inr (None, tbl @ ?rows qs)"
      using conflict by (simp add: enqueue_account_def enqueue_def)
    moreover obtain new where "subseq new accounts" "distinct new"
      "set new = {a \<in> set accounts. \<not> in_flight tbl a \<and> a \<notin> set qs}"
      "enqueue_accounts show_u (\<lambda>_ t. t) now new_id provider regions accounts (tbl @ ?rows qs) ids =
        (tbl @ ?rows (qs @ new), Inr (ids @ map (\<lambda>a. show_u (new_id a)) new))"
      using Cons.IH [of qs ids] Cons.prems by (auto simp: inj_on_def)
    ultimately show ?thesis using True by (intro exI [of _ new]) (auto intro: list_emb_Cons)
  next
    case False
    have "new_id a \<notin> job_id ` set (tbl @ ?rows qs)"
      using Cons.prems False by (auto simp: queued_row_def inj_on_def)
    then have "\<not> list_ex (\<lambda>row. job_id row = new_id a) (tbl @ ?rows qs)" by (force simp: list_ex_iff)
    then have "enqueue_account now new_id provider regions (tbl @ ?rows qs) a =
        Inr (Some (new_id a), tbl @ ?rows (qs @ [a]))"
      using conflict False by (simp add: enqueue_account_def enqueue_def del: list_ex_append) (simp add: queued_row_def)
    moreover obtain new where "subseq new accounts" "distinct new"
      "set new = {b \<in> set accounts. \<not> in_flight tbl b \<and> b \<notin> set (qs @ [a])}"
      "enqueue_accounts show_u (\<lambda>_ t. t) now new_id provider regions accounts (tbl @ ?rows (qs @ [a])) (ids @ [show_u (new_id a)]) =
        (tbl @ ?rows ((qs @ [a]) @ new), Inr ((ids @ [show_u (new_id a)]) @ map (\<lambda>a. show_u (new_id a)) new))"
      using Cons.IH [of "qs @ [a]" "ids @ [show_u (new_id a)]"] Cons.prems by auto
    ultimately show ?thesis using False by (intro exI [of _ "a # new"]) auto
  qed
qed

text \<open>A count read as a signed 32-bit integer.\<close>

lemma sint_count:
  fixes n :: nat
  shows "sint (of_nat n :: 32 word) = int n \<longleftrightarrow> n < 2 ^ 31"
    and "n < 2 ^ 32 \<Longrightarrow> 2 ^ 31 \<le> n \<Longrightarrow> sint (of_nat n :: 32 word) < 0"
proof -
  let ?w = "of_nat n :: 32 word"
  have less: "sint ?w < 2 ^ 31" using sint_lt [of ?w] by simp
  have "signed_take_bit 31 (int n) = int n" if "n < 2 ^ 31"
    using that by (intro signed_take_bit_int_eq_self) simp_all
  moreover have "sint ?w = signed_take_bit 31 (int n)" by (simp add: signed_of_nat)
  ultimately show "sint ?w = int n \<longleftrightarrow> n < 2 ^ 31" using less by (cases "n < 2 ^ 31") simp_all
  have "take_bit 32 (uint ?w) = uint ?w"
    using uint_bounded [of ?w] by (intro take_bit_int_eq_self) simp_all
  then have "uint ?w = take_bit 32 (sint ?w)" by (simp only: sint_uint) (simp add: take_bit_signed_take_bit)
  then show "n < 2 ^ 32 \<Longrightarrow> 2 ^ 31 \<le> n \<Longrightarrow> sint ?w < 0"
    using less by (cases "0 \<le> sint ?w") (simp_all add: take_bit_int_eq_self unsigned_of_nat take_bit_nat_eq_self)
qed

subsection \<open>Properties\<close>

text \<open>C34: what a trigger queues. When every requested account has twelve digits, the accounts without a job in
  flight get one pending row each, in the order they were first requested, and its ids are returned; nothing else
  changes, and afterwards every requested account has exactly one active job. When one account is malformed
  nothing is queued and an error is returned.\<close>

theorem trigger_queues_missing_jobs:
  assumes "table_ok tbl" and "inj_on new_id (set accounts)" and "new_id ` set accounts \<inter> job_id ` set tbl = {}"
  shows "let (tbl', r) = trigger_ingest show_u (\<lambda>_ t. t) now new_id env_accounts provider regions (Some accounts) tbl in
    if list_all (\<lambda>a. length a = 12 \<and> list_all is_ascii_digit a) accounts
    then \<exists>new. subseq new accounts \<and> distinct new \<and> set new = {a \<in> set accounts. \<not> in_flight tbl a} \<and>
      tbl' = tbl @ map (queued_row now new_id provider regions) new \<and> r = Inr (map (\<lambda>a. show_u (new_id a)) new) \<and>
      list_all (\<lambda>a. length (filter (\<lambda>row. active_row row \<and> job_type row = ''account_ingest'' \<and> dedup_key row = Some a) tbl') = 1)
        accounts
    else tbl' = tbl \<and> (\<exists>e. r = Inl e)"
proof (cases "list_all (\<lambda>a. length a = 12 \<and> list_all is_ascii_digit a) accounts")
  case False
  then obtain e where "traverse validate_requested_account accounts = Inl e"
    using traverse_validate_requested [of accounts] by (cases "traverse validate_requested_account accounts") auto
  then show ?thesis using False by (simp add: trigger_ingest_def requested_accounts_def)
next
  case True
  let ?run = "trigger_ingest show_u (\<lambda>_ t. t) now new_id env_accounts provider regions (Some accounts) tbl"
  obtain us where "traverse validate_requested_account accounts = Inr us"
    using True traverse_validate_requested [of accounts] by auto
  then have run: "?run = enqueue_accounts show_u (\<lambda>_ t. t) now new_id provider regions accounts tbl []"
    by (simp add: trigger_ingest_def requested_accounts_def)
  obtain new where new: "subseq new accounts" "distinct new" "set new = {a \<in> set accounts. \<not> in_flight tbl a}"
    "?run = (tbl @ map (queued_row now new_id provider regions) new, Inr (map (\<lambda>a. show_u (new_id a)) new))"
    using enqueue_accounts_exact [of new_id accounts "[]" tbl show_u now provider regions "[]"] assms(2,3)
    unfolding run by auto
  let ?tbl' = "tbl @ map (queued_row now new_id provider regions) new"
  have ok: "table_ok ?tbl'"
    using trigger_table_ok [of "\<lambda>_ t. t" tbl show_u now new_id env_accounts provider regions "Some accounts"] assms(1) new(4)
    by simp
  have one: "length (filter (\<lambda>row. active_row row \<and> job_type row = ''account_ingest'' \<and> dedup_key row = Some a) ?tbl') = 1"
    if "a \<in> set accounts" for a
  proof -
    let ?act = "filter (\<lambda>row. active_row row \<and> job_type row = ''account_ingest'' \<and> dedup_key row = Some a) ?tbl'"
    have "in_flight ?tbl' a" using that new(3) unfolding in_flight_queued by blast
    then have "?act \<noteq> []" by (auto simp: dedup_conflict_def list_ex_iff filter_empty_conv)
    then have "0 < length ?act" by (rule length_greater_0_conv [THEN iffD2])
    moreover have "length ?act \<le> 1"
    proof -
      have "length ?act = count_list (active_keys ?tbl') (''account_ingest'', a)" by (rule active_count)
      also have "\<dots> \<le> 1" using ok unfolding table_ok_def by (metis distinct_count_list_le)
      finally show ?thesis .
    qed
    ultimately show ?thesis by linarith
  qed
  then show ?thesis using new True by (auto simp: list_all_iff)
qed

definition sample_accounts :: "string list" where
  "sample_accounts = [''123456789012'', ''123456789013'', ''123456789012'']"

theorem trigger_queues_missing_jobs_witness:
  "\<exists>tbl' r. trigger_ingest (\<lambda>_. ''id'') (\<lambda>_ t. t) (\<lambda>_. 0) length None ''aws'' [] (Some [''123456789012'']) [] = (tbl', r) \<and>
     (\<exists>new. set new = {''123456789012''} \<and> tbl' = map (queued_row (\<lambda>_. 0) length ''aws'' []) new)"
proof -
  have digits: "list_all is_ascii_digit ''123456789012''" by (simp add: is_ascii_digit_def)
  have "{a \<in> set [''123456789012'']. \<not> in_flight [] a} = {''123456789012''}" by (simp add: dedup_conflict_def)
  then show ?thesis
    using trigger_queues_missing_jobs [of "[]" length "[''123456789012'']" "\<lambda>_. ''id''" "\<lambda>_. 0" None "''aws''" "[]"] digits
    by (cases "trigger_ingest (\<lambda>_. ''id'') (\<lambda>_ t. t) (\<lambda>_. 0) length None ''aws'' [] (Some [''123456789012'']) []") auto
qed

text \<open>A queued job is one the handler accepts, and the regions and provider it carries change nothing. The
  payload decodes to what was requested, the resolver and the handler accept the same account ids, and a run does
  the same whatever regions and provider were asked for.\<close>

theorem requested_regions_are_ignored:
  "payload_of_value (ingest_payload provider regions acct) =
     Some \<lparr>pl_account_id = acct, pl_provider = provider, pl_regions = regions\<rparr> \<and>
   (validate_requested_account acct = Inr () \<longleftrightarrow> validate_account_id acct = Inr ()) \<and>
   handle serde_error debug_error env self (ingest_payload provider regions acct) sent =
     handle serde_error debug_error env self (ingest_payload provider' regions' acct) sent"
proof -
  have strings: "strings_of_array (JArray (map JString rs)) = Some rs" for rs
    by (induction rs) (auto simp: strings_of_array_def List.map_filter_simps split: if_splits)
  have payload: "payload_of_value (ingest_payload p rs acct) =
      Some \<lparr>pl_account_id = acct, pl_provider = p, pl_regions = rs\<rparr>" for p rs
    by (simp add: payload_of_value_def ingest_payload_def payload_fields_def default_field_def strings)
  then show ?thesis
    by (simp add: handle_def validate_requested_account_def validate_account_id_def)
qed

text \<open>The counts a finished run reports through the API. From the result the handler stored, the resolver reads
  the counts and the duration when they fit 63 bits, and shows the counts modulo the width of 32 bits: a count is
  shown as it is exactly below two to the 31st, and negative from there up to two to the 32nd.\<close>

theorem reported_counts_wrap:
  assumes "pj (show_jsonb c (run_stats_to_json st)) = Inr (run_stats_to_json st)"
    and "job_result row = Some (run_stats_to_json st)"
  shows "gir_stats (run_of_row pj c row) =
      (if total_nodes st < 2 ^ 63 \<and> total_edges st < 2 ^ 63 \<and> duration_secs st < 2 ^ 63
       then Some \<lparr>gis_total_nodes = of_nat (total_nodes st), gis_total_edges = of_nat (total_edges st),
         gis_duration_secs = int (duration_secs st)\<rparr>
       else None) \<and>
    (sint (of_nat (total_nodes st) :: 32 word) = int (total_nodes st) \<longleftrightarrow> total_nodes st < 2 ^ 31) \<and>
    (total_nodes st < 2 ^ 32 \<longrightarrow> 2 ^ 31 \<le> total_nodes st \<longrightarrow> sint (of_nat (total_nodes st) :: 32 word) < 0)"
proof -
  have get: "value_get (run_stats_to_json st) ''total_nodes'' = Some (nat_json (total_nodes st))"
    "value_get (run_stats_to_json st) ''total_edges'' = Some (nat_json (total_edges st))"
    "value_get (run_stats_to_json st) ''duration_secs'' = Some (nat_json (duration_secs st))"
    by (simp_all add: run_stats_to_json_def json_obj_def value_get_def insort_key_left_comm)
  have num: "as_i64 (nat_json n) = (if n < 2 ^ 63 then Some (int n) else None)" for n
    by (simp add: as_i64_def nat_json_def)
  show ?thesis
    using assms sint_count [of "total_nodes st"] by (simp add: run_of_row_def stats_of_result_def int_field_def get num)
qed

definition sample_stats :: ingest_run_stats where
  "sample_stats = \<lparr>per_type = [], total_nodes = 2 ^ 31, total_edges = 7, dropped_edges = None, skipped_rules = [],
     duration_secs = 3, run_errors = []\<rparr>"

theorem reported_counts_wrap_witness:
  "gir_stats (run_of_row (\<lambda>_. Inr (run_stats_to_json sample_stats))
       \<lparr>show_uuid = \<lambda>_. [], show_time = \<lambda>_. [], show_jsonb = \<lambda>_. []\<rparr>
       ((queued_row (\<lambda>_. 0) length [] [] [])\<lparr>job_result := Some (run_stats_to_json sample_stats)\<rparr>)) =
     Some \<lparr>gis_total_nodes = 2 ^ 31, gis_total_edges = 7, gis_duration_secs = 3\<rparr> \<and>
   sint (2 ^ 31 :: 32 word) < 0"
proof -
  let ?row = "(queued_row (\<lambda>_. 0) length [] [] [])\<lparr>job_result := Some (run_stats_to_json sample_stats)\<rparr>"
  let ?c = "\<lparr>show_uuid = \<lambda>_. [], show_time = \<lambda>_. [], show_jsonb = \<lambda>_. []\<rparr>"
  have "job_result ?row = Some (run_stats_to_json sample_stats)" by simp
  from reported_counts_wrap [where pj = "\<lambda>_. Inr (run_stats_to_json sample_stats)" and c = ?c, OF refl this]
  show ?thesis by (simp add: sample_stats_def)
qed

end
