(* ===== verification/Gql_Server.thy ===== *)
theory Gql_Server
  imports Scheduler_Loops Gql_Traversal Gql_Policy_Risks Gql_Risk Gql_Ingest
begin

section \<open>The GraphQL server\<close>

text \<open>
  \<open>schema.rs\<close>, \<open>main.rs\<close> and \<open>resolvers/health.rs\<close> of \<open>activable-graphql\<close>: the fields of the two root types and
  the resolver each is forwarded to, the settings and the scheduler the process starts with, and the handler of
  requests. A \<open>server\<close> is the job system of \<open>Scheduler\<close> with the writes to the graph and the triggers in progress:
  the statements of a trigger, the workers and the reaper interleave. Parsing a query text and choosing the fields
  it asks for is the GraphQL library.
\<close>

subsection \<open>Health\<close>

definition healthz :: "pg \<Rightarrow> gql_error + string" where
  "healthz db = (case pool_get db of Inr _ \<Rightarrow> Inr ''healthy'' | Inl e \<Rightarrow> Inl (gql_error_new ''Database unavailable''))"

definition health_with_pool :: "pg \<Rightarrow> nat \<times> string" where
  "health_with_pool db = (case pool_get db of Inr _ \<Rightarrow> (200, ''Healthy'') | Inl e \<Rightarrow> (503, ''Unhealthy''))"

subsection \<open>The root types\<close>

text \<open>What the schema hands to its resolvers: the clients (with the answers the database gives after the writes so
  far), the configuration, the rules, and the parsers and printers of the library.\<close>

record app =
  ap_db :: "written \<Rightarrow> pg"
  ap_graph_name :: string
  ap_config :: risk_config
  ap_rules :: "escalation_rule list"
  ap_pj :: json_parser
  ap_print_json :: "json \<Rightarrow> string"
  ap_parse :: assessment_parser
  ap_print :: assessment_printer
  ap_iter :: "account_map \<Rightarrow> account_map"
  ap_casts :: casts
  ap_env_accounts :: "string option"

definition ap_graph :: "app \<Rightarrow> graph_service" where
  "ap_graph ap = adapter_service (ap_pj ap) (ap_db ap) (ap_graph_name ap)"

datatype query =
    FindNode string string
  | WalkEdges string "string list" string "32 word"
  | PathFinder string string "string list" "32 word"
  | BlastRadius string "32 word"
  | Subgraph string "32 word"
  | IngestStatus string
  | IngestJobs "gql_ingest_job_filter option"
  | Healthz
  | RiskScore string
  | Findings "gql_severity option" "32 word option"
  | KeyManagementRisks string
  | ResourcePolicyRisks "string option" "string option"
  | AccountRisks string
  | FederationRisks string

datatype mutation =
    TriggerIngest string "string list" "string list option"
  | RefreshRiskScore string

datatype answer =
    NodeAnswer "gql_node option"
  | RefsAnswer "gql_node_ref list"
  | PathsAnswer "gql_path list"
  | SubgraphAnswer gql_subgraph
  | RunAnswer "gql_ingest_run option"
  | RunsAnswer "gql_ingest_run list"
  | TextAnswer string
  | AssessmentAnswer gql_risk_assessment
  | AssessmentsAnswer "gql_risk_assessment list"
  | KeyAnswer gql_key_management_risks
  | PolicyAnswer "gql_resource_policy_risks option"
  | AccountAnswer gql_account_risks
  | FederationAnswer gql_federation_risks
  | IdsAnswer "string list"

definition answered :: "('a \<Rightarrow> answer) \<Rightarrow> gql_error + 'a \<Rightarrow> gql_error + answer" where
  "answered f r = res_bind r (\<lambda>x. Inr (f x))"

text \<open>\<open>now\<close> is the time of the request as the resolvers write it.\<close>

fun query_root :: "app \<Rightarrow> string \<Rightarrow> job_table \<Rightarrow> query \<Rightarrow> written \<Rightarrow> written \<times> (gql_error + answer)" where
  "query_root ap now tbl (FindNode label i) w =
     (w, answered NodeAnswer (resolve_find_node (ap_db ap w) (ap_graph_name ap) label i))"
| "query_root ap now tbl (WalkEdges start_id edge_types d lim_arg) w =
     (w, answered RefsAnswer (resolve_walk_edges (ap_db ap w) (ap_graph_name ap) start_id edge_types d lim_arg))"
| "query_root ap now tbl (PathFinder start_id end_id edge_pattern max_hops) w =
     (w, answered PathsAnswer (resolve_path_finder (ap_db ap w) (ap_graph_name ap) start_id end_id edge_pattern max_hops))"
| "query_root ap now tbl (BlastRadius node depth) w =
     (w, answered RefsAnswer (resolve_blast_radius (ap_db ap w) (ap_graph_name ap) node depth))"
| "query_root ap now tbl (Subgraph center radius) w =
     (w, answered SubgraphAnswer (resolve_subgraph (ap_db ap w) (ap_graph_name ap) center radius))"
| "query_root ap now tbl (IngestStatus jid) w =
     (w, Inr (RunAnswer (ingest_status (ap_pj ap) (ap_casts ap) jid tbl)))"
| "query_root ap now tbl (IngestJobs flt) w =
     (w, Inr (RunsAnswer (ingest_jobs (ap_pj ap) (ap_casts ap) flt tbl)))"
| "query_root ap now tbl Healthz w = (w, answered TextAnswer (healthz (ap_db ap w)))"
| "query_root ap now tbl (RiskScore pid) w =
     map_prod id (answered AssessmentAnswer)
       (risk_score (ap_parse ap) (ap_print ap) (ap_rules ap) (ap_graph ap) (ap_config ap) now pid w)"
| "query_root ap now tbl (Findings min_severity lim_arg) w =
     (w, answered AssessmentsAnswer (findings (ap_parse ap) (ap_graph ap) (ap_config ap) min_severity lim_arg w))"
| "query_root ap now tbl (KeyManagementRisks key_id) w =
     (w, answered KeyAnswer (key_management_risks (ap_pj ap) (ap_print_json ap) (ap_db ap w) (ap_graph_name ap) key_id))"
| "query_root ap now tbl (ResourcePolicyRisks bucket key_id) w =
     (w, answered PolicyAnswer (resource_policy_risks (ap_pj ap) (ap_print_json ap) (ap_iter ap) (ap_db ap w)
        (ap_graph_name ap) bucket key_id))"
| "query_root ap now tbl (AccountRisks acct) w =
     (w, answered AccountAnswer (account_risks (ap_pj ap) (ap_db ap w) (ap_graph_name ap) (ap_graph ap) w
        (ap_rules ap) (ap_config ap) now now acct))"
| "query_root ap now tbl (FederationRisks acct) w =
     (w, answered FederationAnswer (federation_risks (ap_pj ap) (ap_db ap w) (ap_graph_name ap) acct))"

fun mutation_root ::
  "app \<Rightarrow> string \<Rightarrow> (string \<Rightarrow> job_table \<Rightarrow> job_table) \<Rightarrow> (string \<Rightarrow> time) \<Rightarrow> (string \<Rightarrow> uuid) \<Rightarrow> mutation
     \<Rightarrow> job_table \<times> written \<Rightarrow> (job_table \<times> written) \<times> (gql_error + answer)" where
  "mutation_root ap now others clock_of new_id (TriggerIngest provider regions account_ids) (tbl, w) =
     (case trigger_ingest (show_uuid (ap_casts ap)) others clock_of new_id (ap_env_accounts ap) provider regions
        account_ids tbl of (tbl', r) \<Rightarrow> ((tbl', w), answered IdsAnswer r))"
| "mutation_root ap now others clock_of new_id (RefreshRiskScore pid) (tbl, w) =
     (case refresh_risk_score (ap_print ap) (ap_rules ap) (ap_graph ap) (ap_config ap) now pid w of
        (w', r) \<Rightarrow> ((tbl, w'), answered AssessmentAnswer r))"

subsection \<open>The request handler\<close>

record 'v graphql_request =
  gr_query :: string
  gr_variables :: "'v option"
  gr_operation_name :: "string option"

definition graphql_errors :: "string \<Rightarrow> json" where
  "graphql_errors msg = JObject [(''errors'', JArray [JObject [(''message'', JString msg)]])]"

text \<open>\<open>from_value\<close> reads the variables, \<open>execute\<close> is the library's execution of a request, whose answer may have no
  JSON form.\<close>

definition graphql_handler ::
  "(json \<Rightarrow> 'v option) \<Rightarrow> ('v graphql_request \<Rightarrow> json option) \<Rightarrow> json \<Rightarrow> json" where
  "graphql_handler from_value execute request_body =
     (case request_body of
        JObject obj \<Rightarrow>
          let request = \<lparr>gr_query = unwrap_or [] (Option.bind (obj_get obj ''query'') as_str),
                gr_variables = Option.bind (obj_get obj ''variables'') from_value,
                gr_operation_name = Option.bind (obj_get obj ''operationName'') as_str\<rparr> in
          unwrap_or (graphql_errors ''Failed to serialize response'') (execute request)
      | _ \<Rightarrow> graphql_errors ''Invalid GraphQL request'')"

subsection \<open>Start-up\<close>

definition parse_usize :: "string \<Rightarrow> nat option" where
  "parse_usize s =
     (let digits = (case s of c # rest \<Rightarrow> if c = CHR ''+'' then rest else s | [] \<Rightarrow> s) in
      if digits \<noteq> [] \<and> list_all is_ascii_digit digits \<and> read_nat digits < 2 ^ 64
      then Some (read_nat digits) else None)"

record settings =
  st_db_host :: string
  st_db_port :: nat
  st_db_user :: string
  st_db_password :: string
  st_db_name :: string
  st_graph_name :: string
  st_server_port :: nat
  st_max_connections :: nat

text \<open>\<open>None\<close>: a number does not parse and the process ends.\<close>

definition settings_from_env :: "(string \<Rightarrow> string option) \<Rightarrow> settings option" where
  "settings_from_env env =
     (let var = (\<lambda>name d. unwrap_or d (env name)) in
      Option.bind (parse_u16 (var ''ACTIVABLE_DB_PORT'' ''5432'')) (\<lambda>db_port.
      Option.bind (parse_u16 (var ''PORT'' ''8080'')) (\<lambda>server_port.
      Option.bind (parse_usize (var ''ACTIVABLE_MAX_CONNECTIONS'' ''20'')) (\<lambda>max_connections.
      Some \<lparr>st_db_host = var ''ACTIVABLE_DB_HOST'' ''localhost'', st_db_port = db_port,
        st_db_user = var ''ACTIVABLE_DB_USER'' ''activable'',
        st_db_password = var ''ACTIVABLE_DB_PASSWORD'' ''activable'',
        st_db_name = var ''ACTIVABLE_DB_NAME'' ''activable'',
        st_graph_name = var ''ACTIVABLE_GRAPH_NAME'' ''cloud'', st_server_port = server_port,
        st_max_connections = max_connections\<rparr>))))"

definition index_statements :: "string list" where
  "index_statements = map (\<lambda>label. ''SELECT * FROM cypher('' @ quoted ''activable'' @
       '', $$ CREATE INDEX IF NOT EXISTS ON :'' @ label @ ''(id) $$) AS (r agtype)'')
     [''Principal'', ''Permission'', ''Bucket'', ''KmsKey'', ''Policy'']"

definition job_store_config_of :: "settings \<Rightarrow> job_store_config" where
  "job_store_config_of st =
     \<lparr>cfg_host = st_db_host st, cfg_port = st_db_port st, cfg_user = st_db_user st,
      cfg_password = st_db_password st, cfg_dbname = st_db_name st, cfg_pool_size = st_max_connections st,
      cfg_backoff_base_seconds = 2\<rparr>"

definition server_scheduler :: "(json \<Rightarrow> handler_outcome) \<Rightarrow> scheduler_error + scheduler" where
  "server_scheduler ingest_handler =
     res_bind (builder_build (builder_reap_check_interval 30 (builder_reap_threshold_seconds 300
       (builder_concurrency 4 (builder_register ''account_ingest'' ingest_handler builder_new))))) start"

subsection \<open>The server as a system\<close>

text \<open>A trigger in progress has the accounts it has not queued yet and the ids it will answer; it ends when none is
  left, or with the first error of the store.\<close>

record trigger =
  tr_provider :: string
  tr_regions :: "string list"
  tr_left :: "string list"
  tr_ids :: "uuid list"

record server =
  sv_jobs :: system
  sv_written :: written
  sv_triggers :: "trigger list"

datatype action =
    Ask app string query
  | Refresh app string string
  | Trigger "string option" string "string list" "string list option"
  | QueueNext nat uuid
  | Work event

definition server_config :: config where
  "server_config = \<lparr>cfg_types = [''account_ingest''], cfg_threshold = 300, cfg_base = 2\<rparr>"

definition init_server :: "time \<Rightarrow> server" where
  "init_server t = \<lparr>sv_jobs = init_system t, sv_written = [], sv_triggers = []\<rparr>"

definition queue_next :: "uuid \<Rightarrow> trigger \<Rightarrow> system \<Rightarrow> trigger \<times> system" where
  "queue_next new_id t s =
     (case tr_left t of
        [] \<Rightarrow> (t, s)
      | acct # accts \<Rightarrow>
          (case enqueue_account (\<lambda>_. clock s) (\<lambda>_. new_id) (tr_provider t) (tr_regions t) (table s) acct of
             Inl e \<Rightarrow> (t\<lparr>tr_left := []\<rparr>, s)
           | Inr (r, tbl) \<Rightarrow>
               (t\<lparr>tr_left := accts, tr_ids := tr_ids t @ (case r of Some jid \<Rightarrow> [jid] | None \<Rightarrow> [])\<rparr>,
                s\<lparr>table := tbl\<rparr>)))"

text \<open>No other part of the process queues jobs.\<close>

definition is_enqueue :: "event \<Rightarrow> bool" where
  "is_enqueue e = (case e of Enqueue _ _ _ _ _ _ \<Rightarrow> True | _ \<Rightarrow> False)"

fun exec_action :: "action \<Rightarrow> server \<Rightarrow> server option" where
  "exec_action (Ask ap now q) sv =
     Some (sv\<lparr>sv_written := fst (query_root ap now (table (sv_jobs sv)) q (sv_written sv))\<rparr>)"
| "exec_action (Refresh ap now pid) sv =
     Some (sv\<lparr>sv_written :=
       fst (refresh_risk_score (ap_print ap) (ap_rules ap) (ap_graph ap) (ap_config ap) now pid (sv_written sv))\<rparr>)"
| "exec_action (Trigger env_accounts provider regions account_ids) sv =
     (case res_bind (requested_accounts env_accounts account_ids) (\<lambda>accounts.
          res_bind (traverse validate_requested_account accounts) (\<lambda>_. Inr accounts)) of
        Inl e \<Rightarrow> Some sv
      | Inr accounts \<Rightarrow> Some (sv\<lparr>sv_triggers := sv_triggers sv @
          [\<lparr>tr_provider = provider, tr_regions = regions, tr_left = accounts, tr_ids = []\<rparr>]\<rparr>))"
| "exec_action (QueueNext i new_id) sv =
     (if i < length (sv_triggers sv)
      then case queue_next new_id (sv_triggers sv ! i) (sv_jobs sv) of (t, s) \<Rightarrow>
        Some (sv\<lparr>sv_jobs := s, sv_triggers := (sv_triggers sv)[i := t]\<rparr>)
      else None)"
| "exec_action (Work e) sv =
     (if is_enqueue e then None
      else map_option (\<lambda>s. sv\<lparr>sv_jobs := s\<rparr>) (exec_event server_config e (sv_jobs sv)))"

text \<open>What a worker finishes its job with is what the handler made of the payload of the job, or that its task
  panicked or was cancelled; a job of a type without a handler is finished without an outcome.\<close>

definition outcome_of :: "json \<Rightarrow> handler_outcome \<Rightarrow> bool" where
  "outcome_of pl outcome \<longleftrightarrow> outcome = Panicked \<or> outcome = Cancelled \<or>
     (\<exists>serde_error debug_error env sent sent'.
        handle serde_error debug_error env account_ingest_handler_new pl sent = Some (sent', outcome))"

definition dispatched :: "system \<Rightarrow> string \<Rightarrow> handler_outcome option \<Rightarrow> bool" where
  "dispatched s w outcome \<longleftrightarrow>
     (\<exists>row\<in>set (table s). working s w = Some (job_id row) \<and>
        (case outcome of
           None \<Rightarrow> job_type row \<notin> set (cfg_types server_config)
         | Some out \<Rightarrow> job_type row \<in> set (cfg_types server_config) \<and> outcome_of (payload row) out))"

definition enabled :: "bool \<Rightarrow> server \<Rightarrow> action \<Rightarrow> bool" where
  "enabled reaping sv a \<longleftrightarrow>
     (case a of
        Work (Finish w r outcome) \<Rightarrow> dispatched (sv_jobs sv) w outcome
      | Work e \<Rightarrow> reaping \<or> no_reaping e
      | _ \<Rightarrow> True)"

inductive served :: "bool \<Rightarrow> server \<Rightarrow> bool" for reaping where
  served_init: "served reaping (init_server t)"
| served_step: "served reaping sv \<Longrightarrow> enabled reaping sv a \<Longrightarrow> exec_action a sv = Some sv' \<Longrightarrow> served reaping sv'"

text \<open>The scheduler of the process starts, with four workers, and serves what \<open>server_config\<close> says.\<close>

lemma server_scheduler_starts:
  "\<exists>sch. server_scheduler h = Inr sch \<and> sch_workers sch = 4 \<and> sch_reaper_running sch \<and>
     registered_types (sch_handlers sch) = cfg_types server_config \<and> sch_reap_threshold sch = cfg_threshold server_config"
  by (simp add: server_scheduler_def builder_build_def builder_reap_check_interval_def builder_reap_threshold_seconds_def
      builder_concurrency_def builder_register_def builder_new_def registry_new_def build_def start_def register_def
      registered_types_def server_config_def)

text \<open>The one query that writes: an assessment that is not cached is computed and stored.\<close>

lemma only_risk_score_writes: "fst (query_root ap now tbl q w) = w \<or> (\<exists>pid. q = RiskScore pid)"
  by (cases q) simp_all

text \<open>The indexes are created in the graph \<open>activable\<close>, while the graph of an unset environment is \<open>cloud\<close>.\<close>

lemma indexes_in_another_graph:
  "map_option st_graph_name (settings_from_env (\<lambda>_. None)) = Some ''cloud'' \<and>
   list_all (\<lambda>stmt. starts_with stmt (''SELECT * FROM cypher('' @ quoted ''activable'' @ '','')) index_statements"
proof
  have "parse_u16 ''5432'' = Some 5432" "parse_u16 ''8080'' = Some 8080"
    by (simp_all add: parse_u16_def read_nat_def is_ascii_digit_def digit_value_def)
  moreover have "parse_usize ''20'' = Some 20"
    by (simp add: parse_usize_def read_nat_def is_ascii_digit_def digit_value_def)
  ultimately show "map_option st_graph_name (settings_from_env (\<lambda>_. None)) = Some ''cloud''"
    by (simp add: settings_from_env_def unwrap_or_def)
  show "list_all (\<lambda>stmt. starts_with stmt (''SELECT * FROM cypher('' @ quoted ''activable'' @ '','')) index_statements"
    by (simp add: index_statements_def starts_with_def quoted_def)
qed

subsection \<open>Properties of rows that the job system keeps\<close>

text \<open>The errors a job can be failed with, and whether it may be retried then.\<close>

definition failures_of :: "event \<Rightarrow> (string \<times> bool) set" where
  "failures_of e =
     (case e of
        Finish w r None \<Rightarrow> {(''no handler found for job type'', False)}
      | Finish w r (Some (HandlerErr err)) \<Rightarrow> {(err_message err, retryable err)}
      | Finish w r (Some Panicked) \<Rightarrow> {(''handler panicked'', False)}
      | Reap r \<Rightarrow> {(''stale heartbeat'', True)}
      | _ \<Rightarrow> {})"

lemma update_where_all:
  "list_all P tbl \<Longrightarrow> (\<And>row. row \<in> set tbl \<Longrightarrow> p row \<Longrightarrow> P row \<Longrightarrow> P (f row)) \<Longrightarrow> list_all P (update_where p f tbl)"
  by (auto simp: update_where_def list_all_iff)

locale job_rows =
  fixes P :: "job_row \<Rightarrow> bool" and failures :: "(string \<times> bool) set"
  assumes claimed: "status row = ''pending'' \<Longrightarrow> P row \<Longrightarrow> P (claim_update now w row)"
    and completed: "P row \<Longrightarrow> P (complete_update now res row)"
    and failed: "(err, re) \<in> failures \<Longrightarrow> status row = ''running'' \<Longrightarrow> P row \<Longrightarrow> P (fail_update now d err re row)"
    and beat: "P row \<Longrightarrow> P (heartbeat_update now row)"
begin

lemma claim_all:
  assumes ok: "table_ok tbl" and "list_all P tbl" and "claim tbl now locked jts w = Inr (m, tbl')"
  shows "list_all P tbl'"
  using claim_cases [OF ok, of now locked jts w]
proof (elim disjE bexE exE conjE)
  fix row j
  assume row: "row \<in> set tbl" "claimable now locked jts row"
    and "claim tbl now locked jts w = Inr (Some j, update_where (\<lambda>x. job_id x = job_id row) (claim_update now w) tbl)"
  moreover have "P (claim_update now w x)" if "x \<in> set tbl" "job_id x = job_id row" "P x" for x
    using that row unique_row [OF ok that(1) row(1) that(2)] by (intro claimed) (simp_all add: claimable_def)
  ultimately show ?thesis using assms(2,3) by (auto intro: update_where_all)
qed (use assms in simp)

lemma complete_all: "list_all P tbl \<Longrightarrow> complete tbl now jid res = Inr (j, tbl') \<Longrightarrow> list_all P tbl'"
  by (auto simp: complete_def res_iffs split: option.splits intro: update_where_all completed)

lemma fail_all:
  "list_all P tbl \<Longrightarrow> (err, re) \<in> failures \<Longrightarrow> fail tbl now base r jid err re = Inr (j, tbl') \<Longrightarrow> list_all P tbl'"
  by (auto simp: fail_def Let_def res_iffs split: option.splits intro!: update_where_all failed)

lemma finish_all:
  "list_all P tbl \<Longrightarrow> failures_of (Finish w r outcome) \<subseteq> failures \<Longrightarrow> list_all P (finish_job tbl now base r jid outcome)"
  by (auto simp: finish_job_def Let_def failures_of_def split: option.splits handler_outcome.splits sum.splits
      intro: complete_all fail_all)

lemma reap_all: "list_all P tbl \<Longrightarrow> (''stale heartbeat'', True) \<in> failures \<Longrightarrow> list_all P (snd (reap_one now base r jid (n, tbl)))"
  by (auto simp: reap_one_def split: sum.splits intro: fail_all)

lemma heartbeat_all: "list_all P tbl \<Longrightarrow> list_all P (update_heartbeat tbl now jid)"
  by (auto simp: update_heartbeat_def intro: update_where_all beat)

lemma event_all:
  assumes "table_ok (table s)" and all: "list_all P (table s)" and "exec_event cfg e s = Some s'"
    and fs: "failures_of e \<subseteq> failures" and "\<not> is_enqueue e"
  shows "list_all P (table s')"
proof (cases e)
  case (Claim w locked)
  then show ?thesis
    using assms claim_all [OF assms(1,2)]
    by (cases "claim (table s) (clock s) locked (cfg_types cfg) w") (auto split: if_splits option.splits)
next
  case (Finish w r outcome)
  then show ?thesis using assms finish_all [OF all, of w r outcome] by (auto split: option.splits)
next
  case (Reap r)
  then show ?thesis using assms by (auto simp: failures_of_def split: list.splits intro: reap_all)
qed (use assms in \<open>auto simp: is_enqueue_def split: option.splits if_splits intro: heartbeat_all\<close>)

end

text \<open>A job of the server: an account's job whose payload the handler accepts.\<close>

definition ingest_row :: "job_row \<Rightarrow> bool" where
  "ingest_row row \<longleftrightarrow> job_type row = ''account_ingest'' \<and> max_attempts row = 3 \<and>
     (case payload_of_value (payload row) of
        None \<Rightarrow> False
      | Some p \<Rightarrow> dedup_key row = Some (pl_account_id p) \<and> validate_account_id (pl_account_id p) = Inr ())"

definition ran_once :: "job_row \<Rightarrow> bool" where
  "ran_once row \<longleftrightarrow> attempts row \<le> 1 \<and> (status row = ''pending'' \<longrightarrow> attempts row = 0)"

definition failed_with :: "(string \<times> bool) set \<Rightarrow> job_row \<Rightarrow> bool" where
  "failed_with fs row \<longleftrightarrow> last_error row \<in> insert None (Some ` fst ` fs)"

lemmas row_updates = claim_update_def complete_update_def fail_update_def heartbeat_update_def

interpretation ingest_kept: job_rows ingest_row UNIV
  by unfold_locales (simp_all add: ingest_row_def row_updates split: option.splits)

interpretation once_kept: job_rows ran_once "{(''handler panicked'', False)}"
  by unfold_locales (auto simp: ran_once_def row_updates)

interpretation errors_kept: job_rows "failed_with fs" fs for fs
  by unfold_locales (force simp: failed_with_def row_updates)+

lemma queued_row_kept:
  assumes "validate_account_id acct = Inr ()"
  shows "ingest_row (queued_row now new_id provider regions acct)" and "ran_once (queued_row now new_id provider regions acct)"
    and "failed_with fs (queued_row now new_id provider regions acct)"
  using assms requested_regions_are_ignored
  by (simp_all add: ingest_row_def ran_once_def failed_with_def queued_row_def)

lemma enqueue_account_rows:
  assumes "enqueue_account now new_id provider regions tbl acct = Inr (r, tbl')"
  shows "tbl' = tbl \<or> tbl' = tbl @ [queued_row now new_id provider regions acct]"
  using assms by (auto simp: enqueue_account_def enqueue_def queued_row_def split: if_splits)

lemma queue_next_cases:
  obtains "snd (queue_next new_id t s) = s" "tr_left (fst (queue_next new_id t s)) = []"
  | acct accts r tbl where "tr_left t = acct # accts" "snd (queue_next new_id t s) = s\<lparr>table := tbl\<rparr>"
      "tr_left (fst (queue_next new_id t s)) = accts"
      "enqueue_account (\<lambda>_. clock s) (\<lambda>_. new_id) (tr_provider t) (tr_regions t) (table s) acct = Inr (r, tbl)"
      "exec_event server_config (Enqueue new_id ''account_ingest'' (ingest_payload (tr_provider t) (tr_regions t) acct)
         (Some acct) 1 3) s = Some (s\<lparr>table := tbl\<rparr>)"
proof (cases "tr_left t")
  case (Cons acct accts)
  show ?thesis
  proof (cases "enqueue_account (\<lambda>_. clock s) (\<lambda>_. new_id) (tr_provider t) (tr_regions t) (table s) acct")
    case (Inr q)
    then show ?thesis
      using that(2) [of acct accts] Cons
      by (cases q) (simp add: queue_next_def enqueue_account_def i32_max_def)
  qed (use that(1) Cons in \<open>simp add: queue_next_def\<close>)
qed (use that(1) in \<open>simp add: queue_next_def\<close>)

lemma handled_outcome:
  assumes "ingest_row row" and "outcome_of (payload row) out"
  shows "failures_of (Finish w r (Some out)) \<subseteq> {(''handler panicked'', False)}"
proof -
  have "handle serde_error debug_error env self (payload row) sent \<noteq> Some (sent', HandlerErr e)"
    for serde_error debug_error env self sent sent' e
    using assms(1) ingest_account_never_fails
    by (auto simp: ingest_row_def handle_def split: option.splits sum.splits ingest_failure.splits)
  then show ?thesis
    using assms(2) by (auto simp: outcome_of_def failures_of_def split: handler_outcome.splits)
qed

text \<open>The invariant of the server.\<close>

definition server_failures :: "bool \<Rightarrow> (string \<times> bool) set" where
  "server_failures reaping =
     (if reaping then {(''handler panicked'', False), (''stale heartbeat'', True)} else {(''handler panicked'', False)})"

definition server_row :: "bool \<Rightarrow> job_row \<Rightarrow> bool" where
  "server_row reaping row \<longleftrightarrow> ingest_row row \<and> failed_with (server_failures reaping) row \<and> (reaping \<or> ran_once row)"

definition server_ok :: "bool \<Rightarrow> server \<Rightarrow> bool" where
  "server_ok reaping sv \<longleftrightarrow>
     reachable server_config (\<lambda>e. reaping \<or> no_reaping e) (sv_jobs sv) \<and>
     list_all (server_row reaping) (table (sv_jobs sv)) \<and>
     list_all (\<lambda>t. list_all (\<lambda>a. validate_account_id a = Inr ()) (tr_left t)) (sv_triggers sv)"

lemma server_row_all:
  "list_all (server_row reaping) tbl \<longleftrightarrow> list_all ingest_row tbl \<and> list_all (failed_with (server_failures reaping)) tbl \<and>
     (reaping \<or> list_all ran_once tbl)"
  by (auto simp: server_row_def list_all_iff)

lemma event_keeps_rows:
  assumes "table_ok (table s)" and rows: "list_all (server_row reaping) (table s)"
    and "exec_event server_config e s = Some s'" and "\<not> is_enqueue e"
    and fs: "failures_of e \<subseteq> server_failures reaping"
  shows "list_all (server_row reaping) (table s')"
  using assms ingest_kept.event_all [OF assms(1) _ assms(3) _ assms(4)] errors_kept.event_all [OF assms(1) _ assms(3) fs assms(4)]
    once_kept.event_all [OF assms(1) _ assms(3) _ assms(4)]
  by (cases reaping) (simp_all add: server_row_all server_failures_def)

lemma enabled_failures:
  assumes "enabled reaping sv (Work e)" and "list_all (server_row reaping) (table (sv_jobs sv))"
  shows "failures_of e \<subseteq> server_failures reaping \<and> (reaping \<or> no_reaping e)"
proof (cases e)
  case (Finish w r outcome)
  then obtain row where row: "row \<in> set (table (sv_jobs sv))"
    and outcome: "case outcome of None \<Rightarrow> job_type row \<notin> set (cfg_types server_config)
         | Some out \<Rightarrow> job_type row \<in> set (cfg_types server_config) \<and> outcome_of (payload row) out"
    using assms(1) by (auto simp: enabled_def dispatched_def)
  have ingest: "ingest_row row" using assms(2) row by (simp add: list_all_iff server_row_def)
  then obtain out where out: "outcome = Some out" "outcome_of (payload row) out"
    using outcome by (cases outcome) (simp_all add: ingest_row_def server_config_def)
  then have "failures_of e \<subseteq> {(''handler panicked'', False)}"
    using handled_outcome [OF ingest, of out w r] Finish by simp
  then show ?thesis using Finish by (auto simp: server_failures_def no_reaping_def)
qed (use assms in \<open>auto simp: enabled_def failures_of_def server_failures_def no_reaping_def\<close>)

lemma served_ok: "served reaping sv \<Longrightarrow> server_ok reaping sv"
proof (induction rule: served.induct)
  case (served_init t)
  show ?case by (auto simp: server_ok_def init_server_def init_system_def [symmetric] intro: reachable_init)
     (simp add: init_system_def)
next
  case (served_step sv a sv')
  then have reach: "reachable server_config (\<lambda>e. reaping \<or> no_reaping e) (sv_jobs sv)"
    and rows: "list_all (server_row reaping) (table (sv_jobs sv))"
    and left: "list_all (\<lambda>t. list_all (\<lambda>a. validate_account_id a = Inr ()) (tr_left t)) (sv_triggers sv)"
    by (simp_all add: server_ok_def)
  show ?case
  proof (cases a)
    case (Trigger env_accounts provider regions account_ids)
    have "list_all (\<lambda>a. validate_account_id a = Inr ()) accounts"
      if "traverse validate_requested_account accounts = Inr us" for accounts us
      using that traverse_validate_requested [of accounts] by (auto simp: validate_account_id_def list_all_iff)
    then show ?thesis
      using served_step.hyps reach rows left Trigger by (auto simp: server_ok_def res_iffs split: sum.splits)
  next
    case (QueueNext i new_id)
    let ?t = "sv_triggers sv ! i"
    have i: "i < length (sv_triggers sv)"
      and sv': "sv' = sv\<lparr>sv_jobs := snd (queue_next new_id ?t (sv_jobs sv)),
        sv_triggers := (sv_triggers sv)[i := fst (queue_next new_id ?t (sv_jobs sv))]\<rparr>"
      using served_step.hyps QueueNext by (auto split: if_splits prod.splits)
    have valid: "list_all (\<lambda>a. validate_account_id a = Inr ()) (tr_left ?t)"
      using left i by (simp add: list_all_length)
    have updated: "list_all Q xs \<Longrightarrow> Q x \<Longrightarrow> list_all Q (xs[i := x])" for Q and xs :: "trigger list" and x
      using set_update_subset_insert [of xs i x] by (auto simp: list_all_iff)
    show ?thesis
    proof (rule queue_next_cases [of new_id ?t "sv_jobs sv"])
      fix acct accts r tbl
      assume t: "tr_left ?t = acct # accts" "tr_left (fst (queue_next new_id ?t (sv_jobs sv))) = accts"
        and s: "snd (queue_next new_id ?t (sv_jobs sv)) = (sv_jobs sv)\<lparr>table := tbl\<rparr>"
        and enq: "enqueue_account (\<lambda>_. clock (sv_jobs sv)) (\<lambda>_. new_id) (tr_provider ?t) (tr_regions ?t)
          (table (sv_jobs sv)) acct = Inr (r, tbl)"
        and event: "exec_event server_config (Enqueue new_id ''account_ingest''
          (ingest_payload (tr_provider ?t) (tr_regions ?t) acct) (Some acct) 1 3) (sv_jobs sv) =
          Some ((sv_jobs sv)\<lparr>table := tbl\<rparr>)"
      have "list_all (server_row reaping) tbl"
        using enqueue_account_rows [OF enq] rows valid queued_row_kept t(1) by (auto simp: server_row_def)
      moreover have "reachable server_config (\<lambda>e. reaping \<or> no_reaping e) ((sv_jobs sv)\<lparr>table := tbl\<rparr>)"
        using reachable_step [OF reach _ event] by (simp add: no_reaping_def)
      ultimately show ?thesis
        using valid t left by (simp add: server_ok_def sv' s updated)
    qed (use reach rows left in \<open>simp add: server_ok_def sv' updated\<close>)
  next
    case (Work e)
    then obtain s where s: "exec_event server_config e (sv_jobs sv) = Some s" "sv' = sv\<lparr>sv_jobs := s\<rparr>" "\<not> is_enqueue e"
      using served_step.hyps by (auto split: if_splits)
    have "failures_of e \<subseteq> server_failures reaping \<and> (reaping \<or> no_reaping e)"
      using enabled_failures rows served_step.hyps Work by simp
    then show ?thesis
      using event_keeps_rows [OF reachable_table_ok [OF reach] rows s(1,3)] reachable_step [OF reach _ s(1)] left s(2)
      by (simp add: server_ok_def)
  qed (use served_step.hyps reach rows left in \<open>auto simp: server_ok_def\<close>)
qed

text \<open>The steps of a trigger that nothing interleaves with are the resolver.\<close>

lemma queue_next_done: "tr_left t = [] \<Longrightarrow> fold (\<lambda>a (t, s). queue_next (new_id a) t s) accts (t, s) = (t, s)"
  by (induction accts) (simp_all add: queue_next_def)

lemma trigger_steps_are_resolver:
  assumes "tr_left t = accts"
  shows "case fold (\<lambda>a (t, s). queue_next (new_id a) t s) accts (t, s) of (t', s') \<Rightarrow>
    tr_left t' = [] \<and> clock s' = clock s \<and> working s' = working s \<and>
    (case enqueue_accounts show_u (\<lambda>_ tbl. tbl) (\<lambda>_. clock s) new_id (tr_provider t) (tr_regions t) accts (table s)
        (map show_u (tr_ids t)) of
       (tbl, Inr ids) \<Rightarrow> table s' = tbl \<and> map show_u (tr_ids t') = ids
     | (tbl, Inl e) \<Rightarrow> table s' = tbl)"
  using assms
proof (induction accts arbitrary: t s)
  case (Cons a accts)
  show ?case
  proof (cases "enqueue_account (\<lambda>_. clock s) (\<lambda>_. new_id a) (tr_provider t) (tr_regions t) (table s) a")
    case (Inl e)
    then have "queue_next (new_id a) t s = (t\<lparr>tr_left := []\<rparr>, s)"
      using Cons.prems by (simp add: queue_next_def)
    then show ?thesis
      using Inl by (simp add: queue_next_done enqueue_account_def)
  next
    case (Inr q)
    obtain r tbl where q: "q = (r, tbl)" by (cases q)
    let ?t = "t\<lparr>tr_left := accts, tr_ids := tr_ids t @ (case r of Some jid \<Rightarrow> [jid] | None \<Rightarrow> [])\<rparr>"
    have "enqueue_account (\<lambda>_. clock s) new_id (tr_provider t) (tr_regions t) (table s) a = Inr (r, tbl)"
      using Inr q by (simp add: enqueue_account_def)
    moreover have "queue_next (new_id a) t s = (?t, s\<lparr>table := tbl\<rparr>)"
      using Inr q Cons.prems by (simp add: queue_next_def)
    ultimately show ?thesis
      using Cons.IH [of ?t "s\<lparr>table := tbl\<rparr>"] by (cases r) simp_all
  qed
qed simp

subsection \<open>Properties\<close>

text \<open>C3: the server is the scheduler with the ingestion handler. Whatever requests, workers and reaper do and
  however they interleave, the job system in a reachable server is a reachable state of the scheduler; every job is
  that of an account of twelve digits, with a payload the handler accepts, and no account has two jobs in flight. A
  job is tried three times at most, and once without a reaper; and the only errors a job is ever recorded
  with are a panic of its handler and a stale heartbeat.\<close>

theorem server_refines_scheduler:
  assumes "served reaping sv"
  shows "reachable server_config (\<lambda>e. reaping \<or> no_reaping e) (sv_jobs sv) \<and>
    list_all (\<lambda>row. ingest_row row \<and> attempts row \<le> (if reaping then 3 else 1) \<and>
      last_error row \<in> {None, Some ''handler panicked''} \<union> (if reaping then {Some ''stale heartbeat''} else {}))
      (table (sv_jobs sv)) \<and>
    length (filter (\<lambda>row. active_row row \<and> job_type row = ''account_ingest'' \<and> dedup_key row = Some acct)
      (table (sv_jobs sv))) \<le> 1"
proof -
  have ok: "server_ok reaping sv" using served_ok [OF assms] .
  then have tbl: "table_ok (table (sv_jobs sv))" by (auto simp: server_ok_def intro: reachable_table_ok)
  have "attempts row \<le> 3" if "row \<in> set (table (sv_jobs sv))" "ingest_row row" for row
    using tbl that by (auto simp: table_ok_def list_all_iff valid_row_def ingest_row_def)
  then show ?thesis
    using ok tbl distinct_count_list_le [of "active_keys (table (sv_jobs sv))" "(''account_ingest'', acct)"]
    by (auto simp: server_ok_def server_row_def server_failures_def failed_with_def ran_once_def list_all_iff
        active_count table_ok_def split: if_splits)
qed

definition served_row :: "job_row" where
  "served_row = queued_row (\<lambda>_. 0) (\<lambda>_. 1) ''aws'' [] ''123456789012''"

definition served_jobs :: "job_row list \<Rightarrow> (string \<Rightarrow> uuid option) \<Rightarrow> string list \<Rightarrow> uuid list \<Rightarrow> server" where
  "served_jobs rows held left_accounts ids =
     \<lparr>sv_jobs = \<lparr>table = rows, clock = 0, working = held, stale_ids = []\<rparr>, sv_written = [],
      sv_triggers = [\<lparr>tr_provider = ''aws'', tr_regions = [], tr_left = left_accounts, tr_ids = ids\<rparr>]\<rparr>"

lemma served_run:
  "exec_action (Trigger None ''aws'' [] (Some [''123456789012''])) (init_server 0) =
     Some (served_jobs [] (\<lambda>_. None) [''123456789012''] [])"
  "exec_action (QueueNext 0 1) (served_jobs [] (\<lambda>_. None) [''123456789012''] []) =
     Some (served_jobs [served_row] (\<lambda>_. None) [] [1])"
  "exec_action (Work (Claim ''A'' [])) (served_jobs [served_row] (\<lambda>_. None) [] [1]) =
     Some (served_jobs [claim_update 0 ''A'' served_row] [''A'' \<mapsto> 1] [] [1])"
  "exec_action (Work (Finish ''A'' 0 (Some Panicked))) (served_jobs [claim_update 0 ''A'' served_row] [''A'' \<mapsto> 1] [] [1]) =
     Some (served_jobs [fail_update 0 (backoff_us 2 0 1) ''handler panicked'' False (claim_update 0 ''A'' served_row)]
       Map.empty [] [1])"
proof -
  have valid: "validate_requested_account ''123456789012'' = Inr ()" by code_simp
  show "exec_action (Trigger None ''aws'' [] (Some [''123456789012''])) (init_server 0) =
     Some (served_jobs [] (\<lambda>_. None) [''123456789012''] [])"
    by (simp add: requested_accounts_def valid served_jobs_def init_server_def init_system_def)
  show "exec_action (QueueNext 0 1) (served_jobs [] (\<lambda>_. None) [''123456789012''] []) =
     Some (served_jobs [served_row] (\<lambda>_. None) [] [1])"
    by (simp add: served_jobs_def queue_next_def enqueue_account_def enqueue_def dedup_conflict_def served_row_def
        queued_row_def)
  show "exec_action (Work (Claim ''A'' [])) (served_jobs [served_row] (\<lambda>_. None) [] [1]) =
     Some (served_jobs [claim_update 0 ''A'' served_row] [''A'' \<mapsto> 1] [] [1])"
    by (simp add: served_jobs_def is_enqueue_def claim_def claimable_def server_config_def served_row_def queued_row_def
        claim_update_def i32_max_def parse_job_row_def job_status_from_sql_str_def update_where_def)
  show "exec_action (Work (Finish ''A'' 0 (Some Panicked))) (served_jobs [claim_update 0 ''A'' served_row] [''A'' \<mapsto> 1] [] [1]) =
     Some (served_jobs [fail_update 0 (backoff_us 2 0 1) ''handler panicked'' False (claim_update 0 ''A'' served_row)]
       Map.empty [] [1])"
    by (simp add: served_jobs_def is_enqueue_def finish_job_def fail_def server_config_def served_row_def queued_row_def
        claim_update_def fail_update_def parse_job_row_def job_status_from_sql_str_def update_where_def)
qed

theorem server_refines_scheduler_witness:
  "\<exists>sv. served False sv \<and> map last_error (table (sv_jobs sv)) = [Some ''handler panicked''] \<and>
     reachable server_config no_reaping (sv_jobs sv)"
proof -
  let ?claimed = "served_jobs [claim_update 0 ''A'' served_row] [''A'' \<mapsto> 1] [] [1]"
  have "served False ?claimed"
    by (rule served_step [OF served_step [OF served_step [OF served_init _ served_run(1)] _ served_run(2)] _ served_run(3)])
       (simp_all add: enabled_def no_reaping_def)
  moreover have "enabled False ?claimed (Work (Finish ''A'' 0 (Some Panicked)))"
    by (simp add: enabled_def dispatched_def served_jobs_def served_row_def queued_row_def claim_update_def
        server_config_def outcome_of_def)
  ultimately have s: "served False (served_jobs [fail_update 0 (backoff_us 2 0 1) ''handler panicked'' False
      (claim_update 0 ''A'' served_row)] Map.empty [] [1])" (is "served False ?sv")
    using served_run(4) by (rule served_step)
  moreover have "map last_error (table (sv_jobs ?sv)) = [Some ''handler panicked'']"
    by (simp add: served_jobs_def fail_update_def)
  ultimately show ?thesis using server_refines_scheduler [OF s] by auto
qed

end
