(* ===== verification/Spec2Isabelle.thy ===== *)
theory Spec2Isabelle
  imports Prelude Json Policy_Types Matchers Policy_Parser Rust_Net Conditions Policy_Evaluators
    Effective_Permissions Dangerous_Actions Resource_Policy Federation Abac Job_Store Scheduler
    Labels Arn Properties Query_Builder Graph_Loader Graph_Client Policy_Drift Cloudtrail
    Risk_Rules Risk_Scoring Risk_Batch Risk_Catalog Job_Lifecycle Scheduler_Loops
    Ingest_Policies Ingest_Enrichers Ingest_Permissions Ingest_Services Ingest_Fetch Ingest_Relationships
    Ingest_Account Graph_Queries Gql_Types Gql_Traversal Gql_Policy_Risks Graph_Adapters Gql_Risk Gql_Ingest Gql_Server
begin

section \<open>The activable.cloud access analysis\<close>

text \<open>
  A model of the Rust workspace under \<open>src/crates\<close>, which ingests the IAM configuration of AWS accounts into a
  graph, decides what each principal may do, finds the ways privileges can be escalated, and scores the risk.
  Each theory follows the files it names, function by function, under the names of the code; \<open>PROJECT.json\<close>
  maps every definition to its lines.

  \<^bold>\<open>Policies\<close> (\<open>activable-iam-engine\<close>).
  \<open>Json\<close> is the value type of \<open>serde_json\<close>. \<open>Policy_Types\<close> holds \<open>types.rs\<close> and \<open>eval_context.rs\<close>;
  \<open>Policy_Parser\<close> the identity policy parser with its error type: it accepts exactly the documents of the
  policy shape, reports the first bad statement with its index, and reads back what it is written as.
  \<open>Matchers\<close> holds the two wildcard matchers, whose index recursion is shown to terminate, never to panic and to
  decide the glob language; the locale \<open>matcher\<close> states what the evaluators rely on. \<open>Rust_Net\<close> and \<open>Conditions\<close>
  evaluate the condition operators, IP addresses included. \<open>Policy_Evaluators\<close> holds the deny engine and the three
  guardrails (service control policies, permission boundaries, session policies); \<open>Effective_Permissions\<close> composes
  them into the sorted set of permissions a principal has, with the requests a pattern stands for.
  \<open>Resource_Policy\<close>, \<open>Federation\<close> and \<open>Abac\<close> analyse resource policies, federation trusts and tag conditions.
  \<open>Dangerous_Actions\<close> detects the registered dangerous actions and derives escalation edges.
  \<open>Policy_Drift\<close> compares versions of a policy; \<open>Cloudtrail\<close> parses audit events and detects escalation attempts.

  \<^bold>\<open>Jobs\<close> (\<open>activable-scheduler\<close>).
  \<open>Job_Store\<close> models the table of jobs: each SQL statement of \<open>store.rs\<close> is one atomic function on the list of rows.
  \<open>Scheduler\<close> is the step relation of workers and reaper over it: any interleaving of statements is a run,
  \<open>reachable\<close> states satisfy the table's invariant, attempts are bounded, and the lemmas say when one job can be
  held by two workers. \<open>Scheduler_Loops\<close> holds the builder, the worker pool and the loops of worker and reaper, each
  of which is shown to be a run of events; \<open>Job_Lifecycle\<close> is the abstract specification, the life of a job as a small
  state machine, which the job system refines.

  \<^bold>\<open>Graph\<close> (\<open>activable-schema\<close>, \<open>activable-graph\<close>).
  \<open>Labels\<close> and \<open>Arn\<close> hold the node and edge labels, the edge constraints and the canonical ARNs; \<open>Properties\<close> the
  property records and their encoding, with one locale \<open>agtype_codec\<close> interpreted for each of the nine encoded types.
  \<open>Query_Builder\<close> builds the Cypher queries, \<open>Graph_Loader\<close> the statements that load nodes and edges, as a program
  over a server that answers each statement after those sent before it; \<open>Graph_Client\<close> parses what comes back, and
  \<open>Graph_Queries\<close> composes building, sending and parsing into the methods of the client, over a record \<open>pg\<close> of what a
  connection, the session setup and each query answer.

  \<^bold>\<open>Risk\<close> (\<open>activable-risk\<close>).
  \<open>Risk_Rules\<close> parses escalation rules and matches their requirement trees; \<open>Risk_Scoring\<close> holds configuration,
  signals and scores; \<open>Risk_Batch\<close> the scoring of all principals and the iterative run, over a graph service whose
  answers may depend on what has been written. \<open>Risk_Catalog\<close> compares versions of the service catalogue and fuzzes
  the rules.

  \<^bold>\<open>Ingestion\<close> (\<open>activable-ingest\<close>).
  \<open>Ingest_Policies\<close> reads resource policies into access edges with their principal nodes; \<open>Ingest_Enrichers\<close> holds the
  IAM and KMS enrichers, \<open>Ingest_Permissions\<close> the permissions that are materialised for each principal,
  \<open>Ingest_Services\<close> the EC2, S3, Secrets Manager and Lambda enrichers. \<open>Ingest_Fetch\<close> lists resources through the Cloud
  Control API, whose loop is a \<open>partial_function\<close> that is shown to return when the tokens end, or through the native
  fallbacks. \<open>Ingest_Relationships\<close> joins nodes by rules. \<open>Ingest_Account\<close> composes them into the run for one account
  and the job handler around it; the concurrent tasks of a run write through transactions of their own and are run
  one after the other in any order.

  \<^bold>\<open>The server\<close> (\<open>activable-graphql\<close>).
  \<open>Gql_Types\<close> holds the answer types and the mapping of errors; \<open>Gql_Traversal\<close> the resolvers that walk the graph;
  \<open>Gql_Policy_Risks\<close> those for bucket policies, keys and OIDC providers; \<open>Graph_Adapters\<close> the two implementations of
  the graph service that scoring uses, with the locale \<open>assessment_store\<close> for what a cache promises; \<open>Gql_Risk\<close> the
  risk scores, findings and account signals; \<open>Gql_Ingest\<close> the trigger that queues jobs and the queries over the job
  table. \<open>Gql_Server\<close> is the schema, the start-up and the request handler, and the whole process as a system:
  requests, the statements of triggers, workers and reaper interleave. The locale \<open>job_rows\<close> is what a property of
  rows has to satisfy to be kept by the job system; its interpretations give that the server is a run of the
  scheduler in which every job is an account's job that the ingestion handler accepts.

  \<^bold>\<open>Modelling decisions.\<close>
  Strings are byte lists, so \<open>to_lowercase\<close> and character classes are those of ASCII; a message that holds a dash or
  an arrow holds its UTF-8 bytes. Machine integers are words of their width where they are compared or wrap (ports,
  tiers, counts cast to 32 bits), natural numbers where they only count. Scores, \<open>f64\<close> in the code, are exact
  rationals or reals: rounding is not modelled, and infinities and NaN are written out where the code lets them
  through. The order in which a hash map is traversed is a parameter that may be any permutation. A read out of range
  is the value \<open>None\<close>. Loops over lists are structural recursion; the two index recursions (\<open>match_recursive\<close>,
  \<open>chunks\<close>) carry their termination proofs, and the bounded loops of the iterative scorer recurse on their bound, so no
  definition needs fuel.

  \<^bold>\<open>Parameters.\<close>
  The parsers and printers of \<open>serde_json\<close> and \<open>serde_yaml\<close> and the texts of their errors, the CIDR parser, the
  regular file system, the database server and the graph service are parameters. A hypothesis on one of them states
  documented behaviour: that a printed value parses back, that the server answers the transaction statements, that a
  string literal ends at its first quote that is not escaped.

  \<^bold>\<open>Not modelled.\<close>
  Connection pools, timers, logging, tracing, signals and HTTP routing are input and output only; the execution of a
  query text is the GraphQL library's. The calls to AWS that only forward their answers, two telemetry types that
  nothing uses, build files, tests, benchmarks and deployment files have no state of their own.
\<close>

end
